(* ===== verification/TiggePrelude.thy ===== *)
theory TiggePrelude
  imports Complex_Main "HOL-Library.Word"
begin

text \<open>
  Shared vocabulary of the development: how a C procedure is represented, the loops over
  arrays, and C's integer division.

  A procedure is a function from the state to an outcome and the new state. The outcome is
  \<open>Ok\<close> with the returned value, \<open>Exit\<close> with the code the process passed to
  \<open>exit()\<close> (all that was written before stays in the state), \<open>Crash\<close> where the C
  program has undefined behaviour (a NULL pointer followed, an array read out of range), or
  \<open>Stuck\<close> where a loop used up the fuel that was given to it.
\<close>

named_theorems run_simps "symbolic execution of procedures"

datatype 'a outcome = Ok 'a | Exit int | Crash | Stuck

type_synonym ('s, 'a) prog = "'s \<Rightarrow> 'a outcome \<times> 's"

type_synonym byte = "8 word"

subsection \<open>Sequencing\<close>

definition ret :: "'a \<Rightarrow> ('s, 'a) prog" where
  "ret x s = (Ok x, s)"

definition exit_with :: "int \<Rightarrow> ('s, 'a) prog" where
  "exit_with c s = (Exit c, s)"

definition crash :: "('s, 'a) prog" where
  "crash s = (Crash, s)"

definition stuck :: "('s, 'a) prog" where
  "stuck s = (Stuck, s)"

text \<open>Go on with the result of a procedure that returned; stop where it did not return.\<close>

fun continue :: "'a outcome \<times> 's \<Rightarrow> ('a \<Rightarrow> ('s, 'b) prog) \<Rightarrow> 'b outcome \<times> 's" where
  "continue (Ok x, s) f = f x s"
| "continue (Exit c, s) f = (Exit c, s)"
| "continue (Crash, s) f = (Crash, s)"
| "continue (Stuck, s) f = (Stuck, s)"

definition bnd :: "('s, 'a) prog \<Rightarrow> ('a \<Rightarrow> ('s, 'b) prog) \<Rightarrow> ('s, 'b) prog" where
  "bnd m f s = continue (m s) f"

definition seq :: "('s, 'a) prog \<Rightarrow> ('s, 'b) prog \<Rightarrow> ('s, 'b) prog" where
  "seq m n s = continue (m s) (\<lambda>_. n)"

definition rd :: "('s \<Rightarrow> 'a) \<Rightarrow> ('s, 'a) prog" where
  "rd f s = (Ok (f s), s)"

definition upd :: "('s \<Rightarrow> 's) \<Rightarrow> ('s, unit) prog" where
  "upd f s = (Ok (), f s)"

text \<open>\<open>if(c) { m }\<close> without an \<open>else\<close>.\<close>

definition only_if :: "bool \<Rightarrow> ('s, unit) prog \<Rightarrow> ('s, unit) prog" where
  "only_if c m = (if c then m else ret ())"

lemma ret_run [run_simps]: "ret x s = (Ok x, s)"
  by (simp add: ret_def)

lemma exit_with_run [run_simps]: "exit_with c s = (Exit c, s)"
  by (simp add: exit_with_def)

lemma crash_run [run_simps]: "crash s = (Crash, s)"
  by (simp add: crash_def)

lemma stuck_run [run_simps]: "stuck s = (Stuck, s)"
  by (simp add: stuck_def)

lemma rd_run [run_simps]: "rd f s = (Ok (f s), s)"
  by (simp add: rd_def)

lemma upd_run [run_simps]: "upd f s = (Ok (), f s)"
  by (simp add: upd_def)

lemma bnd_run [run_simps]: "bnd m f s = continue (m s) f"
  by (simp add: bnd_def)

lemma seq_run [run_simps]: "seq m n s = continue (m s) (\<lambda>_. n)"
  by (simp add: seq_def)

lemma only_if_True [run_simps]: "only_if True m = m"
  by (simp add: only_if_def)

lemma only_if_False [run_simps]: "only_if False m s = (Ok (), s)"
  by (simp add: only_if_def ret_def)

lemma bnd_OkE:
  assumes "bnd m f s = (Ok y, t)"
  obtains x s' where "m s = (Ok x, s')" "f x s' = (Ok y, t)"
  using assms by (cases "(m s, f)" rule: continue.cases) (auto simp: bnd_def)

lemma continue_Crash: "fst r = Crash \<Longrightarrow> fst (continue r f) = Crash"
  by (cases r) simp

lemma continue_assoc: "continue (continue r f) g = continue r (\<lambda>x. bnd (f x) g)"
  by (cases "(r, f)" rule: continue.cases) (simp_all add: bnd_def)

lemma ret_bnd: "bnd (ret x) f = f x"
  by (rule ext) (simp add: run_simps)

lemma bnd_assoc: "bnd (bnd m f) g = bnd m (\<lambda>x. bnd (f x) g)"
  by (rule ext) (simp add: bnd_def continue_assoc)

subsection \<open>Loops\<close>

text \<open>A \<open>for\<close> loop over the list of values its counter takes.\<close>

primrec for_each :: "'x list \<Rightarrow> ('x \<Rightarrow> 'a \<Rightarrow> ('s, 'a) prog) \<Rightarrow> 'a \<Rightarrow> ('s, 'a) prog" where
  "for_each [] body a = ret a"
| "for_each (x # xs) body a = bnd (body x a) (for_each xs body)"

lemma for_each_append:
  "for_each (xs @ ys) body a = bnd (for_each xs body a) (for_each ys body)"
proof (induction xs arbitrary: a)
  case Nil
  show ?case by (rule ext) (simp add: bnd_def ret_def)
next
  case (Cons x xs)
  have "for_each (xs @ ys) body = (\<lambda>a. bnd (for_each xs body a) (for_each ys body))"
    by (rule ext) (rule Cons.IH)
  then show ?case by (simp add: bnd_assoc)
qed

text \<open>
  The rule for a counted loop whose iterations all succeed: an invariant that relates the
  number of iterations done to the accumulator and the state.
\<close>

lemma for_each_upt_inv:
  assumes start: "I 0 a s"
    and step: "\<And>k a s. k < n \<Longrightarrow> I k a s \<Longrightarrow>
      \<exists>a' s'. body (g k) a s = (Ok a', s') \<and> I (Suc k) a' s'"
  shows "\<exists>a' s'. for_each (map g [0..<n]) body a s = (Ok a', s') \<and> I n a' s'"
proof -
  have "k \<le> n \<Longrightarrow> \<exists>a' s'. for_each (map g [0..<k]) body a s = (Ok a', s') \<and> I k a' s'" for k
  proof (induction k)
    case 0
    show ?case using start by (simp add: ret_def)
  next
    case (Suc k)
    then obtain a1 s1 where 1: "for_each (map g [0..<k]) body a s = (Ok a1, s1)" "I k a1 s1"
      by auto
    then obtain a2 s2 where 2: "body (g k) a1 s1 = (Ok a2, s2)" "I (Suc k) a2 s2"
      using step Suc.prems by (metis Suc_le_eq)
    have "for_each (map g [0..<Suc k]) body a s = (Ok a2, s2)"
      using 1(1) 2(1) by (simp add: for_each_append bnd_def ret_def)
    with 2(2) show ?case by blast
  qed
  then show ?thesis by blast
qed

text \<open>Reading one cell of an array; out of range is undefined behaviour.\<close>

definition cell :: "'a list \<Rightarrow> nat \<Rightarrow> ('s, 'a) prog" where
  "cell xs i = (if i < length xs then ret (xs ! i) else crash)"

text \<open>\<open>for(i = 0; i < n; i++) out[i] = body(i)\<close>, with the computed cells as result.\<close>

primrec collect :: "nat list \<Rightarrow> (nat \<Rightarrow> ('s, 'a) prog) \<Rightarrow> ('s, 'a list) prog" where
  "collect [] body = ret []"
| "collect (i # js) body = bnd (body i) (\<lambda>x. bnd (collect js body) (\<lambda>xs. ret (x # xs)))"

definition cells :: "nat \<Rightarrow> (nat \<Rightarrow> ('s, 'a) prog) \<Rightarrow> ('s, 'a list) prog" where
  "cells n body = collect [0..<n] body"

lemma cell_run [run_simps]: "i < length xs \<Longrightarrow> cell xs i s = (Ok (xs ! i), s)"
  by (simp add: cell_def ret_def)

lemma cell_out [run_simps]: "length xs \<le> i \<Longrightarrow> cell xs i s = (Crash, s)"
  by (simp add: cell_def crash_def)

lemma collect_run:
  "(\<And>i. i \<in> set js \<Longrightarrow> body i s = (Ok (g i), s)) \<Longrightarrow> collect js body s = (Ok (map g js), s)"
  by (induction js) (simp_all add: bnd_def ret_def)

lemma cells_run:
  "(\<And>i. i < n \<Longrightarrow> body i s = (Ok (g i), s)) \<Longrightarrow> cells n body s = (Ok (map g [0..<n]), s)"
  unfolding cells_def by (rule collect_run) simp

lemma collect_crash:
  assumes "\<And>i. i \<in> set js \<Longrightarrow> body i s = (Ok (g i), s) \<or> body i s = (Crash, s)"
    and "\<exists>i \<in> set js. body i s = (Crash, s)"
  shows "collect js body s = (Crash, s)"
  using assms
proof (induction js)
  case Nil
  then show ?case by simp
next
  case (Cons i js)
  show ?case
  proof (cases "body i s = (Crash, s)")
    case True
    then show ?thesis by (simp add: bnd_def)
  next
    case False
    with Cons.prems have i: "body i s = (Ok (g i), s)" and "\<exists>j \<in> set js. body j s = (Crash, s)"
      by auto
    with Cons.IH Cons.prems(1) have "collect js body s = (Crash, s)" by simp
    with i show ?thesis by (simp add: bnd_def)
  qed
qed

subsection \<open>C integer division\<close>

text \<open>C truncates towards zero; Isabelle's \<open>div\<close> rounds down.\<close>

definition cdiv :: "int \<Rightarrow> int \<Rightarrow> int" where
  "cdiv a b = sgn a * sgn b * (\<bar>a\<bar> div \<bar>b\<bar>)"

lemma cdiv_pos [simp]: "0 \<le> a \<Longrightarrow> 0 < b \<Longrightarrow> cdiv a b = a div b"
  by (cases "a = 0") (simp_all add: cdiv_def)

lemma cdiv_exact_iff: "0 < b \<Longrightarrow> cdiv y b * b - y = 0 \<longleftrightarrow> b dvd y"
proof (cases "0 \<le> y")
  case True
  assume "0 < b"
  with True show ?thesis
    by (simp add: dvd_eq_mod_eq_0) (metis div_mult_mod_eq add_cancel_right_right)
next
  case False
  assume b: "0 < b"
  from False b have "cdiv y b * b - y = (- y) mod b"
    by (simp add: cdiv_def) (metis minus_mult_div_eq_mod mult.commute uminus_add_conv_diff
        add.commute minus_mult_left)
  then show ?thesis by (simp add: dvd_eq_mod_eq_0 [symmetric])
qed

lemma cdiv_mult_eq_iff: "0 < b \<Longrightarrow> cdiv y b * b = y \<longleftrightarrow> b dvd y"
  using cdiv_exact_iff [of b y] by simp

definition cmod :: "int \<Rightarrow> int \<Rightarrow> int" where
  "cmod a b = a - cdiv a b * b"

lemma cmod_pos: "0 \<le> a \<Longrightarrow> 0 < b \<Longrightarrow> cmod a b = a mod b"
  by (simp add: cmod_def minus_div_mult_eq_mod)

text \<open>Twelve integers in a row, as the months are.\<close>

lemma one_of_twelve: "(a::int) \<le> i \<Longrightarrow> i \<le> a + 11 \<Longrightarrow> i = a \<or> i = a + 1 \<or> i = a + 2 \<or> i = a + 3 \<or> i = a + 4 \<or> i = a + 5 \<or>
    i = a + 6 \<or> i = a + 7 \<or> i = a + 8 \<or> i = a + 9 \<or> i = a + 10 \<or> i = a + 11"
  by arith

end
