(* ===== verification/CDouble.thy ===== *)
theory CDouble
  imports TiggePrelude "HOL-Library.Log_Nat"
begin

text \<open>
  C's \<open>double\<close> as IEEE binary64 with rounding to nearest, ties to even. A finite value is
  kept as the rational number it denotes, so every operation is the exact rational operation
  followed by \<open>rnd\<close>; the two zeros, the infinities and NaN are separate constructors.
  The lemmas say when rounding is exact (multiples of a power of two that need at most 53
  bits), which is what the running sums of the generators rest on.
\<close>

datatype cdouble =
    NaN
  | Infin bool     \<comment> \<open>True for minus infinity\<close>
  | MZero        \<comment> \<open>minus zero\<close>
  | Fin rat      \<comment> \<open>every other finite value, plus zero included\<close>

subsection \<open>Rounding\<close>

text \<open>The exponent of the leading bit: \<open>2 powi ilog2 x \<le> \<bar>x\<bar> < 2 powi (ilog2 x + 1)\<close>.\<close>

definition ilog2 :: "rat \<Rightarrow> int" where
  "ilog2 x = (let (n, d) = quotient_of \<bar>x\<bar>; k = bitlen n - bitlen d
     in if 2 powi k \<le> \<bar>x\<bar> then k else k - 1)"

text \<open>Weight of the last of the 53 significant bits, at least the subnormal step.\<close>

definition ulp_exp :: "rat \<Rightarrow> int" where
  "ulp_exp x = max (- 1074) (ilog2 x - 52)"

definition round_even :: "rat \<Rightarrow> int" where
  "round_even x = (let f = \<lfloor>x\<rfloor>; r = x - of_int f
     in if r < 1 / 2 then f else if 1 / 2 < r then f + 1 else if even f then f else f + 1)"

definition rnd :: "rat \<Rightarrow> cdouble" where
  "rnd x = (if x = 0 then Fin 0
     else let e = ulp_exp x; y = of_int (round_even (x / 2 powi e)) * 2 powi e
       in if 2 ^ 1024 \<le> \<bar>y\<bar> then Infin (x < 0)
          else if y = 0 \<and> x < 0 then MZero else Fin y)"

subsection \<open>Arithmetic and comparison\<close>

fun dval :: "cdouble \<Rightarrow> rat" where
  "dval (Fin r) = r"
| "dval _ = 0"

fun dneg_sign :: "cdouble \<Rightarrow> bool" where
  "dneg_sign (Fin r) = (r < 0)"
| "dneg_sign (Infin b) = b"
| "dneg_sign MZero = True"
| "dneg_sign NaN = False"

definition dzero :: "bool \<Rightarrow> cdouble" where
  "dzero neg = (if neg then MZero else Fin 0)"

fun dadd :: "cdouble \<Rightarrow> cdouble \<Rightarrow> cdouble" where
  "dadd NaN _ = NaN"
| "dadd _ NaN = NaN"
| "dadd (Infin a) (Infin b) = (if a = b then Infin a else NaN)"
| "dadd (Infin a) _ = Infin a"
| "dadd _ (Infin b) = Infin b"
| "dadd MZero MZero = MZero"
| "dadd x y = rnd (dval x + dval y)"

fun dneg :: "cdouble \<Rightarrow> cdouble" where
  "dneg NaN = NaN"
| "dneg (Infin b) = Infin (\<not> b)"
| "dneg MZero = Fin 0"
| "dneg (Fin r) = (if r = 0 then MZero else Fin (- r))"

definition dsub :: "cdouble \<Rightarrow> cdouble \<Rightarrow> cdouble" where
  "dsub x y = dadd x (dneg y)"

definition dmul :: "cdouble \<Rightarrow> cdouble \<Rightarrow> cdouble" where
  "dmul x y = (let neg = (dneg_sign x \<noteq> dneg_sign y) in
     case (x, y) of
       (NaN, _) \<Rightarrow> NaN
     | (_, NaN) \<Rightarrow> NaN
     | (Infin _, Infin _) \<Rightarrow> Infin neg
     | (Infin _, _) \<Rightarrow> if dval y = 0 then NaN else Infin neg
     | (_, Infin _) \<Rightarrow> if dval x = 0 then NaN else Infin neg
     | _ \<Rightarrow> if dval x * dval y = 0 then dzero neg else rnd (dval x * dval y))"

definition ddiv :: "cdouble \<Rightarrow> cdouble \<Rightarrow> cdouble" where
  "ddiv x y = (let neg = (dneg_sign x \<noteq> dneg_sign y) in
     case (x, y) of
       (NaN, _) \<Rightarrow> NaN
     | (_, NaN) \<Rightarrow> NaN
     | (Infin _, Infin _) \<Rightarrow> NaN
     | (Infin _, _) \<Rightarrow> Infin neg
     | (_, Infin _) \<Rightarrow> dzero neg
     | _ \<Rightarrow> if dval y = 0 then (if dval x = 0 then NaN else Infin neg)
           else if dval x = 0 then dzero neg else rnd (dval x / dval y))"

text \<open>C's \<open>==\<close> on doubles: NaN differs from everything, the zeros are equal.\<close>

fun deq :: "cdouble \<Rightarrow> cdouble \<Rightarrow> bool" where
  "deq NaN _ = False"
| "deq _ NaN = False"
| "deq (Infin a) (Infin b) = (a = b)"
| "deq (Infin _) _ = False"
| "deq _ (Infin _) = False"
| "deq x y = (dval x = dval y)"

text \<open>A decimal literal, and the conversion of an integer.\<close>

definition dlit :: "rat \<Rightarrow> cdouble" where
  "dlit r = rnd r"

subsection \<open>Rounding is exact on short binary fractions\<close>

lemma bitlen_bounds_rat:
  assumes "0 < (n::int)"
  shows "(2::rat) powi (bitlen n - 1) \<le> of_int n" "of_int n < (2::rat) powi bitlen n"
proof -
  have b: "2 ^ nat (bitlen n - 1) \<le> n \<and> n < 2 ^ nat (bitlen n)"
    using bitlen_bounds [OF assms] by simp
  have pos: "0 < bitlen n"
    using assms bitlen_nonneg [of n] by (simp add: order_less_le bitlen_eq_zero_iff)
  from b have "(of_int (2 ^ nat (bitlen n - 1)) :: rat) \<le> of_int n" by (simp only: of_int_le_iff)
  then show "(2::rat) powi (bitlen n - 1) \<le> of_int n" using pos by (simp add: power_int_def)
  from b have "(of_int n :: rat) < of_int (2 ^ nat (bitlen n))" by (simp only: of_int_less_iff)
  then show "of_int n < (2::rat) powi bitlen n" using pos by (simp add: power_int_def)
qed

lemma ilog2_bounds:
  assumes "x \<noteq> 0"
  shows "2 powi ilog2 x \<le> \<bar>x\<bar>" "\<bar>x\<bar> < 2 powi (ilog2 x + 1)"
proof -
  obtain n d where q: "quotient_of \<bar>x\<bar> = (n, d)" by fastforce
  then have d: "0 < d" and x: "\<bar>x\<bar> = of_int n / of_int d"
    by (simp_all add: quotient_of_denom_pos quotient_of_div)
  have "0 < (of_int n :: rat)"
    using assms x d by (metis of_int_0_less_iff zero_less_abs_iff zero_less_divide_iff less_asym)
  then have n: "0 < n" by simp
  define k where "k = bitlen n - bitlen d"
  have "of_int n / of_int d < (2::rat) powi bitlen n / 2 powi (bitlen d - 1)"
    using bitlen_bounds_rat [OF n] bitlen_bounds_rat [OF d] n d by (intro frac_less) auto
  also have "\<dots> = 2 powi (k + 1)" by (simp add: k_def power_int_diff [symmetric] algebra_simps)
  finally have up: "\<bar>x\<bar> < 2 powi (k + 1)" using x by simp
  have "(2::rat) powi (k - 1) = 2 powi (bitlen n - 1) / 2 powi bitlen d"
    by (simp add: k_def power_int_diff [symmetric] algebra_simps)
  also have "\<dots> < of_int n / of_int d"
    using bitlen_bounds_rat [OF n] bitlen_bounds_rat [OF d] n d by (intro frac_less2) auto
  finally have lo: "2 powi (k - 1) < \<bar>x\<bar>" using x by simp
  have i: "ilog2 x = (if 2 powi k \<le> \<bar>x\<bar> then k else k - 1)"
    by (simp add: ilog2_def q k_def)
  show "2 powi ilog2 x \<le> \<bar>x\<bar>" "\<bar>x\<bar> < 2 powi (ilog2 x + 1)"
    using i up lo by (auto split: if_splits)
qed

lemma ilog2_less:
  assumes "x \<noteq> 0" "\<bar>x\<bar> < 2 powi e" shows "ilog2 x < e"
proof (rule ccontr)
  assume "\<not> ilog2 x < e"
  then have "(2::rat) powi e \<le> 2 powi ilog2 x" by (intro power_int_increasing) auto
  with ilog2_bounds(1) [OF assms(1)] assms(2) show False by simp
qed

lemma round_even_int [simp]: "round_even (of_int m) = m"
  by (simp add: round_even_def)

lemma round_even_numeral [simp]: "round_even (numeral m) = numeral m"
  using round_even_int [of "numeral m"] by simp

text \<open>\<open>short q b x\<close>: \<open>x\<close> is a multiple of \<open>2 powi q\<close> of at most \<open>b\<close> steps.\<close>

definition short :: "int \<Rightarrow> int \<Rightarrow> rat \<Rightarrow> bool" where
  "short q b x \<longleftrightarrow> (\<exists>m. x = of_int m * 2 powi q \<and> \<bar>m\<bar> \<le> b)"

lemma rnd_short:
  assumes s: "short q b x" and b: "b < 2 ^ 53" and q: "- 1074 \<le> q" "q \<le> 970"
  shows "rnd x = Fin x"
proof (cases "x = 0")
  case True
  then show ?thesis by (simp add: rnd_def)
next
  case False
  obtain m where m: "x = of_int m * 2 powi q" "\<bar>m\<bar> \<le> b" using s by (auto simp: short_def)
  have "of_int \<bar>m\<bar> < (of_int (2 ^ 53) :: rat)" using m(2) b by (simp only: of_int_less_iff)
  then have m53: "\<bar>of_int m\<bar> < (2::rat) ^ 53" by simp
  have xb: "\<bar>x\<bar> < 2 powi (q + 53)"
    using m53 by (simp add: m(1) abs_mult power_int_add)
  then have "ilog2 x < q + 53" by (rule ilog2_less [OF False])
  then have e: "ulp_exp x \<le> q" using q by (simp add: ulp_exp_def)
  have "(2::rat) powi q / 2 powi ulp_exp x = 2 powi (q - ulp_exp x)"
    by (simp add: power_int_diff)
  also have "\<dots> = of_int (2 ^ nat (q - ulp_exp x))" using e by (simp add: power_int_def)
  finally have "x / 2 powi ulp_exp x = of_int (m * 2 ^ nat (q - ulp_exp x))"
    by (metis m(1) of_int_mult times_divide_eq_right)
  then have y: "of_int (round_even (x / 2 powi ulp_exp x)) * 2 powi ulp_exp x = x"
    by (metis nonzero_eq_divide_eq power_int_not_zero rel_simps(76) round_even_int)
  have "(2::rat) powi (q + 53) \<le> 2 powi 1024" using q by (intro power_int_increasing) auto
  with xb have "\<bar>x\<bar> < 2 ^ 1024" by (simp add: power_int_def)
  then show ?thesis using False by (simp add: rnd_def y Let_def)
qed

lemma short_0 [simp]: "0 \<le> b \<Longrightarrow> short q b 0"
  unfolding short_def by (intro exI [of _ 0]) simp

lemma short_add: "short q a x \<Longrightarrow> short q b y \<Longrightarrow> short q (a + b) (x + y)"
proof -
  assume "short q a x" "short q b y"
  then obtain m n where mn: "x = of_int m * 2 powi q" "\<bar>m\<bar> \<le> a" "y = of_int n * 2 powi q" "\<bar>n\<bar> \<le> b"
    by (auto simp: short_def)
  then have "x + y = of_int (m + n) * 2 powi q" by (simp add: distrib_right)
  moreover have "\<bar>m + n\<bar> \<le> a + b" using mn by arith
  ultimately show ?thesis unfolding short_def by blast
qed

lemma short_minus: "short q a x \<Longrightarrow> short q a (- x)"
proof -
  assume "short q a x"
  then obtain m where m: "x = of_int m * 2 powi q" "\<bar>m\<bar> \<le> a" by (auto simp: short_def)
  then have "- x = of_int (- m) * 2 powi q" "\<bar>- m\<bar> \<le> a" by simp_all
  then show ?thesis unfolding short_def by blast
qed

lemma short_mult_int: "short q a x \<Longrightarrow> short q (\<bar>c\<bar> * a) (x * of_int c)"
proof -
  assume "short q a x"
  then obtain m where m: "x = of_int m * 2 powi q" "\<bar>m\<bar> \<le> a" by (auto simp: short_def)
  then have "x * of_int c = of_int (c * m) * 2 powi q" by (simp add: ac_simps)
  moreover have "\<bar>c * m\<bar> \<le> \<bar>c\<bar> * a" using m by (simp add: abs_mult mult_left_mono)
  ultimately show ?thesis unfolding short_def by blast
qed

lemma short_mono: "short q a x \<Longrightarrow> a \<le> b \<Longrightarrow> short q b x"
  unfolding short_def by (blast intro: order_trans)

lemma short_of_int: "short 0 \<bar>n\<bar> (of_int n)"
  unfolding short_def by (intro exI [of _ n]) simp

lemma rnd_of_int: "\<bar>n\<bar> < 2 ^ 53 \<Longrightarrow> rnd (of_int n) = Fin (of_int n)"
  by (rule rnd_short [OF short_of_int]) auto

lemma rnd_0 [simp]: "rnd 0 = Fin 0"
  by (simp add: rnd_def)

lemma rnd_1 [simp]: "rnd 1 = Fin 1"
  using rnd_of_int [of 1] by simp

lemma rnd_numeral: "(numeral n :: int) < 2 ^ 53 \<Longrightarrow> rnd (numeral n) = Fin (numeral n)"
  using rnd_of_int [of "numeral n"] by simp

lemma rnd_neg_numeral: "(numeral n :: int) < 2 ^ 53 \<Longrightarrow> rnd (- numeral n) = Fin (- numeral n)"
  using rnd_of_int [of "- numeral n"] by simp

subsection \<open>Exact sums, differences and products\<close>

definition finite_short :: "int \<Rightarrow> int \<Rightarrow> cdouble \<Rightarrow> bool" where
  "finite_short q b x \<longleftrightarrow> (\<exists>r. x = Fin r \<and> short q b r)"

lemma dadd_Fin: "dadd (Fin a) (Fin b) = rnd (a + b)"
  by simp

lemma dadd_commute: "dadd x y = dadd y x"
  by (cases x; cases y) (simp_all add: add.commute)

lemma dadd_exact:
  assumes "finite_short q a x" "finite_short q b y" "a + b < 2 ^ 53" "- 1074 \<le> q" "q \<le> 970"
  shows "dadd x y = Fin (dval x + dval y)" "finite_short q (a + b) (dadd x y)"
proof -
  obtain r t where r: "x = Fin r" "short q a r" and t: "y = Fin t" "short q b t"
    using assms by (auto simp: finite_short_def)
  have "rnd (r + t) = Fin (r + t)"
    by (rule rnd_short [OF short_add [OF r(2) t(2)]]) (use assms in auto)
  then show "dadd x y = Fin (dval x + dval y)" "finite_short q (a + b) (dadd x y)"
    using r t short_add by (auto simp: finite_short_def)
qed

text \<open>A finite double whose value is the given number; a zero may have either sign.\<close>

definition represents :: "cdouble \<Rightarrow> rat \<Rightarrow> bool" where
  "represents x r \<longleftrightarrow> dval x = r \<and> x \<noteq> NaN \<and> (\<forall>b. x \<noteq> Infin b)"

lemma dmul_int_exact:
  assumes "finite_short q a x" "\<bar>c\<bar> * a < 2 ^ 53" "- 1074 \<le> q" "q \<le> 970" "c \<noteq> 0"
  shows "represents (dmul x (Fin (of_int c))) (dval x * of_int c)"
proof -
  obtain r where r: "x = Fin r" "short q a r" using assms by (auto simp: finite_short_def)
  have "rnd (r * of_int c) = Fin (r * of_int c)"
    by (rule rnd_short [OF short_mult_int [OF r(2)]]) (use assms in auto)
  then show ?thesis using r by (simp add: dmul_def dzero_def Let_def represents_def)
qed

lemma dsub_self_zero: "x = Fin r \<Longrightarrow> dval (dsub x x) = 0"
  by (simp add: dsub_def)

subsection \<open>The error of rounding\<close>

lemma round_even_error: "\<bar>of_int (round_even x) - x\<bar> \<le> 1 / 2"
proof -
  have "of_int \<lfloor>x\<rfloor> \<le> x" "x < of_int \<lfloor>x\<rfloor> + 1" by linarith+
  then show ?thesis unfolding round_even_def Let_def abs_if by (auto; linarith)
qed

text \<open>The relative error of rounding, away from underflow and overflow.\<close>

lemma rnd_error:
  assumes "2 powi (- 1022) \<le> \<bar>x\<bar>" "\<bar>x\<bar> < 2 ^ 1023"
  shows "\<exists>y. rnd x = Fin y \<and> \<bar>y - x\<bar> \<le> \<bar>x\<bar> / 2 ^ 52"
proof -
  have x: "x \<noteq> 0" using assms(1) by auto
  have "- 1022 \<le> ilog2 x"
  proof (rule ccontr)
    assume "\<not> - 1022 \<le> ilog2 x"
    then have "(2::rat) powi (ilog2 x + 1) \<le> 2 powi (- 1022)" by (intro power_int_increasing) auto
    with ilog2_bounds(2) [OF x] assms(1) show False by simp
  qed
  then have e: "ulp_exp x = ilog2 x - 52" by (simp add: ulp_exp_def)
  define u where "u = (2::rat) powi ulp_exp x"
  define y where "y = of_int (round_even (x / u)) * u"
  have u: "0 < u" by (simp add: u_def)
  have "u * 2 ^ 52 = 2 powi ilog2 x" by (simp add: u_def e power_int_diff)
  with ilog2_bounds(1) [OF x] have le: "u \<le> \<bar>x\<bar> / 2 ^ 52" by (simp add: field_simps)
  have "\<bar>y - x\<bar> = \<bar>of_int (round_even (x / u)) - x / u\<bar> * u"
  proof -
    have "y - x = (of_int (round_even (x / u)) - x / u) * u" using u by (simp add: y_def left_diff_distrib)
    then show ?thesis using u by (simp add: abs_mult)
  qed
  also have "\<dots> \<le> 1 / 2 * u" using round_even_error u by (intro mult_right_mono) auto
  finally have err: "\<bar>y - x\<bar> \<le> \<bar>x\<bar> / 2 ^ 52" using le u by linarith
  have "\<bar>x\<bar> / 2 ^ 52 < \<bar>x\<bar>" using x by (simp add: field_simps)
  with err have "\<bar>y\<bar> < 2 * \<bar>x\<bar>" "y \<noteq> 0" by linarith+
  with assms(2) have "\<not> 2 ^ 1024 \<le> \<bar>y\<bar>" by simp
  with \<open>y \<noteq> 0\<close> x have "rnd x = Fin y" by (simp add: rnd_def Let_def y_def u_def)
  with err show ?thesis by blast
qed

lemma rnd_half_int: "\<bar>n\<bar> < 2 ^ 53 \<Longrightarrow> rnd (of_int n / 2) = Fin (of_int n / 2)"
  by (rule rnd_short [of "- 1" "\<bar>n\<bar>"]) (auto simp: short_def power_int_def intro!: exI [of _ n])

subsection \<open>Comparing doubles\<close>

fun dless :: "cdouble \<Rightarrow> cdouble \<Rightarrow> bool" where
  "dless NaN _ = False"
| "dless _ NaN = False"
| "dless (Infin a) (Infin b) = (a \<and> \<not> b)"
| "dless (Infin a) _ = a"
| "dless _ (Infin b) = (\<not> b)"
| "dless x y = (dval x < dval y)"

definition dleq :: "cdouble \<Rightarrow> cdouble \<Rightarrow> bool" where
  "dleq x y \<longleftrightarrow> dless x y \<or> deq x y"

fun dabs :: "cdouble \<Rightarrow> cdouble" where
  "dabs NaN = NaN"
| "dabs (Infin b) = Infin False"
| "dabs MZero = Fin 0"
| "dabs (Fin r) = Fin \<bar>r\<bar>"

fun rint :: "cdouble \<Rightarrow> cdouble" where
  "rint (Fin r) = (let n = round_even r in if n = 0 \<and> r < 0 then MZero else Fin (of_int n))"
| "rint x = x"

lemma deq_zero [simp]: "deq (Fin r) (Fin 0) \<longleftrightarrow> r = 0"
  by simp

subsection \<open>Conversion to an integer\<close>

text \<open>The conversion of a \<open>double\<close> to \<open>long\<close> truncates; out of range it is undefined.\<close>

definition to_long :: "cdouble \<Rightarrow> ('s, int) prog" where
  "to_long x = (case x of
       Fin r \<Rightarrow> let n = (if r < 0 then - \<lfloor>- r\<rfloor> else \<lfloor>r\<rfloor>)
         in if - (2 ^ 63) \<le> n \<and> n < 2 ^ 63 then ret n else crash
     | MZero \<Rightarrow> ret 0
     | _ \<Rightarrow> crash)"

end
