(* ===== verification/CText.thy ===== *)
theory CText
  imports TiggePrelude
begin

text \<open>
  The string functions of the standard library the program uses: \<open>sprintf\<close> with
  zero-padded decimal conversions, \<open>strcmp\<close> and \<open>atoi\<close>. A string is the list of
  its characters without the terminating NUL, so it needs \<open>length + 1\<close> bytes.
\<close>

subsection \<open>Zero-padded decimal numbers\<close>

definition digit :: "nat \<Rightarrow> char" where
  "digit n = char_of (48 + n)"

fun dec :: "nat \<Rightarrow> string" where
  "dec n = (if n < 10 then [digit n] else dec (n div 10) @ [digit (n mod 10)])"

declare dec.simps [simp del]

text \<open>The conversion \<open>%0wd\<close>: the sign counts towards the width.\<close>

definition fmt0 :: "nat \<Rightarrow> int \<Rightarrow> string" where
  "fmt0 w i =
     (if i < 0 then ''-'' @ replicate (w - 1 - length (dec (nat (- i)))) (digit 0) @ dec (nat (- i))
      else replicate (w - length (dec (nat i))) (digit 0) @ dec (nat i))"

subsection \<open>strcmp and atoi\<close>

text \<open>\<open>strcmp(a, b) < 0\<close>\<close>

fun strcmp_less :: "string \<Rightarrow> string \<Rightarrow> bool" where
  "strcmp_less [] [] = False"
| "strcmp_less [] (y # ys) = True"
| "strcmp_less (x # xs) [] = False"
| "strcmp_less (x # xs) (y # ys) =
     (if x = y then strcmp_less xs ys else (of_char x :: nat) < of_char y)"

definition isdigit :: "char \<Rightarrow> bool" where
  "isdigit c \<longleftrightarrow> 48 \<le> (of_char c :: nat) \<and> (of_char c :: nat) \<le> 57"

definition isspace :: "char \<Rightarrow> bool" where
  "isspace c \<longleftrightarrow> (of_char c :: nat) = 32 \<or> 9 \<le> (of_char c :: nat) \<and> (of_char c :: nat) \<le> 13"

definition digits_value :: "string \<Rightarrow> int" where
  "digits_value cs = fold (\<lambda>c a. 10 * a + (of_char c - 48)) (takeWhile isdigit cs) 0"

definition atoi :: "string \<Rightarrow> int" where
  "atoi cs = (let cs = dropWhile isspace cs in
     case cs of
       [] \<Rightarrow> 0
     | c # r \<Rightarrow> if c = CHR ''-'' then - digits_value r
               else if c = CHR ''+'' then digits_value r else digits_value cs)"

subsection \<open>Lengths and values\<close>

lemma dec_length_le: "n < 10 ^ k \<Longrightarrow> 0 < k \<Longrightarrow> length (dec n) \<le> k"
proof (induction k arbitrary: n)
  case (Suc k)
  show ?case
  proof (cases "n < 10")
    case True
    then show ?thesis by (simp add: dec.simps [of n])
  next
    case False
    then have "n div 10 < 10 ^ k" "0 < k" using Suc.prems by (auto intro: gr0I)
    with Suc.IH False show ?thesis by (simp add: dec.simps [of n])
  qed
qed simp

lemma fmt0_length:
  assumes "0 \<le> i" "i < 10 ^ w" "0 < w" shows "length (fmt0 w i) = w"
proof -
  have "nat i < 10 ^ w" using assms by (simp add: nat_less_iff)
  then show ?thesis using dec_length_le [of "nat i" w] assms by (simp add: fmt0_def)
qed

lemma fmt0_length_neg:
  assumes "i < 0" "- i < 10 ^ (w - 1)" "1 < w" shows "length (fmt0 w i) = w"
proof -
  have "nat (- i) < 10 ^ (w - 1)" using assms by (simp add: nat_less_iff)
  then show ?thesis using dec_length_le [of "nat (- i)" "w - 1"] assms by (simp add: fmt0_def)
qed

lemma of_char_digit: "n < 10 \<Longrightarrow> (of_char (digit n) :: nat) = 48 + n"
  by (simp add: digit_def)

lemma digit_inj: "m < 10 \<Longrightarrow> n < 10 \<Longrightarrow> digit m = digit n \<longleftrightarrow> m = n"
  by (metis add_left_cancel of_char_digit)

text \<open>The value of a digit string, most significant digit first.\<close>

fun dval_of :: "string \<Rightarrow> nat" where
  "dval_of [] = 0"
| "dval_of (c # cs) = (of_char c - 48) * 10 ^ length cs + dval_of cs"

lemma dval_of_append: "dval_of (xs @ ys) = dval_of xs * 10 ^ length ys + dval_of ys"
  by (induction xs) (simp_all add: algebra_simps power_add)

lemma dval_of_zeros [simp]: "dval_of (replicate k (digit 0)) = 0"
  by (induction k) (simp_all add: of_char_digit)

lemma dval_of_dec: "dval_of (dec n) = n"
proof (induction n rule: dec.induct)
  case (1 n)
  then show ?case
    by (cases "n < 10") (simp_all add: dec.simps [of n] dval_of_append of_char_digit)
qed

lemma dval_of_fmt0: "0 \<le> i \<Longrightarrow> dval_of (fmt0 w i) = nat i"
  by (simp add: fmt0_def dval_of_append dval_of_dec)

lemma fmt0_inj: "0 \<le> i \<Longrightarrow> 0 \<le> j \<Longrightarrow> fmt0 w i = fmt0 v j \<Longrightarrow> i = j"
  by (metis dval_of_fmt0 eq_nat_nat_iff)

definition digit_string :: "string \<Rightarrow> bool" where
  "digit_string cs \<longleftrightarrow> (\<forall>c \<in> set cs. isdigit c)"

lemma isdigit_digit [simp]: "n < 10 \<Longrightarrow> isdigit (digit n)"
  by (simp add: isdigit_def of_char_digit)

lemma digit_string_dec: "digit_string (dec n)"
proof (induction n rule: dec.induct)
  case (1 n)
  then show ?case by (cases "n < 10") (auto simp: dec.simps [of n] digit_string_def)
qed

lemma digit_string_append: "digit_string (xs @ ys) \<longleftrightarrow> digit_string xs \<and> digit_string ys"
  by (auto simp: digit_string_def)

lemma digit_string_fmt0: "0 \<le> i \<Longrightarrow> digit_string (fmt0 w i)"
  using digit_string_dec by (simp add: fmt0_def digit_string_append) (simp add: digit_string_def)

text \<open>On digit strings of equal length \<open>strcmp\<close> compares the numbers.\<close>

lemma dval_of_bound: "digit_string cs \<Longrightarrow> dval_of cs < 10 ^ length cs"
proof (induction cs)
  case (Cons c cs)
  then have "of_char c - 48 \<le> (9::nat)" "dval_of cs < 10 ^ length cs"
    by (auto simp: digit_string_def isdigit_def)
  then have "(of_char c - 48) * 10 ^ length cs + dval_of cs < 9 * 10 ^ length cs + 10 ^ length cs"
    by (intro add_le_less_mono mult_right_mono) auto
  then show ?case by simp
qed simp

lemma place_value_less:
  assumes "a < b" "c < (m::nat)" "d < m" shows "a * m + c < b * m + d"
proof -
  have "a * m + c < Suc a * m" using assms by simp
  also have "\<dots> \<le> b * m" using assms by (intro mult_right_mono) auto
  finally show ?thesis by simp
qed

lemma strcmp_less_digits:
  assumes "length xs = length ys" "digit_string xs" "digit_string ys"
  shows "strcmp_less xs ys \<longleftrightarrow> dval_of xs < dval_of ys"
  using assms
proof (induction xs ys rule: list_induct2)
  case (Cons x xs y ys)
  define a b where "a = of_char x - (48::nat)" and "b = of_char y - (48::nat)"
  have xy: "48 \<le> (of_char x :: nat)" "48 \<le> (of_char y :: nat)" "digit_string xs" "digit_string ys"
    using Cons.prems by (auto simp: digit_string_def isdigit_def)
  then have ab: "x = y \<longleftrightarrow> a = b" "(of_char x :: nat) < of_char y \<longleftrightarrow> a < b"
    by (auto simp: a_def b_def) (metis char_of_char le_add_diff_inverse)
  have v: "dval_of (x # xs) = a * 10 ^ length ys + dval_of xs"
    "dval_of (y # ys) = b * 10 ^ length ys + dval_of ys"
    using Cons.hyps by (simp_all add: a_def b_def)
  have lt: "dval_of xs < 10 ^ length ys" "dval_of ys < 10 ^ length ys"
    using dval_of_bound xy(3,4) Cons.hyps by metis+
  consider "a < b" | "a = b" | "b < a" by linarith
  then show ?case
  proof cases
    case 1
    then show ?thesis using place_value_less [OF 1 lt] by (simp only: v strcmp_less.simps ab) simp
  next
    case 2
    then show ?thesis using Cons.IH xy(3,4) by (simp only: v strcmp_less.simps ab) simp
  next
    case 3
    then show ?thesis using place_value_less [OF 3 lt(2,1)] by (simp only: v strcmp_less.simps ab) simp
  qed
qed simp

end
