(* ===== verification/Registry.thy ===== *)
theory Registry
  imports TiggePrelude
begin

text \<open>
  The table of variables and the process queue (\<open>src/src/ncdcTigge.h\<close> and the first half
  of \<open>src/src/util.c\<close>). The queue is the global array \<open>variablesToProcess\<close> of
  \<open>NUMBER_OF_VARIABLES\<close> ints, \<open>-1\<close> where nothing was requested.
\<close>

subsection \<open>The enumeration and the short names\<close>

datatype tiggeVariableNames =
    POTENTIAL_TEMPERATURE
  | SNOW_FALL_WATER_EQUIVALENT
  | TIME_INTEGRATED_SNOW_FALL_WATER_EQUIVALENT
  | SOIL_MOISTURE
  | SOIL_TEMPERATURE
  | TIME_INTEGRATED_OUTGOING_LONG_WAVE_RADIATION
  | TIME_INTEGRATED_SURFACE_LATENT_HEAT_FLUX
  | TIME_INTEGRATED_SURFACE_NET_SOLAR_RADIATION
  | TIME_INTEGRATED_SURFACE_NET_THERMAL_RADIATION
  | TIME_INTEGRATED_SURFACE_SENSIBLE_HEAT_FLUX
  | TOTAL_COLUMN_WATER
  | TOTAL_PRECIPITATION
  | TEST_VARIABLE
  | TEST_VARIABLE_TI

fun vid :: "tiggeVariableNames \<Rightarrow> int" where
  "vid POTENTIAL_TEMPERATURE = 0"
| "vid SNOW_FALL_WATER_EQUIVALENT = 1"
| "vid TIME_INTEGRATED_SNOW_FALL_WATER_EQUIVALENT = 2"
| "vid SOIL_MOISTURE = 3"
| "vid SOIL_TEMPERATURE = 4"
| "vid TIME_INTEGRATED_OUTGOING_LONG_WAVE_RADIATION = 5"
| "vid TIME_INTEGRATED_SURFACE_LATENT_HEAT_FLUX = 6"
| "vid TIME_INTEGRATED_SURFACE_NET_SOLAR_RADIATION = 7"
| "vid TIME_INTEGRATED_SURFACE_NET_THERMAL_RADIATION = 8"
| "vid TIME_INTEGRATED_SURFACE_SENSIBLE_HEAT_FLUX = 9"
| "vid TOTAL_COLUMN_WATER = 10"
| "vid TOTAL_PRECIPITATION = 11"
| "vid TEST_VARIABLE = 12"
| "vid TEST_VARIABLE_TI = 13"

definition NUMBER_OF_VARIABLES :: nat where
  "NUMBER_OF_VARIABLES = 13"

definition FORECAST_HOURS :: nat where
  "FORECAST_HOURS = 384"

text \<open>\<open>None\<close> is the NULL pointer of the \<open>default\<close> branch.\<close>

definition variableShortName :: "int \<Rightarrow> string option" where
  "variableShortName i =
     (if i = vid POTENTIAL_TEMPERATURE then Some ''pt''
      else if i = vid SNOW_FALL_WATER_EQUIVALENT then Some ''sf6''
      else if i = vid SOIL_MOISTURE then Some ''sm''
      else if i = vid SOIL_TEMPERATURE then Some ''st''
      else if i = vid TIME_INTEGRATED_SNOW_FALL_WATER_EQUIVALENT then Some ''sf''
      else if i = vid TIME_INTEGRATED_OUTGOING_LONG_WAVE_RADIATION then Some ''ttr''
      else if i = vid TIME_INTEGRATED_SURFACE_LATENT_HEAT_FLUX then Some ''slhf''
      else if i = vid TIME_INTEGRATED_SURFACE_NET_SOLAR_RADIATION then Some ''ssr''
      else if i = vid TIME_INTEGRATED_SURFACE_NET_THERMAL_RADIATION then Some ''str''
      else if i = vid TIME_INTEGRATED_SURFACE_SENSIBLE_HEAT_FLUX then Some ''sshf''
      else if i = vid TOTAL_COLUMN_WATER then Some ''tcw''
      else if i = vid TOTAL_PRECIPITATION then Some ''tp''
      else if i = vid TEST_VARIABLE then Some ''tv''
      else if i = vid TEST_VARIABLE_TI then Some ''tvt''
      else None)"

definition variableIdFromShortName :: "string \<Rightarrow> int" where
  "variableIdFromShortName var =
     (if var = ''pt'' then vid POTENTIAL_TEMPERATURE
      else if var = ''sf6'' then vid SNOW_FALL_WATER_EQUIVALENT
      else if var = ''sf'' then vid TIME_INTEGRATED_SNOW_FALL_WATER_EQUIVALENT
      else if var = ''sm'' then vid SOIL_MOISTURE
      else if var = ''st'' then vid SOIL_TEMPERATURE
      else if var = ''ttr'' then vid TIME_INTEGRATED_OUTGOING_LONG_WAVE_RADIATION
      else if var = ''slhf'' then vid TIME_INTEGRATED_SURFACE_LATENT_HEAT_FLUX
      else if var = ''ssr'' then vid TIME_INTEGRATED_SURFACE_NET_SOLAR_RADIATION
      else if var = ''str'' then vid TIME_INTEGRATED_SURFACE_NET_THERMAL_RADIATION
      else if var = ''sshf'' then vid TIME_INTEGRATED_SURFACE_SENSIBLE_HEAT_FLUX
      else if var = ''tcw'' then vid TOTAL_COLUMN_WATER
      else if var = ''tp'' then vid TOTAL_PRECIPITATION
      else if var = ''tv'' then vid TEST_VARIABLE
      else if var = ''tvt'' then vid TEST_VARIABLE_TI
      else -1)"

subsection \<open>The process queue\<close>

text \<open>
  The loop of \<open>processQueueContains\<close>; \<open>None\<close> where \<open>strcmp\<close> would be given the
  NULL name of an id outside the table.
\<close>

fun queue_scan :: "string \<Rightarrow> int list \<Rightarrow> int option" where
  "queue_scan str [] = Some 0"
| "queue_scan str (v # vs) =
     (if v = -1 then Some 0
      else case variableShortName v of
        None \<Rightarrow> None
      | Some n \<Rightarrow> if str = n then Some 1 else queue_scan str vs)"

definition processQueueContains :: "int list \<Rightarrow> string \<Rightarrow> int option" where
  "processQueueContains q str =
     (if variableIdFromShortName str = -1 then Some (-1)
      else queue_scan str (take NUMBER_OF_VARIABLES q))"

text \<open>Returns the status and the queue; the write is at index \<open>i\<close> of the array.\<close>

definition addVariableToProcessList :: "int list \<Rightarrow> nat \<Rightarrow> string \<Rightarrow> (int \<times> int list) option" where
  "addVariableToProcessList q i var =
     (if var = ''all'' then Some (1, q)
      else case processQueueContains q var of
        None \<Rightarrow> None
      | Some c \<Rightarrow>
          if c = 0 then
            (if variableIdFromShortName var \<noteq> -1 then
               (if i < length q then Some (0, q[i := variableIdFromShortName var]) else None)
             else Some (-1, q))
          else Some (-1, q))"

definition fillQueueWithDefault :: "int list \<Rightarrow> int list" where
  "fillQueueWithDefault q = q
     [0 := vid POTENTIAL_TEMPERATURE,
      2 := vid SOIL_MOISTURE,
      3 := vid SOIL_TEMPERATURE,
      4 := vid TIME_INTEGRATED_OUTGOING_LONG_WAVE_RADIATION,
      5 := vid TIME_INTEGRATED_SURFACE_LATENT_HEAT_FLUX,
      6 := vid TIME_INTEGRATED_SURFACE_NET_SOLAR_RADIATION,
      7 := vid TIME_INTEGRATED_SURFACE_NET_THERMAL_RADIATION,
      8 := vid TIME_INTEGRATED_SURFACE_SENSIBLE_HEAT_FLUX,
      1 := vid TIME_INTEGRATED_SNOW_FALL_WATER_EQUIVALENT,
      9 := vid TOTAL_COLUMN_WATER,
      10 := vid TOTAL_PRECIPITATION,
      11 := vid TEST_VARIABLE,
      12 := vid TEST_VARIABLE_TI]"

definition fillQueueWithBogusData :: "int list \<Rightarrow> int list" where
  "fillQueueWithBogusData q = q
     [0 := -1, 1 := -1, 2 := -1, 3 := -1, 4 := -1, 5 := -1, 6 := -1, 7 := -1, 8 := -1,
      9 := -1, 10 := -1, 11 := -1, 12 := -1]"

subsection \<open>Names and ids are inverse to each other\<close>

definition known_id :: "int \<Rightarrow> bool" where
  "known_id i \<longleftrightarrow> 0 \<le> i \<and> i \<le> 13"

lemma known_id_cases:
  assumes "known_id i"
  obtains "i = 0" | "i = 1" | "i = 2" | "i = 3" | "i = 4" | "i = 5" | "i = 6" | "i = 7" | "i = 8" |
    "i = 9" | "i = 10" | "i = 11" | "i = 12" | "i = 13"
proof -
  have "i = 0 \<or> i = 1 \<or> i = 2 \<or> i = 3 \<or> i = 4 \<or> i = 5 \<or> i = 6 \<or> i = 7 \<or> i = 8 \<or> i = 9 \<or> i = 10 \<or>
      i = 11 \<or> i = 12 \<or> i = 13"
    using assms unfolding known_id_def by arith
  then show thesis using that by blast
qed

lemma shortName_table:
  "variableShortName 0 = Some ''pt''"
  "variableShortName 1 = Some ''sf6''"
  "variableShortName 2 = Some ''sf''"
  "variableShortName 3 = Some ''sm''"
  "variableShortName 4 = Some ''st''"
  "variableShortName 5 = Some ''ttr''"
  "variableShortName 6 = Some ''slhf''"
  "variableShortName 7 = Some ''ssr''"
  "variableShortName 8 = Some ''str''"
  "variableShortName 9 = Some ''sshf''"
  "variableShortName 10 = Some ''tcw''"
  "variableShortName 11 = Some ''tp''"
  "variableShortName 12 = Some ''tv''"
  "variableShortName 13 = Some ''tvt''"
  by (simp_all add: variableShortName_def)

lemma id_table:
  "variableIdFromShortName ''pt'' = 0"
  "variableIdFromShortName ''sf6'' = 1"
  "variableIdFromShortName ''sf'' = 2"
  "variableIdFromShortName ''sm'' = 3"
  "variableIdFromShortName ''st'' = 4"
  "variableIdFromShortName ''ttr'' = 5"
  "variableIdFromShortName ''slhf'' = 6"
  "variableIdFromShortName ''ssr'' = 7"
  "variableIdFromShortName ''str'' = 8"
  "variableIdFromShortName ''sshf'' = 9"
  "variableIdFromShortName ''tcw'' = 10"
  "variableIdFromShortName ''tp'' = 11"
  "variableIdFromShortName ''tv'' = 12"
  "variableIdFromShortName ''tvt'' = 13"
  by (simp_all add: variableIdFromShortName_def)

lemma variableShortName_known: "variableShortName i = Some n \<Longrightarrow> known_id i"
  by (simp add: variableShortName_def known_id_def split: if_split_asm)

lemma variableShortName_Some_iff: "(\<exists>n. variableShortName i = Some n) \<longleftrightarrow> known_id i"
proof
  assume "known_id i"
  then show "\<exists>n. variableShortName i = Some n"
    by (rule known_id_cases) (simp_all add: shortName_table)
qed (auto dest: variableShortName_known)

lemma id_of_shortName:
  assumes "variableShortName i = Some n" shows "variableIdFromShortName n = i"
proof -
  from assms have "known_id i" by (rule variableShortName_known)
  then show ?thesis
    by (rule known_id_cases)
       (use assms in \<open>auto simp: shortName_table id_table\<close>)
qed

lemma shortName_of_id:
  assumes "variableIdFromShortName n = i" "i \<noteq> -1" shows "variableShortName i = Some n"
proof -
  have "n \<in> {''pt'', ''sf6'', ''sf'', ''sm'', ''st'', ''ttr'', ''slhf'', ''ssr'', ''str'', ''sshf'',
      ''tcw'', ''tp'', ''tv'', ''tvt''}"
    using assms unfolding variableIdFromShortName_def insert_iff by metis
  then show ?thesis using assms(1) unfolding insert_iff
    by (elim disjE) (simp_all add: shortName_table id_table)
qed

lemma variableShortName_inj:
  "variableShortName i = Some n \<Longrightarrow> variableShortName j = Some n \<Longrightarrow> i = j"
  using id_of_shortName by metis

subsection \<open>The queue invariant\<close>

text \<open>
  A queue filled up to index \<open>k\<close>: distinct known ids, then \<open>-1\<close> in every later cell.
\<close>

definition filled :: "nat \<Rightarrow> int list \<Rightarrow> bool" where
  "filled k q \<longleftrightarrow> length q = NUMBER_OF_VARIABLES \<and> k \<le> NUMBER_OF_VARIABLES \<and>
     (\<forall>v \<in> set (take k q). known_id v) \<and> distinct (take k q) \<and> (\<forall>v \<in> set (drop k q). v = -1)"

lemma queue_scan_known:
  assumes "\<forall>v \<in> set vs. known_id v" "variableShortName i = Some n"
  shows "queue_scan n (vs @ ws) = (if i \<in> set vs then Some 1 else queue_scan n ws)"
  using assms(1)
proof (induction vs)
  case (Cons v vs)
  then obtain m where m: "variableShortName v = Some m"
    using variableShortName_Some_iff [of v] by auto
  have "v \<noteq> -1" using Cons.prems by (auto simp: known_id_def)
  moreover have "n = m \<longleftrightarrow> i = v" using m assms(2) variableShortName_inj by auto
  ultimately show ?case using Cons m by auto
qed simp

lemma queue_scan_empty: "\<forall>v \<in> set vs. v = -1 \<Longrightarrow> queue_scan n vs = Some 0"
  by (cases vs) simp_all

lemma processQueueContains_filled:
  assumes "filled k q" "variableShortName i = Some n"
  shows "processQueueContains q n = Some (if i \<in> set (take k q) then 1 else 0)"
proof -
  have "variableIdFromShortName n \<noteq> -1"
    using id_of_shortName [OF assms(2)] variableShortName_Some_iff [of i] assms(2)
    by (auto simp: known_id_def)
  moreover have "take NUMBER_OF_VARIABLES q = take k q @ drop k q"
    using assms by (simp add: filled_def)
  ultimately show ?thesis
    using assms queue_scan_known [of "take k q" i n "drop k q"] queue_scan_empty [of "drop k q" n]
    by (auto simp: processQueueContains_def filled_def)
qed

lemma addVariable_filled:
  assumes q: "filled k q" and k: "k < NUMBER_OF_VARIABLES" and var: "var \<noteq> ''all''"
  shows "addVariableToProcessList q k var =
      (if variableIdFromShortName var \<noteq> -1 \<and> variableIdFromShortName var \<notin> set (take k q)
       then Some (0, q[k := variableIdFromShortName var]) else Some (-1, q))"
proof (cases "variableIdFromShortName var = -1")
  case True
  then show ?thesis using var by (simp add: addVariableToProcessList_def processQueueContains_def)
next
  case False
  then have "variableShortName (variableIdFromShortName var) = Some var"
    using shortName_of_id by blast
  then show ?thesis
    using False var k q processQueueContains_filled [OF q]
    by (simp add: addVariableToProcessList_def filled_def)
qed

lemma filled_add:
  assumes q: "filled k q" and k: "k < NUMBER_OF_VARIABLES"
    and v: "known_id v" "v \<notin> set (take k q)"
  shows "filled (Suc k) (q[k := v])"
proof -
  have "take (Suc k) (q[k := v]) = take k q @ [v]"
    using q k by (simp add: filled_def take_Suc_conv_app_nth)
  moreover have "drop (Suc k) (q[k := v]) = drop (Suc k) q" by simp
  moreover have "set (drop (Suc k) q) \<subseteq> set (drop k q)"
    by (simp add: set_drop_subset_set_drop)
  ultimately show ?thesis using assms by (auto simp: filled_def)
qed

lemma filled_bogus: "length q = NUMBER_OF_VARIABLES \<Longrightarrow> filled 0 (fillQueueWithBogusData q)"
proof -
  assume "length q = NUMBER_OF_VARIABLES"
  then have "length q = 13" by (simp add: NUMBER_OF_VARIABLES_def)
  then obtain a b c d e f g h i j k l m where "q = [a, b, c, d, e, f, g, h, i, j, k, l, m]"
    by (auto simp: length_Suc_conv eval_nat_numeral)
  then show ?thesis by (simp add: fillQueueWithBogusData_def filled_def NUMBER_OF_VARIABLES_def)
qed

definition default_queue :: "int list" where
  "default_queue = map vid
     [POTENTIAL_TEMPERATURE, TIME_INTEGRATED_SNOW_FALL_WATER_EQUIVALENT, SOIL_MOISTURE,
      SOIL_TEMPERATURE, TIME_INTEGRATED_OUTGOING_LONG_WAVE_RADIATION,
      TIME_INTEGRATED_SURFACE_LATENT_HEAT_FLUX, TIME_INTEGRATED_SURFACE_NET_SOLAR_RADIATION,
      TIME_INTEGRATED_SURFACE_NET_THERMAL_RADIATION, TIME_INTEGRATED_SURFACE_SENSIBLE_HEAT_FLUX,
      TOTAL_COLUMN_WATER, TOTAL_PRECIPITATION, TEST_VARIABLE, TEST_VARIABLE_TI]"

lemma fillQueueWithDefault_eq: "length q = NUMBER_OF_VARIABLES \<Longrightarrow> fillQueueWithDefault q = default_queue"
proof -
  assume "length q = NUMBER_OF_VARIABLES"
  then have "length q = 13" by (simp add: NUMBER_OF_VARIABLES_def)
  then obtain a b c d e f g h i j k l m where "q = [a, b, c, d, e, f, g, h, i, j, k, l, m]"
    by (auto simp: length_Suc_conv eval_nat_numeral)
  then show ?thesis by (simp add: fillQueueWithDefault_def default_queue_def)
qed

lemma filled_default: "filled NUMBER_OF_VARIABLES default_queue"
  by (simp add: filled_def default_queue_def NUMBER_OF_VARIABLES_def known_id_def)

subsection \<open>Names and identifiers\<close>

text \<open>\<open>variableShortName\<close> and \<open>variableIdFromShortName\<close> are inverse to each other: every
  identifier of the enumeration has a short name of its own, every other identifier has none, and
  every other string gives \<open>-1\<close>.\<close>

theorem short_names_round_trip:
  "variableShortName i = Some n \<longleftrightarrow> i \<noteq> -1 \<and> variableIdFromShortName n = i"
  using id_of_shortName [of i n] shortName_of_id [of n i] variableShortName_known [of i n]
  by (auto simp: known_id_def)

subsection \<open>The queue is a set\<close>

text \<open>The array, up to its first \<open>-1\<close>, as a set of identifiers.\<close>

definition queue_set :: "int list \<Rightarrow> int set" where
  "queue_set q = set (takeWhile (\<lambda>v. v \<noteq> -1) q)"

lemma queue_set_filled:
  assumes "filled k q" shows "queue_set q = set (take k q)"
proof -
  have "\<forall>v \<in> set (take k q). v \<noteq> -1" using assms by (auto simp: filled_def known_id_def)
  moreover have "takeWhile (\<lambda>v. v \<noteq> -1) (drop k q) = []"
    using assms by (cases "drop k q") (auto simp: filled_def)
  ultimately have "takeWhile (\<lambda>v. v \<noteq> -1) (take k q @ drop k q) = take k q"
    by (subst takeWhile_append2) auto
  then show ?thesis by (simp add: queue_set_def)
qed

text \<open>C22. The process queue implements a set of variables: \<open>processQueueContains\<close> is membership, and
  \<open>addVariableToProcessList\<close> at the first free index is insertion, which refuses unknown names and members
  and keeps the queue well-formed.\<close>

theorem queue_refines_set:
  assumes "filled k q" "k < NUMBER_OF_VARIABLES" "var \<noteq> ''all''"
  shows "processQueueContains q var = Some (if variableIdFromShortName var = -1 then -1
      else if variableIdFromShortName var \<in> queue_set q then 1 else 0) \<and>
    (\<exists>status q'. addVariableToProcessList q k var = Some (status, q') \<and>
      (if variableIdFromShortName var = -1 \<or> variableIdFromShortName var \<in> queue_set q
       then status = -1 \<and> q' = q
       else status = 0 \<and> filled (Suc k) q' \<and> queue_set q' = insert (variableIdFromShortName var) (queue_set q)))"
proof (cases "variableIdFromShortName var = -1")
  case True
  then show ?thesis using addVariable_filled [OF assms] by (simp add: processQueueContains_def)
next
  case False
  define i where "i = variableIdFromShortName var"
  have n: "variableShortName i = Some var" using False shortName_of_id i_def by blast
  then have kn: "known_id i" by (rule variableShortName_known)
  have contains: "processQueueContains q var = Some (if i \<in> queue_set q then 1 else 0)"
    using processQueueContains_filled [OF assms(1) n] by (simp add: queue_set_filled [OF assms(1)])
  have add: "addVariableToProcessList q k var = (if i \<notin> queue_set q then Some (0, q[k := i]) else Some (-1, q))"
    using addVariable_filled [OF assms] False by (simp add: queue_set_filled [OF assms(1)] i_def)
  have "filled (Suc k) (q[k := i]) \<and> queue_set (q[k := i]) = insert i (queue_set q)" if "i \<notin> queue_set q"
  proof -
    have f: "filled (Suc k) (q[k := i])"
      using that kn by (intro filled_add [OF assms(1,2)]) (simp_all add: queue_set_filled [OF assms(1)])
    have "take (Suc k) (q[k := i]) = take k q @ [i]"
      using assms(1,2) by (simp add: filled_def take_Suc_conv_app_nth)
    with f show ?thesis by (simp add: queue_set_filled [OF assms(1)] queue_set_filled [OF f])
  qed
  with contains add False show ?thesis by (auto simp flip: i_def)
qed

end
