(* ===== verification/FileNames.thy ===== *)
theory FileNames
  imports CText Registry
begin

text \<open>
  The file names and the grid constants of \<open>src/src/util.c\<close>. The functions return the
  string that is left in the caller's buffer. Local arrays are listed with their sizes and the
  bytes written to them in \<open>generateFileName_buffers\<close> and
  \<open>generateInputFilename_buffers\<close>.
\<close>

subsection \<open>Output names\<close>

text \<open>\<open>sprintf(date, "%04d%02d%02d%02d0000", yyyy, mm, dd, hh)\<close>\<close>

definition date_string :: "int \<Rightarrow> int \<Rightarrow> int \<Rightarrow> int \<Rightarrow> string" where
  "date_string yyyy mm dd hh = fmt0 4 yyyy @ fmt0 2 mm @ fmt0 2 dd @ fmt0 2 hh"

definition forecast_type :: "int \<Rightarrow> string" where
  "forecast_type em = (if em = 0 then ''cf'' else ''pf'')"

definition level_type :: "int \<Rightarrow> string" where
  "level_type variableName = (if variableName = vid POTENTIAL_TEMPERATURE then ''pv'' else ''sl'')"

definition level_value :: "int \<Rightarrow> string" where
  "level_value variableName = (if variableName = vid POTENTIAL_TEMPERATURE then ''0002'' else ''0000'')"

text \<open>\<open>None\<close> where the NULL name of an unknown variable would be printed.\<close>

definition generateFileName ::
  "int \<Rightarrow> int \<Rightarrow> int \<Rightarrow> int \<Rightarrow> int \<Rightarrow> int \<Rightarrow> int \<Rightarrow> string option" where
  "generateFileName variableName yyyy mm dd hh fff em =
     (let date = date_string yyyy mm dd hh @ ''0000'';
          tt = forecast_type em;
          ll = level_type variableName;
          llll = level_value variableName;
          ssss = fmt0 4 fff;
          nnn = fmt0 3 em
      in case variableShortName variableName of
           None \<Rightarrow> None
         | Some param \<Rightarrow> Some
             (''z_tigge_c'' @ ''_'' @ ''kwbc'' @ ''_'' @ date @ ''_'' @ ''glob'' @ ''_'' @ ''prod'' @ ''_'' @
              tt @ ''_'' @ ll @ ''_'' @ ssss @ ''_'' @ nnn @ ''_'' @ llll @ ''_'' @ param @ ''.grib''))"

text \<open>Pairs of the size of a local array and the bytes written to it.\<close>

definition generateFileName_buffers ::
  "int \<Rightarrow> int \<Rightarrow> int \<Rightarrow> int \<Rightarrow> int \<Rightarrow> int \<Rightarrow> int \<Rightarrow> (nat \<times> nat) list" where
  "generateFileName_buffers variableName yyyy mm dd hh fff em =
     [(15, length (date_string yyyy mm dd hh @ ''0000'') + 1),
      (3, length (forecast_type em) + 1),
      (3, length (level_type variableName) + 1),
      (5, length (fmt0 4 fff) + 1),
      (4, length (fmt0 3 em) + 1),
      (5, length (level_value variableName) + 1)]"

subsection \<open>The change of the GEFS grid on 2020-09-23 12Z\<close>

text \<open>\<open>strcmp(dateString, "2020092312") < 0\<close>\<close>

definition before_change :: "int \<Rightarrow> int \<Rightarrow> int \<Rightarrow> int \<Rightarrow> bool" where
  "before_change yyyy mm dd hh = strcmp_less (date_string yyyy mm dd hh) ''2020092312''"

definition get_n_lat :: "int \<Rightarrow> int \<Rightarrow> int \<Rightarrow> int \<Rightarrow> int" where
  "get_n_lat yyyy mm dd hh = (if before_change yyyy mm dd hh then 181 else 361)"

definition get_n_lon :: "int \<Rightarrow> int \<Rightarrow> int \<Rightarrow> int \<Rightarrow> int" where
  "get_n_lon yyyy mm dd hh = (if before_change yyyy mm dd hh then 360 else 720)"

definition get_n_points :: "int \<Rightarrow> int \<Rightarrow> int \<Rightarrow> int \<Rightarrow> int" where
  "get_n_points yyyy mm dd hh = get_n_lat yyyy mm dd hh * get_n_lon yyyy mm dd hh"

definition get_n_members :: "int \<Rightarrow> int \<Rightarrow> int \<Rightarrow> int \<Rightarrow> int" where
  "get_n_members yyyy mm dd hh = (if before_change yyyy mm dd hh then 21 else 31)"

definition get_gen_proc_id :: "int \<Rightarrow> int \<Rightarrow> int \<Rightarrow> int \<Rightarrow> int" where
  "get_gen_proc_id yyyy mm dd hh = (if before_change yyyy mm dd hh then 80 else 107)"

subsection \<open>Input names\<close>

definition member_string :: "int \<Rightarrow> string" where
  "member_string em = (if em = 0 then ''c'' @ fmt0 2 em else ''p'' @ fmt0 2 em)"

definition file_letter :: "int \<Rightarrow> string" where
  "file_letter fileNumber = (if fileNumber = 0 then ''a'' else ''b'')"

definition generateInputFilename ::
  "string \<Rightarrow> int \<Rightarrow> int \<Rightarrow> int \<Rightarrow> int \<Rightarrow> int \<Rightarrow> int \<Rightarrow> int \<Rightarrow> string" where
  "generateInputFilename newFileNamePrefix fileNumber yyyy mm dd hh fff em =
     (let directoryString = date_string yyyy mm dd hh;
          fileLetter = file_letter fileNumber;
          modelEnsembleMember = member_string em
      in if strcmp_less directoryString ''2020092312'' then
           newFileNamePrefix @ ''/'' @ directoryString @ ''/ge'' @ modelEnsembleMember @ ''.t'' @
           fmt0 2 hh @ ''z.pgrb2'' @ fileLetter @ ''f'' @ fmt0 2 fff
         else
           newFileNamePrefix @ ''/'' @ directoryString @ ''/ge'' @ modelEnsembleMember @ ''.t'' @
           fmt0 2 hh @ ''z.pgrb2'' @ fileLetter @ ''.0p50.f'' @ fmt0 3 fff)"

definition generateInputFilename_buffers ::
  "int \<Rightarrow> int \<Rightarrow> int \<Rightarrow> int \<Rightarrow> int \<Rightarrow> int \<Rightarrow> (nat \<times> nat) list" where
  "generateInputFilename_buffers fileNumber yyyy mm dd hh em =
     [(12, length (date_string yyyy mm dd hh) + 1),
      (3, length (member_string em) + 1),
      (3, length (file_letter fileNumber) + 1)]"

subsection \<open>Lengths and values for calendar dates\<close>

definition four_digit_date :: "int \<Rightarrow> int \<Rightarrow> int \<Rightarrow> int \<Rightarrow> bool" where
  "four_digit_date yyyy mm dd hh \<longleftrightarrow> 0 \<le> yyyy \<and> yyyy \<le> 9999 \<and> 0 \<le> mm \<and> mm \<le> 99 \<and>
     0 \<le> dd \<and> dd \<le> 99 \<and> 0 \<le> hh \<and> hh \<le> 99"

lemma date_string_length:
  "four_digit_date yyyy mm dd hh \<Longrightarrow> length (date_string yyyy mm dd hh) = 10"
  by (simp add: four_digit_date_def date_string_def fmt0_length)

lemma date_string_digits:
  "four_digit_date yyyy mm dd hh \<Longrightarrow> digit_string (date_string yyyy mm dd hh)"
  by (simp add: four_digit_date_def date_string_def digit_string_append digit_string_fmt0)

lemma date_string_value:
  assumes "four_digit_date yyyy mm dd hh"
  shows "dval_of (date_string yyyy mm dd hh) = nat (yyyy * 1000000 + mm * 10000 + dd * 100 + hh)"
proof -
  have "nat (yyyy * 1000000 + mm * 10000 + dd * 100 + hh) =
      nat yyyy * 1000000 + (nat mm * 10000 + (nat dd * 100 + nat hh))"
    using assms by (simp add: four_digit_date_def nat_add_distrib nat_mult_distrib)
  then show ?thesis
    using assms by (simp add: four_digit_date_def date_string_def dval_of_append dval_of_fmt0 fmt0_length)
qed

lemma change_digits: "digit_string ''2020092312''"
  by (simp add: digit_string_def isdigit_def)

lemma before_change_iff:
  assumes "four_digit_date yyyy mm dd hh"
  shows "before_change yyyy mm dd hh \<longleftrightarrow> yyyy * 1000000 + mm * 10000 + dd * 100 + hh < 2020092312"
proof -
  have "before_change yyyy mm dd hh \<longleftrightarrow>
      dval_of (date_string yyyy mm dd hh) < dval_of ''2020092312''"
    unfolding before_change_def
    by (rule strcmp_less_digits)
       (use assms in \<open>simp_all add: date_string_length date_string_digits change_digits\<close>)
  then show ?thesis using assms date_string_value [OF assms]
    by (simp add: four_digit_date_def nat_less_iff)
qed

text \<open>The dates of the command line: \<open>atoi\<close> of four and of two characters.\<close>

lemma input_name_lengths:
  "four_digit_date yyyy mm dd hh \<Longrightarrow> 0 \<le> em \<Longrightarrow> em \<le> 99 \<Longrightarrow> 0 \<le> fff \<Longrightarrow> fff \<le> 384 \<Longrightarrow>
   length (generateInputFilename prefix n yyyy mm dd hh fff em) \<le> length prefix + 40"
  using fmt0_length [of fff 3] dec_length_le [of "nat fff" 3]
  by (fastforce simp: generateInputFilename_def Let_def date_string_length member_string_def fmt0_length
      file_letter_def four_digit_date_def fmt0_def [of 2 fff])

subsection \<open>Output names are distinct\<close>

lemma shortName_no_overlap:
  assumes "variableShortName v = Some n" "variableShortName w = Some m" "n @ ''.grib'' = m @ ''.grib''"
  shows "v = w"
  using assms variableShortName_inj by simp

lemma generateFileName_length:
  assumes "four_digit_date yyyy mm dd hh" "0 \<le> fff" "fff \<le> 9999" "0 \<le> em" "em \<le> 999"
    and "generateFileName v yyyy mm dd hh fff em = Some n"
  shows "length n \<le> 70"
proof -
  have "length p \<le> 4" if "variableShortName v = Some p" for p
    using that by (auto simp: variableShortName_def split: if_splits)
  then show ?thesis using assms
    by (auto simp: generateFileName_def date_string_length fmt0_length forecast_type_def level_type_def
        level_value_def split: option.splits)
qed

text \<open>The fields have fixed widths, so a name determines what it was made from.\<close>

definition name_fields :: "int \<Rightarrow> int \<Rightarrow> int \<Rightarrow> int \<Rightarrow> int \<Rightarrow> int \<Rightarrow> bool" where
  "name_fields yyyy mm dd hh fff em \<longleftrightarrow> four_digit_date yyyy mm dd hh \<and>
     0 \<le> fff \<and> fff \<le> 9999 \<and> 0 \<le> em \<and> em \<le> 999"

lemma date_string_inj:
  assumes "four_digit_date y m d h" "four_digit_date y' m' d' h'" "date_string y m d h = date_string y' m' d' h'"
  shows "y = y' \<and> m = m' \<and> d = d' \<and> h = h'"
proof -
  have "fmt0 4 y = fmt0 4 y' \<and> fmt0 2 m = fmt0 2 m' \<and> fmt0 2 d = fmt0 2 d' \<and> fmt0 2 h = fmt0 2 h'"
    using assms by (simp add: date_string_def four_digit_date_def append_eq_append_conv fmt0_length)
  then show ?thesis using assms(1,2) fmt0_inj by (auto simp: four_digit_date_def)
qed

lemma generateFileName_inj:
  assumes f: "name_fields y m d h fff em" "name_fields y' m' d' h' fff' em'"
    and n: "generateFileName v y m d h fff em = Some n" "generateFileName v' y' m' d' h' fff' em' = Some n"
  shows "v = v' \<and> y = y' \<and> m = m' \<and> d = d' \<and> h = h' \<and> fff = fff' \<and> em = em'"
proof -
  obtain p p' where p: "variableShortName v = Some p" "variableShortName v' = Some p'"
    using n by (auto simp: generateFileName_def split: option.splits)
  have l: "length (date_string y m d h) = 10" "length (date_string y' m' d' h') = 10"
    "length (fmt0 4 fff) = 4" "length (fmt0 4 fff') = 4" "length (fmt0 3 em) = 3" "length (fmt0 3 em') = 3"
    using f by (simp_all add: name_fields_def date_string_length fmt0_length)
  have w: "length (forecast_type a) = 2" "length (level_type b) = 2" "length (level_value b) = 4" for a b
    by (simp_all add: forecast_type_def level_type_def level_value_def)
  have "generateFileName v y m d h fff em = generateFileName v' y' m' d' h' fff' em'" using n by simp
  then have eq: "date_string y m d h = date_string y' m' d' h'" "fmt0 4 fff = fmt0 4 fff'" "fmt0 3 em = fmt0 3 em'"
    "p @ ''.grib'' = p' @ ''.grib''"
    using p by (simp_all add: generateFileName_def Let_def append_eq_append_conv l w)
  have "v = v'" using shortName_no_overlap [OF p eq(4)] .
  moreover have "y = y' \<and> m = m' \<and> d = d' \<and> h = h'"
    by (rule date_string_inj [OF _ _ eq(1)]) (use f in \<open>simp_all add: name_fields_def\<close>)
  moreover have "fff = fff'" "em = em'" using eq(2,3) f fmt0_inj by (auto simp: name_fields_def)
  ultimately show ?thesis by simp
qed

subsection \<open>What the names and the grid depend on\<close>

text \<open>C21. Two records for which \<open>generateFileName\<close> gives the same name are of the same variable,
  date, forecast hour and ensemble member, so no output file overwrites another one.\<close>

theorem output_names_distinct:
  assumes "name_fields y m d h fff em" "name_fields y' m' d' h' fff' em'"
    and "generateFileName v y m d h fff em = Some n" "generateFileName v' y' m' d' h' fff' em' = Some n"
  shows "v = v' \<and> y = y' \<and> m = m' \<and> d = d' \<and> h = h' \<and> fff = fff' \<and> em = em'"
  by (rule generateFileName_inj [OF assms])

theorem output_names_distinct_witness:
  "generateFileName 0 2020 1 2 12 6 3 \<noteq> generateFileName 0 2020 1 2 12 12 3"
  using output_names_distinct [of 2020 1 2 12 6 3 2020 1 2 12 12 3 0 _ 0]
  by (auto simp: name_fields_def four_digit_date_def generateFileName_def variableShortName_def)

text \<open>The grid and the ensemble of a date: one degree and 21 members before 2020-09-23 12Z, half a
  degree and 31 members from then on. The comparison of the strings is the comparison of the dates.\<close>

theorem grid_of_date:
  assumes "four_digit_date yyyy mm dd hh"
  shows "(get_n_points yyyy mm dd hh, get_n_members yyyy mm dd hh, get_gen_proc_id yyyy mm dd hh) =
    (if yyyy * 1000000 + mm * 10000 + dd * 100 + hh < 2020092312 then (181 * 360, 21, 80)
     else (361 * 720, 31, 107))"
  using before_change_iff [OF assms]
  by (simp add: get_n_points_def get_n_lat_def get_n_lon_def get_n_members_def get_gen_proc_id_def)

text \<open>C40. Of the local arrays of \<open>generateInputFilename\<close>, the one of the ensemble member is a byte too
  short for every member: a letter, two digits and the final zero are written to three bytes. The
  arrays of \<open>generateFileName\<close> hold what is written to them.\<close>

theorem name_buffers:
  assumes "name_fields yyyy mm dd hh fff em" "em \<le> 99"
  shows "generateInputFilename_buffers n yyyy mm dd hh em ! 1 = (3, 4) \<and>
    (\<forall>(cap, used) \<in> set (generateFileName_buffers v yyyy mm dd hh fff em). used \<le> cap)"
  using assms
  by (simp add: name_fields_def generateInputFilename_buffers_def generateFileName_buffers_def member_string_def
      fmt0_length date_string_length forecast_type_def level_type_def level_value_def)

theorem name_buffers_witness: "generateInputFilename_buffers 0 2020 1 2 12 5 ! 1 = (3, 4)"
  using name_buffers [of 2020 1 2 12 6 5 0] by (simp add: name_fields_def four_digit_date_def)

end
