(* ===== verification/GribHost.thy ===== *)
theory GribHost
  imports CDouble FileNames
begin

text \<open>
  What surrounds the generators: the GRIB library, the environment and the global variables.

  The GRIB library (\<open>src/grib-api\<close>, vendored) is not modelled here. A handle is an abstract
  value of type \<open>'g\<close> and \<open>'g grib_api\<close> lists the calls the program makes, each a
  function from handle and arguments to an error code (\<open>Inl\<close>, never 0) or a result. It is
  an argument of every definition that calls it, part of the \<open>'g platform\<close>, together with
  \<open>pow\<close> of the mathematics library, the outcome of memory requests, the clock,
  the environment variables and the file system.
\<close>

record 'g grib_api =
  handle_from_template :: "string \<Rightarrow> 'g option"
  handle_from_message :: "byte list \<Rightarrow> 'g option"
  api_set_long :: "'g \<Rightarrow> string \<Rightarrow> int \<Rightarrow> int + 'g"
  api_set_missing :: "'g \<Rightarrow> string \<Rightarrow> int + 'g"
  api_set_doubles :: "'g \<Rightarrow> string \<Rightarrow> cdouble list \<Rightarrow> int + 'g"
  api_get_long :: "'g \<Rightarrow> string \<Rightarrow> int + int"
  api_get_double :: "'g \<Rightarrow> string \<Rightarrow> int + cdouble"
  api_get_size :: "'g \<Rightarrow> string \<Rightarrow> int + nat"
  api_get_doubles :: "'g \<Rightarrow> string \<Rightarrow> int + cdouble list"
  api_message :: "'g \<Rightarrow> int + byte list"

record 'g platform =
  grib :: "'g grib_api"
  libm_pow :: "cdouble \<Rightarrow> cdouble \<Rightarrow> cdouble"
  alloc_ok :: "nat \<Rightarrow> bool"                \<comment> \<open>does the n-th memory request succeed\<close>
  clock_minute :: int                       \<comment> \<open>tm_min of the current time\<close>
  env_TIGGE_INPUT :: "string option"
  env_TIGGE_OUTPUT :: "string option"
  input_files :: "string \<Rightarrow> (int + 'g) list option"  \<comment> \<open>records; Inl is an unreadable one\<close>
  out_opens :: "string \<Rightarrow> bool"
  out_writes :: "string \<Rightarrow> bool"

record 'g gfile =
  file_items :: "(int + 'g) list"
  file_pos :: nat
  file_eof :: bool

text \<open>
  The global variables of \<open>ncdcTigge.h\<close>, the files written so far, and counters of the GRIB
  handles, memory blocks and output streams that are in use.
\<close>

record 'g world =
  variablesToProcess :: "int list"
  numberOfSavedRecords :: "int \<Rightarrow> nat"
  bytesPerRecord :: "int \<Rightarrow> nat \<Rightarrow> int"
  ignoreMissingInput :: int
  aFile :: "'g gfile option"
  bFile :: "'g gfile option"
  output_files :: "(string \<times> byte list) list"
  live_handles :: int
  live_blocks :: int
  open_outputs :: int
  allocations :: nat

datatype stream = AFile | BFile

fun stream_of :: "stream \<Rightarrow> 'g world \<Rightarrow> 'g gfile option" where
  "stream_of AFile s = aFile s"
| "stream_of BFile s = bFile s"

fun set_stream :: "stream \<Rightarrow> 'g gfile \<Rightarrow> 'g world \<Rightarrow> 'g world" where
  "set_stream AFile f s = s\<lparr>aFile := Some f\<rparr>"
| "set_stream BFile f s = s\<lparr>bFile := Some f\<rparr>"

subsection \<open>Calls of the GRIB library\<close>

text \<open>\<open>GRIB_CHECK(call, 0)\<close>: leaves the process with the error code.\<close>

definition grib_check :: "int + 'x \<Rightarrow> ('g world, 'x) prog" where
  "grib_check r = (case r of Inl e \<Rightarrow> exit_with e | Inr x \<Rightarrow> ret x)"

definition count_handle :: "'h option \<Rightarrow> ('g world, 'h option) prog" where
  "count_handle h = (case h of
      None \<Rightarrow> ret None
    | Some g \<Rightarrow> seq (upd (\<lambda>s. s\<lparr>live_handles := live_handles s + 1\<rparr>)) (ret (Some g)))"

definition grib_handle_new_from_template ::
  "'g platform \<Rightarrow> string \<Rightarrow> ('g world, 'g option) prog" where
  "grib_handle_new_from_template P name = count_handle (handle_from_template (grib P) name)"

definition grib_handle_new_from_message ::
  "'g platform \<Rightarrow> byte list \<Rightarrow> ('g world, 'g option) prog" where
  "grib_handle_new_from_message P bytes = count_handle (handle_from_message (grib P) bytes)"

text \<open>The next record of a file, NULL at its end and where the record cannot be read.\<close>

definition grib_handle_new_from_file :: "stream \<Rightarrow> ('g world, 'g option) prog" where
  "grib_handle_new_from_file w s = (case stream_of w s of
      None \<Rightarrow> (Ok None, s)
    | Some f \<Rightarrow>
        if file_pos f < length (file_items f) then
          (case file_items f ! file_pos f of
             Inl e \<Rightarrow> (Ok None, set_stream w (f\<lparr>file_pos := Suc (file_pos f)\<rparr>) s)
           | Inr g \<Rightarrow> count_handle (Some g) (set_stream w (f\<lparr>file_pos := Suc (file_pos f)\<rparr>) s))
        else (Ok None, set_stream w (f\<lparr>file_eof := True\<rparr>) s))"

definition rewind :: "stream \<Rightarrow> ('g world, unit) prog" where
  "rewind w s = (case stream_of w s of
      None \<Rightarrow> (Crash, s)
    | Some f \<Rightarrow> (Ok (), set_stream w (f\<lparr>file_pos := 0, file_eof := False\<rparr>) s))"

definition grib_handle_delete :: "'g option \<Rightarrow> ('g world, unit) prog" where
  "grib_handle_delete h = (case h of
      None \<Rightarrow> ret ()
    | Some _ \<Rightarrow> upd (\<lambda>s. s\<lparr>live_handles := live_handles s - 1\<rparr>))"

text \<open>A run of \<open>GRIB_CHECK(grib_set_long(...))\<close> and \<open>GRIB_CHECK(grib_set_missing(...))\<close>.\<close>

datatype setting = SetLong string int | SetMissing string

fun apply_setting :: "'g grib_api \<Rightarrow> 'g \<Rightarrow> setting \<Rightarrow> int + 'g" where
  "apply_setting G g (SetLong k v) = api_set_long G g k v"
| "apply_setting G g (SetMissing k) = api_set_missing G g k"

fun apply_settings :: "'g grib_api \<Rightarrow> 'g \<Rightarrow> setting list \<Rightarrow> int + 'g" where
  "apply_settings G g [] = Inr g"
| "apply_settings G g (x # xs) = (case apply_setting G g x of
      Inl e \<Rightarrow> Inl e
    | Inr g' \<Rightarrow> apply_settings G g' xs)"

definition with_handle :: "'g option \<Rightarrow> ('g \<Rightarrow> ('g world, 'x) prog) \<Rightarrow> ('g world, 'x) prog" where
  "with_handle h f = (case h of None \<Rightarrow> crash | Some g \<Rightarrow> f g)"

definition grib_set :: "'g platform \<Rightarrow> 'g option \<Rightarrow> setting list \<Rightarrow> ('g world, 'g option) prog" where
  "grib_set P h xs = with_handle h (\<lambda>g.
     bnd (grib_check (apply_settings (grib P) g xs)) (\<lambda>g'. ret (Some g')))"

definition grib_get_long :: "'g platform \<Rightarrow> 'g option \<Rightarrow> string \<Rightarrow> ('g world, int) prog" where
  "grib_get_long P h k = with_handle h (\<lambda>g. grib_check (api_get_long (grib P) g k))"

definition grib_get_double :: "'g platform \<Rightarrow> 'g option \<Rightarrow> string \<Rightarrow> ('g world, cdouble) prog" where
  "grib_get_double P h k = with_handle h (\<lambda>g. grib_check (api_get_double (grib P) g k))"

definition grib_get_size :: "'g platform \<Rightarrow> 'g option \<Rightarrow> string \<Rightarrow> ('g world, nat) prog" where
  "grib_get_size P h k = with_handle h (\<lambda>g. grib_check (api_get_size (grib P) g k))"

definition grib_get_message :: "'g platform \<Rightarrow> 'g option \<Rightarrow> ('g world, byte list) prog" where
  "grib_get_message P h = with_handle h (\<lambda>g. grib_check (api_message (grib P) g))"

definition GRIB_ARRAY_TOO_SMALL :: int where
  "GRIB_ARRAY_TOO_SMALL = -6"

text \<open>
  \<open>GRIB_CHECK(grib_get_double_array(h, key, array, \&size), 0)\<close>: fails when the capacity
  \<open>size\<close> is too small, else writes the values to the front of the array and stores their
  number in \<open>size\<close>. Writing through NULL or past the array is undefined behaviour.
\<close>

definition grib_get_double_array ::
  "'g platform \<Rightarrow> 'g option \<Rightarrow> string \<Rightarrow> cdouble list option \<Rightarrow> nat
     \<Rightarrow> ('g world, cdouble list option \<times> nat) prog" where
  "grib_get_double_array P h k array cap = with_handle h (\<lambda>g.
     bnd (grib_check (api_get_doubles (grib P) g k)) (\<lambda>vs.
     if cap < length vs then exit_with GRIB_ARRAY_TOO_SMALL
     else case array of
       None \<Rightarrow> crash
     | Some xs \<Rightarrow> if length xs < length vs then crash
                 else ret (Some (vs @ drop (length vs) xs), length vs)))"

definition grib_set_double_array ::
  "'g platform \<Rightarrow> 'g option \<Rightarrow> string \<Rightarrow> cdouble list \<Rightarrow> ('g world, 'g option) prog" where
  "grib_set_double_array P h k vs = with_handle h (\<lambda>g.
     bnd (grib_check (api_set_doubles (grib P) g k vs)) (\<lambda>g'. ret (Some g')))"

subsection \<open>Memory\<close>

text \<open>A memory request: whether it succeeded.\<close>

definition alloc_block :: "'g platform \<Rightarrow> ('g world, bool) prog" where
  "alloc_block P s =
     (if alloc_ok P (allocations s)
      then (Ok True, s\<lparr>allocations := Suc (allocations s), live_blocks := live_blocks s + 1\<rparr>)
      else (Ok False, s\<lparr>allocations := Suc (allocations s)\<rparr>))"

definition calloc_doubles :: "'g platform \<Rightarrow> nat \<Rightarrow> ('g world, cdouble list option) prog" where
  "calloc_doubles P n = bnd (alloc_block P) (\<lambda>ok.
     ret (if ok then Some (replicate n (Fin 0)) else None))"

definition free :: "'x option \<Rightarrow> ('g world, unit) prog" where
  "free p = (case p of
      None \<Rightarrow> ret ()
    | Some _ \<Rightarrow> upd (\<lambda>s. s\<lparr>live_blocks := live_blocks s - 1\<rparr>))"

text \<open>\<open>if(p == NULL) { fprintf(stderr, ...); exit(1); }\<close>\<close>

definition or_exit1 :: "'x option \<Rightarrow> ('g world, 'x) prog" where
  "or_exit1 p = (case p of None \<Rightarrow> exit_with 1 | Some x \<Rightarrow> ret x)"

text \<open>Reading a cell through a pointer that may be NULL.\<close>

definition cell_of :: "'x list option \<Rightarrow> nat \<Rightarrow> ('g world, 'x) prog" where
  "cell_of p i = (case p of None \<Rightarrow> crash | Some xs \<Rightarrow> cell xs i)"

subsection \<open>Writing a record out\<close>

text \<open>
  \<open>sprintf(buffer, "%s/%s", getenv(...), name)\<close> into a buffer of 256 bytes; a missing
  variable or a result that does not fit is undefined behaviour.
\<close>

definition path_into_256 :: "string option \<Rightarrow> string \<Rightarrow> ('g world, string) prog" where
  "path_into_256 prefix name = (case prefix of
      None \<Rightarrow> crash
    | Some p \<Rightarrow> if length (p @ ''/'' @ name) + 1 \<le> 256 then ret (p @ ''/'' @ name) else crash)"

definition writeGribToFile :: "'g platform \<Rightarrow> 'g option \<Rightarrow> string \<Rightarrow> ('g world, int) prog" where
  "writeGribToFile P gh filename = (case gh of
      None \<Rightarrow> ret 1
    | Some _ \<Rightarrow>
        bnd (path_into_256 (env_TIGGE_OUTPUT P) filename) (\<lambda>totalFilename.
        seq (only_if (out_opens P totalFilename)
               (upd (\<lambda>s. s\<lparr>open_outputs := open_outputs s + 1\<rparr>))) (
        bnd (grib_get_message P gh) (\<lambda>buffer.
        if \<not> out_opens P totalFilename then crash
        else if \<not> out_writes P totalFilename then ret (-1)
        else seq (upd (\<lambda>s. s\<lparr>output_files := output_files s @ [(totalFilename, buffer)],
                             open_outputs := open_outputs s - 1\<rparr>)) (
             ret 0)))))"

subsection \<open>Symbolic execution\<close>

lemma grib_check_run [run_simps]:
  "grib_check (Inr x) s = (Ok x, s)" "grib_check (Inl e) s = (Exit e, s)"
  by (simp_all add: grib_check_def run_simps)

lemma with_handle_run [run_simps]:
  "with_handle (Some g) f = f g" "with_handle None f s = (Crash, s)"
  by (simp_all add: with_handle_def run_simps)

lemma count_handle_run [run_simps]:
  "count_handle None s = (Ok None, s)"
  "count_handle (Some g) s = (Ok (Some g), s\<lparr>live_handles := live_handles s + 1\<rparr>)"
  by (simp_all add: count_handle_def run_simps)

lemma grib_handle_delete_run [run_simps]:
  "grib_handle_delete None s = (Ok (), s)"
  "grib_handle_delete (Some g) s = (Ok (), s\<lparr>live_handles := live_handles s - 1\<rparr>)"
  by (simp_all add: grib_handle_delete_def run_simps)

lemma free_run [run_simps]:
  "free None s = (Ok (), s)"
  "free (Some x) s = (Ok (), s\<lparr>live_blocks := live_blocks s - 1\<rparr>)"
  by (simp_all add: free_def run_simps)

lemma or_exit1_run [run_simps]:
  "or_exit1 None s = (Exit 1, s)" "or_exit1 (Some x) s = (Ok x, s)"
  by (simp_all add: or_exit1_def run_simps)

lemma alloc_block_run [run_simps]:
  "alloc_ok P (allocations s) \<Longrightarrow> alloc_block P s =
     (Ok True, s\<lparr>allocations := Suc (allocations s), live_blocks := live_blocks s + 1\<rparr>)"
  "\<not> alloc_ok P (allocations s) \<Longrightarrow> alloc_block P s = (Ok False, s\<lparr>allocations := Suc (allocations s)\<rparr>)"
  by (simp_all add: alloc_block_def)

lemma calloc_doubles_run [run_simps]:
  "alloc_ok P (allocations s) \<Longrightarrow> calloc_doubles P n s = (Ok (Some (replicate n (Fin 0))),
     s\<lparr>allocations := Suc (allocations s), live_blocks := live_blocks s + 1\<rparr>)"
  "\<not> alloc_ok P (allocations s) \<Longrightarrow> calloc_doubles P n s = (Ok None, s\<lparr>allocations := Suc (allocations s)\<rparr>)"
  by (simp_all add: calloc_doubles_def run_simps)

lemma cell_of_run [run_simps]:
  "i < length xs \<Longrightarrow> cell_of (Some xs) i s = (Ok (xs ! i), s)"
  "length xs \<le> i \<Longrightarrow> cell_of (Some xs) i s = (Crash, s)"
  "cell_of None i s = (Crash, s)"
  by (simp_all add: cell_of_def run_simps)

lemma grib_set_run [run_simps]:
  "apply_settings (grib P) g xs = Inr g' \<Longrightarrow> grib_set P (Some g) xs s = (Ok (Some g'), s)"
  "apply_settings (grib P) g xs = Inl e \<Longrightarrow> grib_set P (Some g) xs s = (Exit e, s)"
  "grib_set P None xs s = (Crash, s)"
  by (simp_all add: grib_set_def run_simps)

lemma grib_get_run [run_simps]:
  "api_get_long (grib P) g k = Inr v \<Longrightarrow> grib_get_long P (Some g) k s = (Ok v, s)"
  "api_get_double (grib P) g k = Inr d \<Longrightarrow> grib_get_double P (Some g) k s = (Ok d, s)"
  "api_get_size (grib P) g k = Inr n \<Longrightarrow> grib_get_size P (Some g) k s = (Ok n, s)"
  "api_message (grib P) g = Inr m \<Longrightarrow> grib_get_message P (Some g) s = (Ok m, s)"
  by (simp_all add: grib_get_long_def grib_get_double_def grib_get_size_def grib_get_message_def run_simps)

lemma grib_get_double_array_run [run_simps]:
  "api_get_doubles (grib P) g k = Inr vs \<Longrightarrow> length vs \<le> cap \<Longrightarrow> length vs \<le> length xs \<Longrightarrow>
     grib_get_double_array P (Some g) k (Some xs) cap s =
       (Ok (Some (vs @ drop (length vs) xs), length vs), s)"
  "api_get_doubles (grib P) g k = Inr vs \<Longrightarrow> cap < length vs \<Longrightarrow>
     grib_get_double_array P (Some g) k array cap s = (Exit GRIB_ARRAY_TOO_SMALL, s)"
  by (simp_all add: grib_get_double_array_def run_simps)

lemma grib_set_double_array_run [run_simps]:
  "api_set_doubles (grib P) g k vs = Inr g' \<Longrightarrow> grib_set_double_array P (Some g) k vs s = (Ok (Some g'), s)"
  by (simp add: grib_set_double_array_def run_simps)

text \<open>Where the environment lets a file of this name be written.\<close>

definition writable :: "'g platform \<Rightarrow> string \<Rightarrow> string \<Rightarrow> bool" where
  "writable P name path \<longleftrightarrow> (\<exists>p. env_TIGGE_OUTPUT P = Some p \<and> path = p @ ''/'' @ name \<and>
     length path + 1 \<le> 256 \<and> out_opens P path \<and> out_writes P path)"

lemma writeGribToFile_run [run_simps]:
  "writable P name path \<Longrightarrow> api_message (grib P) g = Inr m \<Longrightarrow>
     writeGribToFile P (Some g) name s = (Ok 0, s\<lparr>output_files := output_files s @ [(path, m)]\<rparr>)"
  by (auto simp: writable_def writeGribToFile_def path_into_256_def run_simps)

lemma writeGribToFile_None [run_simps]: "writeGribToFile P None name s = (Ok 1, s)"
  by (simp add: writeGribToFile_def run_simps)

lemma apply_settings_append:
  "apply_settings G g (xs @ ys) =
     (case apply_settings G g xs of Inl e \<Rightarrow> Inl e | Inr g' \<Rightarrow> apply_settings G g' ys)"
  by (induction xs arbitrary: g) (simp_all split: sum.split)

text \<open>\<open>writeGribToFile\<close> returns 1 without a handle. It does not check \<open>fopen\<close>: a file that cannot be
  opened is written through a NULL stream. When \<open>fwrite\<close> fails it returns -1 and leaves the stream open;
  else it writes the message of the handle and closes the stream.\<close>

theorem write_outcomes:
  assumes "env_TIGGE_OUTPUT P = Some p" "length (p @ ''/'' @ name) < 256" "api_message (grib P) g = Inr m"
  shows "writeGribToFile P None name s = (Ok 1, s) \<and>
    (\<not> out_opens P (p @ ''/'' @ name) \<longrightarrow> writeGribToFile P (Some g) name s = (Crash, s)) \<and>
    (out_opens P (p @ ''/'' @ name) \<and> \<not> out_writes P (p @ ''/'' @ name) \<longrightarrow>
      writeGribToFile P (Some g) name s = (Ok (-1), s\<lparr>open_outputs := open_outputs s + 1\<rparr>)) \<and>
    (out_opens P (p @ ''/'' @ name) \<and> out_writes P (p @ ''/'' @ name) \<longrightarrow>
      writeGribToFile P (Some g) name s = (Ok 0, s\<lparr>output_files := output_files s @ [(p @ ''/'' @ name, m)]\<rparr>))"
  using assms by (auto simp: writeGribToFile_def path_into_256_def run_simps)

end
