(* ===== verification/RecordSearch.thy ===== *)
theory RecordSearch
  imports GribHost
begin

text \<open>
  The record searches of the generators. Every generator contains \<open>while\<close> loops that read
  records from an input file until one carries the wanted parameter; \<open>seek\<close> is the loop for
  one record, \<open>pair_loop\<close> the loop that looks for two records in one pass. The loops
  take the place the records come from as an argument, and the locale \<open>record_source\<close>
  states what such a place must do. It is interpreted for the a file, the b file, and the
  a file continued by the b file.
\<close>

subsection \<open>Reading the identifying keys of a record\<close>

definition read3 ::
  "'g platform \<Rightarrow> (int \<Rightarrow> int \<Rightarrow> int \<Rightarrow> 'x) \<Rightarrow> 'g option \<Rightarrow> ('g world, 'x) prog" where
  "read3 P f h =
     bnd (grib_get_long P h ''discipline'') (\<lambda>d.
     bnd (grib_get_long P h ''parameterCategory'') (\<lambda>c.
     bnd (grib_get_long P h ''parameterNumber'') (\<lambda>n.
     ret (f d c n))))"

definition read4 ::
  "'g platform \<Rightarrow> (int \<Rightarrow> int \<Rightarrow> int \<Rightarrow> int \<Rightarrow> 'x) \<Rightarrow> 'g option \<Rightarrow> ('g world, 'x) prog" where
  "read4 P f h =
     bnd (grib_get_long P h ''discipline'') (\<lambda>d.
     bnd (grib_get_long P h ''parameterCategory'') (\<lambda>c.
     bnd (grib_get_long P h ''parameterNumber'') (\<lambda>n.
     bnd (grib_get_long P h ''typeOfFirstFixedSurface'') (\<lambda>l.
     ret (f d c n l)))))"

definition read5 ::
  "'g platform \<Rightarrow> (int \<Rightarrow> int \<Rightarrow> int \<Rightarrow> int \<Rightarrow> int \<Rightarrow> 'x) \<Rightarrow> 'g option \<Rightarrow> ('g world, 'x) prog" where
  "read5 P f h =
     bnd (grib_get_long P h ''discipline'') (\<lambda>d.
     bnd (grib_get_long P h ''parameterCategory'') (\<lambda>c.
     bnd (grib_get_long P h ''parameterNumber'') (\<lambda>n.
     bnd (grib_get_long P h ''typeOfFirstFixedSurface'') (\<lambda>l.
     bnd (grib_get_long P h ''scaledValueOfFirstFixedSurface'') (\<lambda>v.
     ret (f d c n l v))))))"

subsection \<open>The loops\<close>

text \<open>
  \<open>while(no match) { if(h != NULL) delete(h); h = next; if(h == NULL) return; read keys; }\<close>
  The result is NULL for the early return.
\<close>

fun seek :: "nat \<Rightarrow> ('g world, 'g option) prog \<Rightarrow> ('g option \<Rightarrow> ('g world, bool) prog) \<Rightarrow> 'g option
    \<Rightarrow> ('g world, 'g option) prog" where
  "seek 0 src test h = stuck"
| "seek (Suc n) src test h =
     seq (grib_handle_delete h) (
     bnd src (\<lambda>h.
     if h = None then ret None
     else bnd (test h) (\<lambda>found. if found then ret h else seek n src test h)))"

text \<open>
  The loop with two flags: the first record comes from \<open>src1\<close>, the second from
  \<open>src2\<close>; \<open>test\<close> gives the number to remember when the record is wanted. Each of the
  two triples is a handle, its found flag and its number; \<open>None\<close> is the early return.
\<close>

fun pair_loop :: "nat \<Rightarrow> ('g world, 'g option) prog \<Rightarrow> ('g world, 'g option) prog
    \<Rightarrow> ('g option \<Rightarrow> ('g world, int option) prog)
    \<Rightarrow> 'g option \<times> bool \<times> int \<Rightarrow> 'g option \<times> bool \<times> int
    \<Rightarrow> ('g world, (('g option \<times> int) \<times> 'g option \<times> int) option) prog" where
  "pair_loop 0 src1 src2 test p1 p2 = stuck"
| "pair_loop (Suc n) src1 src2 test (h1, found1, v1) (h2, found2, v2) =
     (if found1 \<and> found2 then ret (Some ((h1, v1), (h2, v2)))
      else
        seq (only_if (h1 \<noteq> None \<and> \<not> found1) (grib_handle_delete h1)) (
        seq (only_if (h2 \<noteq> None \<and> \<not> found2) (grib_handle_delete h2)) (
        if \<not> found1 \<and> \<not> found2 then
          bnd src1 (\<lambda>h1.
          if h1 = None then ret None
          else bnd (test h1) (\<lambda>m. case m of
              None \<Rightarrow> pair_loop n src1 src2 test (h1, False, v1) (h2, found2, v2)
            | Some v \<Rightarrow> pair_loop n src1 src2 test (h1, True, v) (h2, found2, v2)))
        else if found1 \<and> \<not> found2 then
          bnd src2 (\<lambda>h2.
          if h2 = None then ret None
          else bnd (test h2) (\<lambda>m. case m of
              None \<Rightarrow> pair_loop n src1 src2 test (h1, found1, v1) (h2, False, v2)
            | Some v \<Rightarrow> pair_loop n src1 src2 test (h1, found1, v1) (h2, True, v)))
        else pair_loop n src1 src2 test (h1, found1, v1) (h2, found2, v2))))"

text \<open>Records not yet read: more iterations than this cannot find another record.\<close>

definition records_left :: "stream \<Rightarrow> 'g world \<Rightarrow> nat" where
  "records_left w s = (case stream_of w s of
      None \<Rightarrow> 0
    | Some f \<Rightarrow> length (file_items f) - file_pos f)"

definition search_fuel :: "'g world \<Rightarrow> nat" where
  "search_fuel s = records_left AFile s + records_left BFile s + 3"

text \<open>\<open>h = next(aFile); if(h == NULL) h = next(bFile);\<close>\<close>

definition next_a_then_b :: "('g world, 'g option) prog" where
  "next_a_then_b = bnd (grib_handle_new_from_file AFile) (\<lambda>h.
     if h = None then grib_handle_new_from_file BFile else ret h)"

subsection \<open>The interface of a source of records\<close>

text \<open>
  \<open>pending s\<close> are records the source is sure to deliver next, in this order;
  \<open>eat\<close> is what taking one does to the state apart from the new handle, \<open>complete s\<close>
  says that there is nothing after the pending ones, and \<open>mark\<close> what finding that out does.
\<close>

locale record_source =
  fixes src :: "('g world, 'g option) prog"
    and pending :: "'g world \<Rightarrow> 'g list"
    and eat :: "'g world \<Rightarrow> 'g world"
    and complete :: "'g world \<Rightarrow> bool"
    and mark :: "'g world \<Rightarrow> 'g world"
  assumes src_next: "pending s = g # gs \<Longrightarrow>
      src s = (Ok (Some g), (eat s)\<lparr>live_handles := live_handles s + 1\<rparr>)"
    and pending_eat: "pending s = g # gs \<Longrightarrow> pending (eat s) = gs"
    and pending_frame: "pending (s\<lparr>live_handles := n\<rparr>) = pending s"
    and eat_frame: "eat (s\<lparr>live_handles := n\<rparr>) = (eat s)\<lparr>live_handles := n\<rparr>"
    and eat_live: "live_handles (eat s) = live_handles s"
    and src_end: "complete s \<Longrightarrow> pending s = [] \<Longrightarrow> src s = (Ok None, mark s)"
    and complete_eat: "complete s \<Longrightarrow> pending s = g # gs \<Longrightarrow> complete (eat s)"
    and complete_frame: "complete (s\<lparr>live_handles := n\<rparr>) = complete s"
    and mark_frame: "mark (s\<lparr>live_handles := n\<rparr>) = (mark s)\<lparr>live_handles := n\<rparr>"
    and mark_live: "live_handles (mark s) = live_handles s"
begin

lemma eat_n_frame: "(eat ^^ k) (s\<lparr>live_handles := n\<rparr>) = ((eat ^^ k) s)\<lparr>live_handles := n\<rparr>"
  by (induction k) (simp_all add: eat_frame)

lemma eat_n_live: "live_handles ((eat ^^ k) s) = live_handles s"
  by (induction k) (simp_all add: eat_live)

definition handle_count :: "'g option \<Rightarrow> int" where
  "handle_count h = (if h = None then 0 else 1)"

lemma handle_count_simps [simp]: "handle_count None = 0" "handle_count (Some g) = 1"
  by (simp_all add: handle_count_def)

lemma delete_run: "grib_handle_delete h s = (Ok (), s\<lparr>live_handles := live_handles s - handle_count h\<rparr>)"
  by (cases h) (simp_all add: run_simps)

lemma seek_found_from:
  assumes "pending s = us @ g # vs"
    and "\<forall>u \<in> set us. \<forall>t. test (Some u) t = (Ok False, t)"
    and "\<forall>t. test (Some g) t = (Ok True, t)"
    and "length us < fuel"
  shows "seek fuel src test h s = (Ok (Some g),
    ((eat ^^ Suc (length us)) s)\<lparr>live_handles := live_handles s - handle_count h + 1\<rparr>)"
  using assms
proof (induction us arbitrary: s h fuel)
  case Nil
  then obtain n where n: "fuel = Suc n" by (cases fuel) auto
  let ?s = "s\<lparr>live_handles := live_handles s - handle_count h\<rparr>"
  have "src ?s = (Ok (Some g), (eat ?s)\<lparr>live_handles := live_handles ?s + 1\<rparr>)"
    using Nil.prems(1) by (intro src_next) (simp add: pending_frame)
  then show ?case using Nil.prems by (simp add: n run_simps delete_run eat_frame)
next
  case (Cons u us)
  then obtain n where n: "fuel = Suc n" "length us < n" by (cases fuel) auto
  let ?s = "s\<lparr>live_handles := live_handles s - handle_count h\<rparr>"
  let ?s' = "(eat s)\<lparr>live_handles := live_handles s - handle_count h + 1\<rparr>"
  have src: "src ?s = (Ok (Some u), ?s')"
    using src_next [of ?s u] Cons.prems(1) by (simp add: pending_frame eat_frame)
  have "pending ?s' = us @ g # vs"
    using pending_eat Cons.prems(1) by (simp add: pending_frame)
  then have "seek n src test (Some u) ?s' = (Ok (Some g), ((eat ^^ Suc (length us)) ?s')\<lparr>live_handles :=
      live_handles ?s' - handle_count (Some u) + 1\<rparr>)"
    using Cons.prems n by (intro Cons.IH) auto
  moreover have "test (Some u) t = (Ok False, t)" for t using Cons.prems(2) by simp
  ultimately show ?case using src
    by (simp add: n run_simps delete_run eat_n_frame eat_frame funpow_swap1)
qed

lemma seek_found:
  assumes "pending s = us @ g # vs"
    and "\<forall>u \<in> set us. \<forall>t. test (Some u) t = (Ok False, t)"
    and "\<forall>t. test (Some g) t = (Ok True, t)"
    and "length us < fuel"
  shows "seek fuel src test None s = (Ok (Some g),
    ((eat ^^ Suc (length us)) s)\<lparr>live_handles := live_handles s + 1\<rparr>)"
  using seek_found_from [OF assms, of None] by simp

lemma seek_missing_from:
  assumes "complete s"
    and "\<forall>u \<in> set (pending s). \<forall>t. test (Some u) t = (Ok False, t)"
    and "length (pending s) < fuel"
  shows "seek fuel src test h s = (Ok None,
    (mark ((eat ^^ length (pending s)) s))\<lparr>live_handles := live_handles s - handle_count h\<rparr>)"
  using assms
proof (induction "pending s" arbitrary: s h fuel)
  case Nil
  then obtain n where n: "fuel = Suc n" by (cases fuel) auto
  let ?s = "s\<lparr>live_handles := live_handles s - handle_count h\<rparr>"
  have "src ?s = (Ok None, mark ?s)"
    using Nil by (intro src_end) (simp_all add: pending_frame complete_frame)
  then show ?case using Nil.hyps by (simp add: n run_simps delete_run mark_frame flip: Nil.hyps)
next
  case (Cons u us)
  then have p: "pending s = u # us" by simp
  obtain n where n: "fuel = Suc n" "length us < n" using Cons.prems(3) p by (cases fuel) auto
  let ?s = "s\<lparr>live_handles := live_handles s - handle_count h\<rparr>"
  let ?s' = "(eat s)\<lparr>live_handles := live_handles s - handle_count h + 1\<rparr>"
  have src: "src ?s = (Ok (Some u), ?s')"
    using src_next [of ?s u] p by (simp add: pending_frame eat_frame)
  have us: "us = pending ?s'" using pending_eat [OF p] by (simp add: pending_frame)
  have "seek n src test (Some u) ?s' = (Ok None, (mark ((eat ^^ length (pending ?s')) ?s'))\<lparr>live_handles :=
      live_handles ?s' - handle_count (Some u)\<rparr>)"
    using Cons.prems complete_eat [OF Cons.prems(1) p] n us p
    by (intro Cons.hyps(1) [OF us]) (auto simp: complete_frame)
  moreover have "test (Some u) t = (Ok False, t)" for t using Cons.prems(2) p by simp
  ultimately show ?case using src us p
    by (simp add: n run_simps delete_run eat_n_frame eat_frame mark_frame funpow_swap1 pending_frame)
qed

lemma seek_missing:
  assumes "complete s"
    and "\<forall>u \<in> set (pending s). \<forall>t. test (Some u) t = (Ok False, t)"
    and "length (pending s) < fuel"
  shows "seek fuel src test None s = (Ok None, mark ((eat ^^ length (pending s)) s))"
  using seek_missing_from [OF assms, of None]
  by (simp add: eat_n_live mark_live)

text \<open>Records that are not wanted are read and deleted.\<close>

lemma seek_skip:
  assumes "pending s = us @ vs" "\<forall>u \<in> set us. \<forall>t. test (Some u) t = (Ok False, t)" "us \<noteq> []"
  shows "seek (length us + n) src test h s = seek n src test (Some (last us))
    (((eat ^^ length us) s)\<lparr>live_handles := live_handles s - handle_count h + 1\<rparr>)"
  using assms
proof (induction us arbitrary: s h)
  case (Cons u us)
  let ?s = "s\<lparr>live_handles := live_handles s - handle_count h\<rparr>"
  let ?s' = "(eat s)\<lparr>live_handles := live_handles s - handle_count h + 1\<rparr>"
  have "src ?s = (Ok (Some u), ?s')"
    using src_next [of ?s u] Cons.prems(1) by (simp add: pending_frame eat_frame)
  then have one: "seek (length (u # us) + n) src test h s = seek (length us + n) src test (Some u) ?s'"
    using Cons.prems(2) by (simp add: run_simps delete_run)
  show ?case
  proof (cases "us = []")
    case False
    have "pending ?s' = us @ vs" using pending_eat Cons.prems(1) by (simp add: pending_frame)
    with Cons.IH [of ?s' "Some u"] Cons.prems(2) False one show ?thesis
      by (simp add: eat_n_frame eat_frame funpow_swap1)
  qed (use one in simp)
qed simp

text \<open>The first half of the two-record loop finds its record and goes on to the second.\<close>

lemma pair_first:
  assumes "pending s = us @ g # vs"
    and "\<forall>u \<in> set us. \<forall>t. test (Some u) t = (Ok None, t)"
    and "\<forall>t. test (Some g) t = (Ok (Some v), t)"
  shows "pair_loop (Suc (length us + n)) src src2 test (h, False, v1) (None, False, v2) s =
    pair_loop n src src2 test (Some g, True, v) (None, False, v2)
      (((eat ^^ Suc (length us)) s)\<lparr>live_handles := live_handles s - handle_count h + 1\<rparr>)"
  using assms
proof (induction us arbitrary: s h)
  case Nil
  let ?s = "s\<lparr>live_handles := live_handles s - handle_count h\<rparr>"
  have "src ?s = (Ok (Some g), (eat ?s)\<lparr>live_handles := live_handles ?s + 1\<rparr>)"
    using Nil.prems(1) by (intro src_next) (simp add: pending_frame)
  then show ?case using Nil.prems
    by (cases h) (simp_all add: run_simps delete_run eat_frame)
next
  case (Cons u us)
  let ?s = "s\<lparr>live_handles := live_handles s - handle_count h\<rparr>"
  let ?s' = "(eat s)\<lparr>live_handles := live_handles s - handle_count h + 1\<rparr>"
  have src: "src ?s = (Ok (Some u), ?s')"
    using src_next [of ?s u] Cons.prems(1) by (simp add: pending_frame eat_frame)
  have "pending ?s' = us @ g # vs"
    using pending_eat Cons.prems(1) by (simp add: pending_frame)
  then have "pair_loop (Suc (length us + n)) src src2 test (Some u, False, v1) (None, False, v2) ?s' =
    pair_loop n src src2 test (Some g, True, v) (None, False, v2)
      (((eat ^^ Suc (length us)) ?s')\<lparr>live_handles := live_handles ?s' - handle_count (Some u) + 1\<rparr>)"
    using Cons.prems by (intro Cons.IH) auto
  moreover have "test (Some u) t = (Ok None, t)" for t using Cons.prems(2) by simp
  ultimately show ?case using src
    by (cases h) (simp_all add: run_simps delete_run eat_n_frame eat_frame funpow_swap1)
qed

lemma pair_second:
  assumes "pending s = us @ g # vs"
    and "\<forall>u \<in> set us. \<forall>t. test (Some u) t = (Ok None, t)"
    and "\<forall>t. test (Some g) t = (Ok (Some v), t)"
    and "length us + 1 < fuel"
  shows "pair_loop fuel src1 src test (Some g1, True, v1) (h, False, v2) s =
    (Ok (Some ((Some g1, v1), (Some g, v))),
      ((eat ^^ Suc (length us)) s)\<lparr>live_handles := live_handles s - handle_count h + 1\<rparr>)"
  using assms
proof (induction us arbitrary: s h fuel)
  case Nil
  then obtain n where n: "fuel = Suc (Suc n)" by (cases fuel; cases "fuel - 1") auto
  let ?s = "s\<lparr>live_handles := live_handles s - handle_count h\<rparr>"
  have "src ?s = (Ok (Some g), (eat ?s)\<lparr>live_handles := live_handles ?s + 1\<rparr>)"
    using Nil.prems(1) by (intro src_next) (simp add: pending_frame)
  then show ?case using Nil.prems
    by (cases h) (simp_all add: n run_simps delete_run eat_frame)
next
  case (Cons u us)
  then obtain n where n: "fuel = Suc n" "length us + 1 < n" by (cases fuel) auto
  let ?s = "s\<lparr>live_handles := live_handles s - handle_count h\<rparr>"
  let ?s' = "(eat s)\<lparr>live_handles := live_handles s - handle_count h + 1\<rparr>"
  have src: "src ?s = (Ok (Some u), ?s')"
    using src_next [of ?s u] Cons.prems(1) by (simp add: pending_frame eat_frame)
  have "pending ?s' = us @ g # vs"
    using pending_eat Cons.prems(1) by (simp add: pending_frame)
  then have "pair_loop n src1 src test (Some g1, True, v1) (Some u, False, v2) ?s' =
    (Ok (Some ((Some g1, v1), (Some g, v))), ((eat ^^ Suc (length us)) ?s')\<lparr>live_handles :=
      live_handles ?s' - handle_count (Some u) + 1\<rparr>)"
    using Cons.prems n by (intro Cons.IH) auto
  moreover have "test (Some u) t = (Ok None, t)" for t using Cons.prems(2) by simp
  ultimately show ?case using src
    by (cases h) (simp_all add: n run_simps delete_run eat_n_frame eat_frame funpow_swap1)
qed

end

subsection \<open>The sources the program reads from\<close>

fun readable :: "(int + 'g) list \<Rightarrow> 'g list" where
  "readable (Inr g # xs) = g # readable xs"
| "readable _ = []"

definition all_readable :: "(int + 'g) list \<Rightarrow> bool" where
  "all_readable xs \<longleftrightarrow> length (readable xs) = length xs"

definition rest :: "stream \<Rightarrow> 'g world \<Rightarrow> (int + 'g) list" where
  "rest w s = (case stream_of w s of None \<Rightarrow> [] | Some f \<Rightarrow> drop (file_pos f) (file_items f))"

definition advance :: "stream \<Rightarrow> 'g world \<Rightarrow> 'g world" where
  "advance w s = (case stream_of w s of
      None \<Rightarrow> s | Some f \<Rightarrow> set_stream w (f\<lparr>file_pos := Suc (file_pos f)\<rparr>) s)"

definition at_eof :: "stream \<Rightarrow> 'g world \<Rightarrow> 'g world" where
  "at_eof w s = (case stream_of w s of
      None \<Rightarrow> s | Some f \<Rightarrow> set_stream w (f\<lparr>file_eof := True\<rparr>) s)"

lemma readable_map [simp]: "readable (map Inr gs) = gs"
  by (induction gs) simp_all

lemma readable_append_map: "readable (map Inr gs @ xs) = gs @ readable xs"
  by (induction gs) simp_all

lemma all_readable_map [simp]: "all_readable (map Inr gs)"
  by (simp add: all_readable_def)

lemma length_readable: "length (readable xs) \<le> length xs"
  by (induction xs rule: readable.induct) simp_all

lemma all_readable_Cons [simp]: "all_readable (Inr g # xs) = all_readable xs"
  by (simp add: all_readable_def)

lemma all_readable_Nil [simp]: "all_readable []"
  by (simp add: all_readable_def)

lemma readable_Cons: "readable xs = g # gs \<Longrightarrow> \<exists>ys. xs = Inr g # ys \<and> readable ys = gs"
  by (cases xs rule: readable.cases) auto

lemma all_readable_empty: "all_readable xs \<Longrightarrow> readable xs = [] \<Longrightarrow> xs = []"
  by (simp add: all_readable_def)

lemma stream_of_live [simp]: "stream_of w (s\<lparr>live_handles := n\<rparr>) = stream_of w s"
  by (cases w) simp_all

lemma set_stream_live [simp]:
  "set_stream w f (s\<lparr>live_handles := n\<rparr>) = (set_stream w f s)\<lparr>live_handles := n\<rparr>"
  by (cases w) simp_all

lemma live_set_stream [simp]: "live_handles (set_stream w f s) = live_handles s"
  by (cases w) simp_all

lemma stream_of_set_stream [simp]: "stream_of w (set_stream w f s) = Some f"
  by (cases w) simp_all

lemma rest_Cons:
  assumes "rest w s = x # xs"
  obtains f where "stream_of w s = Some f" "file_pos f < length (file_items f)"
    "file_items f ! file_pos f = x" "drop (Suc (file_pos f)) (file_items f) = xs"
proof (cases "stream_of w s")
  case None
  then show ?thesis using assms by (simp add: rest_def)
next
  case (Some f)
  then have d: "drop (file_pos f) (file_items f) = x # xs" using assms by (simp add: rest_def)
  then have "file_pos f < length (file_items f)" by (metis drop_all linorder_not_le list.distinct(1))
  then show ?thesis using that [OF Some] d by (metis Cons_nth_drop_Suc list.inject)
qed

lemma rest_advance: "rest w s = x # xs \<Longrightarrow> rest w (advance w s) = xs"
  by (erule rest_Cons) (simp add: advance_def rest_def)

lemma rest_live [simp]: "rest w (s\<lparr>live_handles := n\<rparr>) = rest w s"
  by (simp add: rest_def)

lemma advance_live [simp]: "advance w (s\<lparr>live_handles := n\<rparr>) = (advance w s)\<lparr>live_handles := n\<rparr>"
  by (simp add: advance_def split: option.split)

lemma at_eof_live [simp]: "at_eof w (s\<lparr>live_handles := n\<rparr>) = (at_eof w s)\<lparr>live_handles := n\<rparr>"
  by (simp add: at_eof_def split: option.split)

lemma live_advance [simp]: "live_handles (advance w s) = live_handles s"
  by (simp add: advance_def split: option.split)

lemma live_at_eof [simp]: "live_handles (at_eof w s) = live_handles s"
  by (simp add: at_eof_def split: option.split)

lemma read_next: "rest w s = Inr g # xs \<Longrightarrow>
    grib_handle_new_from_file w s = (Ok (Some g), (advance w s)\<lparr>live_handles := live_handles s + 1\<rparr>)"
  by (erule rest_Cons) (simp add: grib_handle_new_from_file_def advance_def run_simps)

lemma read_end: "rest w s = [] \<Longrightarrow> grib_handle_new_from_file w s = (Ok None, at_eof w s)"
  by (auto simp: rest_def grib_handle_new_from_file_def at_eof_def split: option.splits)

text \<open>One file.\<close>

lemma file_source: "record_source (grib_handle_new_from_file w) (\<lambda>s. readable (rest w s)) (advance w)
    (\<lambda>s. all_readable (rest w s)) (at_eof w)"
proof unfold_locales
  fix s g gs
  assume "readable (rest w s) = g # gs"
  then obtain ys where "rest w s = Inr g # ys" "readable ys = gs" by (blast dest: readable_Cons)
  then show "grib_handle_new_from_file w s = (Ok (Some g), (advance w s)\<lparr>live_handles := live_handles s + 1\<rparr>)"
    "readable (rest w (advance w s)) = gs"
    "all_readable (rest w s) \<Longrightarrow> all_readable (rest w (advance w s))"
    by (simp_all add: read_next rest_advance)
qed (simp_all add: read_end all_readable_empty)

interpretation a_src: record_source "grib_handle_new_from_file AFile"
  "\<lambda>s. readable (rest AFile s)" "advance AFile" "\<lambda>s. all_readable (rest AFile s)" "at_eof AFile"
  by (rule file_source)

interpretation b_src: record_source "grib_handle_new_from_file BFile"
  "\<lambda>s. readable (rest BFile s)" "advance BFile" "\<lambda>s. all_readable (rest BFile s)" "at_eof BFile"
  by (rule file_source)

text \<open>The a file, then the b file.\<close>

definition ab_pending :: "'g world \<Rightarrow> 'g list" where
  "ab_pending s = readable (rest AFile s) @ (if all_readable (rest AFile s) then readable (rest BFile s) else [])"

definition ab_eat :: "'g world \<Rightarrow> 'g world" where
  "ab_eat s = (if rest AFile s = [] then advance BFile (at_eof AFile s) else advance AFile s)"

definition ab_complete :: "'g world \<Rightarrow> bool" where
  "ab_complete s \<longleftrightarrow> all_readable (rest AFile s) \<and> all_readable (rest BFile s)"

definition ab_mark :: "'g world \<Rightarrow> 'g world" where
  "ab_mark s = at_eof BFile (at_eof AFile s)"

lemma rest_other [simp]:
  "rest BFile (advance AFile s) = rest BFile s" "rest BFile (at_eof AFile s) = rest BFile s"
  "rest AFile (advance BFile s) = rest AFile s" "rest AFile (at_eof BFile s) = rest AFile s"
  "rest AFile (at_eof AFile s) = rest AFile s"
  by (simp_all add: rest_def advance_def at_eof_def split: option.split)

interpretation ab_src: record_source next_a_then_b ab_pending ab_eat ab_complete ab_mark
proof unfold_locales
  fix s :: "'g world" and g gs
  assume p: "ab_pending s = g # gs"
  show "next_a_then_b s = (Ok (Some g), (ab_eat s)\<lparr>live_handles := live_handles s + 1\<rparr>)"
    and "ab_pending (ab_eat s) = gs"
    and "ab_complete s \<Longrightarrow> ab_complete (ab_eat s)"
  proof (atomize (full), cases "readable (rest AFile s)")
    case Nil
    then have "all_readable (rest AFile s)" "readable (rest BFile s) = g # gs"
      using p by (simp_all add: ab_pending_def split: if_splits)
    moreover from this Nil have "rest AFile s = []" by (simp add: all_readable_empty)
    ultimately show "next_a_then_b s = (Ok (Some g), (ab_eat s)\<lparr>live_handles := live_handles s + 1\<rparr>) \<and>
        ab_pending (ab_eat s) = gs \<and> (ab_complete s \<longrightarrow> ab_complete (ab_eat s))"
      by (auto dest!: readable_Cons simp: next_a_then_b_def ab_eat_def ab_pending_def ab_complete_def
          run_simps read_end read_next rest_advance)
  next
    case (Cons g' gs')
    then obtain ys where "rest AFile s = Inr g' # ys" "readable ys = gs'" by (blast dest: readable_Cons)
    with p show "next_a_then_b s = (Ok (Some g), (ab_eat s)\<lparr>live_handles := live_handles s + 1\<rparr>) \<and>
        ab_pending (ab_eat s) = gs \<and> (ab_complete s \<longrightarrow> ab_complete (ab_eat s))"
      by (auto simp: next_a_then_b_def ab_eat_def ab_pending_def ab_complete_def run_simps read_next rest_advance)
  qed
next
  fix s :: "'g world"
  assume "ab_complete s" "ab_pending s = []"
  then have "rest AFile s = []" "rest BFile s = []"
    by (auto simp: ab_complete_def ab_pending_def all_readable_empty)
  then show "next_a_then_b s = (Ok None, ab_mark s)"
    by (simp add: next_a_then_b_def ab_mark_def run_simps read_end)
qed (simp_all add: ab_pending_def ab_eat_def ab_complete_def ab_mark_def)

subsection \<open>Rewinding forgets how far a search went\<close>

definition rewound :: "'g gfile \<Rightarrow> 'g gfile" where
  "rewound f = f\<lparr>file_pos := 0, file_eof := False\<rparr>"

lemma rewind_run [run_simps]:
  "aFile s = Some f \<Longrightarrow> rewind AFile s = (Ok (), s\<lparr>aFile := Some (rewound f)\<rparr>)"
  "bFile s = Some f \<Longrightarrow> rewind BFile s = (Ok (), s\<lparr>bFile := Some (rewound f)\<rparr>)"
  by (simp_all add: rewind_def rewound_def)

lemma rewound_simps [simp]:
  "rewound (f\<lparr>file_pos := p\<rparr>) = rewound f" "rewound (f\<lparr>file_eof := e\<rparr>) = rewound f"
  "rewound (rewound f) = rewound f" "file_items (rewound f) = file_items f"
  "file_pos (rewound f) = 0"
  by (simp_all add: rewound_def)

lemma advance_a_n: "aFile s = Some f \<Longrightarrow>
    (advance AFile ^^ n) s = s\<lparr>aFile := Some (f\<lparr>file_pos := file_pos f + n\<rparr>)\<rparr>"
  by (induction n) (simp_all add: advance_def)

lemma advance_b_n: "bFile s = Some f \<Longrightarrow>
    (advance BFile ^^ n) s = s\<lparr>bFile := Some (f\<lparr>file_pos := file_pos f + n\<rparr>)\<rparr>"
  by (induction n) (simp_all add: advance_def)

lemma ab_eat_n:
  assumes "aFile s = Some fa" "bFile s = Some fb"
  shows "\<exists>p q e. (ab_eat ^^ n) s =
    s\<lparr>aFile := Some (fa\<lparr>file_pos := p, file_eof := e\<rparr>), bFile := Some (fb\<lparr>file_pos := q\<rparr>)\<rparr>"
proof (induction n)
  case 0
  have "s = s\<lparr>aFile := Some (fa\<lparr>file_pos := file_pos fa, file_eof := file_eof fa\<rparr>),
      bFile := Some (fb\<lparr>file_pos := file_pos fb\<rparr>)\<rparr>" using assms by simp
  then show ?case by (metis funpow_0)
next
  case (Suc n)
  then obtain p q e where "(ab_eat ^^ n) s =
      s\<lparr>aFile := Some (fa\<lparr>file_pos := p, file_eof := e\<rparr>), bFile := Some (fb\<lparr>file_pos := q\<rparr>)\<rparr>" by blast
  then have "(ab_eat ^^ Suc n) s = (if rest AFile ((ab_eat ^^ n) s) = []
      then s\<lparr>aFile := Some (fa\<lparr>file_pos := p, file_eof := True\<rparr>), bFile := Some (fb\<lparr>file_pos := Suc q\<rparr>)\<rparr>
      else s\<lparr>aFile := Some (fa\<lparr>file_pos := Suc p, file_eof := e\<rparr>), bFile := Some (fb\<lparr>file_pos := q\<rparr>)\<rparr>)"
    by (simp add: ab_eat_def advance_def at_eof_def)
  then show ?case by metis
qed

end
