(* ===== verification/GribRecord.thy ===== *)
theory GribRecord
  imports RecordSearch
begin

text \<open>
  The record template of \<open>src/src/newGribRecord.c\<close>. The long run of
  \<open>GRIB_CHECK(grib_set_long(h, key, value), 0)\<close> is a list of settings in the order of the
  code, applied one after the other until one fails.
\<close>

subsection \<open>newGribRecord\<close>

definition section0_settings :: "setting list" where
  "section0_settings = [SetLong ''discipline'' 0, SetLong ''editionNumber'' 2]"

definition section1_settings :: "int \<Rightarrow> int \<Rightarrow> int \<Rightarrow> int \<Rightarrow> int \<Rightarrow> setting list" where
  "section1_settings yyyy mm dd hh em =
     [SetLong ''centre'' 7,
      SetLong ''subCentre'' 2,
      SetLong ''tablesVersion'' 4,
      SetLong ''localTablesVersion'' 0,
      SetLong ''significanceOfReferenceTime'' 1,
      SetLong ''year'' yyyy,
      SetLong ''month'' mm,
      SetLong ''day'' dd,
      SetLong ''hour'' hh,
      SetLong ''minute'' 0,
      SetLong ''second'' 0,
      SetLong ''productionStatusOfProcessedData'' 4,
      (if em = 0 then SetLong ''typeOfProcessedData'' 3 else SetLong ''typeOfProcessedData'' 4)]"

definition lat_increment :: "int \<Rightarrow> int" where
  "lat_increment n_lat = cdiv 180000000 (n_lat - 1)"

definition lon_increment :: "int \<Rightarrow> int" where
  "lon_increment n_lon = cdiv 360000000 n_lon"

definition section3_settings :: "int \<Rightarrow> int \<Rightarrow> setting list" where
  "section3_settings n_lat n_lon =
     [SetLong ''sourceOfGridDefinition'' 0,
      SetLong ''numberOfOctectsForNumberOfPoints'' 0,
      SetLong ''interpretationOfNumberOfPoints'' 0,
      SetLong ''gridDefinitionTemplateNumber'' 0,
      SetLong ''shapeOfTheEarth'' 6,
      SetLong ''scaleFactorOfRadiusOfSphericalEarth'' 0,
      SetLong ''scaledValueOfRadiusOfSphericalEarth'' 0,
      SetLong ''scaleFactorOfEarthMajorAxis'' 0,
      SetLong ''scaledValueOfEarthMajorAxis'' 0,
      SetLong ''scaleFactorOfEarthMinorAxis'' 0,
      SetLong ''scaledValueOfEarthMinorAxis'' 0,
      SetLong ''Ni'' n_lon,
      SetLong ''Nj'' n_lat,
      SetLong ''basicAngleOfTheInitialProductionDomain'' 0,
      SetLong ''subdivisionsOfBasicAngle'' 0,
      SetLong ''latitudeOfFirstGridPoint'' 90000000,
      SetLong ''longitudeOfFirstGridPoint'' 0,
      SetLong ''resolutionAndComponentFlags'' 48,
      SetLong ''latitudeOfLastGridPoint'' (- 90000000),
      SetLong ''longitudeOfLastGridPoint'' (360000000 - lon_increment n_lon),
      SetLong ''iDirectionIncrement'' (lon_increment n_lon),
      SetLong ''jDirectionIncrement'' (lat_increment n_lat),
      SetLong ''scanningMode'' 0,
      SetMissing ''subdivisionsOfBasicAngle'']"

definition section4_settings :: "int \<Rightarrow> int \<Rightarrow> int \<Rightarrow> int \<Rightarrow> int \<Rightarrow> int \<Rightarrow> setting list" where
  "section4_settings yyyy mm dd hh fff em =
     [SetLong ''numberOfCoordinatesValues'' 0,
      SetLong ''productDefinitionTemplateNumber'' 1,
      SetLong ''typeOfGeneratingProcess'' 4,
      SetLong ''backgroundProcess'' 0,
      SetLong ''generatingProcessIdentifier'' (get_gen_proc_id yyyy mm dd hh),
      SetLong ''hoursAfterDataCutoff'' 0,
      SetLong ''minutesAfterDataCutoff'' 0,
      SetLong ''indicatorOfUnitOfTimeRange'' 1,
      SetLong ''forecastTime'' fff,
      (if em = 0 then SetLong ''typeOfEnsembleForecast'' 1 else SetLong ''typeOfEnsembleForecast'' 3),
      SetLong ''perturbationNumber'' em,
      SetLong ''numberOfForecastsInEnsemble'' (get_n_members yyyy mm dd hh)]"

definition section5_6_settings :: "int \<Rightarrow> int \<Rightarrow> setting list" where
  "section5_6_settings n_lat n_lon =
     [SetLong ''numberOfValues'' (n_lat * n_lon),
      SetLong ''dataRepresentationTemplateNumber'' 40,
      SetLong ''bitsPerValue'' 14,
      SetLong ''typeOfOriginalFieldValues'' 0,
      SetLong ''typeOfCompressionUsed'' 0,
      SetLong ''targetCompressionRatio'' 255,
      SetLong ''bitMapIndicator'' 255]"

definition newGribRecord_settings ::
  "int \<Rightarrow> int \<Rightarrow> int \<Rightarrow> int \<Rightarrow> int \<Rightarrow> int \<Rightarrow> int \<Rightarrow> int \<Rightarrow> setting list" where
  "newGribRecord_settings yyyy mm dd hh fff em n_lat n_lon =
     section0_settings @ section1_settings yyyy mm dd hh em @ section3_settings n_lat n_lon @
     section4_settings yyyy mm dd hh fff em @ section5_6_settings n_lat n_lon"

definition newGribRecord ::
  "'g platform \<Rightarrow> int \<Rightarrow> int \<Rightarrow> int \<Rightarrow> int \<Rightarrow> int \<Rightarrow> int \<Rightarrow> int \<Rightarrow> int \<Rightarrow> ('g world, 'g option) prog" where
  "newGribRecord P yyyy mm dd hh fff em n_lat n_lon =
     bnd (grib_handle_new_from_template P ''GRIB2'') (\<lambda>h.
     if h = None then ret None
     else bnd (grib_set P h (newGribRecord_settings yyyy mm dd hh fff em n_lat n_lon)) (\<lambda>h.
          bnd (grib_get_message P h) (\<lambda>buffer.
          ret h)))"

subsection \<open>newBlankGribRecord\<close>

definition blank_settings :: "int \<Rightarrow> int \<Rightarrow> int \<Rightarrow> int \<Rightarrow> setting list" where
  "blank_settings discipline category parmNumber firstLevelType =
     [SetLong ''discipline'' discipline,
      SetLong ''parameterCategory'' category,
      SetLong ''parameterNumber'' parmNumber,
      SetLong ''typeOfFirstFixedSurface'' firstLevelType]"

definition newBlankGribRecord ::
  "'g platform \<Rightarrow> int \<Rightarrow> int \<Rightarrow> int \<Rightarrow> int \<Rightarrow> int \<Rightarrow> int \<Rightarrow> ('g world, 'g option) prog" where
  "newBlankGribRecord P discipline category parmNumber firstLevelType n_lat n_lon =
     bnd (newGribRecord P 0 0 0 0 0 0 n_lat n_lon) (\<lambda>tmp.
     bnd (grib_set P tmp (blank_settings discipline category parmNumber firstLevelType)) (\<lambda>tmp.
     bnd (calloc_doubles P (nat (n_lat * n_lon))) (\<lambda>v.
     bnd (or_exit1 v) (\<lambda>v.
     bnd (grib_set_double_array P tmp ''values'' (map (\<lambda>_. Fin 0) v)) (\<lambda>tmp.
     seq (free (Some v)) (
     ret tmp))))))"

subsection \<open>What a finished record is\<close>

text \<open>
  \<open>base_record P base g\<close>: the template takes all of \<open>base\<close>, giving \<open>g\<close>.
  \<open>produces P base meta vs m\<close>: that record then takes the settings \<open>meta\<close> and the
  data \<open>vs\<close>, and \<open>m\<close> is the message of the result.
\<close>

definition base_record :: "'g platform \<Rightarrow> setting list \<Rightarrow> 'g \<Rightarrow> bool" where
  "base_record P base g \<longleftrightarrow> (\<exists>t m. handle_from_template (grib P) ''GRIB2'' = Some t \<and>
     apply_settings (grib P) t base = Inr g \<and> api_message (grib P) g = Inr m)"

definition produces :: "'g platform \<Rightarrow> setting list \<Rightarrow> setting list \<Rightarrow> cdouble list \<Rightarrow> byte list \<Rightarrow> bool" where
  "produces P base meta vs m \<longleftrightarrow> (\<exists>g0 g1 g2. base_record P base g0 \<and>
     apply_settings (grib P) g0 meta = Inr g1 \<and> api_set_doubles (grib P) g1 ''values'' vs = Inr g2 \<and>
     api_message (grib P) g2 = Inr m)"

lemma newGribRecord_run:
  "base_record P (newGribRecord_settings yyyy mm dd hh fff em n_lat n_lon) g \<Longrightarrow>
   newGribRecord P yyyy mm dd hh fff em n_lat n_lon s = (Ok (Some g), s\<lparr>live_handles := live_handles s + 1\<rparr>)"
  by (auto simp: base_record_def newGribRecord_def grib_handle_new_from_template_def run_simps)

lemma newGribRecord_no_template:
  "handle_from_template (grib P) ''GRIB2'' = None \<Longrightarrow>
   newGribRecord P yyyy mm dd hh fff em n_lat n_lon s = (Ok None, s)"
  by (simp add: newGribRecord_def grib_handle_new_from_template_def run_simps)

lemma producesE:
  assumes "produces P base meta vs m"
  obtains g0 g1 g2 where "base_record P base g0" "apply_settings (grib P) g0 meta = Inr g1"
    "api_set_doubles (grib P) g1 ''values'' vs = Inr g2" "api_message (grib P) g2 = Inr m"
  using assms by (auto simp: produces_def)

lemma newBlankGribRecord_run:
  assumes "base_record P (newGribRecord_settings 0 0 0 0 0 0 n_lat n_lon) g0"
    and "apply_settings (grib P) g0 (blank_settings d c n l) = Inr g1"
    and "api_set_doubles (grib P) g1 ''values'' (replicate (nat (n_lat * n_lon)) (Fin 0)) = Inr g2"
    and "alloc_ok P (allocations s)"
  shows "newBlankGribRecord P d c n l n_lat n_lon s =
    (Ok (Some g2), s\<lparr>live_handles := live_handles s + 1, allocations := Suc (allocations s)\<rparr>)"
  using assms by (simp add: newBlankGribRecord_def newGribRecord_run run_simps map_replicate_const)

subsection \<open>The grid that is written\<close>

lemma grid_spacing:
  assumes "n_lat = get_n_lat yyyy mm dd hh" "n_lon = get_n_lon yyyy mm dd hh"
  shows "90000000 - (n_lat - 1) * lat_increment n_lat = - 90000000"
    "(n_lon - 1) * lon_increment n_lon = 360000000 - lon_increment n_lon"
  using assms by (simp_all add: get_n_lat_def get_n_lon_def lat_increment_def lon_increment_def)

end
