(* ===== verification/SavedRecords.thy ===== *)
theory SavedRecords
  imports GribRecord
begin

text \<open>
  The arrays of saved records of \<open>src/src/loadDataForVariable.c\<close>: one array of pointers per
  time-integrated variable, grown by one record per forecast hour and emptied after each
  ensemble member. The global \<open>numberOfSavedRecords\<close> holds how many records an array has
  and \<open>bytesPerRecord\<close> their sizes.
\<close>

text \<open>A cell of such an array: never written, the NULL pointer, or a block with these bytes.\<close>

datatype saved = Indet | NullPtr | Block "byte list"

text \<open>\<open>void**\<close>; \<open>None\<close> is NULL.\<close>

type_synonym buffers = "saved list option"

definition SAVED_COLUMNS :: nat where
  "SAVED_COLUMNS = (FORECAST_HOURS div 6 + 1) * 2"

definition valid_index :: "int \<Rightarrow> bool" where
  "valid_index varName \<longleftrightarrow> 0 \<le> varName \<and> varName < int NUMBER_OF_VARIABLES"

text \<open>
  \<open>realloc\<close> to \<open>n\<close> pointers: the old cells are kept as far as they fit, new ones are
  not initialised; a NULL array gets a new block.
\<close>

definition realloc_cells :: "'g platform \<Rightarrow> buffers \<Rightarrow> nat \<Rightarrow> ('g world, buffers) prog" where
  "realloc_cells P array n = bnd (alloc_block P) (\<lambda>ok.
     if \<not> ok then ret None
     else let old = (case array of None \<Rightarrow> [] | Some xs \<Rightarrow> xs) in
       seq (only_if (array \<noteq> None) (upd (\<lambda>s. s\<lparr>live_blocks := live_blocks s - 1\<rparr>))) (
       ret (Some (take n (old @ replicate n Indet)))))"

definition addGribRecordToArray ::
  "'g platform \<Rightarrow> int \<Rightarrow> buffers \<Rightarrow> byte list \<Rightarrow> ('g world, buffers) prog" where
  "addGribRecordToArray P varName array record =
     (if \<not> valid_index varName then crash else
      bnd (rd (\<lambda>s. numberOfSavedRecords s varName)) (\<lambda>prevSize.
      bnd (realloc_cells P array (prevSize + 1)) (\<lambda>tempArray.
      bnd (or_exit1 tempArray) (\<lambda>array.
      bnd (alloc_block P) (\<lambda>ok.
      if \<not> ok then crash
      else if SAVED_COLUMNS \<le> prevSize then crash
      else
        seq (upd (\<lambda>s. s\<lparr>bytesPerRecord := (bytesPerRecord s)
               (varName := (bytesPerRecord s varName)(prevSize := int (length record)))\<rparr>)) (
        seq (upd (\<lambda>s. s\<lparr>numberOfSavedRecords := (numberOfSavedRecords s)
               (varName := numberOfSavedRecords s varName + 1)\<rparr>)) (
        ret (Some (array[prevSize := Block record])))))))))"

text \<open>\<open>for(i = 0; i < n; i++) { free(array[i]); array[i] = NULL; }\<close>\<close>

definition free_cell :: "nat \<Rightarrow> buffers \<Rightarrow> ('g world, buffers) prog" where
  "free_cell i array = (case array of
      None \<Rightarrow> crash
    | Some cs \<Rightarrow>
        if length cs \<le> i then crash
        else (case cs ! i of
           Indet \<Rightarrow> crash
         | NullPtr \<Rightarrow> ret (Some (cs[i := NullPtr]))
         | Block _ \<Rightarrow> seq (upd (\<lambda>s. s\<lparr>live_blocks := live_blocks s - 1\<rparr>))
                        (ret (Some (cs[i := NullPtr])))))"

definition freeDataForVariable :: "int \<Rightarrow> buffers \<Rightarrow> ('g world, buffers) prog" where
  "freeDataForVariable varName array =
     (if \<not> valid_index varName then crash else
      bnd (rd (\<lambda>s. numberOfSavedRecords s varName)) (\<lambda>n.
      bnd (for_each [0..<n] free_cell array) (\<lambda>array.
      seq (upd (\<lambda>s. s\<lparr>numberOfSavedRecords := (numberOfSavedRecords s)(varName := 0)\<rparr>)) (
      ret array))))"

subsection \<open>The list an array stands for\<close>

definition holds :: "int \<Rightarrow> 'g world \<Rightarrow> buffers \<Rightarrow> byte list list \<Rightarrow> bool" where
  "holds v s array ms \<longleftrightarrow> numberOfSavedRecords s v = length ms \<and>
     (\<forall>i < length ms. bytesPerRecord s v i = int (length (ms ! i))) \<and>
     (ms \<noteq> [] \<longrightarrow> array = Some (map Block ms))"

text \<open>The bookkeeping of the other variables.\<close>

definition others_same :: "int \<Rightarrow> 'g world \<Rightarrow> 'g world \<Rightarrow> bool" where
  "others_same v s s' \<longleftrightarrow> (\<forall>w. w \<noteq> v \<longrightarrow> numberOfSavedRecords s' w = numberOfSavedRecords s w \<and>
     bytesPerRecord s' w = bytesPerRecord s w)"

definition allocs_succeed :: "'g platform \<Rightarrow> bool" where
  "allocs_succeed P \<longleftrightarrow> (\<forall>k. alloc_ok P k)"

lemma realloc_cells_run [run_simps]:
  "allocs_succeed P \<Longrightarrow> realloc_cells P array n s =
     (Ok (Some (take n ((case array of None \<Rightarrow> [] | Some xs \<Rightarrow> xs) @ replicate n Indet))),
      s\<lparr>allocations := Suc (allocations s), live_blocks := live_blocks s + (if array = None then 1 else 0)\<rparr>)"
  by (cases array) (simp_all add: realloc_cells_def allocs_succeed_def run_simps)

definition saved_state :: "int \<Rightarrow> buffers \<Rightarrow> byte list \<Rightarrow> 'g world \<Rightarrow> 'g world" where
  "saved_state v array m s = s\<lparr>
     allocations := allocations s + 2,
     live_blocks := live_blocks s + (if array = None then 2 else 1),
     bytesPerRecord := (bytesPerRecord s)
       (v := (bytesPerRecord s v)(numberOfSavedRecords s v := int (length m))),
     numberOfSavedRecords := (numberOfSavedRecords s)(v := numberOfSavedRecords s v + 1)\<rparr>"

lemma addGribRecordToArray_run:
  assumes "holds v s array ms" "valid_index v" "allocs_succeed P" "length ms < SAVED_COLUMNS"
  shows "addGribRecordToArray P v array m s = (Ok (Some (map Block (ms @ [m]))), saved_state v array m s)"
proof -
  have n: "numberOfSavedRecords s v = length ms" using assms by (simp add: holds_def)
  have "list_update (take (Suc (length ms))
        ((case array of None \<Rightarrow> [] | Some xs \<Rightarrow> xs) @ replicate (Suc (length ms)) Indet))
      (length ms) (Block m) = map Block (ms @ [m])"
  proof (cases "ms = []")
    case True
    then show ?thesis by (cases array; cases "the array") (simp_all add: take_Cons')
  next
    case False
    then show ?thesis using assms list_update_length [of "map Block ms" Indet "[]" "Block m"]
      by (simp add: holds_def)
  qed
  then show ?thesis
    using assms n by (cases array) (simp_all add: addGribRecordToArray_def saved_state_def run_simps
        allocs_succeed_def add.commute)
qed

lemma holds_saved_state:
  assumes "holds v s array ms"
  shows "holds v (saved_state v array m s) (Some (map Block (ms @ [m]))) (ms @ [m])"
  using assms by (auto simp: holds_def saved_state_def nth_append less_Suc_eq)

lemma holds_saved_state_other:
  "w \<noteq> v \<Longrightarrow> holds w (saved_state v array m s) a ms = holds w s a ms"
  by (simp add: holds_def saved_state_def)

lemma free_cells_run:
  assumes "k \<le> length ms"
  shows "for_each [0..<k] free_cell (Some (map Block ms)) s =
    (Ok (Some (replicate k NullPtr @ map Block (drop k ms))), s\<lparr>live_blocks := live_blocks s - int k\<rparr>)"
  using assms
proof (induction k)
  case (Suc k)
  then have d: "drop k ms = ms ! k # drop (Suc k) ms" by (simp add: Cons_nth_drop_Suc)
  show ?case using Suc
    by (simp add: for_each_append run_simps free_cell_def nth_append list_update_append d
        replicate_app_Cons_same)
qed (simp add: run_simps)

lemma freeDataForVariable_run:
  assumes "holds v s array ms" "valid_index v"
  shows "freeDataForVariable v array s =
    (Ok (if ms = [] then array else Some (replicate (length ms) NullPtr)),
     s\<lparr>live_blocks := live_blocks s - int (length ms),
       numberOfSavedRecords := (numberOfSavedRecords s)(v := 0)\<rparr>)"
  using assms free_cells_run [of "length ms" ms s]
  by (auto simp: freeDataForVariable_def holds_def run_simps)

subsection \<open>The interface of the store\<close>

locale record_store =
  fixes add :: "'a \<Rightarrow> byte list \<Rightarrow> ('s, 'a) prog"
    and clear :: "'a \<Rightarrow> ('s, 'a) prog"
    and view :: "'s \<Rightarrow> 'a \<Rightarrow> byte list list \<Rightarrow> bool"
    and limit :: nat
  assumes add_view: "view s a ms \<Longrightarrow> length ms < limit \<Longrightarrow>
      \<exists>a' s'. add a m s = (Ok a', s') \<and> view s' a' (ms @ [m])"
    and clear_view: "view s a ms \<Longrightarrow> \<exists>a' s'. clear a s = (Ok a', s') \<and> view s' a' []"
begin

lemma add_all:
  assumes "view s a ms" "length ms + length ns \<le> limit"
  shows "\<exists>a' s'. for_each ns (\<lambda>m a. add a m) a s = (Ok a', s') \<and> view s' a' (ms @ ns)"
  using assms
proof (induction ns arbitrary: s a ms)
  case Nil
  then show ?case by (simp add: run_simps)
next
  case (Cons n ns)
  then obtain a1 s1 where 1: "add a n s = (Ok a1, s1)" "view s1 a1 (ms @ [n])"
    using add_view [of s a ms n] by auto
  then show ?case using Cons.IH [OF 1(2)] Cons.prems by (simp add: run_simps)
qed

lemma refill:
  assumes "view s a ms" "length ns \<le> limit"
  shows "\<exists>a' s'. bnd (clear a) (for_each ns (\<lambda>m a. add a m)) s = (Ok a', s') \<and> view s' a' ns"
proof -
  obtain a1 s1 where 1: "clear a s = (Ok a1, s1)" "view s1 a1 []"
    using clear_view [OF assms(1)] by blast
  from add_all [OF 1(2), of ns] assms(2) 1(1) show ?thesis by (simp add: run_simps)
qed

end

interpretation store: record_store "addGribRecordToArray P v" "freeDataForVariable v"
    "\<lambda>s a ms. holds v s a ms \<and> valid_index v \<and> allocs_succeed P" SAVED_COLUMNS
  for P :: "'g platform" and v :: int
proof unfold_locales
  fix s :: "'g world" and a ms m
  assume h: "holds v s a ms \<and> valid_index v \<and> allocs_succeed P" and l: "length ms < SAVED_COLUMNS"
  show "\<exists>a' s'. addGribRecordToArray P v a m s = (Ok a', s') \<and>
      holds v s' a' (ms @ [m]) \<and> valid_index v \<and> allocs_succeed P"
    using h l addGribRecordToArray_run [of v s a ms P m] holds_saved_state [of v s a ms m] by blast
next
  fix s :: "'g world" and a ms
  assume h: "holds v s a ms \<and> valid_index v \<and> allocs_succeed P"
  then show "\<exists>a' s'. freeDataForVariable v a s = (Ok a', s') \<and>
      holds v s' a' [] \<and> valid_index v \<and> allocs_succeed P"
    using freeDataForVariable_run [of v s a ms] by (auto simp: holds_def)
qed

subsection \<open>What the store guarantees and what it does not\<close>

text \<open>C12. Freeing the records of a member and saving those of the next one leaves an array that stands for
  exactly the new records, with their sizes in \<open>bytesPerRecord\<close>, whatever was saved before; up to 130
  records fit.\<close>

theorem records_of_next_member:
  assumes "holds v s array ms" "valid_index v" "allocs_succeed P" "length ns \<le> SAVED_COLUMNS"
  shows "\<exists>array' s'. bnd (freeDataForVariable v array) (for_each ns (\<lambda>m a. addGribRecordToArray P v a m)) s =
      (Ok array', s') \<and> holds v s' array' ns"
  using store.refill [of v s array ms P ns] assms by auto

text \<open>C37. When the array pointer is lost (a loader returned NULL although records had been saved), the next
  record is put behind cells that were never initialised, and freeing the array then goes through these
  cells: undefined behaviour.\<close>

theorem lost_records:
  assumes "numberOfSavedRecords s v = n" "0 < n" "n < SAVED_COLUMNS" "valid_index v" "allocs_succeed P"
  shows "\<exists>s'. addGribRecordToArray P v None m s = (Ok (Some (replicate n Indet @ [Block m])), s') \<and>
    fst (freeDataForVariable v (Some (replicate n Indet @ [Block m])) s') = Crash"
proof -
  have "list_update (replicate n Indet @ [Indet]) n (Block m) = replicate n Indet @ [Block m]"
    using list_update_length [of "replicate n Indet" Indet "[]" "Block m"] by simp
  moreover have "fst (for_each [0..<Suc n] free_cell (Some (replicate n Indet @ [Block m])) t) = Crash" for t :: "'a world"
    using assms(2) by (simp add: upt_conv_Cons run_simps free_cell_def nth_append del: upt_Suc)
  ultimately show ?thesis using assms
    by (auto simp: addGribRecordToArray_def freeDataForVariable_def run_simps allocs_succeed_def
        replicate_append_same [symmetric] continue_Crash simp del: upt_Suc)
qed

end
