(* ===== verification/Calendar.thy ===== *)
theory Calendar
  imports TiggePrelude
begin

text \<open>
  The date arithmetic of \<open>src/src/util.c\<close>: \<open>struct dt\<close>, \<open>qleap\<close> and
  \<open>timeAdd\<close>, and the normalisation of a broken-down time by the standard library's
  \<open>mktime\<close> (in a time zone without offset), which \<open>generateSnowFallWaterEquivalent.c\<close>
  uses for the same purpose. The specification is the count of hours since the start of year 0
  of the proleptic Gregorian calendar; \<open>timeAdd\<close> is shown to return the one valid date
  whose count is the sum.
\<close>

subsection \<open>struct dt, qleap, timeAdd\<close>

record dt =
  yr :: int
  mo :: int
  dy :: int
  hr :: int
  mn :: int

definition qleap :: "int \<Rightarrow> bool" where
  "qleap year =
     (let y = year; i = cdiv y 4; i = i * 4 - y in
      if i \<noteq> 0 then False else
      let i = cdiv y 100; i = i * 100 - y in
      if i \<noteq> 0 then True else
      let i = cdiv y 400; i = i * 400 - y in
      if i \<noteq> 0 then False else True)"

definition mosiz :: "int list" where
  "mosiz = [0, 31, 28, 31, 30, 31, 30, 31, 31, 30, 31, 30, 31]"

text \<open>\<open>while(dto->mo > 12) { dto->mo -= 12; dto->yr++; }\<close>\<close>

function wrap_months :: "dt \<Rightarrow> dt" where
  "wrap_months d = (if mo d > 12 then wrap_months (d\<lparr>mo := mo d - 12, yr := yr d + 1\<rparr>) else d)"
  by pat_completeness auto
termination
  by (relation "measure (\<lambda>d. nat (mo d))") auto

declare wrap_months.simps [simp del]

text \<open>
  The loop that turns extra days into months. \<open>mosiz[dto->mo]\<close> is read in the loop
  condition: \<open>None\<close> when the index is outside the array.
\<close>

function extra_days :: "dt \<Rightarrow> dt option" where
  "extra_days d =
     (if mo d < 0 \<or> 12 < mo d then None
      else if dy d > mosiz ! nat (mo d) then
        (if mo d = 2 \<and> qleap (yr d) then
           (if dy d = 29 then Some (wrap_months d)
            else extra_days (wrap_months (d\<lparr>dy := dy d - 29, mo := mo d + 1\<rparr>)))
         else extra_days (wrap_months (d\<lparr>dy := dy d - mosiz ! nat (mo d), mo := mo d + 1\<rparr>)))
      else Some d)"
  by pat_completeness auto

lemma wrap_months_id: "mo d \<le> 12 \<Longrightarrow> wrap_months d = d"
  by (subst wrap_months.simps) simp

lemma wrap_months_13: "mo d = 13 \<Longrightarrow> wrap_months d = d\<lparr>mo := 1, yr := yr d + 1\<rparr>"
  by (subst wrap_months.simps) (simp add: wrap_months_id)

lemma dy_wrap_months [simp]: "dy (wrap_months d) = dy d"
  by (induction d rule: wrap_months.induct) (subst wrap_months.simps, simp)

lemma hr_wrap_months [simp]: "hr (wrap_months d) = hr d"
  by (induction d rule: wrap_months.induct) (subst wrap_months.simps, simp)

lemma mn_wrap_months [simp]: "mn (wrap_months d) = mn d"
  by (induction d rule: wrap_months.induct) (subst wrap_months.simps, simp)

lemma month_cases:
  assumes "0 \<le> (m::int)" "m \<le> 12"
  shows "m = 0 \<or> m = 1 \<or> m = 2 \<or> m = 3 \<or> m = 4 \<or> m = 5 \<or> m = 6 \<or> m = 7 \<or> m = 8 \<or> m = 9 \<or>
    m = 10 \<or> m = 11 \<or> m = 12"
  using assms by arith

lemma mosiz_bounds: "1 \<le> m \<Longrightarrow> m \<le> 12 \<Longrightarrow> 28 \<le> mosiz ! nat m \<and> mosiz ! nat m \<le> 31"
  using month_cases [of m] by (auto simp: mosiz_def eval_nat_numeral)

lemma mosiz_nonneg: "0 \<le> m \<Longrightarrow> m \<le> 12 \<Longrightarrow> 0 \<le> mosiz ! nat m"
  using mosiz_bounds [of m] by (cases "m = 0") (auto simp: mosiz_def)

lemma mosiz_0 [simp]: "mosiz ! 0 = 0"
  by (simp add: mosiz_def)

termination extra_days
proof (relation "measures [\<lambda>d. nat (dy d), \<lambda>d. if mo d = 0 then 1 else 0]", goal_cases)
  case 1
  show ?case by simp
next
  case (2 d)
  then show ?case using mosiz_bounds [of 2] by simp
next
  case (3 d)
  then show ?case using mosiz_bounds [of "mo d"]
    by (cases "mo d = 0") (auto simp: wrap_months_id)
qed

declare extra_days.simps [simp del]

text \<open>
  The parameter \<open>dtim\<close> is the time, \<open>dto\<close> the offset on entry and the sum on return;
  \<open>None\<close> where the code reads \<open>mosiz\<close> out of range.
\<close>

definition timeAdd :: "dt \<Rightarrow> dt \<Rightarrow> dt option" where
  "timeAdd dtim dto =
     (let d = dto\<lparr>mo := mo dto + mo dtim, yr := yr dto + yr dtim\<rparr>;
          d = wrap_months d;
          d = d\<lparr>mn := mn d + mn dtim, hr := hr d + hr dtim, dy := dy d + dy dtim\<rparr>;
          d = (if mn d > 59 then let i = cdiv (mn d) 60 in d\<lparr>hr := hr d + i, mn := mn d - i * 60\<rparr>
               else d);
          d = (if hr d > 23 then let i = cdiv (hr d) 24 in d\<lparr>dy := dy d + i, hr := hr d - i * 24\<rparr>
               else d)
      in extra_days d)"

subsection \<open>Specification: hours since the start of year 0\<close>

definition leap :: "int \<Rightarrow> bool" where
  "leap y \<longleftrightarrow> 4 dvd y \<and> (\<not> 100 dvd y \<or> 400 dvd y)"

definition month_len :: "int \<Rightarrow> int \<Rightarrow> int" where
  "month_len y m = (if m = 2 \<and> leap y then 29 else mosiz ! nat m)"

definition days_to_year :: "int \<Rightarrow> int" where
  "days_to_year y = 365 * y + (y + 3) div 4 - (y + 99) div 100 + (y + 399) div 400"

definition days_to_month :: "int \<Rightarrow> int \<Rightarrow> int" where
  "days_to_month y m = (\<Sum>k \<leftarrow> [1..m - 1]. month_len y k)"

definition day_number :: "dt \<Rightarrow> int" where
  "day_number d = days_to_year (yr d) + days_to_month (yr d) (mo d) + dy d"

definition hour_number :: "dt \<Rightarrow> int" where
  "hour_number d = day_number d * 24 + hr d"

definition valid_date :: "dt \<Rightarrow> bool" where
  "valid_date d \<longleftrightarrow> 1 \<le> mo d \<and> mo d \<le> 12 \<and> 1 \<le> dy d \<and> dy d \<le> month_len (yr d) (mo d) \<and>
     0 \<le> hr d \<and> hr d \<le> 23 \<and> 0 \<le> mn d \<and> mn d \<le> 59"

lemma qleap_leap: "qleap y = leap y"
  by (auto simp: qleap_def leap_def Let_def cdiv_mult_eq_iff)

lemma div_Suc_carry:
  assumes "c = b - 1" "0 < (b::int)"
  shows "(y + b) div b = (y + c) div b + (if b dvd y then 1 else 0)"
proof -
  define q r where "q = y div b" and "r = y mod b"
  have y: "y = b * q + r" and r: "0 \<le> r" "r < b"
    using assms by (simp_all add: q_def r_def)
  have "(y + c) div b = q + (r + c) div b" using assms by (simp add: y add.assoc)
  moreover have "(r + c) div b = (if r = 0 then 0 else 1)"
    using r assms by (auto intro: div_pos_pos_trivial int_div_pos_eq [of _ _ _ "r - 1"])
  moreover have "b dvd y \<longleftrightarrow> r = 0" by (simp add: r_def dvd_eq_mod_eq_0)
  moreover have "(y + b) div b = q + 1" using assms by (simp add: q_def)
  ultimately show ?thesis by simp
qed

lemma regroup: "a + b + (c + i) - (d + j) + (e + k) = (a + c - d + e) + b + i - j + (k::int)"
  by simp

lemma leap_sum:
  assumes "p400 \<Longrightarrow> p100" "p100 \<Longrightarrow> p4"
  shows "(d::int) + 365 + (if p4 then 1 else 0) - (if p100 then 1 else 0) + (if p400 then 1 else 0) =
    d + (if p4 \<and> (\<not> p100 \<or> p400) then 366 else 365)"
  by (cases p400; cases p100; cases p4) (insert assms, simp_all)

lemma leap_year_length: "days_to_year (y + 1) = days_to_year y + (if leap y then 366 else 365)"
proof -
  have 4: "(y + 4) div 4 = (y + 3) div 4 + (if 4 dvd y then 1 else 0)"
    by (rule div_Suc_carry) simp_all
  have 100: "(y + 100) div 100 = (y + 99) div 100 + (if 100 dvd y then 1 else 0)"
    by (rule div_Suc_carry) simp_all
  have 400: "(y + 400) div 400 = (y + 399) div 400 + (if 400 dvd y then 1 else 0)"
    by (rule div_Suc_carry) simp_all
  define p4 p100 p400 where "p4 = (4 dvd y)" and "p100 = (100 dvd y)" and "p400 = (400 dvd y)"
  have p: "p400 \<Longrightarrow> p100" "p100 \<Longrightarrow> p4"
    unfolding p4_def p100_def p400_def by (erule dvd_trans [rotated], simp)+
  have "days_to_year (y + 1) = 365 * y + 365 + (y + 4) div 4 - (y + 100) div 100 + (y + 400) div 400"
    by (simp only: days_to_year_def distrib_left) (simp add: add.assoc)
  also have "\<dots> = days_to_year y + 365 + (if p4 then 1 else 0) - (if p100 then 1 else 0) +
      (if p400 then 1 else 0)"
    unfolding 4 100 400 days_to_year_def p4_def p100_def p400_def by (rule regroup)
  also have "\<dots> = days_to_year y + (if p4 \<and> (\<not> p100 \<or> p400) then 366 else 365)"
    by (rule leap_sum) (fact p)+
  finally show ?thesis by (simp only: leap_def p4_def p100_def p400_def)
qed

lemma days_to_month_1 [simp]: "days_to_month y 1 = 0"
  by (simp add: days_to_month_def)

lemma days_to_month_Suc: "1 \<le> m \<Longrightarrow> days_to_month y (m + 1) = days_to_month y m + month_len y m"
  using upto_rec2 [of 1 m] by (simp add: days_to_month_def)

lemma mosiz_all:
  "mosiz ! 0 = 0" "mosiz ! 1 = 31" "mosiz ! 2 = 28" "mosiz ! 3 = 31" "mosiz ! 4 = 30"
  "mosiz ! 5 = 31" "mosiz ! 6 = 30" "mosiz ! 7 = 31" "mosiz ! 8 = 31" "mosiz ! 9 = 30"
  "mosiz ! 10 = 31" "mosiz ! 11 = 30" "mosiz ! 12 = 31"
  by (simp_all add: mosiz_def)

lemma days_to_month_13: "days_to_month y 13 = (if leap y then 366 else 365)"
proof -
  have "[1..12] = [1, 2, 3, 4, 5, 6, 7, 8, 9, 10, 11, 12::int]" by (simp add: upto_rec1)
  then show ?thesis by (simp add: days_to_month_def month_len_def mosiz_all [simplified])
qed

lemma month_len_bounds: "1 \<le> m \<Longrightarrow> m \<le> 12 \<Longrightarrow> 28 \<le> month_len y m \<and> month_len y m \<le> 31"
  using mosiz_bounds [of m] by (auto simp: month_len_def)

subsection \<open>timeAdd adds hours to a date\<close>

definition next_month :: "dt \<Rightarrow> dt" where
  "next_month d = wrap_months (d\<lparr>dy := dy d - month_len (yr d) (mo d), mo := mo d + 1\<rparr>)"

lemma next_month_props:
  assumes "1 \<le> mo d" "mo d \<le> 12"
  shows "1 \<le> mo (next_month d)" "mo (next_month d) \<le> 12"
    "day_number (next_month d) = day_number d"
    "dy (next_month d) = dy d - month_len (yr d) (mo d)"
    "hr (next_month d) = hr d" "mn (next_month d) = mn d"
proof -
  have "1 \<le> mo (next_month d) \<and> mo (next_month d) \<le> 12 \<and> day_number (next_month d) = day_number d"
  proof (cases "mo d = 12")
    case True
    then show ?thesis
      using days_to_month_Suc [of 12 "yr d"] days_to_month_13 [of "yr d"] leap_year_length [of "yr d"]
      by (simp add: next_month_def wrap_months_13 day_number_def)
  next
    case False
    with assms show ?thesis
      by (simp add: next_month_def wrap_months_id day_number_def days_to_month_Suc)
  qed
  then show "1 \<le> mo (next_month d)" "mo (next_month d) \<le> 12"
    "day_number (next_month d) = day_number d" by simp_all
qed (simp_all add: next_month_def)

lemma extra_days_step:
  assumes "1 \<le> mo d" "mo d \<le> 12"
  shows "extra_days d = (if month_len (yr d) (mo d) < dy d then extra_days (next_month d) else Some d)"
proof (cases "mo d = 2 \<and> leap (yr d)")
  case True
  then show ?thesis using assms
    by (subst extra_days.simps)
       (auto simp: next_month_def month_len_def qleap_leap wrap_months_id mosiz_all)
next
  case False
  then have "month_len (yr d) (mo d) = mosiz ! nat (mo d)" by (auto simp: month_len_def)
  with False assms show ?thesis
    by (subst extra_days.simps) (auto simp: next_month_def qleap_leap)
qed

lemma extra_days_spec:
  assumes "1 \<le> mo d" "mo d \<le> 12" "1 \<le> dy d"
  shows "\<exists>e. extra_days d = Some e \<and> 1 \<le> mo e \<and> mo e \<le> 12 \<and> 1 \<le> dy e \<and>
    dy e \<le> month_len (yr e) (mo e) \<and> day_number e = day_number d \<and> hr e = hr d \<and> mn e = mn d"
  using assms
proof (induction "nat (dy d)" arbitrary: d rule: less_induct)
  case less
  show ?case
  proof (cases "month_len (yr d) (mo d) < dy d")
    case True
    have "nat (dy (next_month d)) < nat (dy d)" "1 \<le> dy (next_month d)"
      using next_month_props(4) [of d] month_len_bounds [of "mo d" "yr d"] less.prems True by auto
    from less.hyps [OF this(1)] this(2) show ?thesis
      using next_month_props [of d] extra_days_step [of d] less.prems True by simp
  next
    case False
    then show ?thesis using extra_days_step [of d] less.prems by simp
  qed
qed

lemma day_number_in_year:
  assumes "1 \<le> mo d" "mo d \<le> 12" "1 \<le> dy d" "dy d \<le> month_len (yr d) (mo d)"
  shows "days_to_year (yr d) < day_number d" "day_number d \<le> days_to_year (yr d + 1)"
proof -
  have mono: "days_to_month y m \<le> days_to_month y (m + int k)" if "1 \<le> m" "m + int k \<le> 13" for y m k
    using that
  proof (induction k)
    case (Suc k)
    then show ?case using days_to_month_Suc [of "m + int k" y] month_len_bounds [of "m + int k" y]
      by (simp add: ac_simps)
  qed simp
  have "days_to_month (yr d) 1 \<le> days_to_month (yr d) (mo d)"
    using mono [of 1 "nat (mo d - 1)"] assms by simp
  then show "days_to_year (yr d) < day_number d" using assms by (simp add: day_number_def)
  have "days_to_month (yr d) (mo d + 1) \<le> days_to_month (yr d) 13"
    using mono [of "mo d + 1" "nat (12 - mo d)" "yr d"] assms by simp
  then show "day_number d \<le> days_to_year (yr d + 1)"
    using assms leap_year_length [of "yr d"] days_to_month_13 [of "yr d"] days_to_month_Suc [of "mo d" "yr d"]
    by (simp add: day_number_def)
qed

lemma days_to_year_mono: "x \<le> y \<Longrightarrow> days_to_year x \<le> days_to_year y"
proof (induction "nat (y - x)" arbitrary: y)
  case (Suc n)
  then have "days_to_year x \<le> days_to_year (y - 1)" by simp
  also have "\<dots> \<le> days_to_year y" using leap_year_length [of "y - 1"] by auto
  finally show ?case .
qed simp

lemma days_to_month_strict:
  assumes "1 \<le> m" "m < n" "n \<le> 12" shows "days_to_month y m + month_len y m \<le> days_to_month y n"
  using assms(2,3)
proof (induction "nat (n - m)" arbitrary: n)
  case (Suc k)
  show ?case
  proof (cases "n = m + 1")
    case True
    then show ?thesis using days_to_month_Suc [OF assms(1), of y] by simp
  next
    case False
    then have "days_to_month y m + month_len y m \<le> days_to_month y (n - 1)"
      using Suc by simp
    also have "\<dots> \<le> days_to_month y n"
      using days_to_month_Suc [of "n - 1" y] month_len_bounds [of "n - 1" y] Suc.prems assms by simp
    finally show ?thesis .
  qed
qed simp

text \<open>A valid date is determined by its number.\<close>

lemma day_number_inj:
  assumes "1 \<le> mo d" "mo d \<le> 12" "1 \<le> dy d" "dy d \<le> month_len (yr d) (mo d)"
    and "1 \<le> mo e" "mo e \<le> 12" "1 \<le> dy e" "dy e \<le> month_len (yr e) (mo e)"
    and eq: "day_number d = day_number e"
  shows "yr d = yr e \<and> mo d = mo e \<and> dy d = dy e"
proof -
  have yr: "yr d = yr e"
    using day_number_in_year [of d] day_number_in_year [of e] assms
      days_to_year_mono [of "yr d + 1" "yr e"] days_to_year_mono [of "yr e + 1" "yr d"] by force
  then have "mo d = mo e"
    using assms days_to_month_strict [of "mo d" "mo e" "yr e"] days_to_month_strict [of "mo e" "mo d" "yr e"]
    by (force simp: day_number_def)
  with yr eq show ?thesis by (simp add: day_number_def)
qed

lemma valid_date_eqI:
  assumes "valid_date d" "valid_date e" "hour_number d = hour_number e" "mn d = mn e"
  shows "d = e"
proof -
  have "day_number d = day_number e"
    using assms unfolding valid_date_def hour_number_def by linarith
  moreover from this have "hr d = hr e" using assms by (simp add: hour_number_def)
  ultimately have "day_number d = day_number e \<and> hr d = hr e" by simp
  with day_number_inj [of d e] assms show ?thesis by (simp add: valid_date_def)
qed

definition hours_offset :: "int \<Rightarrow> dt" where
  "hours_offset fff = \<lparr>yr = 0, mo = 0, dy = 0, hr = fff, mn = 0\<rparr>"

lemma timeAdd_hours:
  assumes v: "valid_date d" and f: "0 \<le> fff"
  shows "\<exists>e. timeAdd d (hours_offset fff) = Some e \<and> valid_date e \<and>
    hour_number e = hour_number d + fff \<and> mn e = mn d"
proof -
  define h where "h = hr d + fff"
  define e0 where "e0 = d\<lparr>dy := dy d + h div 24, hr := h mod 24\<rparr>"
  have h: "0 \<le> h" using v f by (simp add: h_def valid_date_def)
  have t: "timeAdd d (hours_offset fff) = extra_days e0"
    using v h by (cases d) (auto simp: timeAdd_def hours_offset_def Let_def valid_date_def
        wrap_months_id e0_def h_def add.commute minus_div_mult_eq_mod)
  have n: "hour_number e0 = hour_number d + fff"
    by (simp add: e0_def hour_number_def day_number_def h_def algebra_simps)
  have "1 \<le> mo e0" "mo e0 \<le> 12" "1 \<le> dy e0"
    using v h by (auto simp: e0_def valid_date_def pos_imp_zdiv_nonneg_iff add_increasing2)
  from extra_days_spec [OF this] obtain e where e: "extra_days e0 = Some e" "1 \<le> mo e" "mo e \<le> 12"
    "1 \<le> dy e" "dy e \<le> month_len (yr e) (mo e)" "day_number e = day_number e0" "hr e = hr e0" "mn e = mn e0"
    by blast
  moreover have "hour_number e = hour_number e0" using e by (simp add: hour_number_def)
  ultimately show ?thesis using t n v by (auto simp: valid_date_def e0_def)
qed

subsection \<open>mktime\<close>

text \<open>
  The standard library's normalisation of a broken-down time whose fields may be out of
  their ranges, in a time zone without offset or daylight saving.
\<close>

definition prev_month :: "dt \<Rightarrow> dt" where
  "prev_month d = (let p = (if mo d = 1 then d\<lparr>mo := 12, yr := yr d - 1\<rparr> else d\<lparr>mo := mo d - 1\<rparr>)
     in p\<lparr>dy := dy d + month_len (yr p) (mo p)\<rparr>)"

function norm_days :: "dt \<Rightarrow> dt" where
  "norm_days d =
     (if mo d < 1 \<or> 12 < mo d then d
      else if dy d < 1 then norm_days (prev_month d)
      else if month_len (yr d) (mo d) < dy d then norm_days (next_month d)
      else d)"
  by pat_completeness auto

termination norm_days
proof (relation "measures [\<lambda>d. nat (1 - dy d), \<lambda>d. nat (dy d)]", goal_cases)
  case 1
  show ?case by simp
next
  case (2 d)
  then show ?case
    using month_len_bounds [of 12 "yr d - 1"] month_len_bounds [of "mo d - 1" "yr d"]
    by (auto simp: prev_month_def Let_def)
next
  case (3 d)
  then show ?case
    using month_len_bounds [of "mo d" "yr d"] next_month_props(4) [of d] by auto
qed

declare norm_days.simps [simp del]

definition mktime :: "dt \<Rightarrow> dt" where
  "mktime d =
     (let d = d\<lparr>yr := yr d + (mo d - 1) div 12, mo := (mo d - 1) mod 12 + 1\<rparr>;
          d = d\<lparr>hr := hr d + mn d div 60, mn := mn d mod 60\<rparr>;
          d = d\<lparr>dy := dy d + hr d div 24, hr := hr d mod 24\<rparr>
      in norm_days d)"

lemma extra_days_norm_days:
  assumes "1 \<le> mo d" "mo d \<le> 12" "1 \<le> dy d"
  shows "extra_days d = Some (norm_days d)"
  using assms
proof (induction "nat (dy d)" arbitrary: d rule: less_induct)
  case less
  show ?case
  proof (cases "month_len (yr d) (mo d) < dy d")
    case True
    have "nat (dy (next_month d)) < nat (dy d)" "1 \<le> dy (next_month d)"
      using next_month_props(4) [of d] month_len_bounds [of "mo d" "yr d"] less.prems True by auto
    then have "extra_days (next_month d) = Some (norm_days (next_month d))"
      using less.hyps next_month_props [of d] less.prems by simp
    then show ?thesis
      using True less.prems by (simp add: extra_days_step [of d] norm_days.simps [of d])
  next
    case False
    then show ?thesis
      using less.prems by (simp add: extra_days_step [of d] norm_days.simps [of d])
  qed
qed

lemma mktime_valid_hours:
  assumes "valid_date d" "0 \<le> fff"
  shows "timeAdd d (hours_offset fff) = Some (mktime (d\<lparr>hr := hr d + fff\<rparr>))"
proof -
  define h where "h = hr d + fff"
  define e0 where "e0 = d\<lparr>dy := dy d + h div 24, hr := h mod 24\<rparr>"
  have h: "0 \<le> h" using assms by (simp add: h_def valid_date_def)
  have "timeAdd d (hours_offset fff) = extra_days e0"
    using assms h by (cases d) (auto simp: timeAdd_def hours_offset_def Let_def valid_date_def
        wrap_months_id e0_def h_def add.commute minus_div_mult_eq_mod)
  moreover have "1 \<le> mo e0" "mo e0 \<le> 12" "1 \<le> dy e0"
    using assms h by (auto simp: e0_def valid_date_def pos_imp_zdiv_nonneg_iff add_increasing2)
  moreover have "mktime (d\<lparr>hr := hr d + fff\<rparr>) = norm_days e0"
    using assms by (cases d) (auto simp: mktime_def Let_def e0_def h_def valid_date_def)
  ultimately show ?thesis by (simp add: extra_days_norm_days)
qed

subsection \<open>The date arithmetic of the generators\<close>

text \<open>C19. Adding a number of hours to a calendar date with \<open>timeAdd\<close> gives the calendar date that
  many hours later, and no other: leap years, century years, ends of months and of years included.\<close>

theorem timeAdd_correct:
  assumes "valid_date d" "0 \<le> fff"
  shows "timeAdd d (hours_offset fff) = Some e \<longleftrightarrow>
    valid_date e \<and> hour_number e = hour_number d + fff \<and> mn e = mn d"
  using timeAdd_hours [OF assms] valid_date_eqI by (metis option.inject)

theorem timeAdd_correct_witness:
  "timeAdd \<lparr>yr = 2020, mo = 2, dy = 28, hr = 18, mn = 0\<rparr> (hours_offset 12) =
    Some \<lparr>yr = 2020, mo = 2, dy = 29, hr = 6, mn = 0\<rparr>"
  by (subst timeAdd_correct)
     (simp_all add: valid_date_def month_len_def leap_def hour_number_def day_number_def days_to_month_def
        mosiz_all upto_rec1)

text \<open>Adding hours twice is adding their sum: the dates of the forecast hours do not depend on
  how the interval is cut.\<close>

lemma timeAdd_twice:
  assumes "valid_date d" "0 \<le> a" "0 \<le> b"
  shows "\<exists>e. timeAdd d (hours_offset a) = Some e \<and>
    timeAdd e (hours_offset b) = timeAdd d (hours_offset (a + b))"
proof -
  obtain e where e: "timeAdd d (hours_offset a) = Some e" "valid_date e"
    "hour_number e = hour_number d + a" "mn e = mn d"
    using timeAdd_hours [OF assms(1,2)] by blast
  obtain f g where "timeAdd e (hours_offset b) = Some f" "valid_date f" "hour_number f = hour_number e + b" "mn f = mn e"
    and "timeAdd d (hours_offset (a + b)) = Some g" "valid_date g" "hour_number g = hour_number d + (a + b)" "mn g = mn d"
    using timeAdd_hours [OF e(2) assms(3)] timeAdd_hours [OF assms(1), of "a + b"] assms(2,3) by auto
  with e valid_date_eqI [of f g] show ?thesis by simp
qed

end
