(* ===== verification/Generation.thy ===== *)
theory Generation
  imports SavedRecords Calendar
begin

text \<open>
  What the generators share: the search for one record by its keys, the extraction of its
  values, and the name of the file that is written. Also the vocabulary of their
  specifications: which record of a file a search finds.
\<close>

subsection \<open>Shared steps\<close>

definition output_name ::
  "tiggeVariableNames \<Rightarrow> int \<Rightarrow> int \<Rightarrow> int \<Rightarrow> int \<Rightarrow> int \<Rightarrow> int \<Rightarrow> ('g world, string) prog" where
  "output_name v yyyy mm dd hh fff em =
     (case generateFileName (vid v) yyyy mm dd hh fff em of None \<Rightarrow> crash | Some n \<Rightarrow> ret n)"

definition search :: "stream \<Rightarrow> ('g option \<Rightarrow> ('g world, bool) prog) \<Rightarrow> ('g world, 'g option) prog" where
  "search w test = bnd (rd search_fuel) (\<lambda>n. seek n (grib_handle_new_from_file w) test None)"

text \<open>
  \<open>grib_get_size\<close>, \<open>calloc\<close>, \<open>exit(1)\<close> when it fails, \<open>grib_get_double_array\<close>: the array
  and the number of values.
\<close>

definition extract_values :: "'g platform \<Rightarrow> 'g option \<Rightarrow> ('g world, cdouble list option \<times> nat) prog" where
  "extract_values P h =
     bnd (grib_get_size P h ''values'') (\<lambda>n.
     bnd (calloc_doubles P n) (\<lambda>v.
     bnd (or_exit1 v) (\<lambda>v.
     grib_get_double_array P h ''values'' (Some v) n)))"

subsection \<open>The keys of a record\<close>

definition keys3 :: "'g grib_api \<Rightarrow> 'g \<Rightarrow> int \<Rightarrow> int \<Rightarrow> int \<Rightarrow> bool" where
  "keys3 G g d c n \<longleftrightarrow> api_get_long G g ''discipline'' = Inr d \<and>
     api_get_long G g ''parameterCategory'' = Inr c \<and> api_get_long G g ''parameterNumber'' = Inr n"

definition keys4 :: "'g grib_api \<Rightarrow> 'g \<Rightarrow> int \<Rightarrow> int \<Rightarrow> int \<Rightarrow> int \<Rightarrow> bool" where
  "keys4 G g d c n l \<longleftrightarrow> keys3 G g d c n \<and> api_get_long G g ''typeOfFirstFixedSurface'' = Inr l"

definition keys5 :: "'g grib_api \<Rightarrow> 'g \<Rightarrow> int \<Rightarrow> int \<Rightarrow> int \<Rightarrow> int \<Rightarrow> int \<Rightarrow> bool" where
  "keys5 G g d c n l v \<longleftrightarrow> keys4 G g d c n l \<and>
     api_get_long G g ''scaledValueOfFirstFixedSurface'' = Inr v"

lemma read3_run [run_simps]: "keys3 (grib P) g d c n \<Longrightarrow> read3 P f (Some g) s = (Ok (f d c n), s)"
  by (simp add: keys3_def read3_def run_simps)

lemma read4_run [run_simps]: "keys4 (grib P) g d c n l \<Longrightarrow> read4 P f (Some g) s = (Ok (f d c n l), s)"
  by (simp add: keys4_def keys3_def read4_def run_simps)

lemma read5_run [run_simps]: "keys5 (grib P) g d c n l v \<Longrightarrow> read5 P f (Some g) s = (Ok (f d c n l v), s)"
  by (simp add: keys5_def keys4_def keys3_def read5_def run_simps)

text \<open>\<open>says4 G f g x\<close>: the keys of record \<open>g\<close> can be read and the test \<open>f\<close> on them gives \<open>x\<close>.\<close>

definition says3 :: "'g grib_api \<Rightarrow> (int \<Rightarrow> int \<Rightarrow> int \<Rightarrow> 'x) \<Rightarrow> 'g \<Rightarrow> 'x \<Rightarrow> bool" where
  "says3 G f g x \<longleftrightarrow> (\<exists>d c n. keys3 G g d c n \<and> f d c n = x)"

definition says4 :: "'g grib_api \<Rightarrow> (int \<Rightarrow> int \<Rightarrow> int \<Rightarrow> int \<Rightarrow> 'x) \<Rightarrow> 'g \<Rightarrow> 'x \<Rightarrow> bool" where
  "says4 G f g x \<longleftrightarrow> (\<exists>d c n l. keys4 G g d c n l \<and> f d c n l = x)"

definition says5 :: "'g grib_api \<Rightarrow> (int \<Rightarrow> int \<Rightarrow> int \<Rightarrow> int \<Rightarrow> int \<Rightarrow> 'x) \<Rightarrow> 'g \<Rightarrow> 'x \<Rightarrow> bool" where
  "says5 G f g x \<longleftrightarrow> (\<exists>d c n l v. keys5 G g d c n l v \<and> f d c n l v = x)"

definition answers :: "'g platform \<Rightarrow> ('g option \<Rightarrow> ('g world, 'x) prog) \<Rightarrow> ('g \<Rightarrow> 'x \<Rightarrow> bool) \<Rightarrow> bool" where
  "answers P test says \<longleftrightarrow> (\<forall>g x. says g x \<longrightarrow> (\<forall>t. test (Some g) t = (Ok x, t)))"

lemma answersD: "answers P test says \<Longrightarrow> says g x \<Longrightarrow> test (Some g) t = (Ok x, t)"
  by (simp add: answers_def)

lemma answers_read [simp]:
  "answers P (read3 P f3) (says3 (grib P) f3)"
  "answers P (read4 P f4) (says4 (grib P) f4)"
  "answers P (read5 P f5) (says5 (grib P) f5)"
  by (auto simp: answers_def says3_def says4_def says5_def run_simps)

text \<open>
  \<open>first_hit says no yes gs g\<close>: \<open>g\<close> is the first record of \<open>gs\<close> that gives \<open>yes\<close>.
  \<open>no_hit\<close>: all give \<open>no\<close>.
\<close>

definition first_hit :: "('g \<Rightarrow> 'x \<Rightarrow> bool) \<Rightarrow> 'x \<Rightarrow> 'x \<Rightarrow> 'g list \<Rightarrow> 'g \<Rightarrow> bool" where
  "first_hit says no yes gs g \<longleftrightarrow>
     (\<exists>us vs. gs = us @ g # vs \<and> (\<forall>u \<in> set us. says u no) \<and> says g yes)"

definition no_hit :: "('g \<Rightarrow> 'x \<Rightarrow> bool) \<Rightarrow> 'x \<Rightarrow> 'g list \<Rightarrow> bool" where
  "no_hit says no gs \<longleftrightarrow> (\<forall>u \<in> set gs. says u no)"

lemma first_hit_Cons:
  "says g yes \<Longrightarrow> first_hit says no yes (g # gs) g"
  "says u no \<Longrightarrow> first_hit says no yes gs g \<Longrightarrow> first_hit says no yes (u # gs) g"
  by (simp add: first_hit_def, metis append_Nil empty_iff empty_set)
     (simp add: first_hit_def, metis append_Cons set_ConsD)

lemma search_fuel_ge: "length (rest AFile s) + length (rest BFile s) + 3 \<le> search_fuel s"
  by (simp add: search_fuel_def records_left_def rest_def split: option.split)

lemma readable_fuel:
  "length (readable (rest w s)) + 3 \<le> search_fuel s"
  using search_fuel_ge [of s] length_readable [of "rest w s"] by (cases w) auto

lemma search_run:
  assumes "answers P test says" "readable (rest w s) = us @ g # vs" "\<forall>u \<in> set us. says u False" "says g True"
  shows "search w test s =
    (Ok (Some g), ((advance w ^^ Suc (length us)) s)\<lparr>live_handles := live_handles s + 1\<rparr>)"
proof -
  have "length us < search_fuel s" using readable_fuel [of w s] assms(2) by simp
  moreover have "\<forall>u \<in> set us. \<forall>t. test (Some u) t = (Ok False, t)" "\<forall>t. test (Some g) t = (Ok True, t)"
    using assms answersD [OF assms(1)] by auto
  ultimately show ?thesis
    using assms(2) a_src.seek_found [of s us g vs test] b_src.seek_found [of s us g vs test]
    by (cases w) (auto simp: search_def run_simps simp del: funpow.simps)
qed

text \<open>A file of which the first \<open>p\<close> records have been read.\<close>

definition read_to :: "nat \<Rightarrow> 'g gfile \<Rightarrow> 'g gfile" where
  "read_to p f = f\<lparr>file_pos := p\<rparr>"

lemma read_to_simps [simp]:
  "rewound (read_to p f) = rewound f" "file_items (read_to p f) = file_items f"
  "read_to q (read_to p f) = read_to q f" "file_pos (read_to p f) = p"
  by (simp_all add: read_to_def)

text \<open>
  The position where a search stops depends on the file only, so one number serves every state
  in which the file is in the same position.
\<close>

lemma search_a_run:
  assumes "answers P test says"
    "first_hit says False True (readable (drop (file_pos f) (file_items f))) g"
  shows "\<exists>p. \<forall>s. aFile s = Some f \<longrightarrow> search AFile test s =
    (Ok (Some g), s\<lparr>aFile := Some (read_to p f), live_handles := live_handles s + 1\<rparr>)"
proof -
  obtain us vs where "readable (drop (file_pos f) (file_items f)) = us @ g # vs"
    "\<forall>u \<in> set us. says u False" "says g True" using assms(2) by (auto simp: first_hit_def)
  with search_run [OF assms(1), of AFile _ us g vs] show ?thesis
    by (intro exI [of _ "file_pos f + Suc (length us)"])
       (simp add: rest_def advance_a_n read_to_def del: funpow.simps)
qed

lemma search_b_run:
  assumes "answers P test says"
    "first_hit says False True (readable (drop (file_pos f) (file_items f))) g"
  shows "\<exists>p. \<forall>s. bFile s = Some f \<longrightarrow> search BFile test s =
    (Ok (Some g), s\<lparr>bFile := Some (read_to p f), live_handles := live_handles s + 1\<rparr>)"
proof -
  obtain us vs where "readable (drop (file_pos f) (file_items f)) = us @ g # vs"
    "\<forall>u \<in> set us. says u False" "says g True" using assms(2) by (auto simp: first_hit_def)
  with search_run [OF assms(1), of BFile _ us g vs] show ?thesis
    by (intro exI [of _ "file_pos f + Suc (length us)"])
       (simp add: rest_def advance_b_n read_to_def del: funpow.simps)
qed

text \<open>A search that fails has read the whole file and left the stream at its end.\<close>

definition exhausted :: "'g gfile \<Rightarrow> 'g gfile" where
  "exhausted f = f\<lparr>file_pos := length (file_items f), file_eof := True\<rparr>"

lemma search_missing:
  assumes "answers P test says" "stream_of w s = Some f" "file_pos f \<le> length (file_items f)"
    and "all_readable (drop (file_pos f) (file_items f))"
    and "no_hit says False (readable (drop (file_pos f) (file_items f)))"
  shows "search w test s = (Ok None, set_stream w (exhausted f) s)"
proof -
  let ?n = "length (readable (rest w s))"
  have r: "rest w s = drop (file_pos f) (file_items f)" using assms(2) by (simp add: rest_def)
  have n: "file_pos f + ?n = length (file_items f)"
    using assms(3,4) by (simp add: all_readable_def r)
  have t: "\<forall>u \<in> set (readable (rest w s)). \<forall>t. test (Some u) t = (Ok False, t)"
    using assms(5) answersD [OF assms(1)] by (auto simp: no_hit_def r)
  have l: "?n < search_fuel s" using readable_fuel [of w s] by simp
  have "search w test s = (Ok None, at_eof w ((advance w ^^ ?n) s))"
    using a_src.seek_missing [of s test] b_src.seek_missing [of s test] t l assms(4) r
    by (cases w) (simp_all add: search_def run_simps)
  also have "at_eof w ((advance w ^^ ?n) s) = set_stream w (exhausted f) s"
    using assms(2) n by (cases w) (simp_all add: advance_a_n advance_b_n at_eof_def exhausted_def)
  finally show ?thesis .
qed

subsection \<open>The values of a record\<close>

definition has_values :: "'g platform \<Rightarrow> 'g \<Rightarrow> cdouble list \<Rightarrow> bool" where
  "has_values P g vs \<longleftrightarrow> api_get_size (grib P) g ''values'' = Inr (length vs) \<and>
     api_get_doubles (grib P) g ''values'' = Inr vs"

lemma extract_values_run [run_simps]:
  "has_values P g vs \<Longrightarrow> allocs_succeed P \<Longrightarrow> extract_values P (Some g) s =
     (Ok (Some vs, length vs), s\<lparr>allocations := Suc (allocations s), live_blocks := live_blocks s + 1\<rparr>)"
  by (simp add: has_values_def allocs_succeed_def extract_values_def run_simps)

lemma allocs_succeedD [simp]: "allocs_succeed P \<Longrightarrow> alloc_ok P k"
  by (simp add: allocs_succeed_def)

lemma output_name_run [run_simps]:
  "generateFileName (vid v) yyyy mm dd hh fff em = Some n \<Longrightarrow>
     output_name v yyyy mm dd hh fff em s = (Ok n, s)"
  by (simp add: output_name_def run_simps)

text \<open>The file that a run for these arguments writes to.\<close>

definition destination ::
  "'g platform \<Rightarrow> tiggeVariableNames \<Rightarrow> int \<Rightarrow> int \<Rightarrow> int \<Rightarrow> int \<Rightarrow> int \<Rightarrow> int \<Rightarrow> string \<Rightarrow> bool" where
  "destination P v yyyy mm dd hh fff em path \<longleftrightarrow>
     (\<exists>n. generateFileName (vid v) yyyy mm dd hh fff em = Some n \<and> writable P n path)"

definition base_settings ::
  "int \<Rightarrow> int \<Rightarrow> int \<Rightarrow> int \<Rightarrow> int \<Rightarrow> int \<Rightarrow> setting list" where
  "base_settings yyyy mm dd hh fff em =
     newGribRecord_settings yyyy mm dd hh fff em (get_n_lat yyyy mm dd hh) (get_n_lon yyyy mm dd hh)"

text \<open>Pointwise combination of two arrays, as long as the second is.\<close>

definition pointwise :: "(cdouble \<Rightarrow> cdouble \<Rightarrow> cdouble) \<Rightarrow> cdouble list \<Rightarrow> cdouble list \<Rightarrow> cdouble list" where
  "pointwise f xs ys = map (\<lambda>i. f (xs ! i) (ys ! i)) [0..<length ys]"

lemma pointwise_map2: "length xs = length ys \<Longrightarrow> pointwise f xs ys = map2 f xs ys"
  by (rule nth_equalityI) (simp_all add: pointwise_def)

lemma cells2_run [run_simps]:
  assumes "n \<le> length xs" "n \<le> length ys"
  shows "cells n (\<lambda>i. bnd (cell_of (Some xs) i) (\<lambda>x. bnd (cell_of (Some ys) i) (\<lambda>y. ret (f x y)))) s =
    (Ok (map (\<lambda>i. f (xs ! i) (ys ! i)) [0..<n]), s)"
  by (rule cells_run) (use assms in \<open>simp add: run_simps\<close>)

end
