(* ===== verification/PairSearch.thy ===== *)
theory PairSearch
  imports Generation
begin

text \<open>
  The loop that looks for two records in one pass, as the soil variables and the net
  radiation fluxes use it, with the place of the first and of the second record given as two
  record sources.
\<close>

definition pair_search :: "('g world, 'g option) prog \<Rightarrow> ('g world, 'g option) prog
    \<Rightarrow> ('g option \<Rightarrow> ('g world, int option) prog)
    \<Rightarrow> ('g world, (('g option \<times> int) \<times> 'g option \<times> int) option) prog" where
  "pair_search src1 src2 test = bnd (rd search_fuel) (\<lambda>n.
     pair_loop n src1 src2 test (None, False, -1) (None, False, -1))"

subsection \<open>Two sources\<close>

locale record_pair =
  one: record_source src1 pending1 eat1 complete1 mark1 +
  two: record_source src2 pending2 eat2 complete2 mark2
  for src1 :: "('g world, 'g option) prog" and pending1 eat1 complete1 mark1
    and src2 :: "('g world, 'g option) prog" and pending2 eat2 complete2 mark2
begin

lemma both_found:
  assumes first: "pending1 s = us1 @ g1 # vs1" "\<forall>u \<in> set us1. \<forall>t. test (Some u) t = (Ok None, t)"
      "\<forall>t. test (Some g1) t = (Ok (Some v1), t)"
    and second: "pending2 ((eat1 ^^ Suc (length us1)) s) = us2 @ g2 # vs2"
      "\<forall>u \<in> set us2. \<forall>t. test (Some u) t = (Ok None, t)"
      "\<forall>t. test (Some g2) t = (Ok (Some v2), t)"
    and fuel: "length us1 + length us2 + 2 < fuel"
  shows "pair_loop fuel src1 src2 test (None, False, a) (None, False, b) s =
    (Ok (Some ((Some g1, v1), (Some g2, v2))),
      ((eat2 ^^ Suc (length us2)) ((eat1 ^^ Suc (length us1)) s))\<lparr>live_handles := live_handles s + 2\<rparr>)"
proof -
  define s1 where "s1 = ((eat1 ^^ Suc (length us1)) s)\<lparr>live_handles := live_handles s + 1\<rparr>"
  obtain n where n: "fuel = Suc (length us1 + n)" "length us2 + 1 < n"
    using fuel that [of "fuel - Suc (length us1)"] by auto
  have "pair_loop fuel src1 src2 test (None, False, a) (None, False, b) s =
      pair_loop n src1 src2 test (Some g1, True, v1) (None, False, b) s1"
    using one.pair_first [OF first, of n src2 None a b] by (simp add: n s1_def)
  also have "\<dots> = (Ok (Some ((Some g1, v1), (Some g2, v2))),
      ((eat2 ^^ Suc (length us2)) s1)\<lparr>live_handles := live_handles s1 + 1\<rparr>)"
    using two.pair_second [of s1 us2 g2 vs2 test v2 n src1 g1 v1 None b] second n
    by (simp add: s1_def two.pending_frame)
  finally show ?thesis by (simp add: s1_def two.eat_n_frame del: funpow.simps)
qed

end

interpretation b_then_a: record_pair
    "grib_handle_new_from_file BFile" "\<lambda>s. readable (rest BFile s)" "advance BFile"
    "\<lambda>s. all_readable (rest BFile s)" "at_eof BFile"
    "grib_handle_new_from_file AFile" "\<lambda>s. readable (rest AFile s)" "advance AFile"
    "\<lambda>s. all_readable (rest AFile s)" "at_eof AFile"
  by unfold_locales

subsection \<open>Which records are found\<close>

definition first_some :: "('g \<Rightarrow> int option \<Rightarrow> bool) \<Rightarrow> 'g list \<Rightarrow> 'g \<Rightarrow> int \<Rightarrow> bool" where
  "first_some says gs g v \<longleftrightarrow> first_hit says None (Some v) gs g"

text \<open>The first two hits of one list of records.\<close>

definition first_two :: "('g \<Rightarrow> int option \<Rightarrow> bool) \<Rightarrow> 'g list \<Rightarrow> 'g \<Rightarrow> int \<Rightarrow> 'g \<Rightarrow> int \<Rightarrow> bool" where
  "first_two says gs g1 v1 g2 v2 \<longleftrightarrow>
     (\<exists>us1 us2 vs. gs = us1 @ g1 # us2 @ g2 # vs \<and> (\<forall>u \<in> set us1 \<union> set us2. says u None) \<and>
        says g1 (Some v1) \<and> says g2 (Some v2))"

lemma search_b_a_run:
  assumes ans: "answers P test says"
    and one: "first_some says (readable (drop (file_pos fb) (file_items fb))) g1 v1"
    and two: "first_some says (readable (drop (file_pos fa) (file_items fa))) g2 v2"
  shows "\<exists>p q. \<forall>s. aFile s = Some fa \<longrightarrow> bFile s = Some fb \<longrightarrow>
    pair_search (grib_handle_new_from_file BFile) (grib_handle_new_from_file AFile) test s =
    (Ok (Some ((Some g1, v1), (Some g2, v2))),
      s\<lparr>aFile := Some (read_to p fa), bFile := Some (read_to q fb), live_handles := live_handles s + 2\<rparr>)"
proof -
  obtain us1 vs1 where 1: "readable (drop (file_pos fb) (file_items fb)) = us1 @ g1 # vs1"
    "\<forall>u \<in> set us1. says u None" "says g1 (Some v1)" using one by (auto simp: first_some_def first_hit_def)
  obtain us2 vs2 where 2: "readable (drop (file_pos fa) (file_items fa)) = us2 @ g2 # vs2"
    "\<forall>u \<in> set us2. says u None" "says g2 (Some v2)" using two by (auto simp: first_some_def first_hit_def)
  show ?thesis
  proof (rule exI [of _ "file_pos fa + Suc (length us2)"], rule exI [of _ "file_pos fb + Suc (length us1)"],
      intro allI impI)
    fix s :: "'a world"
    assume f: "aFile s = Some fa" "bFile s = Some fb"
    have b: "(advance BFile ^^ Suc (length us1)) s =
        s\<lparr>bFile := Some (fb\<lparr>file_pos := file_pos fb + Suc (length us1)\<rparr>)\<rparr>" (is "_ = ?s1")
      by (rule advance_b_n) (rule f)
    have "length us1 + length us2 + 2 < search_fuel s"
      using search_fuel_ge [of s] length_readable [of "rest AFile s"] length_readable [of "rest BFile s"] 1(1) 2(1) f
      by (simp add: rest_def)
    moreover have p: "readable (rest BFile s) = us1 @ g1 # vs1"
      "readable (rest AFile ((advance BFile ^^ Suc (length us1)) s)) = us2 @ g2 # vs2"
      unfolding b using 1(1) 2(1) f by (simp_all add: rest_def)
    moreover have "\<forall>u \<in> set us1. \<forall>t. test (Some u) t = (Ok None, t)" "\<forall>t. test (Some g1) t = (Ok (Some v1), t)"
      "\<forall>u \<in> set us2. \<forall>t. test (Some u) t = (Ok None, t)" "\<forall>t. test (Some g2) t = (Ok (Some v2), t)"
      using 1 2 answersD [OF ans] by blast+
    ultimately have "pair_loop (search_fuel s) (grib_handle_new_from_file BFile) (grib_handle_new_from_file AFile) test
        (None, False, -1) (None, False, -1) s = (Ok (Some ((Some g1, v1), (Some g2, v2))),
        ((advance AFile ^^ Suc (length us2)) ((advance BFile ^^ Suc (length us1)) s))
          \<lparr>live_handles := live_handles s + 2\<rparr>)"
      by (intro b_then_a.both_found [OF p(1) _ _ p(2)])
    moreover have "(advance AFile ^^ Suc (length us2)) ?s1 =
        ?s1\<lparr>aFile := Some (fa\<lparr>file_pos := file_pos fa + Suc (length us2)\<rparr>)\<rparr>"
      by (rule advance_a_n) (simp add: f)
    ultimately show "pair_search (grib_handle_new_from_file BFile) (grib_handle_new_from_file AFile) test s =
      (Ok (Some ((Some g1, v1), (Some g2, v2))),
      s\<lparr>aFile := Some (read_to (file_pos fa + Suc (length us2)) fa),
        bFile := Some (read_to (file_pos fb + Suc (length us1)) fb), live_handles := live_handles s + 2\<rparr>)"
      by (simp add: pair_search_def run_simps read_to_def b del: funpow.simps)
  qed
qed

text \<open>The records of the a file and then of the b file.\<close>

definition ab_records :: "'g gfile \<Rightarrow> 'g gfile \<Rightarrow> 'g list" where
  "ab_records fa fb =
     (let as = drop (file_pos fa) (file_items fa); bs = drop (file_pos fb) (file_items fb)
      in readable as @ (if all_readable as then readable bs else []))"

lemma ab_pending_records: "aFile s = Some fa \<Longrightarrow> bFile s = Some fb \<Longrightarrow> ab_pending s = ab_records fa fb"
  by (simp add: ab_pending_def ab_records_def rest_def)

lemma ab_eat_files:
  "ab_eat (s\<lparr>aFile := Some f, bFile := Some g\<rparr>) =
     (if drop (file_pos f) (file_items f) = []
      then s\<lparr>aFile := Some (f\<lparr>file_eof := True\<rparr>), bFile := Some (g\<lparr>file_pos := Suc (file_pos g)\<rparr>)\<rparr>
      else s\<lparr>aFile := Some (f\<lparr>file_pos := Suc (file_pos f)\<rparr>), bFile := Some g\<rparr>)"
  by (simp add: ab_eat_def rest_def advance_def at_eof_def)

lemma ab_eat_n_uniform:
  "\<exists>fa' fb'. rewound fa' = rewound fa \<and> rewound fb' = rewound fb \<and>
     (\<forall>s. aFile s = Some fa \<longrightarrow> bFile s = Some fb \<longrightarrow> (ab_eat ^^ n) s = s\<lparr>aFile := Some fa', bFile := Some fb'\<rparr>)"
proof (induction n)
  case 0
  show ?case by (rule exI [of _ fa], rule exI [of _ fb]) simp
next
  case (Suc n)
  then obtain fa1 fb1 where 1: "rewound fa1 = rewound fa" "rewound fb1 = rewound fb"
    "\<forall>s. aFile s = Some fa \<longrightarrow> bFile s = Some fb \<longrightarrow> (ab_eat ^^ n) s = s\<lparr>aFile := Some fa1, bFile := Some fb1\<rparr>"
    by blast
  have step: "(ab_eat ^^ Suc n) s = ab_eat (s\<lparr>aFile := Some fa1, bFile := Some fb1\<rparr>)"
    if "aFile s = Some fa" "bFile s = Some fb" for s :: "'a world"
    using 1(3) that by simp
  show ?case
  proof (cases "drop (file_pos fa1) (file_items fa1) = []")
    case True
    show ?thesis
      by (rule exI [of _ "fa1\<lparr>file_eof := True\<rparr>"], rule exI [of _ "fb1\<lparr>file_pos := Suc (file_pos fb1)\<rparr>"])
        (use True 1(1,2) step in \<open>simp add: ab_eat_files del: funpow.simps\<close>)
  next
    case False
    show ?thesis
      by (rule exI [of _ "fa1\<lparr>file_pos := Suc (file_pos fa1)\<rparr>"], rule exI [of _ fb1])
        (use False 1(1,2) step in \<open>simp add: ab_eat_files del: funpow.simps\<close>)
  qed
qed

lemma ab_pending_eat_n:
  assumes "ab_pending s = us @ vs"
  shows "ab_pending ((ab_eat ^^ length us) s) = vs"
  using assms
proof (induction us arbitrary: s)
  case (Cons u us)
  then have "ab_pending (ab_eat s) = us @ vs" using ab_src.pending_eat by simp
  with Cons.IH show ?case by (simp add: funpow_swap1)
qed simp

lemma ab_fuel: "length (ab_pending s) + 3 \<le> search_fuel s"
  using search_fuel_ge [of s] length_readable [of "rest AFile s"] length_readable [of "rest BFile s"]
  by (simp add: ab_pending_def)

text \<open>Two sources that both read the a file and then the b file.\<close>

locale ab_pair = record_pair src1 ab_pending ab_eat complete1 mark1 src2 ab_pending ab_eat complete2 mark2
  for src1 :: "('g world, 'g option) prog" and complete1 mark1
    and src2 :: "('g world, 'g option) prog" and complete2 mark2
begin

lemma first_two_run:
  assumes ans: "answers P test says" and two: "first_two says (ab_records fa fb) g1 v1 g2 v2"
  shows "\<exists>fa' fb'. rewound fa' = rewound fa \<and> rewound fb' = rewound fb \<and>
    (\<forall>s. aFile s = Some fa \<longrightarrow> bFile s = Some fb \<longrightarrow> pair_search src1 src2 test s =
      (Ok (Some ((Some g1, v1), (Some g2, v2))),
        s\<lparr>aFile := Some fa', bFile := Some fb', live_handles := live_handles s + 2\<rparr>))"
proof -
  obtain us1 us2 vs where gs: "ab_records fa fb = us1 @ g1 # us2 @ g2 # vs"
    "\<forall>u \<in> set us1 \<union> set us2. says u None" "says g1 (Some v1)" "says g2 (Some v2)"
    using two by (auto simp: first_two_def)
  let ?n = "Suc (length us2) + Suc (length us1)"
  obtain fa' fb' where f': "rewound fa' = rewound fa" "rewound fb' = rewound fb"
    "\<forall>s. aFile s = Some fa \<longrightarrow> bFile s = Some fb \<longrightarrow> (ab_eat ^^ ?n) s = s\<lparr>aFile := Some fa', bFile := Some fb'\<rparr>"
    using ab_eat_n_uniform [of fa fb ?n] by blast
  have "pair_search src1 src2 test s = (Ok (Some ((Some g1, v1), (Some g2, v2))),
      s\<lparr>aFile := Some fa', bFile := Some fb', live_handles := live_handles s + 2\<rparr>)"
    if f: "aFile s = Some fa" "bFile s = Some fb" for s
  proof -
    have p: "ab_pending s = us1 @ g1 # us2 @ g2 # vs" using ab_pending_records [OF f] gs(1) by simp
    then have p2: "ab_pending ((ab_eat ^^ Suc (length us1)) s) = us2 @ g2 # vs"
      using ab_pending_eat_n [of s "us1 @ [g1]" "us2 @ g2 # vs"] by (simp del: funpow.simps)
    have "length us1 + length us2 + 2 < search_fuel s" using ab_fuel [of s] p by simp
    moreover have "\<forall>u \<in> set us1. \<forall>t. test (Some u) t = (Ok None, t)" "\<forall>t. test (Some g1) t = (Ok (Some v1), t)"
      "\<forall>u \<in> set us2. \<forall>t. test (Some u) t = (Ok None, t)" "\<forall>t. test (Some g2) t = (Ok (Some v2), t)"
      using gs answersD [OF ans] by blast+
    ultimately have "pair_loop (search_fuel s) src1 src2 test (None, False, -1) (None, False, -1) s =
      (Ok (Some ((Some g1, v1), (Some g2, v2))),
        ((ab_eat ^^ Suc (length us2)) ((ab_eat ^^ Suc (length us1)) s))\<lparr>live_handles := live_handles s + 2\<rparr>)"
      using p p2 by (intro both_found [OF p _ _ p2])
    moreover have "(ab_eat ^^ Suc (length us2)) ((ab_eat ^^ Suc (length us1)) s) = (ab_eat ^^ ?n) s"
      by (simp only: funpow_add o_apply)
    ultimately show ?thesis using f'(3) f by (simp add: pair_search_def run_simps del: funpow.simps)
  qed
  with f'(1,2) show ?thesis by blast
qed

end

interpretation ab_twice: ab_pair next_a_then_b ab_complete ab_mark next_a_then_b ab_complete ab_mark
  by unfold_locales

end
