(* ===== verification/Soil.thy ===== *)
theory Soil
  imports PairSearch
begin

text \<open>
  \<open>src/src/generateSoilMoisture.c\<close> and \<open>src/src/generateSoilTemperature.c\<close>: the mean of
  the two upper soil layers. The layers 0-0.1 m and 0.1-0.4 m have the same parameter number
  and differ in the value of the first surface, 0 or 10. Soil moisture takes the upper layer from
  the b file and the lower one from the a file, soil temperature both from the a file
  continued by the b file.
\<close>

subsection \<open>Metadata\<close>

text \<open>The settings of the two procedures, which differ in the parameter number only.\<close>

definition soil_settings :: "int \<Rightarrow> int \<Rightarrow> setting list" where
  "soil_settings parameterNumber fff =
     [SetLong ''discipline'' 2,
      SetLong ''productDefinitionTemplateNumber'' 1,
      SetLong ''parameterCategory'' 0,
      SetLong ''parameterNumber'' parameterNumber,
      SetLong ''typeOfFirstFixedSurface'' 106,
      SetLong ''scaleFactorOfFirstFixedSurface'' 0,
      SetLong ''scaledValueOfFirstFixedSurface'' 0,
      SetLong ''typeOfSecondFixedSurface'' 106,
      SetLong ''scaleFactorOfSecondFixedSurface'' 1,
      SetLong ''scaledValueOfSecondFixedSurface'' 2,
      SetLong ''marsStartStep'' 0,
      SetLong ''forecastTime'' fff]"

definition soil_moisture_settings :: "int \<Rightarrow> setting list" where
  "soil_moisture_settings = soil_settings 22"

definition soil_temperature_settings :: "int \<Rightarrow> setting list" where
  "soil_temperature_settings = soil_settings 2"

definition bitmap_settings :: "setting list" where
  "bitmap_settings = [SetLong ''bitMapIndicator'' 0]"

subsection \<open>The wanted records and the computed values\<close>

definition is_soil_moisture :: "int \<Rightarrow> int \<Rightarrow> int \<Rightarrow> int \<Rightarrow> int \<Rightarrow> int option" where
  "is_soil_moisture d c n l v =
     (if (d = 2 \<and> c = 0 \<and> n = 192 \<and> l = 106 \<and> v = 0) \<or> (d = 2 \<and> c = 0 \<and> n = 192 \<and> l = 106 \<and> v = 10)
      then Some n else None)"

definition is_soil_temperature :: "int \<Rightarrow> int \<Rightarrow> int \<Rightarrow> int \<Rightarrow> int \<Rightarrow> int option" where
  "is_soil_temperature d c n l v =
     (if (d = 2 \<and> c = 0 \<and> n = 2 \<and> l = 106 \<and> v = 0) \<or> (d = 2 \<and> c = 0 \<and> n = 2 \<and> l = 106 \<and> v = 10)
      then Some n else None)"

definition soil_moisture_value :: "cdouble \<Rightarrow> cdouble \<Rightarrow> cdouble" where
  "soil_moisture_value upper lower =
     (if deq upper (dlit 9999) \<or> deq lower (dlit 9999) then dlit 9999
      else dmul (ddiv (dadd upper lower) (dlit 2)) (dlit 1000))"

definition soil_temperature_value :: "cdouble \<Rightarrow> cdouble \<Rightarrow> cdouble" where
  "soil_temperature_value upper lower = ddiv (dadd upper lower) (dlit 2)"

text \<open>
  From the two records to the deletion of the handles, in the order of both procedures:
  unchecked \<open>calloc\<close> of two arrays of \<open>n\<close> values, the values, the checked \<open>calloc\<close> of the
  result, the bitmap flag, the loop, the output, the clean-up.
\<close>

definition average_layers :: "'g platform \<Rightarrow> (cdouble \<Rightarrow> cdouble \<Rightarrow> cdouble) \<Rightarrow> nat \<Rightarrow> string
    \<Rightarrow> 'g option \<Rightarrow> 'g option \<Rightarrow> 'g option \<Rightarrow> ('g world, unit) prog" where
  "average_layers P f n fileName gh upper lower =
     bnd (calloc_doubles P n) (\<lambda>upperValues.
     bnd (calloc_doubles P n) (\<lambda>lowerValues.
     bnd (grib_get_double_array P upper ''values'' upperValues n) (\<lambda>(upperValues, n).
     bnd (grib_get_double_array P lower ''values'' lowerValues n) (\<lambda>(lowerValues, n).
     bnd (calloc_doubles P n) (\<lambda>values.
     bnd (or_exit1 values) (\<lambda>values.
     bnd (grib_set P gh bitmap_settings) (\<lambda>gh.
     bnd (cells n (\<lambda>i. bnd (cell_of upperValues i) (\<lambda>x. bnd (cell_of lowerValues i) (\<lambda>y.
            ret (f x y))))) (\<lambda>values.
     bnd (grib_set_double_array P gh ''values'' values) (\<lambda>gh.
     bnd (writeGribToFile P gh fileName) (\<lambda>status.
     seq (free upperValues) (
     seq (free lowerValues) (
     seq (free (Some values)) (
     seq (grib_handle_delete gh) (
     seq (grib_handle_delete upper) (
     grib_handle_delete lower)))))))))))))))"

definition generateSoilMoisture ::
  "'g platform \<Rightarrow> int \<Rightarrow> int \<Rightarrow> int \<Rightarrow> int \<Rightarrow> int \<Rightarrow> int \<Rightarrow> ('g world, unit) prog" where
  "generateSoilMoisture P yyyy mm dd hh fff em =
     (let n = nat (get_n_points yyyy mm dd hh);
          n_lat = get_n_lat yyyy mm dd hh; n_lon = get_n_lon yyyy mm dd hh in
      bnd (rd (\<lambda>s. bFile s = None)) (\<lambda>noB. if noB then ret () else
      bnd (newGribRecord P yyyy mm dd hh fff em n_lat n_lon) (\<lambda>gh.
      bnd (output_name SOIL_MOISTURE yyyy mm dd hh fff em) (\<lambda>fileName.
      bnd (grib_set P gh (soil_moisture_settings fff)) (\<lambda>gh.
      bnd (pair_search (grib_handle_new_from_file BFile) (grib_handle_new_from_file AFile)
             (read5 P is_soil_moisture)) (\<lambda>found.
      case found of None \<Rightarrow> ret () | Some ((upper, _), (lower, _)) \<Rightarrow>
      seq (average_layers P soil_moisture_value n fileName gh upper lower) (
      seq (rewind BFile) (
      rewind AFile))))))))"

definition generateSoilTemperature ::
  "'g platform \<Rightarrow> int \<Rightarrow> int \<Rightarrow> int \<Rightarrow> int \<Rightarrow> int \<Rightarrow> int \<Rightarrow> ('g world, unit) prog" where
  "generateSoilTemperature P yyyy mm dd hh fff em =
     seq (rewind AFile) (
     seq (rewind BFile) (
     (let n = nat (get_n_points yyyy mm dd hh);
          n_lat = get_n_lat yyyy mm dd hh; n_lon = get_n_lon yyyy mm dd hh in
      bnd (rd (\<lambda>s. aFile s = None)) (\<lambda>noA. if noA then ret () else
      bnd (rd (\<lambda>s. bFile s = None)) (\<lambda>noB. if noB then ret () else
      bnd (newGribRecord P yyyy mm dd hh fff em n_lat n_lon) (\<lambda>gh.
      bnd (output_name SOIL_TEMPERATURE yyyy mm dd hh fff em) (\<lambda>fileName.
      bnd (grib_set P gh (soil_temperature_settings fff)) (\<lambda>gh.
      bnd (pair_search next_a_then_b next_a_then_b (read5 P is_soil_temperature)) (\<lambda>found.
      case found of None \<Rightarrow> ret () | Some ((upper, _), (lower, _)) \<Rightarrow>
      seq (average_layers P soil_temperature_value n fileName gh upper lower) (
      seq (rewind AFile) (
      rewind BFile)))))))))))"

subsection \<open>What is written\<close>

lemma average_layers_run:
  assumes mem: "allocs_succeed P"
    and up: "api_get_doubles (grib P) g ''values'' = Inr xs" and low: "api_get_doubles (grib P) h ''values'' = Inr ys"
    and size: "length xs = length ys" "length ys \<le> n"
    and new: "apply_settings (grib P) g1 bitmap_settings = Inr g2"
      "api_set_doubles (grib P) g2 ''values'' (map2 f xs ys) = Inr g3" "api_message (grib P) g3 = Inr m"
    and path: "writable P name path"
  shows "average_layers P f n name (Some g1) (Some g) (Some h) s = (Ok (),
    s\<lparr>output_files := output_files s @ [(path, m)], allocations := allocations s + 3,
      live_handles := live_handles s - 3\<rparr>)"
proof -
  have "map (\<lambda>i. f ((xs @ r) ! i) ((ys @ q) ! i)) [0..<length ys] = map2 f xs ys" for r q
    by (rule nth_equalityI) (use size in \<open>simp_all add: nth_append\<close>)
  then show ?thesis using assms
    by (simp add: average_layers_def run_simps cells2_run)
qed

text \<open>
  Both procedures, when the layers are in the files: one record is written, all handles and
  blocks are given back, and both files are rewound.
\<close>

text \<open>What the procedure needs of the two files, and the file it then writes.\<close>

definition soil_moisture_input :: "'g platform \<Rightarrow> int \<Rightarrow> int \<Rightarrow> int \<Rightarrow> int \<Rightarrow> int \<Rightarrow> int
    \<Rightarrow> 'g gfile \<Rightarrow> 'g gfile \<Rightarrow> string \<times> byte list \<Rightarrow> bool" where
  "soil_moisture_input P yyyy mm dd hh fff em fa fb out \<longleftrightarrow> allocs_succeed P \<and> (\<exists>g v1 xs h v2 ys.
     first_some (says5 (grib P) is_soil_moisture) (readable (drop (file_pos fb) (file_items fb))) g v1 \<and>
     first_some (says5 (grib P) is_soil_moisture) (readable (drop (file_pos fa) (file_items fa))) h v2 \<and>
     api_get_doubles (grib P) g ''values'' = Inr xs \<and> api_get_doubles (grib P) h ''values'' = Inr ys \<and>
     length xs = length ys \<and> int (length ys) \<le> get_n_points yyyy mm dd hh \<and>
     destination P SOIL_MOISTURE yyyy mm dd hh fff em (fst out) \<and>
     produces P (base_settings yyyy mm dd hh fff em) (soil_moisture_settings fff @ bitmap_settings)
       (map2 soil_moisture_value xs ys) (snd out))"

lemma soil_moisture_written:
  assumes "aFile s = Some fa" "bFile s = Some fb" "soil_moisture_input P yyyy mm dd hh fff em fa fb out"
  shows "generateSoilMoisture P yyyy mm dd hh fff em s = (Ok (),
    s\<lparr>output_files := output_files s @ [out], aFile := Some (rewound fa), bFile := Some (rewound fb),
      allocations := allocations s + 3\<rparr>)"
proof -
  note files = assms(1,2)
  obtain path m where po: "out = (path, m)" by (cases out)
  from assms(3) obtain g v1 xs h v2 ys where mem: "allocs_succeed P"
    and up: "first_some (says5 (grib P) is_soil_moisture) (readable (drop (file_pos fb) (file_items fb))) g v1"
      "api_get_doubles (grib P) g ''values'' = Inr xs"
    and low: "first_some (says5 (grib P) is_soil_moisture) (readable (drop (file_pos fa) (file_items fa))) h v2"
      "api_get_doubles (grib P) h ''values'' = Inr ys"
    and size: "length xs = length ys" "int (length ys) \<le> get_n_points yyyy mm dd hh"
    and out: "destination P SOIL_MOISTURE yyyy mm dd hh fff em path"
      "produces P (base_settings yyyy mm dd hh fff em) (soil_moisture_settings fff @ bitmap_settings)
        (map2 soil_moisture_value xs ys) m"
    unfolding soil_moisture_input_def po fst_conv snd_conv by blast
  obtain g0 g2 g3 where new: "base_record P (base_settings yyyy mm dd hh fff em) g0"
      "apply_settings (grib P) g0 (soil_moisture_settings fff @ bitmap_settings) = Inr g2"
      "api_set_doubles (grib P) g2 ''values'' (map2 soil_moisture_value xs ys) = Inr g3"
      "api_message (grib P) g3 = Inr m"
    using out(2) by (rule producesE)
  then obtain g1 where g1: "apply_settings (grib P) g0 (soil_moisture_settings fff) = Inr g1"
      "apply_settings (grib P) g1 bitmap_settings = Inr g2"
    by (auto simp: apply_settings_append split: sum.splits)
  obtain name where name: "generateFileName (vid SOIL_MOISTURE) yyyy mm dd hh fff em = Some name"
      "writable P name path" using out(1) by (auto simp: destination_def)
  obtain p q where pq: "\<forall>t. aFile t = Some fa \<longrightarrow> bFile t = Some fb \<longrightarrow>
    pair_search (grib_handle_new_from_file BFile) (grib_handle_new_from_file AFile) (read5 P is_soil_moisture) t =
    (Ok (Some ((Some g, v1), (Some h, v2))),
      t\<lparr>aFile := Some (read_to p fa), bFile := Some (read_to q fb), live_handles := live_handles t + 2\<rparr>)"
    using search_b_a_run [OF answers_read(3) up(1) low(1)] by blast
  have "length ys \<le> nat (get_n_points yyyy mm dd hh)" using size(2) by simp
  from average_layers_run [OF mem up(2) low(2) size(1) this g1(2) new(3,4) name(2)] pq
  show ?thesis using po files new(1) g1(1) name(1)
    by (simp add: generateSoilMoisture_def run_simps newGribRecord_run flip: base_settings_def)
qed

text \<open>C15. Soil moisture is written from the first wanted record of the b file and the first wanted record of
  the a file, point by point, with 9999 where either is missing and 1000 times their mean elsewhere.
  Every handle and block is given back and both files are rewound.\<close>

lemma generateSoilMoisture_run:
  assumes files: "aFile s = Some fa" "bFile s = Some fb" and mem: "allocs_succeed P"
    and up: "first_some (says5 (grib P) is_soil_moisture) (readable (drop (file_pos fb) (file_items fb))) g v1"
      "api_get_doubles (grib P) g ''values'' = Inr xs"
    and low: "first_some (says5 (grib P) is_soil_moisture) (readable (drop (file_pos fa) (file_items fa))) h v2"
      "api_get_doubles (grib P) h ''values'' = Inr ys"
    and size: "length xs = length ys" "int (length ys) \<le> get_n_points yyyy mm dd hh"
    and out: "destination P SOIL_MOISTURE yyyy mm dd hh fff em path"
      "produces P (base_settings yyyy mm dd hh fff em) (soil_moisture_settings fff @ bitmap_settings)
        (map2 soil_moisture_value xs ys) m"
  shows "generateSoilMoisture P yyyy mm dd hh fff em s = (Ok (),
    s\<lparr>output_files := output_files s @ [(path, m)], aFile := Some (rewound fa), bFile := Some (rewound fb),
      allocations := allocations s + 3\<rparr>)"
  using soil_moisture_written [OF files, of P yyyy mm dd hh fff em "(path, m)"] assms
  unfolding soil_moisture_input_def fst_conv snd_conv by blast


text \<open>What the procedure needs of the two files, and the file it then writes.\<close>

definition soil_temperature_input :: "'g platform \<Rightarrow> int \<Rightarrow> int \<Rightarrow> int \<Rightarrow> int \<Rightarrow> int \<Rightarrow> int
    \<Rightarrow> 'g gfile \<Rightarrow> 'g gfile \<Rightarrow> string \<times> byte list \<Rightarrow> bool" where
  "soil_temperature_input P yyyy mm dd hh fff em fa fb out \<longleftrightarrow> allocs_succeed P \<and> (\<exists>g v1 xs h v2 ys.
     first_two (says5 (grib P) is_soil_temperature) (ab_records (rewound fa) (rewound fb)) g v1 h v2 \<and>
     api_get_doubles (grib P) g ''values'' = Inr xs \<and> api_get_doubles (grib P) h ''values'' = Inr ys \<and>
     length xs = length ys \<and> int (length ys) \<le> get_n_points yyyy mm dd hh \<and>
     destination P SOIL_TEMPERATURE yyyy mm dd hh fff em (fst out) \<and>
     produces P (base_settings yyyy mm dd hh fff em) (soil_temperature_settings fff @ bitmap_settings)
       (map2 soil_temperature_value xs ys) (snd out))"

lemma soil_temperature_written:
  assumes "aFile s = Some fa" "bFile s = Some fb" "soil_temperature_input P yyyy mm dd hh fff em fa fb out"
  shows "generateSoilTemperature P yyyy mm dd hh fff em s = (Ok (),
    s\<lparr>output_files := output_files s @ [out], aFile := Some (rewound fa), bFile := Some (rewound fb),
      allocations := allocations s + 3\<rparr>)"
proof -
  note files = assms(1,2)
  obtain path m where po: "out = (path, m)" by (cases out)
  from assms(3) obtain g v1 xs h v2 ys where mem: "allocs_succeed P"
    and layers: "first_two (says5 (grib P) is_soil_temperature) (ab_records (rewound fa) (rewound fb)) g v1 h v2"
    and up: "api_get_doubles (grib P) g ''values'' = Inr xs" and low: "api_get_doubles (grib P) h ''values'' = Inr ys"
    and size: "length xs = length ys" "int (length ys) \<le> get_n_points yyyy mm dd hh"
    and out: "destination P SOIL_TEMPERATURE yyyy mm dd hh fff em path"
      "produces P (base_settings yyyy mm dd hh fff em) (soil_temperature_settings fff @ bitmap_settings)
        (map2 soil_temperature_value xs ys) m"
    unfolding soil_temperature_input_def po fst_conv snd_conv by blast
  obtain g0 g2 g3 where new: "base_record P (base_settings yyyy mm dd hh fff em) g0"
      "apply_settings (grib P) g0 (soil_temperature_settings fff @ bitmap_settings) = Inr g2"
      "api_set_doubles (grib P) g2 ''values'' (map2 soil_temperature_value xs ys) = Inr g3"
      "api_message (grib P) g3 = Inr m"
    using out(2) by (rule producesE)
  then obtain g1 where g1: "apply_settings (grib P) g0 (soil_temperature_settings fff) = Inr g1"
      "apply_settings (grib P) g1 bitmap_settings = Inr g2"
    by (auto simp: apply_settings_append split: sum.splits)
  obtain name where name: "generateFileName (vid SOIL_TEMPERATURE) yyyy mm dd hh fff em = Some name"
      "writable P name path" using out(1) by (auto simp: destination_def)
  obtain fa' fb' where ab: "rewound fa' = rewound (rewound fa)" "rewound fb' = rewound (rewound fb)"
    "\<forall>t. aFile t = Some (rewound fa) \<longrightarrow> bFile t = Some (rewound fb) \<longrightarrow>
      pair_search next_a_then_b next_a_then_b (read5 P is_soil_temperature) t =
      (Ok (Some ((Some g, v1), (Some h, v2))),
        t\<lparr>aFile := Some fa', bFile := Some fb', live_handles := live_handles t + 2\<rparr>)"
    using ab_twice.first_two_run [OF answers_read(3) layers] by blast
  have "length ys \<le> nat (get_n_points yyyy mm dd hh)" using size(2) by simp
  from average_layers_run [OF mem up low size(1) this g1(2) new(3,4) name(2)] ab
  show ?thesis using po files new(1) g1(1) name(1)
    by (simp add: generateSoilTemperature_def run_simps newGribRecord_run flip: base_settings_def)
qed

text \<open>Soil temperature is written from the first two wanted records of the a file continued by the b file,
  read from their beginnings whatever was read before, as the mean of the two layers. Every handle
  and block is given back and both files are rewound.\<close>

lemma generateSoilTemperature_run:
  assumes files: "aFile s = Some fa" "bFile s = Some fb" and mem: "allocs_succeed P"
    and layers: "first_two (says5 (grib P) is_soil_temperature) (ab_records (rewound fa) (rewound fb)) g v1 h v2"
    and up: "api_get_doubles (grib P) g ''values'' = Inr xs" and low: "api_get_doubles (grib P) h ''values'' = Inr ys"
    and size: "length xs = length ys" "int (length ys) \<le> get_n_points yyyy mm dd hh"
    and out: "destination P SOIL_TEMPERATURE yyyy mm dd hh fff em path"
      "produces P (base_settings yyyy mm dd hh fff em) (soil_temperature_settings fff @ bitmap_settings)
        (map2 soil_temperature_value xs ys) m"
  shows "generateSoilTemperature P yyyy mm dd hh fff em s = (Ok (),
    s\<lparr>output_files := output_files s @ [(path, m)], aFile := Some (rewound fa), bFile := Some (rewound fb),
      allocations := allocations s + 3\<rparr>)"
  using soil_temperature_written [OF files, of P yyyy mm dd hh fff em "(path, m)"] assms
  unfolding soil_temperature_input_def fst_conv snd_conv by blast


text \<open>
  Soil temperature rewinds the files before it tests them: without a file the C program
  passes NULL to \<open>rewind\<close>.
\<close>

lemma generateSoilTemperature_no_file:
  "aFile s = None \<Longrightarrow> fst (generateSoilTemperature P yyyy mm dd hh fff em s) = Crash"
  "bFile s = None \<Longrightarrow> fst (generateSoilTemperature P yyyy mm dd hh fff em s) = Crash"
  by (cases "aFile s"; simp add: generateSoilTemperature_def run_simps rewind_def)+

lemma generateSoilMoisture_no_file:
  "bFile s = None \<Longrightarrow> generateSoilMoisture P yyyy mm dd hh fff em s = (Ok (), s)"
  by (simp add: generateSoilMoisture_def run_simps)

end
