(* ===== verification/PotentialTemperature.thy ===== *)
theory PotentialTemperature
  imports Soil
begin

text \<open>
  \<open>src/src/generatePotentialTemperature.c\<close>: the potential temperature on the surface of
  2 PVU from pressure and temperature, which NCEP gives in separate records for the two
  hemispheres. One loop over the b file fills four slots; then the hemispheres are merged
  point by point.
\<close>

subsection \<open>Metadata\<close>

definition potential_temperature_settings :: "setting list" where
  "potential_temperature_settings =
     [SetLong ''productDefinitionTemplateNumber'' 1,
      SetLong ''parameterCategory'' 0,
      SetLong ''parameterNumber'' 2,
      SetLong ''typeOfFirstFixedSurface'' 109,
      SetLong ''scaleFactorOfFirstFixedSurface'' 9,
      SetLong ''scaledValueOfFirstFixedSurface'' 2000,
      SetLong ''typeOfSecondFixedSurface'' 255,
      SetMissing ''scaleFactorOfSecondFixedSurface'',
      SetMissing ''scaledValueOfSecondFixedSurface'']"

subsection \<open>The search for the four records\<close>

record 'g pv_slots =
  ncepPressureNorth :: "'g option"
  ncepPressureSouth :: "'g option"
  ncepTemperatureNorth :: "'g option"
  ncepTemperatureSouth :: "'g option"

definition no_slots :: "'g pv_slots" where
  "no_slots = \<lparr>ncepPressureNorth = None, ncepPressureSouth = None,
     ncepTemperatureNorth = None, ncepTemperatureSouth = None\<rparr>"

text \<open>A found flag is 1 exactly when the handle of that slot has been stored.\<close>

definition all_found :: "'g pv_slots \<Rightarrow> bool" where
  "all_found sl \<longleftrightarrow> ncepPressureNorth sl \<noteq> None \<and> ncepPressureSouth sl \<noteq> None \<and>
     ncepTemperatureNorth sl \<noteq> None \<and> ncepTemperatureSouth sl \<noteq> None"

text \<open>
  The level test of the southern hemisphere is written
  \<open>(levValue == 2147485648.0) || (levValue = -2147485648.0)\<close>: the second operand is an
  assignment, whose value is the constant, which counts as true because it is not zero.
  \<open>levValue\<close> is not read again before the next record overwrites it.
\<close>

definition north_level :: "cdouble \<Rightarrow> bool" where
  "north_level levValue = deq levValue (dlit 2000)"

definition south_level :: "cdouble \<Rightarrow> bool" where
  "south_level levValue \<longleftrightarrow> deq levValue (dlit 2147485648) \<or> \<not> deq (dlit (- 2147485648)) (Fin 0)"

text \<open>The four tests in the order of the code; \<open>None\<close> when the record is not wanted.\<close>

definition store_pv_record ::
  "'g pv_slots \<Rightarrow> int \<Rightarrow> int \<Rightarrow> int \<Rightarrow> int \<Rightarrow> cdouble \<Rightarrow> 'g option \<Rightarrow> 'g pv_slots option" where
  "store_pv_record sl d c n l levValue temp =
     (if ncepPressureNorth sl = None \<and> d = 0 \<and> c = 3 \<and> n = 0 \<and> l = 109 \<and> north_level levValue
      then Some (sl\<lparr>ncepPressureNorth := temp\<rparr>)
      else if ncepPressureSouth sl = None \<and> d = 0 \<and> c = 3 \<and> n = 0 \<and> l = 109 \<and> south_level levValue
      then Some (sl\<lparr>ncepPressureSouth := temp\<rparr>)
      else if ncepTemperatureNorth sl = None \<and> d = 0 \<and> c = 0 \<and> n = 0 \<and> l = 109 \<and> north_level levValue
      then Some (sl\<lparr>ncepTemperatureNorth := temp\<rparr>)
      else if ncepTemperatureSouth sl = None \<and> d = 0 \<and> c = 0 \<and> n = 0 \<and> l = 109 \<and> south_level levValue
      then Some (sl\<lparr>ncepTemperatureSouth := temp\<rparr>)
      else None)"

fun pv_loop :: "nat \<Rightarrow> 'g platform \<Rightarrow> 'g option \<Rightarrow> bool \<Rightarrow> 'g pv_slots \<Rightarrow> ('g world, 'g pv_slots option) prog" where
  "pv_loop 0 P temp skipFlag sl = stuck"
| "pv_loop (Suc fuel) P temp skipFlag sl =
     (if all_found sl then ret (Some sl)
      else
        seq (only_if (temp \<noteq> None \<and> \<not> skipFlag) (grib_handle_delete temp)) (
        bnd (grib_handle_new_from_file BFile) (\<lambda>temp.
        if temp = None then ret None
        else
          bnd (grib_get_long P temp ''discipline'') (\<lambda>d.
          bnd (grib_get_long P temp ''parameterCategory'') (\<lambda>c.
          bnd (grib_get_long P temp ''parameterNumber'') (\<lambda>n.
          bnd (grib_get_long P temp ''typeOfFirstFixedSurface'') (\<lambda>l.
          bnd (grib_get_double P temp ''scaledValueOfFirstFixedSurface'') (\<lambda>levValue.
          case store_pv_record sl d c n l levValue temp of
            Some sl' \<Rightarrow> pv_loop fuel P temp True sl'
          | None \<Rightarrow> pv_loop fuel P temp False sl)))))))) "

subsection \<open>The merge and the formula\<close>

text \<open>
  The assignments to \<open>tempPressureValue\<close> and \<open>tempTemperatureValue\<close>, one after the other:
  the mean when both hemispheres have a value, then the \<open>if\<close>/\<open>else\<close> chain that picks the
  only one present.
\<close>

definition merge_hemispheres :: "cdouble \<Rightarrow> cdouble \<Rightarrow> cdouble" where
  "merge_hemispheres south north =
     (let v = dlit 9999;
          v = (if \<not> deq south (dlit 9999) \<and> \<not> deq north (dlit 9999)
               then ddiv (dadd south north) (dlit 2) else v);
          v = (if deq south (dlit 9999) \<and> \<not> deq north (dlit 9999) then north
               else if \<not> deq south (dlit 9999) \<and> deq north (dlit 9999) then south
               else dlit 9999)
      in v)"

definition potential_temperature_value ::
  "(cdouble \<Rightarrow> cdouble \<Rightarrow> cdouble) \<Rightarrow> cdouble \<Rightarrow> cdouble \<Rightarrow> cdouble \<Rightarrow> cdouble \<Rightarrow> cdouble" where
  "potential_temperature_value pow pS pN tS tN =
     (let p = merge_hemispheres pS pN; t = merge_hemispheres tS tN in
      if deq p (dlit 9999) \<or> deq t (dlit 9999) then dlit 9999
      else dmul t (pow (ddiv (dlit 100000) p) (dlit (2854 / 10000))))"

definition potential_temperature_values :: "'g platform \<Rightarrow> nat \<Rightarrow> cdouble list option \<Rightarrow> cdouble list option
    \<Rightarrow> cdouble list option \<Rightarrow> cdouble list option \<Rightarrow> ('g world, cdouble list) prog" where
  "potential_temperature_values P n pN pS tN tS = cells n (\<lambda>i.
     bnd (cell_of pS i) (\<lambda>pSi. bnd (cell_of pN i) (\<lambda>pNi.
     bnd (cell_of tS i) (\<lambda>tSi. bnd (cell_of tN i) (\<lambda>tNi.
     ret (potential_temperature_value (libm_pow P) pSi pNi tSi tNi))))))"

subsection \<open>The procedure\<close>

definition generatePotentialTemperature ::
  "'g platform \<Rightarrow> int \<Rightarrow> int \<Rightarrow> int \<Rightarrow> int \<Rightarrow> int \<Rightarrow> int \<Rightarrow> ('g world, unit) prog" where
  "generatePotentialTemperature P yyyy mm dd hh fff em =
     (let n_lat = get_n_lat yyyy mm dd hh; n_lon = get_n_lon yyyy mm dd hh in
      bnd (rd (\<lambda>s. bFile s = None)) (\<lambda>noB. if noB then ret () else
      bnd (newGribRecord P yyyy mm dd hh fff em n_lat n_lon) (\<lambda>gh.
      bnd (output_name POTENTIAL_TEMPERATURE yyyy mm dd hh fff em) (\<lambda>fileName.
      bnd (grib_set P gh potential_temperature_settings) (\<lambda>gh.
      bnd (rd search_fuel) (\<lambda>fuel.
      bnd (pv_loop fuel P None False no_slots) (\<lambda>found.
      case found of None \<Rightarrow> ret () | Some sl \<Rightarrow>
      bnd (extract_values P (ncepPressureNorth sl)) (\<lambda>(pN, n).
      bnd (extract_values P (ncepPressureSouth sl)) (\<lambda>(pS, n).
      bnd (extract_values P (ncepTemperatureNorth sl)) (\<lambda>(tN, n).
      bnd (extract_values P (ncepTemperatureSouth sl)) (\<lambda>(tS, n).
      bnd (calloc_doubles P n) (\<lambda>values.
      bnd (or_exit1 values) (\<lambda>values.
      bnd (grib_set P gh bitmap_settings) (\<lambda>gh.
      bnd (potential_temperature_values P n pN pS tN tS) (\<lambda>values.
      bnd (grib_set_double_array P gh ''values'' values) (\<lambda>gh.
      bnd (writeGribToFile P gh fileName) (\<lambda>status.
      seq (free pN) (
      seq (free pS) (
      seq (free tN) (
      seq (free tS) (
      seq (free (Some values)) (
      seq (grib_handle_delete gh) (
      seq (grib_handle_delete (ncepPressureNorth sl)) (
      seq (grib_handle_delete (ncepPressureSouth sl)) (
      seq (grib_handle_delete (ncepTemperatureNorth sl)) (
      seq (grib_handle_delete (ncepTemperatureSouth sl)) (
      seq (rewind AFile) (
      rewind BFile))))))))))))))))))))))))))))"

subsection \<open>The hemispheres\<close>

lemma not_zero_literal: "\<not> deq (dlit (- 2147485648)) (Fin 0)"
  using rnd_neg_numeral [of "num.Bit0 num.One"] by (simp add: dlit_def rnd_neg_numeral)

text \<open>The level test of the southern hemisphere accepts every level.\<close>

lemma south_level_always [simp]: "south_level levValue"
  by (simp add: south_level_def not_zero_literal)

lemma merge_hemispheres_simps:
  "deq s (dlit 9999) \<Longrightarrow> \<not> deq n (dlit 9999) \<Longrightarrow> merge_hemispheres s n = n"
  "\<not> deq s (dlit 9999) \<Longrightarrow> deq n (dlit 9999) \<Longrightarrow> merge_hemispheres s n = s"
  "deq s (dlit 9999) \<Longrightarrow> deq n (dlit 9999) \<Longrightarrow> merge_hemispheres s n = dlit 9999"
  "\<not> deq s (dlit 9999) \<Longrightarrow> \<not> deq n (dlit 9999) \<Longrightarrow> merge_hemispheres s n = dlit 9999"
  by (simp_all add: merge_hemispheres_def)

lemma missing_eq: "dlit 9999 = Fin 9999"
  by (simp add: dlit_def rnd_numeral)

text \<open>Whatever the mean of the two hemispheres is, it is not used.\<close>

text \<open>C24. A point with a pressure in both hemispheres gets the missing value 9999, whatever its temperatures:
  the mean of the two hemispheres is computed and then overwritten.\<close>

lemma merge_both_present:
  "\<not> deq pS (dlit 9999) \<Longrightarrow> \<not> deq pN (dlit 9999) \<Longrightarrow>
    potential_temperature_value pow pS pN tS tN = dlit 9999"
  by (simp add: potential_temperature_value_def merge_hemispheres_simps missing_eq)

text \<open>A point that only one hemisphere covers gets the formula of the header comment.\<close>

lemma one_hemisphere:
  "deq pS (dlit 9999) \<Longrightarrow> deq tS (dlit 9999) \<Longrightarrow> \<not> deq pN (dlit 9999) \<Longrightarrow> \<not> deq tN (dlit 9999) \<Longrightarrow>
    potential_temperature_value pow pS pN tS tN = dmul tN (pow (ddiv (dlit 100000) pN) (dlit (2854 / 10000)))"
  "deq pN (dlit 9999) \<Longrightarrow> deq tN (dlit 9999) \<Longrightarrow> \<not> deq pS (dlit 9999) \<Longrightarrow> \<not> deq tS (dlit 9999) \<Longrightarrow>
    potential_temperature_value pow pS pN tS tN = dmul tS (pow (ddiv (dlit 100000) pS) (dlit (2854 / 10000)))"
  by (simp_all add: potential_temperature_value_def merge_hemispheres_simps Let_def)

subsection \<open>The search as a scan of the records\<close>

text \<open>What a record is for this variable.\<close>

datatype pv_kind = PressureNorth | PressureOther | TemperatureNorth | TemperatureOther | Unwanted

definition pv_kind_of :: "int \<Rightarrow> int \<Rightarrow> int \<Rightarrow> int \<Rightarrow> cdouble \<Rightarrow> pv_kind" where
  "pv_kind_of d c n l levValue =
     (if d = 0 \<and> c = 3 \<and> n = 0 \<and> l = 109 then (if north_level levValue then PressureNorth else PressureOther)
      else if d = 0 \<and> c = 0 \<and> n = 0 \<and> l = 109 then
        (if north_level levValue then TemperatureNorth else TemperatureOther)
      else Unwanted)"

fun put_pv :: "'g pv_slots \<Rightarrow> 'g \<times> pv_kind \<Rightarrow> 'g pv_slots" where
  "put_pv sl (g, PressureNorth) =
     (if ncepPressureNorth sl = None then sl\<lparr>ncepPressureNorth := Some g\<rparr>
      else if ncepPressureSouth sl = None then sl\<lparr>ncepPressureSouth := Some g\<rparr> else sl)"
| "put_pv sl (g, PressureOther) =
     (if ncepPressureSouth sl = None then sl\<lparr>ncepPressureSouth := Some g\<rparr> else sl)"
| "put_pv sl (g, TemperatureNorth) =
     (if ncepTemperatureNorth sl = None then sl\<lparr>ncepTemperatureNorth := Some g\<rparr>
      else if ncepTemperatureSouth sl = None then sl\<lparr>ncepTemperatureSouth := Some g\<rparr> else sl)"
| "put_pv sl (g, TemperatureOther) =
     (if ncepTemperatureSouth sl = None then sl\<lparr>ncepTemperatureSouth := Some g\<rparr> else sl)"
| "put_pv sl (g, Unwanted) = sl"

fun pv_scan :: "'g pv_slots \<Rightarrow> ('g \<times> pv_kind) list \<Rightarrow> 'g pv_slots option" where
  "pv_scan sl [] = (if all_found sl then Some sl else None)"
| "pv_scan sl (x # xs) = (if all_found sl then Some sl else pv_scan (put_pv sl x) xs)"

definition slots_used :: "'g pv_slots \<Rightarrow> int" where
  "slots_used sl = (if ncepPressureNorth sl = None then 0 else 1) +
     (if ncepPressureSouth sl = None then 0 else 1) + (if ncepTemperatureNorth sl = None then 0 else 1) +
     (if ncepTemperatureSouth sl = None then 0 else 1)"

lemma slots_used_all: "all_found sl \<Longrightarrow> slots_used sl = 4"
  by (simp add: all_found_def slots_used_def)

lemma slots_used_none: "slots_used no_slots = 0"
  by (simp add: no_slots_def slots_used_def)

lemma store_pv_record_kind:
  "store_pv_record sl d c n l v (Some g) =
     (let sl' = put_pv sl (g, pv_kind_of d c n l v)
      in if slots_used sl' = slots_used sl + 1 then Some sl' else None)"
  by (cases "d = 0 \<and> c = 3 \<and> n = 0 \<and> l = 109"; cases "d = 0 \<and> c = 0 \<and> n = 0 \<and> l = 109"; cases "north_level v";
      cases "ncepPressureNorth sl"; cases "ncepPressureSouth sl";
      cases "ncepTemperatureNorth sl"; cases "ncepTemperatureSouth sl";
      auto simp: store_pv_record_def pv_kind_of_def slots_used_def)

lemma put_pv_used: "put_pv sl x = sl \<or> slots_used (put_pv sl x) = slots_used sl + 1"
  by (cases "(sl, x)" rule: put_pv.cases) (simp_all add: slots_used_def)

definition is_pv_kind :: "'g grib_api \<Rightarrow> 'g \<times> pv_kind \<Rightarrow> bool" where
  "is_pv_kind G x \<longleftrightarrow> (\<exists>d c n l v. keys4 G (fst x) d c n l \<and>
     api_get_double G (fst x) ''scaledValueOfFirstFixedSurface'' = Inr v \<and> pv_kind_of d c n l v = snd x)"

lemma pv_loop_step:
  assumes "is_pv_kind (grib P) (g, k)" "\<not> all_found sl" "rest BFile s = Inr g # xs"
  shows "pv_loop (Suc fuel) P temp skip sl s =
    pv_loop fuel P (Some g) (slots_used (put_pv sl (g, k)) = slots_used sl + 1) (put_pv sl (g, k))
      ((advance BFile s)\<lparr>live_handles := live_handles s - (if temp \<noteq> None \<and> \<not> skip then 1 else 0) + 1\<rparr>)"
proof -
  obtain d c n l v where key: "api_get_long (grib P) g ''discipline'' = Inr d"
    "api_get_long (grib P) g ''parameterCategory'' = Inr c" "api_get_long (grib P) g ''parameterNumber'' = Inr n"
    "api_get_long (grib P) g ''typeOfFirstFixedSurface'' = Inr l"
    "api_get_double (grib P) g ''scaledValueOfFirstFixedSurface'' = Inr v" "pv_kind_of d c n l v = k"
    using assms(1) by (auto simp: is_pv_kind_def keys4_def keys3_def)
  have "grib_handle_new_from_file BFile (s\<lparr>live_handles := x\<rparr>) =
      (Ok (Some g), (advance BFile s)\<lparr>live_handles := x + 1\<rparr>)" for x
    using read_next [of BFile "s\<lparr>live_handles := x\<rparr>" g xs] assms(3) by simp
  moreover have "grib_handle_new_from_file BFile s = (Ok (Some g), (advance BFile s)\<lparr>live_handles := live_handles s + 1\<rparr>)"
    using assms(3) by (rule read_next)
  ultimately show ?thesis
    using key assms(2) put_pv_used [of sl "(g, k)"]
    by (cases temp) (auto simp: run_simps only_if_def store_pv_record_kind Let_def)
qed

lemma pv_loop_run:
  assumes "list_all (is_pv_kind (grib P)) xs" "pv_scan sl xs = Some sl'"
    and "readable (drop (file_pos f) (file_items f)) = map fst xs @ gs"
    and "length xs < fuel" "all_found sl \<longrightarrow> temp = None \<or> skip"
  shows "\<exists>p. \<forall>s. bFile s = Some f \<longrightarrow> pv_loop fuel P temp skip sl s = (Ok (Some sl'),
    s\<lparr>bFile := Some (read_to p f), live_handles := live_handles s + slots_used sl' - slots_used sl -
      (if temp \<noteq> None \<and> \<not> skip then 1 else 0)\<rparr>)"
  using assms
proof (induction xs arbitrary: sl f fuel temp skip)
  case Nil
  then obtain n where n: "fuel = Suc n" by (cases fuel) auto
  have "all_found sl" "sl' = sl" using Nil.prems by (auto split: if_splits)
  then show ?case using Nil.prems(5) n
    by (intro exI [of _ "file_pos f"]) (auto simp: run_simps read_to_def)
next
  case (Cons x xs)
  obtain n where n: "fuel = Suc n" "length xs < n" using Cons.prems(4) by (cases fuel) auto
  obtain g k where x: "x = (g, k)" by (cases x)
  show ?case
  proof (cases "all_found sl")
    case True
    then have "sl' = sl" using Cons.prems(2) by simp
    then show ?thesis using Cons.prems(5) n True
      by (intro exI [of _ "file_pos f"]) (auto simp: run_simps read_to_def)
  next
    case False
    let ?sl = "put_pv sl x"
    let ?skip = "slots_used ?sl = slots_used sl + 1"
    let ?f = "read_to (Suc (file_pos f)) f"
    obtain ys where ys: "drop (file_pos f) (file_items f) = Inr g # ys" "readable ys = map fst xs @ gs"
      using Cons.prems(3) x by (auto dest: readable_Cons)
    then have d: "drop (file_pos ?f) (file_items ?f) = ys"
      by (metis drop_Suc list.sel(3) read_to_simps(2,4) tl_drop)
    have kind: "is_pv_kind (grib P) (g, k)" using Cons.prems(1) x by simp
    have "all_found ?sl \<longrightarrow> ?skip" using put_pv_used [of sl x] False by auto
    then obtain p where p: "\<forall>s. bFile s = Some ?f \<longrightarrow> pv_loop n P (Some g) ?skip ?sl s = (Ok (Some sl'),
        s\<lparr>bFile := Some (read_to p ?f), live_handles := live_handles s + slots_used sl' - slots_used ?sl -
          (if Some g \<noteq> None \<and> \<not> ?skip then 1 else 0)\<rparr>)"
      using Cons.IH [of ?sl ?f n "Some g" ?skip] Cons.prems False n(2) ys(2) d by auto
    have "pv_loop fuel P temp skip sl s = (Ok (Some sl'), s\<lparr>bFile := Some (read_to p f),
        live_handles := live_handles s + slots_used sl' - slots_used sl - (if temp \<noteq> None \<and> \<not> skip then 1 else 0)\<rparr>)"
      if f: "bFile s = Some f" for s :: "'a world"
    proof -
      have "rest BFile s = Inr g # ys" using f ys(1) by (simp add: rest_def)
      from pv_loop_step [OF kind False this, of n temp skip] p f put_pv_used [of sl x]
      show ?thesis by (auto simp: n(1) x advance_def read_to_def)
    qed
    then show ?thesis by blast
  qed
qed

subsection \<open>Which records end up in the slots\<close>

text \<open>The first element with a property, and the list without it.\<close>

fun first_of :: "('x \<Rightarrow> bool) \<Rightarrow> ('g \<times> 'x) list \<Rightarrow> 'g option" where
  "first_of Q [] = None"
| "first_of Q ((g, k) # xs) = (if Q k then Some g else first_of Q xs)"

fun without_first :: "('x \<Rightarrow> bool) \<Rightarrow> ('g \<times> 'x) list \<Rightarrow> ('g \<times> 'x) list" where
  "without_first Q [] = []"
| "without_first Q ((g, k) # xs) = (if Q k then xs else (g, k) # without_first Q xs)"

definition or_else :: "'a option \<Rightarrow> 'a option \<Rightarrow> 'a option" where
  "or_else x y = (case x of None \<Rightarrow> y | Some _ \<Rightarrow> x)"

lemma pv_scan_north:
  "pv_scan sl xs = Some sl' \<Longrightarrow>
     ncepPressureNorth sl' = or_else (ncepPressureNorth sl) (first_of ((=) PressureNorth) xs) \<and>
     ncepTemperatureNorth sl' = or_else (ncepTemperatureNorth sl) (first_of ((=) TemperatureNorth) xs)"
proof (induction xs arbitrary: sl)
  case Nil
  then show ?case by (auto simp: or_else_def all_found_def split: if_splits)
next
  case (Cons x xs)
  show ?case
  proof (cases "all_found sl")
    case True
    then show ?thesis using Cons.prems by (auto simp: or_else_def all_found_def)
  next
    case False
    then show ?thesis using Cons.prems Cons.IH [of "put_pv sl x"]
      by (cases "(sl, x)" rule: put_pv.cases) (auto simp: or_else_def split: if_splits option.splits)
  qed
qed

definition is_pressure :: "pv_kind \<Rightarrow> bool" where
  "is_pressure k \<longleftrightarrow> k = PressureNorth \<or> k = PressureOther"

definition is_temperature :: "pv_kind \<Rightarrow> bool" where
  "is_temperature k \<longleftrightarrow> k = TemperatureNorth \<or> k = TemperatureOther"

lemma pv_scan_south:
  "pv_scan sl xs = Some sl' \<Longrightarrow>
     ncepPressureSouth sl' = or_else (ncepPressureSouth sl) (first_of is_pressure
       (if ncepPressureNorth sl = None then without_first ((=) PressureNorth) xs else xs)) \<and>
     ncepTemperatureSouth sl' = or_else (ncepTemperatureSouth sl) (first_of is_temperature
       (if ncepTemperatureNorth sl = None then without_first ((=) TemperatureNorth) xs else xs))"
proof (induction xs arbitrary: sl)
  case Nil
  then show ?case by (auto simp: or_else_def all_found_def split: if_splits)
next
  case (Cons x xs)
  show ?case
  proof (cases "all_found sl")
    case True
    then show ?thesis using Cons.prems by (auto simp: or_else_def all_found_def)
  next
    case False
    then show ?thesis using Cons.prems Cons.IH [of "put_pv sl x"]
      by (cases "(sl, x)" rule: put_pv.cases)
        (auto simp: or_else_def is_pressure_def is_temperature_def split: if_splits option.splits)
  qed
qed

subsection \<open>What is written\<close>

definition potential_temperature_field ::
  "(cdouble \<Rightarrow> cdouble \<Rightarrow> cdouble) \<Rightarrow> cdouble list \<Rightarrow> cdouble list \<Rightarrow> cdouble list \<Rightarrow> cdouble list \<Rightarrow> cdouble list" where
  "potential_temperature_field pow pN pS tN tS =
     map (\<lambda>i. potential_temperature_value pow (pS ! i) (pN ! i) (tS ! i) (tN ! i)) [0..<length tS]"

lemma potential_temperature_values_run [run_simps]:
  assumes "length pN = length tS" "length pS = length tS" "length tN = length tS"
  shows "potential_temperature_values P (length tS) (Some pN) (Some pS) (Some tN) (Some tS) s =
    (Ok (potential_temperature_field (libm_pow P) pN pS tN tS), s)"
  unfolding potential_temperature_values_def potential_temperature_field_def
  by (rule cells_run) (use assms in \<open>simp add: run_simps\<close>)

text \<open>What the procedure needs of the b file, and the file it then writes.\<close>

definition potential_temperature_input :: "'g platform \<Rightarrow> int \<Rightarrow> int \<Rightarrow> int \<Rightarrow> int \<Rightarrow> int \<Rightarrow> int
    \<Rightarrow> 'g gfile \<Rightarrow> 'g gfile \<Rightarrow> string \<times> byte list \<Rightarrow> bool" where
  "potential_temperature_input P yyyy mm dd hh fff em fa fb out \<longleftrightarrow> allocs_succeed P \<and> (\<exists>xs gpN gpS gtN gtS pN pS tN tS.
     list_all (is_pv_kind (grib P)) xs \<and> readable (drop (file_pos fb) (file_items fb)) = map fst xs \<and>
     pv_scan no_slots xs = Some \<lparr>ncepPressureNorth = Some gpN, ncepPressureSouth = Some gpS,
       ncepTemperatureNorth = Some gtN, ncepTemperatureSouth = Some gtS\<rparr> \<and>
     has_values P gpN pN \<and> has_values P gpS pS \<and> has_values P gtN tN \<and> has_values P gtS tS \<and>
     length pN = length tS \<and> length pS = length tS \<and> length tN = length tS \<and>
     destination P POTENTIAL_TEMPERATURE yyyy mm dd hh fff em (fst out) \<and>
     produces P (base_settings yyyy mm dd hh fff em) (potential_temperature_settings @ bitmap_settings)
       (potential_temperature_field (libm_pow P) pN pS tN tS) (snd out))"

lemma potential_temperature_written:
  assumes "aFile s = Some fa" "bFile s = Some fb" "potential_temperature_input P yyyy mm dd hh fff em fa fb out"
  shows "generatePotentialTemperature P yyyy mm dd hh fff em s = (Ok (),
    s\<lparr>output_files := output_files s @ [out], aFile := Some (rewound fa), bFile := Some (rewound fb),
      allocations := allocations s + 5\<rparr>)"
proof -
  note files = assms(1,2)
  obtain path m where po: "out = (path, m)" by (cases out)
  from assms(3) obtain xs gpN gpS gtN gtS pN pS tN tS where mem: "allocs_succeed P"
    and recs: "list_all (is_pv_kind (grib P)) xs"
      "readable (drop (file_pos fb) (file_items fb)) = map fst xs"
      "pv_scan no_slots xs = Some \<lparr>ncepPressureNorth = Some gpN, ncepPressureSouth = Some gpS,
         ncepTemperatureNorth = Some gtN, ncepTemperatureSouth = Some gtS\<rparr>"
    and vals: "has_values P gpN pN" "has_values P gpS pS" "has_values P gtN tN" "has_values P gtS tS"
      "length pN = length tS" "length pS = length tS" "length tN = length tS"
    and out: "destination P POTENTIAL_TEMPERATURE yyyy mm dd hh fff em path"
      "produces P (base_settings yyyy mm dd hh fff em) (potential_temperature_settings @ bitmap_settings)
        (potential_temperature_field (libm_pow P) pN pS tN tS) m"
    unfolding potential_temperature_input_def po fst_conv snd_conv by blast
  obtain g0 g2 g3 where new: "base_record P (base_settings yyyy mm dd hh fff em) g0"
      "apply_settings (grib P) g0 (potential_temperature_settings @ bitmap_settings) = Inr g2"
      "api_set_doubles (grib P) g2 ''values'' (potential_temperature_field (libm_pow P) pN pS tN tS) = Inr g3"
      "api_message (grib P) g3 = Inr m"
    using out(2) by (rule producesE)
  then obtain g1 where g1: "apply_settings (grib P) g0 potential_temperature_settings = Inr g1"
      "apply_settings (grib P) g1 bitmap_settings = Inr g2"
    by (auto simp: apply_settings_append split: sum.splits)
  obtain name where name: "generateFileName (vid POTENTIAL_TEMPERATURE) yyyy mm dd hh fff em = Some name"
      "writable P name path" using out(1) by (auto simp: destination_def)
  let ?sl = "\<lparr>ncepPressureNorth = Some gpN, ncepPressureSouth = Some gpS,
      ncepTemperatureNorth = Some gtN, ncepTemperatureSouth = Some gtS\<rparr>"
  let ?fuel = "search_fuel (s\<lparr>live_handles := live_handles s + 1\<rparr>)"
  have fuel: "length xs < ?fuel"
    using readable_fuel [of BFile "s\<lparr>live_handles := live_handles s + 1\<rparr>"] recs(2) files(2) by (simp add: rest_def)
  have "slots_used ?sl = 4" by (simp add: slots_used_def)
  then obtain p where "\<forall>t. bFile t = Some fb \<longrightarrow> pv_loop ?fuel P None False no_slots t = (Ok (Some ?sl),
      t\<lparr>bFile := Some (read_to p fb), live_handles := live_handles t + 4\<rparr>)"
    using pv_loop_run [OF recs(1,3) _ fuel, of fb "[]" None False] recs(2) by (auto simp: slots_used_none)
  then show ?thesis using po files mem vals new g1 name
    by (simp add: generatePotentialTemperature_def run_simps newGribRecord_run flip: base_settings_def)
qed

text \<open>C14. Potential temperature is computed, point by point, from the pressures and temperatures of the two
  hemispheres that the loop over the b file put into its four slots. One record is written; every
  handle and block is given back and both files are rewound.\<close>

lemma generatePotentialTemperature_run:
  assumes files: "aFile s = Some fa" "bFile s = Some fb" and mem: "allocs_succeed P"
    and recs: "list_all (is_pv_kind (grib P)) xs"
      "readable (drop (file_pos fb) (file_items fb)) = map fst xs"
      "pv_scan no_slots xs = Some \<lparr>ncepPressureNorth = Some gpN, ncepPressureSouth = Some gpS,
         ncepTemperatureNorth = Some gtN, ncepTemperatureSouth = Some gtS\<rparr>"
    and vals: "has_values P gpN pN" "has_values P gpS pS" "has_values P gtN tN" "has_values P gtS tS"
      "length pN = length tS" "length pS = length tS" "length tN = length tS"
    and out: "destination P POTENTIAL_TEMPERATURE yyyy mm dd hh fff em path"
      "produces P (base_settings yyyy mm dd hh fff em) (potential_temperature_settings @ bitmap_settings)
        (potential_temperature_field (libm_pow P) pN pS tN tS) m"
  shows "generatePotentialTemperature P yyyy mm dd hh fff em s = (Ok (),
    s\<lparr>output_files := output_files s @ [(path, m)], aFile := Some (rewound fa), bFile := Some (rewound fb),
      allocations := allocations s + 5\<rparr>)"
  using potential_temperature_written [OF files, of P yyyy mm dd hh fff em "(path, m)"] assms
  unfolding potential_temperature_input_def fst_conv snd_conv by blast


lemma generatePotentialTemperature_no_file:
  "bFile s = None \<Longrightarrow> generatePotentialTemperature P yyyy mm dd hh fff em s = (Ok (), s)"
  by (simp add: generatePotentialTemperature_def run_simps)


end
