(* ===== verification/TotalColumnWater.thy ===== *)
theory TotalColumnWater
  imports Generation
begin

text \<open>
  \<open>src/src/generateTotalColumnWater.c\<close>: the sum of the precipitable water of the a file and
  the cloud water of the b file, both for the whole atmosphere, point by point.
\<close>

definition total_column_water_settings :: "int \<Rightarrow> setting list" where
  "total_column_water_settings fff =
     [SetLong ''productDefinitionTemplateNumber'' 1,
      SetLong ''parameterCategory'' 1,
      SetLong ''parameterNumber'' 51,
      SetLong ''typeOfFirstFixedSurface'' 1,
      SetLong ''typeOfSecondFixedSurface'' 8,
      SetLong ''scaledValueOfFirstFixedSurface'' 4294967295,
      SetLong ''scaleFactorOfFirstFixedSurface'' 255,
      SetLong ''scaledValueOfSecondFixedSurface'' 4294967295,
      SetLong ''scaleFactorOfSecondFixedSurface'' 255,
      SetLong ''marsStartStep'' 0,
      SetLong ''forecastTime'' fff]"

definition is_precipitable_water :: "int \<Rightarrow> int \<Rightarrow> int \<Rightarrow> int \<Rightarrow> bool" where
  "is_precipitable_water d c n l \<longleftrightarrow> \<not> (d \<noteq> 0 \<or> c \<noteq> 1 \<or> n \<noteq> 3 \<or> l \<noteq> 200)"

definition is_cloud_water :: "int \<Rightarrow> int \<Rightarrow> int \<Rightarrow> int \<Rightarrow> bool" where
  "is_cloud_water d c n l \<longleftrightarrow> \<not> (d \<noteq> 0 \<or> c \<noteq> 6 \<or> n \<noteq> 6 \<or> l \<noteq> 200)"

definition sum_column_water ::
  "nat \<Rightarrow> cdouble list option \<Rightarrow> cdouble list option \<Rightarrow> ('g world, cdouble list) prog" where
  "sum_column_water n precip cloud =
     cells n (\<lambda>i. bnd (cell_of precip i) (\<lambda>x. bnd (cell_of cloud i) (\<lambda>y. ret (dadd x y))))"

definition generateTotalColumnWater ::
  "'g platform \<Rightarrow> int \<Rightarrow> int \<Rightarrow> int \<Rightarrow> int \<Rightarrow> int \<Rightarrow> int \<Rightarrow> ('g world, unit) prog" where
  "generateTotalColumnWater P yyyy mm dd hh fff em =
     (let n_lat = get_n_lat yyyy mm dd hh; n_lon = get_n_lon yyyy mm dd hh in
      bnd (rd (\<lambda>s. aFile s = None)) (\<lambda>noA. if noA then ret () else
      bnd (rd (\<lambda>s. bFile s = None)) (\<lambda>noB. if noB then ret () else
      bnd (newGribRecord P yyyy mm dd hh fff em n_lat n_lon) (\<lambda>gh.
      bnd (output_name TOTAL_COLUMN_WATER yyyy mm dd hh fff em) (\<lambda>fileName.
      bnd (grib_set P gh (total_column_water_settings fff)) (\<lambda>gh.
      bnd (search AFile (read4 P is_precipitable_water)) (\<lambda>precip.
      if precip = None then ret () else
      bnd (extract_values P precip) (\<lambda>(precipValues, n).
      bnd (search BFile (read4 P is_cloud_water)) (\<lambda>cloud.
      if cloud = None then ret () else
      bnd (extract_values P cloud) (\<lambda>(cloudValues, n).
      bnd (calloc_doubles P n) (\<lambda>total.
      bnd (or_exit1 total) (\<lambda>total.
      bnd (sum_column_water n precipValues cloudValues) (\<lambda>total.
      bnd (grib_set_double_array P gh ''values'' total) (\<lambda>gh.
      bnd (writeGribToFile P gh fileName) (\<lambda>status.
      seq (free precipValues) (
      seq (free cloudValues) (
      seq (free (Some total)) (
      seq (grib_handle_delete gh) (
      seq (grib_handle_delete precip) (
      seq (grib_handle_delete cloud) (
      seq (rewind AFile) (
      rewind BFile))))))))))))))))))))))"

text \<open>What the procedure needs of the two files, and the file it then writes.\<close>

definition total_column_water_input :: "'g platform \<Rightarrow> int \<Rightarrow> int \<Rightarrow> int \<Rightarrow> int \<Rightarrow> int \<Rightarrow> int
    \<Rightarrow> 'g gfile \<Rightarrow> 'g gfile \<Rightarrow> string \<times> byte list \<Rightarrow> bool" where
  "total_column_water_input P yyyy mm dd hh fff em fa fb out \<longleftrightarrow> allocs_succeed P \<and> (\<exists>g xs h ys.
     first_hit (says4 (grib P) is_precipitable_water) False True (readable (drop (file_pos fa) (file_items fa))) g \<and>
     has_values P g xs \<and>
     first_hit (says4 (grib P) is_cloud_water) False True (readable (drop (file_pos fb) (file_items fb))) h \<and>
     has_values P h ys \<and> length xs = length ys \<and>
     destination P TOTAL_COLUMN_WATER yyyy mm dd hh fff em (fst out) \<and>
     produces P (base_settings yyyy mm dd hh fff em) (total_column_water_settings fff) (map2 dadd xs ys) (snd out))"

lemma total_column_water_written:
  assumes "aFile s = Some fa" "bFile s = Some fb" "total_column_water_input P yyyy mm dd hh fff em fa fb out"
  shows "generateTotalColumnWater P yyyy mm dd hh fff em s = (Ok (),
    s\<lparr>output_files := output_files s @ [out], aFile := Some (rewound fa), bFile := Some (rewound fb),
      allocations := allocations s + 3\<rparr>)"
proof -
  note files = assms(1,2)
  obtain path m where po: "out = (path, m)" by (cases out)
  from assms(3) obtain g xs h ys where mem: "allocs_succeed P"
    and precip: "first_hit (says4 (grib P) is_precipitable_water) False True
        (readable (drop (file_pos fa) (file_items fa))) g" "has_values P g xs"
    and cloud: "first_hit (says4 (grib P) is_cloud_water) False True
        (readable (drop (file_pos fb) (file_items fb))) h" "has_values P h ys"
    and size: "length xs = length ys"
    and out: "destination P TOTAL_COLUMN_WATER yyyy mm dd hh fff em path"
      "produces P (base_settings yyyy mm dd hh fff em) (total_column_water_settings fff) (map2 dadd xs ys) m"
    unfolding total_column_water_input_def po fst_conv snd_conv by blast
  obtain g0 g1 g2 where new: "base_record P (base_settings yyyy mm dd hh fff em) g0"
      "apply_settings (grib P) g0 (total_column_water_settings fff) = Inr g1"
      "api_set_doubles (grib P) g1 ''values'' (map2 dadd xs ys) = Inr g2" "api_message (grib P) g2 = Inr m"
    using out(2) by (rule producesE)
  obtain name where name: "generateFileName (vid TOTAL_COLUMN_WATER) yyyy mm dd hh fff em = Some name"
      "writable P name path" using out(1) by (auto simp: destination_def)
  obtain p where p: "\<forall>t. aFile t = Some fa \<longrightarrow> search AFile (read4 P is_precipitable_water) t =
      (Ok (Some g), t\<lparr>aFile := Some (read_to p fa), live_handles := live_handles t + 1\<rparr>)"
    using search_a_run [OF answers_read(2) precip(1)] by blast
  obtain q where q: "\<forall>t. bFile t = Some fb \<longrightarrow> search BFile (read4 P is_cloud_water) t =
      (Ok (Some h), t\<lparr>bFile := Some (read_to q fb), live_handles := live_handles t + 1\<rparr>)"
    using search_b_run [OF answers_read(2) cloud(1)] by blast
  have "sum_column_water (length ys) (Some xs) (Some ys) t = (Ok (map2 dadd xs ys), t)" for t :: "'a world"
    using size pointwise_map2 [OF size, of dadd]
    by (simp add: sum_column_water_def cells2_run pointwise_def)
  with p q show ?thesis using po files mem precip(2) cloud(2) new name
    by (simp add: generateTotalColumnWater_def run_simps newGribRecord_run flip: base_settings_def)
qed

text \<open>C13. Total column water is the sum, point by point, of the first precipitable water record of the a file
  and the first cloud water record of the b file. One record is written, under the name of the
  variable, date, hour and member; every handle and block is given back and both files are rewound.\<close>

lemma generateTotalColumnWater_run:
  assumes files: "aFile s = Some fa" "bFile s = Some fb" and mem: "allocs_succeed P"
    and precip: "first_hit (says4 (grib P) is_precipitable_water) False True
        (readable (drop (file_pos fa) (file_items fa))) g" "has_values P g xs"
    and cloud: "first_hit (says4 (grib P) is_cloud_water) False True
        (readable (drop (file_pos fb) (file_items fb))) h" "has_values P h ys"
    and size: "length xs = length ys"
    and out: "destination P TOTAL_COLUMN_WATER yyyy mm dd hh fff em path"
      "produces P (base_settings yyyy mm dd hh fff em) (total_column_water_settings fff) (map2 dadd xs ys) m"
  shows "generateTotalColumnWater P yyyy mm dd hh fff em s = (Ok (),
    s\<lparr>output_files := output_files s @ [(path, m)], aFile := Some (rewound fa), bFile := Some (rewound fb),
      allocations := allocations s + 3\<rparr>)"
  using total_column_water_written [OF files, of P yyyy mm dd hh fff em "(path, m)"] assms
  unfolding total_column_water_input_def fst_conv snd_conv by blast


text \<open>
  What happens when an input is not there. Without a file nothing is done. Without the record in
  the a file the procedure gives up where it stands: the new record is not deleted and the
  stream stays at its end; when the record of the b file is missing, the record of the a
  file and its values are lost as well.
\<close>

lemma generateTotalColumnWater_no_file:
  "aFile s = None \<or> bFile s = None \<Longrightarrow> generateTotalColumnWater P yyyy mm dd hh fff em s = (Ok (), s)"
  by (cases "aFile s") (simp_all add: generateTotalColumnWater_def run_simps)

lemma generateTotalColumnWater_no_precip:
  assumes files: "aFile s = Some fa" "bFile s = Some fb" "file_pos fa \<le> length (file_items fa)"
    and miss: "all_readable (drop (file_pos fa) (file_items fa))"
      "no_hit (says4 (grib P) is_precipitable_water) False (readable (drop (file_pos fa) (file_items fa)))"
    and new: "base_record P (base_settings yyyy mm dd hh fff em) g0"
      "apply_settings (grib P) g0 (total_column_water_settings fff) = Inr g1"
      "generateFileName (vid TOTAL_COLUMN_WATER) yyyy mm dd hh fff em = Some name"
  shows "generateTotalColumnWater P yyyy mm dd hh fff em s =
    (Ok (), s\<lparr>aFile := Some (exhausted fa), live_handles := live_handles s + 1\<rparr>)"
  using files new search_missing [OF answers_read(2), of AFile _ fa P is_precipitable_water] miss
  by (simp add: generateTotalColumnWater_def run_simps newGribRecord_run flip: base_settings_def)

text \<open>When the b file has no cloud water record, the total column water procedure writes nothing and gives
  up where it stands: the new record, the precipitable water record and its array of values are
  lost, and the b file stays at its end.\<close>

lemma generateTotalColumnWater_no_cloud:
  assumes files: "aFile s = Some fa" "bFile s = Some fb" "file_pos fb \<le> length (file_items fb)"
    and mem: "allocs_succeed P"
    and precip: "first_hit (says4 (grib P) is_precipitable_water) False True
        (readable (drop (file_pos fa) (file_items fa))) g" "has_values P g xs"
    and miss: "all_readable (drop (file_pos fb) (file_items fb))"
      "no_hit (says4 (grib P) is_cloud_water) False (readable (drop (file_pos fb) (file_items fb)))"
    and new: "base_record P (base_settings yyyy mm dd hh fff em) g0"
      "apply_settings (grib P) g0 (total_column_water_settings fff) = Inr g1"
      "generateFileName (vid TOTAL_COLUMN_WATER) yyyy mm dd hh fff em = Some name"
  shows "\<exists>p. generateTotalColumnWater P yyyy mm dd hh fff em s =
    (Ok (), s\<lparr>aFile := Some (read_to p fa), bFile := Some (exhausted fb),
      live_handles := live_handles s + 2, live_blocks := live_blocks s + 1,
      allocations := Suc (allocations s)\<rparr>)"
proof -
  obtain p where "\<forall>t. aFile t = Some fa \<longrightarrow> search AFile (read4 P is_precipitable_water) t =
      (Ok (Some g), t\<lparr>aFile := Some (read_to p fa), live_handles := live_handles t + 1\<rparr>)"
    using search_a_run [OF answers_read(2) precip(1)] by blast
  then show ?thesis
    using files new mem precip(2) search_missing [OF answers_read(2), of BFile _ fb P is_cloud_water] miss
    by (intro exI [of _ p])
      (simp add: generateTotalColumnWater_def run_simps newGribRecord_run flip: base_settings_def)
qed

end
