(* ===== verification/FluxLoaders.thy ===== *)
theory FluxLoaders
  imports PairSearch
begin

text \<open>
  The loaders of the time-integrated fluxes (\<open>loadDataFor...\<close> in
  \<open>src/src/generateTimeIntegrated*.c\<close>). Each finds the record or the two records of one
  forecast hour in the a file continued by the b file and appends a GRIB message to the array of
  its variable. With \<open>ignoreMissingInput\<close> a record that neither file has is replaced by a
  blank one.
\<close>

subsection \<open>Shared steps\<close>

text \<open>\<open>if(!numberOfSavedRecords[v]) { numberOfSavedRecords[v] = 0; }\<close>\<close>

definition reset_if_zero :: "int \<Rightarrow> ('g world, unit) prog" where
  "reset_if_zero v = (if \<not> valid_index v then crash else
     bnd (rd (\<lambda>s. numberOfSavedRecords s v)) (\<lambda>k.
     only_if (k = 0) (upd (\<lambda>s. s\<lparr>numberOfSavedRecords := (numberOfSavedRecords s)(v := 0)\<rparr>))))"

lemma reset_if_zero_run [run_simps]: "valid_index v \<Longrightarrow> reset_if_zero v s = (Ok (), s)"
  by (auto simp: reset_if_zero_def run_simps only_if_def fun_upd_idem)

text \<open>The next record of the a file, of the b file, or a blank one.\<close>

definition next_or_blank ::
  "'g platform \<Rightarrow> int \<Rightarrow> int \<Rightarrow> int \<Rightarrow> int \<Rightarrow> int \<Rightarrow> int \<Rightarrow> ('g world, 'g option) prog" where
  "next_or_blank P d c n l n_lat n_lon =
     bnd (grib_handle_new_from_file AFile) (\<lambda>h.
     bnd (if h = None then grib_handle_new_from_file BFile else ret h) (\<lambda>h.
     bnd (rd ignoreMissingInput) (\<lambda>ignore.
     if h = None \<and> ignore \<noteq> 0 then newBlankGribRecord P d c n l n_lat n_lon else ret h)))"

text \<open>
  \<open>grib_get_long(h, "totalLength")\<close>, \<open>grib_get_message\<close>, \<open>addGribRecordToArray\<close>. The
  length that was read is overwritten by \<open>grib_get_message\<close>.
\<close>

definition save_record :: "'g platform \<Rightarrow> int \<Rightarrow> buffers \<Rightarrow> 'g option \<Rightarrow> ('g world, buffers) prog" where
  "save_record P v gribBuffers h =
     bnd (grib_get_long P h ''totalLength'') (\<lambda>sizeLong.
     bnd (grib_get_message P h) (\<lambda>buffer.
     addGribRecordToArray P v gribBuffers buffer))"

definition wanted_record :: "int \<Rightarrow> int \<Rightarrow> int \<Rightarrow> int \<Rightarrow> int \<Rightarrow> int \<Rightarrow> int \<Rightarrow> int \<Rightarrow> bool" where
  "wanted_record d c n l ncepDiscipline ncepCategory ncepVariable ncepLevel \<longleftrightarrow>
     \<not> (ncepDiscipline \<noteq> d \<or> ncepCategory \<noteq> c \<or> ncepVariable \<noteq> n \<or> ncepLevel \<noteq> l)"

subsection \<open>The fluxes that are one record\<close>

text \<open>
  The text of the loaders of outgoing long-wave radiation, latent and sensible heat flux, which
  differ in the variable and the four numbers that identify its record.
\<close>

definition loadFlux :: "'g platform \<Rightarrow> tiggeVariableNames \<Rightarrow> int \<Rightarrow> int \<Rightarrow> int \<Rightarrow> int
    \<Rightarrow> buffers \<Rightarrow> int \<Rightarrow> int \<Rightarrow> ('g world, buffers) prog" where
  "loadFlux P v d c n l gribBuffers n_lat n_lon =
     seq (reset_if_zero (vid v)) (
     bnd (rd search_fuel) (\<lambda>fuel.
     bnd (seek fuel (next_or_blank P d c n l n_lat n_lon) (read4 P (wanted_record d c n l)) None) (\<lambda>h.
     if h = None then ret None
     else
       bnd (save_record P (vid v) gribBuffers h) (\<lambda>retBuffer.
       seq (grib_handle_delete h) (
       seq (rewind AFile) (
       seq (rewind BFile) (
       ret retBuffer)))))))"

definition loadDataForTimeIntegratedOutgoingLongWaveRadiation ::
  "'g platform \<Rightarrow> buffers \<Rightarrow> int \<Rightarrow> int \<Rightarrow> ('g world, buffers) prog" where
  "loadDataForTimeIntegratedOutgoingLongWaveRadiation P =
     loadFlux P TIME_INTEGRATED_OUTGOING_LONG_WAVE_RADIATION 0 5 193 8"

definition loadDataForTimeIntegratedSurfaceLatentHeatFlux ::
  "'g platform \<Rightarrow> buffers \<Rightarrow> int \<Rightarrow> int \<Rightarrow> ('g world, buffers) prog" where
  "loadDataForTimeIntegratedSurfaceLatentHeatFlux P =
     loadFlux P TIME_INTEGRATED_SURFACE_LATENT_HEAT_FLUX 0 0 10 1"

definition loadDataForTimeIntegratedSurfaceSensibleHeatFlux ::
  "'g platform \<Rightarrow> buffers \<Rightarrow> int \<Rightarrow> int \<Rightarrow> ('g world, buffers) prog" where
  "loadDataForTimeIntegratedSurfaceSensibleHeatFlux P =
     loadFlux P TIME_INTEGRATED_SURFACE_SENSIBLE_HEAT_FLUX 0 0 11 1"

subsection \<open>Net radiation\<close>

text \<open>Downward is parameter 192 and upward 193; the number that was found is remembered.\<close>

definition is_radiation :: "int \<Rightarrow> int \<Rightarrow> int \<Rightarrow> int \<Rightarrow> int \<Rightarrow> int option" where
  "is_radiation category d c n l =
     (if (d = 0 \<and> c = category \<and> n = 193 \<and> l = 1) \<or> (d = 0 \<and> c = category \<and> n = 192 \<and> l = 1)
      then Some n else None)"

text \<open>
  \<open>oldValues1\<close> and \<open>oldValues2\<close>: in the order found when that is 192, 193, else the other
  way round.
\<close>

definition radiation_operands :: "'g platform \<Rightarrow> nat \<Rightarrow> 'g option \<Rightarrow> int \<Rightarrow> 'g option \<Rightarrow> int
    \<Rightarrow> cdouble list option \<Rightarrow> cdouble list option
    \<Rightarrow> ('g world, cdouble list option \<times> cdouble list option) prog" where
  "radiation_operands P n h1 first h2 second oldValues1 oldValues2 =
     (if first = 192 \<and> second = 193 then
        bnd (grib_get_double_array P h1 ''values'' oldValues1 n) (\<lambda>(oldValues1, n1).
        bnd (grib_get_double_array P h2 ''values'' oldValues2 n) (\<lambda>(oldValues2, n2).
        ret (oldValues1, oldValues2)))
      else
        bnd (grib_get_double_array P h2 ''values'' oldValues1 n) (\<lambda>(oldValues1, n1).
        bnd (grib_get_double_array P h1 ''values'' oldValues2 n) (\<lambda>(oldValues2, n2).
        ret (oldValues1, oldValues2))))"

text \<open>\<open>newValues[i] = oldValues1[i] - oldValues2[i]\<close>; the allocations were not checked.\<close>

definition subtract_arrays :: "nat \<Rightarrow> cdouble list option \<Rightarrow> cdouble list option \<Rightarrow> cdouble list option
    \<Rightarrow> ('g world, cdouble list) prog" where
  "subtract_arrays n newValues oldValues1 oldValues2 = cells n (\<lambda>i.
     bnd (cell_of newValues i) (\<lambda>_.
     bnd (cell_of oldValues1 i) (\<lambda>x.
     bnd (cell_of oldValues2 i) (\<lambda>y.
     ret (dsub x y)))))"

definition loadNetRadiation :: "'g platform \<Rightarrow> tiggeVariableNames \<Rightarrow> int
    \<Rightarrow> buffers \<Rightarrow> int \<Rightarrow> int \<Rightarrow> ('g world, buffers) prog" where
  "loadNetRadiation P v category gribBuffers n_lat n_lon =
     (let n = nat (n_lat * n_lon) in
     seq (reset_if_zero (vid v)) (
     bnd (pair_search (next_or_blank P 0 category 192 1 n_lat n_lon)
            (next_or_blank P 0 category 193 1 n_lat n_lon) (read4 P (is_radiation category))) (\<lambda>found.
     case found of None \<Rightarrow> ret None | Some ((h1, first), (h2, second)) \<Rightarrow>
     bnd (calloc_doubles P n) (\<lambda>newValues.
     bnd (calloc_doubles P n) (\<lambda>oldValues1.
     bnd (calloc_doubles P n) (\<lambda>oldValues2.
     bnd (radiation_operands P n h1 first h2 second oldValues1 oldValues2) (\<lambda>(oldValues1, oldValues2).
     bnd (subtract_arrays n newValues oldValues1 oldValues2) (\<lambda>values.
     bnd (newGribRecord P 1000 1 1 0 0 0 n_lat n_lon) (\<lambda>ghTemp.
     bnd (grib_set_double_array P ghTemp ''values'' values) (\<lambda>ghTemp.
     bnd (save_record P (vid v) gribBuffers ghTemp) (\<lambda>retBuffer.
     seq (grib_handle_delete h1) (
     seq (grib_handle_delete h2) (
     seq (grib_handle_delete ghTemp) (
     seq (free newValues) (
     seq (free oldValues1) (
     seq (free oldValues2) (
     seq (rewind AFile) (
     seq (rewind BFile) (
     ret retBuffer)))))))))))))))))))"

definition loadDataForTimeIntegratedSurfaceNetSolarRadiation ::
  "'g platform \<Rightarrow> buffers \<Rightarrow> int \<Rightarrow> int \<Rightarrow> ('g world, buffers) prog" where
  "loadDataForTimeIntegratedSurfaceNetSolarRadiation P =
     loadNetRadiation P TIME_INTEGRATED_SURFACE_NET_SOLAR_RADIATION 4"

definition loadDataForTimeIntegratedSurfaceNetThermalRadiation ::
  "'g platform \<Rightarrow> buffers \<Rightarrow> int \<Rightarrow> int \<Rightarrow> ('g world, buffers) prog" where
  "loadDataForTimeIntegratedSurfaceNetThermalRadiation P =
     loadNetRadiation P TIME_INTEGRATED_SURFACE_NET_THERMAL_RADIATION 5"

subsection \<open>The source with blanks\<close>

text \<open>
  As long as the files have records, or when missing input is not ignored, the source is the a
  file continued by the b file.
\<close>

lemma next_or_blank_found:
  "next_a_then_b s = (Ok (Some g), t) \<Longrightarrow> next_or_blank P d c n l n_lat n_lon s = (Ok (Some g), t)"
  by (cases "grib_handle_new_from_file AFile s" rule: prod.exhaust;
      cases "fst (grib_handle_new_from_file AFile s)")
    (auto simp: next_or_blank_def next_a_then_b_def run_simps split: if_splits)

lemma ignore_advance [simp]:
  "ignoreMissingInput (advance w s) = ignoreMissingInput s"
  "ignoreMissingInput (at_eof w s) = ignoreMissingInput s"
  by (cases w; simp add: advance_def at_eof_def split: option.split)+

lemma ignore_ab [simp]:
  "ignoreMissingInput (ab_eat s) = ignoreMissingInput s" "ignoreMissingInput (ab_mark s) = ignoreMissingInput s"
  by (simp_all add: ab_eat_def ab_mark_def)

lemma next_a_then_b_end:
  "ab_complete s \<Longrightarrow> ab_pending s = [] \<Longrightarrow>
     rest AFile s = [] \<and> rest BFile s = []"
  by (auto simp: ab_complete_def ab_pending_def all_readable_empty)

lemma next_or_blank_end:
  assumes "ab_complete s" "ab_pending s = []"
  shows "next_or_blank P d c n l n_lat n_lon s =
    (if ignoreMissingInput s = 0 then (Ok None, ab_mark s)
     else newBlankGribRecord P d c n l n_lat n_lon (ab_mark s))"
  using next_a_then_b_end [OF assms]
  by (simp add: next_or_blank_def ab_mark_def run_simps read_end)

lemma next_or_blank_source:
  "record_source (next_or_blank P d c n l n_lat n_lon) ab_pending ab_eat
     (\<lambda>s. ab_complete s \<and> ignoreMissingInput s = 0) ab_mark"
proof unfold_locales
  fix s :: "'a world" and g gs
  assume p: "ab_pending s = g # gs"
  show "next_or_blank P d c n l n_lat n_lon s = (Ok (Some g), (ab_eat s)\<lparr>live_handles := live_handles s + 1\<rparr>)"
    by (rule next_or_blank_found) (rule ab_src.src_next [OF p])
  show "ab_pending (ab_eat s) = gs" by (rule ab_src.pending_eat [OF p])
  show "ab_complete s \<and> ignoreMissingInput s = 0 \<Longrightarrow> ab_complete (ab_eat s) \<and> ignoreMissingInput (ab_eat s) = 0"
    using ab_src.complete_eat [OF _ p] by simp
qed (simp_all add: ab_src.pending_frame ab_src.eat_frame ab_src.eat_live next_or_blank_end
    ab_src.complete_frame ab_src.mark_frame ab_src.mark_live)

interpretation flux_src: record_source "next_or_blank P d c n l n_lat n_lon" ab_pending ab_eat
    "\<lambda>s. ab_complete s \<and> ignoreMissingInput s = 0" ab_mark
  for P d c n l n_lat n_lon
  by (rule next_or_blank_source)

interpretation radiation_pair: ab_pair
    "next_or_blank P 0 category 192 1 n_lat n_lon" "\<lambda>s. ab_complete s \<and> ignoreMissingInput s = 0" ab_mark
    "next_or_blank P 0 category 193 1 n_lat n_lon" "\<lambda>s. ab_complete s \<and> ignoreMissingInput s = 0" ab_mark
  for P category n_lat n_lon
  by unfold_locales

subsection \<open>What the loaders do\<close>

definition saves :: "'g platform \<Rightarrow> 'g \<Rightarrow> byte list \<Rightarrow> bool" where
  "saves P g m \<longleftrightarrow> (\<exists>k. api_get_long (grib P) g ''totalLength'' = Inr k) \<and> api_message (grib P) g = Inr m"

definition room :: "int \<Rightarrow> 'g world \<Rightarrow> buffers \<Rightarrow> byte list list \<Rightarrow> bool" where
  "room v s a ms \<longleftrightarrow> valid_index v \<and> holds v s a ms \<and> length ms < SAVED_COLUMNS"

lemma valid_vid: "v \<noteq> TEST_VARIABLE_TI \<Longrightarrow> valid_index (vid v)"
  by (cases v) (simp_all add: valid_index_def NUMBER_OF_VARIABLES_def)

lemma save_record_run:
  fixes P :: "'g platform" and s :: "'g world"
  assumes "room v s a ms" "allocs_succeed P" "saves P g m"
  shows "\<forall>t. numberOfSavedRecords t = numberOfSavedRecords s \<longrightarrow> bytesPerRecord t = bytesPerRecord s \<longrightarrow>
    save_record P v a (Some g) t = (Ok (Some (map Block (ms @ [m]))), saved_state v a m t)"
proof (intro allI impI)
  fix t :: "'g world"
  assume "numberOfSavedRecords t = numberOfSavedRecords s" "bytesPerRecord t = bytesPerRecord s"
  then have "holds v t a ms" using assms(1) by (simp add: room_def holds_def)
  from addGribRecordToArray_run [OF this _ assms(2)] assms(1,3)
  show "save_record P v a (Some g) t = (Ok (Some (map Block (ms @ [m]))), saved_state v a m t)"
    by (auto simp: save_record_def saves_def room_def run_simps)
qed

text \<open>The record is in the files.\<close>

lemma seek_ab_run:
  assumes "first_hit (says4 (grib P) (wanted_record d c n l)) False True (ab_records fa fb) g"
  shows "\<exists>fa' fb'. rewound fa' = rewound fa \<and> rewound fb' = rewound fb \<and>
    (\<forall>s. aFile s = Some fa \<longrightarrow> bFile s = Some fb \<longrightarrow>
      seek (search_fuel s) (next_or_blank P d c n l n_lat n_lon) (read4 P (wanted_record d c n l)) None s =
      (Ok (Some g), s\<lparr>aFile := Some fa', bFile := Some fb', live_handles := live_handles s + 1\<rparr>))"
proof -
  obtain us vs where gs: "ab_records fa fb = us @ g # vs"
    "\<forall>u \<in> set us. says4 (grib P) (wanted_record d c n l) u False" "says4 (grib P) (wanted_record d c n l) g True"
    using assms by (auto simp: first_hit_def)
  obtain fa' fb' where f': "rewound fa' = rewound fa" "rewound fb' = rewound fb"
    "\<forall>s. aFile s = Some fa \<longrightarrow> bFile s = Some fb \<longrightarrow>
      (ab_eat ^^ Suc (length us)) s = s\<lparr>aFile := Some fa', bFile := Some fb'\<rparr>"
    using ab_eat_n_uniform [of fa fb "Suc (length us)"] by blast
  have "seek (search_fuel s) (next_or_blank P d c n l n_lat n_lon) (read4 P (wanted_record d c n l)) None s =
      (Ok (Some g), s\<lparr>aFile := Some fa', bFile := Some fb', live_handles := live_handles s + 1\<rparr>)"
    if f: "aFile s = Some fa" "bFile s = Some fb" for s :: "'a world"
  proof -
    have p: "ab_pending s = us @ g # vs" using ab_pending_records [OF f] gs(1) by simp
    then have "length us < search_fuel s" using ab_fuel [of s] by simp
    moreover have "\<forall>u \<in> set us. \<forall>t. read4 P (wanted_record d c n l) (Some u) t = (Ok False, t)"
      "\<forall>t. read4 P (wanted_record d c n l) (Some g) t = (Ok True, t)"
      using gs(2,3) answersD [OF answers_read(2) [of P "wanted_record d c n l"]] by blast+
    ultimately show ?thesis using flux_src.seek_found [OF p] f'(3) f by simp
  qed
  with f'(1,2) show ?thesis by blast
qed

lemma loadFlux_run:
  assumes files: "aFile s = Some fa" "bFile s = Some fb" and mem: "allocs_succeed P"
    and room: "room (vid v) s a ms"
    and found: "first_hit (says4 (grib P) (wanted_record d c n l)) False True (ab_records fa fb) g"
    and saves: "saves P g m"
  shows "loadFlux P v d c n l a n_lat n_lon s = (Ok (Some (map Block (ms @ [m]))),
    saved_state (vid v) a m (s\<lparr>aFile := Some (rewound fa), bFile := Some (rewound fb)\<rparr>))"
proof -
  obtain fa' fb' where f': "rewound fa' = rewound fa" "rewound fb' = rewound fb"
    "\<forall>s. aFile s = Some fa \<longrightarrow> bFile s = Some fb \<longrightarrow>
      seek (search_fuel s) (next_or_blank P d c n l n_lat n_lon) (read4 P (wanted_record d c n l)) None s =
      (Ok (Some g), s\<lparr>aFile := Some fa', bFile := Some fb', live_handles := live_handles s + 1\<rparr>)"
    using seek_ab_run [OF found] by blast
  moreover have "valid_index (vid v)" using room by (simp add: room_def)
  ultimately show ?thesis using files save_record_run [OF room mem saves]
    by (simp add: loadFlux_def run_simps saved_state_def)
qed

text \<open>Neither file has the record: a blank one is stored, if that is wanted.\<close>

definition blank_record :: "'g platform \<Rightarrow> int \<Rightarrow> int \<Rightarrow> int \<Rightarrow> int \<Rightarrow> int \<Rightarrow> int \<Rightarrow> 'g \<Rightarrow> bool" where
  "blank_record P d c n l n_lat n_lon g \<longleftrightarrow> (\<exists>g0 g1.
     base_record P (newGribRecord_settings 0 0 0 0 0 0 n_lat n_lon) g0 \<and>
     apply_settings (grib P) g0 (blank_settings d c n l) = Inr g1 \<and>
     api_set_doubles (grib P) g1 ''values'' (replicate (nat (n_lat * n_lon)) (Fin 0)) = Inr g)"

lemma blank_record_run:
  "blank_record P d c n l n_lat n_lon g \<Longrightarrow> allocs_succeed P \<Longrightarrow> newBlankGribRecord P d c n l n_lat n_lon s =
    (Ok (Some g), s\<lparr>live_handles := live_handles s + 1, allocations := Suc (allocations s)\<rparr>)"
  by (auto simp: blank_record_def newBlankGribRecord_run)

lemma ab_complete_eat_n: "ab_complete s \<Longrightarrow> ab_pending s = us @ vs \<Longrightarrow> ab_complete ((ab_eat ^^ length us) s)"
proof (induction us arbitrary: s)
  case (Cons u us)
  then have "ab_complete (ab_eat s)" "ab_pending (ab_eat s) = us @ vs"
    using ab_src.complete_eat ab_src.pending_eat by simp_all
  with Cons.IH show ?case by (simp add: funpow_swap1)
qed simp

lemma ignore_eat_n [simp]: "ignoreMissingInput ((ab_eat ^^ k) s) = ignoreMissingInput s"
  by (induction k) simp_all

lemma seek_blank_run:
  assumes comp: "ab_complete s" and miss: "no_hit (says4 (grib P) (wanted_record d c n l)) False (ab_pending s)"
    and ign: "ignoreMissingInput s \<noteq> 0" and mem: "allocs_succeed P"
    and blank: "blank_record P d c n l n_lat n_lon g" "says4 (grib P) (wanted_record d c n l) g True"
  shows "seek (search_fuel s) (next_or_blank P d c n l n_lat n_lon) (read4 P (wanted_record d c n l)) None s =
    (Ok (Some g), (ab_mark ((ab_eat ^^ length (ab_pending s)) s))
      \<lparr>live_handles := live_handles s + 1, allocations := Suc (allocations (ab_mark ((ab_eat ^^ length (ab_pending s)) s)))\<rparr>)"
proof -
  let ?src = "next_or_blank P d c n l n_lat n_lon"
  let ?test = "read4 P (wanted_record d c n l)"
  let ?us = "ab_pending s"
  let ?s1 = "(ab_eat ^^ length ?us) s"
  have no: "\<forall>u \<in> set ?us. \<forall>t. ?test (Some u) t = (Ok False, t)"
    using miss answersD [OF answers_read(2) [of P "wanted_record d c n l"]] unfolding no_hit_def by blast
  have yes: "?test (Some g) t = (Ok True, t)" for t using blank(2) answersD [OF answers_read(2) [of P "wanted_record d c n l"]] by blast
  obtain n where n: "search_fuel s = length ?us + Suc n"
    using ab_fuel [of s] that [of "search_fuel s - length ?us - 1"] by simp
  have s1: "ab_complete ?s1" "ab_pending ?s1 = []" "ignoreMissingInput ?s1 \<noteq> 0" "live_handles ?s1 = live_handles s"
    using ab_complete_eat_n [OF comp, of ?us "[]"] ab_pending_eat_n [of s ?us "[]"] ign ab_src.eat_n_live by simp_all
  have last: "seek (Suc n) ?src ?test h (?s1\<lparr>live_handles := k\<rparr>) = (Ok (Some g), (ab_mark ?s1)
      \<lparr>live_handles := k - flux_src.handle_count h + 1, allocations := Suc (allocations (ab_mark ?s1))\<rparr>)" for h k
    using s1 yes next_or_blank_end [of "?s1\<lparr>live_handles := x\<rparr>" P d c n l n_lat n_lon for x]
    by (simp add: run_simps flux_src.delete_run ab_src.complete_frame ab_src.pending_frame next_or_blank_end
        ab_src.mark_frame blank_record_run [OF blank(1) mem])
  show ?thesis
  proof (cases "?us = []")
    case True
    then show ?thesis using last [of None "live_handles s"] n by simp
  next
    case False
    have p: "ab_pending s = ?us @ []" by simp
    have "seek (length ?us + Suc n) ?src ?test None s = seek (Suc n) ?src ?test (Some (List.last ?us))
        (?s1\<lparr>live_handles := live_handles s + 1\<rparr>)"
      by (rule trans [OF flux_src.seek_skip [OF p no False]]) simp
    then show ?thesis using last [of "Some (List.last ?us)" "live_handles s + 1"] n by simp
  qed
qed

lemma ab_end_files:
  assumes "aFile s = Some fa" "bFile s = Some fb"
  shows "\<exists>fa' fb'. rewound fa' = rewound fa \<and> rewound fb' = rewound fb \<and>
    ab_mark ((ab_eat ^^ n) s) = s\<lparr>aFile := Some fa', bFile := Some fb'\<rparr>"
proof -
  obtain fa1 fb1 where "rewound fa1 = rewound fa" "rewound fb1 = rewound fb"
    "(ab_eat ^^ n) s = s\<lparr>aFile := Some fa1, bFile := Some fb1\<rparr>"
    using ab_eat_n_uniform [of fa fb n] assms by blast
  then show ?thesis
    by (intro exI [of _ "fa1\<lparr>file_eof := True\<rparr>"] exI [of _ "fb1\<lparr>file_eof := True\<rparr>"])
      (simp add: ab_mark_def at_eof_def)
qed

lemma loadFlux_blank:
  assumes files: "aFile s = Some fa" "bFile s = Some fb" and mem: "allocs_succeed P"
    and room: "room (vid v) s a ms"
    and comp: "all_readable (drop (file_pos fa) (file_items fa))" "all_readable (drop (file_pos fb) (file_items fb))"
    and miss: "no_hit (says4 (grib P) (wanted_record d c n l)) False (ab_records fa fb)"
    and ign: "ignoreMissingInput s \<noteq> 0"
    and blank: "blank_record P d c n l n_lat n_lon g" "says4 (grib P) (wanted_record d c n l) g True" "saves P g m"
  shows "loadFlux P v d c n l a n_lat n_lon s = (Ok (Some (map Block (ms @ [m]))),
    saved_state (vid v) a m (s\<lparr>aFile := Some (rewound fa), bFile := Some (rewound fb),
      allocations := allocations s + 1\<rparr>))"
proof -
  have c: "ab_complete s" using comp files by (simp add: ab_complete_def rest_def)
  have miss': "no_hit (says4 (grib P) (wanted_record d c n l)) False (ab_pending s)"
    using miss ab_pending_records [OF files] by simp
  obtain fa' fb' where "rewound fa' = rewound fa" "rewound fb' = rewound fb"
    "ab_mark ((ab_eat ^^ length (ab_pending s)) s) = s\<lparr>aFile := Some fa', bFile := Some fb'\<rparr>"
    using ab_end_files [OF files] by blast
  moreover have "valid_index (vid v)" using room by (simp add: room_def)
  ultimately show ?thesis
    using save_record_run [OF room mem blank(3)] seek_blank_run [OF c miss' ign mem blank(1,2)]
    by (simp add: loadFlux_def run_simps saved_state_def)
qed

text \<open>
  Without that option the loader returns NULL. Nothing is stored and nothing leaks, but the files
  are left at their ends and the caller loses the pointer to the array.
\<close>

lemma loadFlux_none:
  assumes files: "aFile s = Some fa" "bFile s = Some fb" and v: "valid_index (vid v)"
    and comp: "all_readable (drop (file_pos fa) (file_items fa))" "all_readable (drop (file_pos fb) (file_items fb))"
    and miss: "no_hit (says4 (grib P) (wanted_record d c n l)) False (ab_records fa fb)"
    and ign: "ignoreMissingInput s = 0"
  shows "\<exists>fa' fb'. rewound fa' = rewound fa \<and> rewound fb' = rewound fb \<and>
    loadFlux P v d c n l a n_lat n_lon s = (Ok None, s\<lparr>aFile := Some fa', bFile := Some fb'\<rparr>)"
proof -
  let ?test = "read4 P (wanted_record d c n l)"
  have c: "ab_complete s \<and> ignoreMissingInput s = 0" using comp files ign by (simp add: ab_complete_def rest_def)
  have no: "\<forall>u \<in> set (ab_pending s). \<forall>t. ?test (Some u) t = (Ok False, t)"
    using miss answersD [OF answers_read(2) [of P "wanted_record d c n l"]] ab_pending_records [OF files]
    unfolding no_hit_def by auto
  have "length (ab_pending s) < search_fuel s" using ab_fuel [of s] by simp
  from flux_src.seek_missing [OF c no this] have "seek (search_fuel s) (next_or_blank P d c n l n_lat n_lon) ?test None s =
      (Ok None, ab_mark ((ab_eat ^^ length (ab_pending s)) s))" .
  with v ab_end_files [OF files, of "length (ab_pending s)"] show ?thesis
    by (auto simp: loadFlux_def run_simps)
qed

subsection \<open>Net radiation is downward minus upward\<close>

text \<open>A record built from scratch for storage.\<close>

definition temporary_record :: "'g platform \<Rightarrow> setting list \<Rightarrow> cdouble list \<Rightarrow> byte list \<Rightarrow> bool" where
  "temporary_record P base vs m \<longleftrightarrow> (\<exists>g0 g1. base_record P base g0 \<and>
     api_set_doubles (grib P) g0 ''values'' vs = Inr g1 \<and> saves P g1 m)"

definition net_radiation_base :: "int \<Rightarrow> int \<Rightarrow> setting list" where
  "net_radiation_base n_lat n_lon = newGribRecord_settings 1000 1 1 0 0 0 n_lat n_lon"

lemma subtract_arrays_run [run_simps]:
  assumes "length us = length vs" "length new = length vs"
  shows "subtract_arrays (length vs) (Some new) (Some us) (Some vs) s = (Ok (map2 dsub us vs), s)"
proof -
  have "subtract_arrays (length vs) (Some new) (Some us) (Some vs) s =
      (Ok (map (\<lambda>i. dsub (us ! i) (vs ! i)) [0..<length vs]), s)"
    unfolding subtract_arrays_def by (rule cells_run) (use assms in \<open>simp add: run_simps\<close>)
  then show ?thesis using pointwise_map2 [OF assms(1), of dsub] by (simp add: pointwise_def)
qed

text \<open>The records may come in either order.\<close>

definition net_pair :: "int \<Rightarrow> int \<Rightarrow> 'g \<Rightarrow> 'g \<Rightarrow> 'g \<Rightarrow> 'g \<Rightarrow> bool" where
  "net_pair v1 v2 g1 g2 down up \<longleftrightarrow>
     (v1 = 192 \<and> v2 = 193 \<and> down = g1 \<and> up = g2) \<or> (v1 = 193 \<and> v2 = 192 \<and> down = g2 \<and> up = g1)"

lemma radiation_operands_run:
  assumes "net_pair v1 v2 g1 g2 down up"
    and "api_get_doubles (grib P) down ''values'' = Inr us" "api_get_doubles (grib P) up ''values'' = Inr vs"
    and "length us = n" "length vs = n" "length o1 = n" "length o2 = n"
  shows "radiation_operands P n (Some g1) v1 (Some g2) v2 (Some o1) (Some o2) s = (Ok (Some us, Some vs), s)"
proof -
  have "us @ drop (length us) r = us" "vs @ drop (length vs) r = vs" if "length r = n" for r :: "cdouble list"
    using assms that by simp_all
  with assms show ?thesis
    unfolding net_pair_def radiation_operands_def by (elim disjE conjE) (simp_all add: run_simps)
qed

lemma loadNetRadiation_run:
  assumes files: "aFile s = Some fa" "bFile s = Some fb" and mem: "allocs_succeed P"
    and room: "room (vid v) s a ms"
    and found: "first_two (says4 (grib P) (is_radiation category)) (ab_records fa fb) g1 v1 g2 v2"
      "net_pair v1 v2 g1 g2 down up"
    and vals: "api_get_doubles (grib P) down ''values'' = Inr us" "api_get_doubles (grib P) up ''values'' = Inr vs"
      "int (length us) = n_lat * n_lon" "int (length vs) = n_lat * n_lon"
    and temp: "temporary_record P (net_radiation_base n_lat n_lon) (map2 dsub us vs) m"
  shows "loadNetRadiation P v category a n_lat n_lon s = (Ok (Some (map Block (ms @ [m]))),
    saved_state (vid v) a m (s\<lparr>aFile := Some (rewound fa), bFile := Some (rewound fb),
      allocations := allocations s + 3\<rparr>))"
proof -
  obtain fa' fb' where f': "rewound fa' = rewound fa" "rewound fb' = rewound fb"
    "\<forall>s. aFile s = Some fa \<longrightarrow> bFile s = Some fb \<longrightarrow> pair_search (next_or_blank P 0 category 192 1 n_lat n_lon)
      (next_or_blank P 0 category 193 1 n_lat n_lon) (read4 P (is_radiation category)) s =
      (Ok (Some ((Some g1, v1), (Some g2, v2))),
        s\<lparr>aFile := Some fa', bFile := Some fb', live_handles := live_handles s + 2\<rparr>)"
    using radiation_pair.first_two_run [OF answers_read(2) found(1)] by blast
  obtain g0 g3 where new: "base_record P (net_radiation_base n_lat n_lon) g0"
    "api_set_doubles (grib P) g0 ''values'' (map2 dsub us vs) = Inr g3" "saves P g3 m"
    using temp by (auto simp: temporary_record_def)
  have n: "nat (n_lat * n_lon) = length vs" "length us = length vs" using vals(3,4) by linarith+
  have ops: "radiation_operands P (length vs) (Some g1) v1 (Some g2) v2 (Some (replicate (length vs) (Fin 0)))
      (Some (replicate (length vs) (Fin 0))) t = (Ok (Some us, Some vs), t)" for t :: "'a world"
    by (rule radiation_operands_run [OF found(2) vals(1,2)]) (simp_all add: n)
  have "valid_index (vid v)" using room by (simp add: room_def)
  then show ?thesis using files f' mem new n ops save_record_run [OF room mem new(3)]
    by (simp add: loadNetRadiation_def Let_def run_simps newGribRecord_run saved_state_def flip: net_radiation_base_def)
qed

end
