(* ===== verification/SnowFall.thy ===== *)
theory SnowFall
  imports Generation
begin

text \<open>
  \<open>src/src/generateSnowFallWaterEquivalent.c\<close>: the precipitation where the categorical
  snowfall is 1, and 0 elsewhere. At hour 0 nothing is read and the field is 0. The end of the
  interval in the metadata is computed by \<open>mktime\<close> six hours after the forecast hour.
\<close>

text \<open>
  The metadata. \<open>t\<close> is the \<open>struct tm\<close> after \<open>mktime\<close>, months counted from 1 and years
  from 0 here.
\<close>

definition snow_fall_settings :: "int \<Rightarrow> dt \<Rightarrow> setting list" where
  "snow_fall_settings fff t =
     [SetLong ''productDefinitionTemplateNumber'' 11,
      SetLong ''parameterCategory'' 1,
      SetLong ''parameterNumber'' 53,
      SetLong ''typeOfFirstFixedSurface'' 1,
      SetMissing ''scaleFactorOfFirstFixedSurface'',
      SetMissing ''scaledValueOfFirstFixedSurface'',
      SetLong ''typeOfSecondFixedSurface'' 255,
      SetMissing ''scaleFactorOfSecondFixedSurface'',
      SetMissing ''scaledValueOfSecondFixedSurface'',
      SetLong ''forecastTime'' fff,
      SetLong ''startStep'' fff,
      SetLong ''endStep'' fff,
      SetLong ''yearOfEndOfOverallTimeInterval'' (yr t),
      SetLong ''monthOfEndOfOverallTimeInterval'' (mo t),
      SetLong ''dayOfEndOfOverallTimeInterval'' (dy t),
      SetLong ''hourOfEndOfOverallTimeInterval'' (hr t),
      SetLong ''minuteOfEndOfOverallTimeInterval'' 0,
      SetLong ''secondOfEndOfOverallTimeInterval'' 0,
      SetLong ''numberOfMissingInStatisticalProcess'' 0,
      SetLong ''typeOfStatisticalProcessing'' 1,
      SetLong ''typeOfTimeIncrementBetweenSuccessiveFieldsUsedInTheStatisticalProcessing'' 2,
      SetLong ''indicatorOfUnitOfTimeRange'' 1,
      SetLong ''lengthOfTimeRange'' 6,
      SetLong ''indicatorOfUnitForTimeIncrement'' 255,
      SetLong ''timeIncrement'' 0]"

definition end_of_snow_interval :: "'g platform \<Rightarrow> int \<Rightarrow> int \<Rightarrow> int \<Rightarrow> int \<Rightarrow> int \<Rightarrow> dt" where
  "end_of_snow_interval P yyyy mm dd hh fff =
     mktime \<lparr>yr = yyyy, mo = mm, dy = dd, hr = hh + (fff + 6), mn = clock_minute P\<rparr>"

definition is_categorical_snow :: "int \<Rightarrow> int \<Rightarrow> int \<Rightarrow> bool" where
  "is_categorical_snow d c n \<longleftrightarrow> \<not> (d \<noteq> 0 \<or> c \<noteq> 1 \<or> n \<noteq> 195)"

definition is_total_rainfall :: "int \<Rightarrow> int \<Rightarrow> int \<Rightarrow> bool" where
  "is_total_rainfall d c n \<longleftrightarrow> \<not> (d \<noteq> 0 \<or> c \<noteq> 1 \<or> n \<noteq> 8)"

definition snow_where_snowing :: "cdouble \<Rightarrow> cdouble \<Rightarrow> cdouble" where
  "snow_where_snowing snow rain = (if deq snow (dlit 1) then rain else Fin 0)"

definition snow_fall_values ::
  "nat \<Rightarrow> int \<Rightarrow> cdouble list option \<Rightarrow> cdouble list option \<Rightarrow> ('g world, cdouble list) prog" where
  "snow_fall_values n fff snow rain = cells n (\<lambda>i.
     if fff = 0 then ret (Fin 0)
     else bnd (cell_of snow i) (\<lambda>x.
          if deq x (dlit 1) then cell_of rain i else ret (Fin 0)))"

text \<open>The part under \<open>if(fff != 0)\<close>; \<open>None\<close> is the early return.\<close>

definition read_snow_inputs :: "'g platform \<Rightarrow> ('g world,
    ('g option \<times> cdouble list option \<times> 'g option \<times> cdouble list option \<times> nat) option) prog" where
  "read_snow_inputs P =
     bnd (search AFile (read3 P is_categorical_snow)) (\<lambda>snow.
     if snow = None then ret None else
     bnd (extract_values P snow) (\<lambda>(snowValues, n).
     seq (rewind AFile) (
     bnd (search AFile (read3 P is_total_rainfall)) (\<lambda>rain.
     if rain = None then ret None else
     bnd (extract_values P rain) (\<lambda>(rainValues, n).
     ret (Some (snow, snowValues, rain, rainValues, n)))))))"

definition generateSnowFallWaterEquivalent ::
  "'g platform \<Rightarrow> int \<Rightarrow> int \<Rightarrow> int \<Rightarrow> int \<Rightarrow> int \<Rightarrow> int \<Rightarrow> ('g world, unit) prog" where
  "generateSnowFallWaterEquivalent P yyyy mm dd hh fff em =
     (let n_lat = get_n_lat yyyy mm dd hh; n_lon = get_n_lon yyyy mm dd hh in
      bnd (rd (\<lambda>s. aFile s = None)) (\<lambda>noA. if noA then ret () else
      bnd (newGribRecord P yyyy mm dd hh fff em n_lat n_lon) (\<lambda>gh.
      bnd (output_name SNOW_FALL_WATER_EQUIVALENT yyyy mm dd hh fff em) (\<lambda>fileName.
      bnd (grib_set P gh (snow_fall_settings fff (end_of_snow_interval P yyyy mm dd hh fff))) (\<lambda>gh.
      bnd (if fff \<noteq> 0 then read_snow_inputs P
           else ret (Some (None, None, None, None, nat (get_n_points yyyy mm dd hh)))) (\<lambda>inputs.
      case inputs of None \<Rightarrow> ret () | Some (snow, snowValues, rain, rainValues, n) \<Rightarrow>
      bnd (calloc_doubles P n) (\<lambda>values.
      bnd (or_exit1 values) (\<lambda>values.
      bnd (snow_fall_values n fff snowValues rainValues) (\<lambda>values.
      bnd (grib_set_double_array P gh ''values'' values) (\<lambda>gh.
      bnd (writeGribToFile P gh fileName) (\<lambda>status.
      seq (free snowValues) (
      seq (free rainValues) (
      seq (free (Some values)) (
      seq (grib_handle_delete gh) (
      seq (grib_handle_delete snow) (
      seq (grib_handle_delete rain) (
      rewind AFile)))))))))))))))))"

subsection \<open>What is written\<close>

lemma snow_fall_values_zero [run_simps]:
  "snow_fall_values n 0 snow rain s = (Ok (replicate n (Fin 0)), s)"
proof -
  have "snow_fall_values n 0 snow rain s = (Ok (map (\<lambda>_. Fin 0) [0..<n]), s)"
    unfolding snow_fall_values_def by (rule cells_run) (simp add: run_simps)
  then show ?thesis by (simp add: map_replicate_const)
qed

lemma snow_fall_values_run [run_simps]:
  assumes "fff \<noteq> 0" "length xs = length ys"
  shows "snow_fall_values (length ys) fff (Some xs) (Some ys) s =
    (Ok (map2 snow_where_snowing xs ys), s)"
proof -
  have "snow_fall_values (length ys) fff (Some xs) (Some ys) s =
      (Ok (map (\<lambda>i. snow_where_snowing (xs ! i) (ys ! i)) [0..<length ys]), s)"
    unfolding snow_fall_values_def
    by (rule cells_run) (use assms in \<open>simp add: run_simps snow_where_snowing_def\<close>)
  then show ?thesis using pointwise_map2 [OF assms(2), of snow_where_snowing] by (simp add: pointwise_def)
qed

text \<open>What the procedure needs of the a file, and the file it then writes: nothing at the initial hour,
  the snow mask and the rain later.\<close>

definition snow_fall_field :: "'g platform \<Rightarrow> nat \<Rightarrow> int \<Rightarrow> 'g gfile \<Rightarrow> cdouble list \<Rightarrow> bool" where
  "snow_fall_field P n fff fa field \<longleftrightarrow>
     (if fff = 0 then field = replicate n (Fin 0)
      else \<exists>g xs h ys.
        first_hit (says3 (grib P) is_categorical_snow) False True (readable (drop (file_pos fa) (file_items fa))) g \<and>
        has_values P g xs \<and>
        first_hit (says3 (grib P) is_total_rainfall) False True (readable (file_items fa)) h \<and>
        has_values P h ys \<and> length xs = length ys \<and> field = map2 snow_where_snowing xs ys)"

definition snow_fall_input :: "'g platform \<Rightarrow> int \<Rightarrow> int \<Rightarrow> int \<Rightarrow> int \<Rightarrow> int \<Rightarrow> int
    \<Rightarrow> 'g gfile \<Rightarrow> 'g gfile \<Rightarrow> string \<times> byte list \<Rightarrow> bool" where
  "snow_fall_input P yyyy mm dd hh fff em fa fb out \<longleftrightarrow> allocs_succeed P \<and>
     destination P SNOW_FALL_WATER_EQUIVALENT yyyy mm dd hh fff em (fst out) \<and>
     (\<exists>field. snow_fall_field P (nat (get_n_points yyyy mm dd hh)) fff fa field \<and>
        produces P (base_settings yyyy mm dd hh fff em)
          (snow_fall_settings fff (end_of_snow_interval P yyyy mm dd hh fff)) field (snd out))"

lemma snow_fall_written:
  assumes "aFile s = Some fa" "snow_fall_input P yyyy mm dd hh fff em fa fb out"
  shows "generateSnowFallWaterEquivalent P yyyy mm dd hh fff em s = (Ok (),
    s\<lparr>output_files := output_files s @ [out], aFile := Some (rewound fa),
      allocations := allocations s + (if fff = 0 then 1 else 3)\<rparr>)"
proof -
  obtain path m where po: "out = (path, m)" by (cases out)
  from assms(2) obtain field where mem: "allocs_succeed P"
    and out: "destination P SNOW_FALL_WATER_EQUIVALENT yyyy mm dd hh fff em path"
      "produces P (base_settings yyyy mm dd hh fff em)
        (snow_fall_settings fff (end_of_snow_interval P yyyy mm dd hh fff)) field m"
    and field: "snow_fall_field P (nat (get_n_points yyyy mm dd hh)) fff fa field"
    unfolding snow_fall_input_def po fst_conv snd_conv by blast
  obtain g0 g1 g2 where new: "base_record P (base_settings yyyy mm dd hh fff em) g0"
      "apply_settings (grib P) g0 (snow_fall_settings fff (end_of_snow_interval P yyyy mm dd hh fff)) = Inr g1"
      "api_set_doubles (grib P) g1 ''values'' field = Inr g2" "api_message (grib P) g2 = Inr m"
    using out(2) by (rule producesE)
  obtain name where name: "generateFileName (vid SNOW_FALL_WATER_EQUIVALENT) yyyy mm dd hh fff em = Some name"
      "writable P name path" using out(1) by (auto simp: destination_def)
  show ?thesis
  proof (cases "fff = 0")
    case True
    with field assms(1) mem new name po show ?thesis
      by (simp add: snow_fall_field_def generateSnowFallWaterEquivalent_def run_simps newGribRecord_run flip: base_settings_def)
  next
    case False
    with field obtain g xs h ys where
      snow: "first_hit (says3 (grib P) is_categorical_snow) False True
        (readable (drop (file_pos fa) (file_items fa))) g" "has_values P g xs"
      and rain: "first_hit (says3 (grib P) is_total_rainfall) False True (readable (file_items fa)) h" "has_values P h ys"
      and size: "length xs = length ys" "field = map2 snow_where_snowing xs ys" by (auto simp: snow_fall_field_def)
    obtain p where p: "\<forall>t. aFile t = Some fa \<longrightarrow> search AFile (read3 P is_categorical_snow) t =
        (Ok (Some g), t\<lparr>aFile := Some (read_to p fa), live_handles := live_handles t + 1\<rparr>)"
      using search_a_run [OF answers_read(1) snow(1)] by blast
    have rain': "first_hit (says3 (grib P) is_total_rainfall) False True
        (readable (drop (file_pos (rewound fa)) (file_items (rewound fa)))) h"
      using rain(1) by simp
    obtain q where q: "\<forall>t. aFile t = Some (rewound fa) \<longrightarrow> search AFile (read3 P is_total_rainfall) t =
        (Ok (Some h), t\<lparr>aFile := Some (read_to q (rewound fa)), live_handles := live_handles t + 1\<rparr>)"
      using search_a_run [OF answers_read(1) rain'] by blast
    from p q show ?thesis using assms(1) mem False snow(2) rain(2) size new name po
      by (simp add: generateSnowFallWaterEquivalent_def read_snow_inputs_def run_simps newGribRecord_run
          flip: base_settings_def)
  qed
qed

text \<open>At the initial hour the snow fall procedure reads no record: it writes a field of zeros of the size
  of the grid, frees what it requested and rewinds the a file.\<close>

lemma generateSnowFall_zero_run:
  assumes "aFile s = Some fa" "allocs_succeed P"
    and "destination P SNOW_FALL_WATER_EQUIVALENT yyyy mm dd hh 0 em path"
    and "produces P (base_settings yyyy mm dd hh 0 em)
      (snow_fall_settings 0 (end_of_snow_interval P yyyy mm dd hh 0))
      (replicate (nat (get_n_points yyyy mm dd hh)) (Fin 0)) m"
  shows "generateSnowFallWaterEquivalent P yyyy mm dd hh 0 em s = (Ok (),
    s\<lparr>output_files := output_files s @ [(path, m)], aFile := Some (rewound fa),
      allocations := allocations s + 1\<rparr>)"
  using snow_fall_written [OF assms(1), of P yyyy mm dd hh 0 em fa "(path, m)"] assms(2-4)
  by (simp add: snow_fall_input_def snow_fall_field_def)


text \<open>C16. After the initial hour the snow fall is the rain of the a file where the snow mask is 1 and 0
  elsewhere, with the first mask after the current position and the first rain from the beginning of
  the file. One record is written; every handle and block is given back and the file is rewound.\<close>

lemma generateSnowFall_run:
  assumes a: "aFile s = Some fa" and mem: "allocs_succeed P" and hour: "fff \<noteq> 0"
    and snow: "first_hit (says3 (grib P) is_categorical_snow) False True
        (readable (drop (file_pos fa) (file_items fa))) g" "has_values P g xs"
    and rain: "first_hit (says3 (grib P) is_total_rainfall) False True
        (readable (file_items fa)) h" "has_values P h ys"
    and size: "length xs = length ys"
    and out: "destination P SNOW_FALL_WATER_EQUIVALENT yyyy mm dd hh fff em path"
      "produces P (base_settings yyyy mm dd hh fff em)
        (snow_fall_settings fff (end_of_snow_interval P yyyy mm dd hh fff))
        (map2 snow_where_snowing xs ys) m"
  shows "generateSnowFallWaterEquivalent P yyyy mm dd hh fff em s = (Ok (),
    s\<lparr>output_files := output_files s @ [(path, m)], aFile := Some (rewound fa),
      allocations := allocations s + 3\<rparr>)"
proof -
  have "snow_fall_input P yyyy mm dd hh fff em fa fa (path, m)"
    using assms unfolding snow_fall_input_def snow_fall_field_def fst_conv snd_conv by (simp only: if_False) blast
  with snow_fall_written [OF a this] hour show ?thesis by simp
qed


text \<open>The end of the interval for a calendar date.\<close>

text \<open>The interval of a snow fall record ends six hours after its forecast hour: the normalisation by
  \<open>mktime\<close> gives the calendar date that many hours after the initial one.\<close>

lemma end_of_snow_interval_spec:
  assumes "valid_date \<lparr>yr = yyyy, mo = mm, dy = dd, hr = hh, mn = clock_minute P\<rparr>" "0 \<le> fff"
  shows "valid_date (end_of_snow_interval P yyyy mm dd hh fff) \<and>
    hour_number (end_of_snow_interval P yyyy mm dd hh fff) =
      hour_number \<lparr>yr = yyyy, mo = mm, dy = dd, hr = hh, mn = clock_minute P\<rparr> + fff + 6"
  using timeAdd_hours [OF assms(1), of "fff + 6"] mktime_valid_hours [OF assms(1), of "fff + 6"] assms(2)
  by (auto simp: end_of_snow_interval_def)

text \<open>Without the a file nothing is done; without a record the procedure gives up.\<close>

lemma generateSnowFall_no_file:
  "aFile s = None \<Longrightarrow> generateSnowFallWaterEquivalent P yyyy mm dd hh fff em s = (Ok (), s)"
  by (simp add: generateSnowFallWaterEquivalent_def run_simps)

lemma generateSnowFall_no_snow:
  assumes a: "aFile s = Some fa" "file_pos fa \<le> length (file_items fa)" and hour: "fff \<noteq> 0"
    and miss: "all_readable (drop (file_pos fa) (file_items fa))"
      "no_hit (says3 (grib P) is_categorical_snow) False (readable (drop (file_pos fa) (file_items fa)))"
    and new: "base_record P (base_settings yyyy mm dd hh fff em) g0"
      "apply_settings (grib P) g0 (snow_fall_settings fff (end_of_snow_interval P yyyy mm dd hh fff)) = Inr g1"
      "generateFileName (vid SNOW_FALL_WATER_EQUIVALENT) yyyy mm dd hh fff em = Some name"
  shows "generateSnowFallWaterEquivalent P yyyy mm dd hh fff em s =
    (Ok (), s\<lparr>aFile := Some (exhausted fa), live_handles := live_handles s + 1\<rparr>)"
  using a hour new search_missing [OF answers_read(1), of AFile _ fa P is_categorical_snow] miss
  by (simp add: generateSnowFallWaterEquivalent_def read_snow_inputs_def run_simps newGribRecord_run
      flip: base_settings_def)

end
