(* ===== verification/PrecipitationLoaders.thy ===== *)
theory PrecipitationLoaders
  imports FluxLoaders SnowFall
begin

text \<open>
  The loaders of total precipitation (\<open>src/src/generateTotalPrecipitation.c\<close>) and of
  time-integrated snow fall (\<open>src/src/generateTimeIntegratedSnowFallWaterEquivalent.c\<close>). Both
  read the a file only. The first stores zero bytes for hour 0 without reading; the second
  stores the precipitation where it snows, and zeros where the records are not in the file.
\<close>

subsection \<open>Total precipitation\<close>

definition is_precipitation :: "int \<Rightarrow> int \<Rightarrow> int \<Rightarrow> int \<Rightarrow> bool" where
  "is_precipitation ncepDiscipline ncepCategory ncepVariable ncepLevel \<longleftrightarrow>
     \<not> (ncepDiscipline \<noteq> 0 \<or> ncepCategory \<noteq> 1 \<or> ncepVariable \<noteq> 8)"

text \<open>
  The message to store: of the record that was found, or for the first hour the
  \<open>n\<close> zero bytes at the front of a block of \<open>n\<close> doubles (\<open>size = ncepValuesSize\<close>). The outer
  \<open>None\<close> is the early return; a failed \<open>calloc\<close> leads to a \<open>memcpy\<close> from NULL.
\<close>

definition precipitation_message :: "'g platform \<Rightarrow> bool \<Rightarrow> nat
    \<Rightarrow> ('g world, ('g option \<times> byte list) option) prog" where
  "precipitation_message P first n =
     (if \<not> first then
        bnd (search AFile (read4 P is_precipitation)) (\<lambda>h.
        if h = None then ret None
        else
          bnd (grib_get_long P h ''totalLength'') (\<lambda>sizeLong.
          bnd (grib_get_message P h) (\<lambda>buffer.
          ret (Some (h, buffer)))))
      else
        bnd (alloc_block P) (\<lambda>ok.
        if ok then ret (Some (None, replicate n 0)) else crash))"

definition loadDataForTotalPrecipitation :: "'g platform \<Rightarrow> buffers \<Rightarrow> int \<Rightarrow> int \<Rightarrow> ('g world, buffers) prog" where
  "loadDataForTotalPrecipitation P gribBuffers n_lat n_lon =
     bnd (rd (\<lambda>s. numberOfSavedRecords s (vid TOTAL_PRECIPITATION) = 0)) (\<lambda>first.
     seq (reset_if_zero (vid TOTAL_PRECIPITATION)) (
     bnd (precipitation_message P first (nat (n_lat * n_lon))) (\<lambda>message.
     case message of None \<Rightarrow> ret None | Some (h, buffer) \<Rightarrow>
     bnd (addGribRecordToArray P (vid TOTAL_PRECIPITATION) gribBuffers buffer) (\<lambda>retBuffer.
     seq (grib_handle_delete h) (
     seq (rewind AFile) (
     ret retBuffer))))))"

lemma add_record_run:
  fixes P :: "'g platform" and s :: "'g world"
  assumes "room v s a ms" "allocs_succeed P"
  shows "\<forall>t. numberOfSavedRecords t = numberOfSavedRecords s \<longrightarrow> bytesPerRecord t = bytesPerRecord s \<longrightarrow>
    addGribRecordToArray P v a m t = (Ok (Some (map Block (ms @ [m]))), saved_state v a m t)"
proof (intro allI impI)
  fix t :: "'g world"
  assume "numberOfSavedRecords t = numberOfSavedRecords s" "bytesPerRecord t = bytesPerRecord s"
  then have "holds v t a ms" using assms(1) by (simp add: room_def holds_def)
  from addGribRecordToArray_run [OF this _ assms(2)] assms(1)
  show "addGribRecordToArray P v a m t = (Ok (Some (map Block (ms @ [m]))), saved_state v a m t)"
    by (simp add: room_def)
qed

lemma loadDataForTotalPrecipitation_first:
  assumes a: "aFile s = Some fa" and mem: "allocs_succeed P" and room: "room (vid TOTAL_PRECIPITATION) s buf []"
  shows "loadDataForTotalPrecipitation P buf n_lat n_lon s =
    (Ok (Some [Block (replicate (nat (n_lat * n_lon)) 0)]),
      saved_state (vid TOTAL_PRECIPITATION) buf (replicate (nat (n_lat * n_lon)) 0)
        (s\<lparr>aFile := Some (rewound fa), allocations := allocations s + 1, live_blocks := live_blocks s + 1\<rparr>))"
proof -
  have "valid_index (vid TOTAL_PRECIPITATION)" "numberOfSavedRecords s (vid TOTAL_PRECIPITATION) = 0"
    using room by (simp_all add: room_def holds_def)
  then show ?thesis
    using a mem add_record_run [OF room mem, of "replicate (nat (n_lat * n_lon)) 0"]
    by (simp add: loadDataForTotalPrecipitation_def precipitation_message_def run_simps saved_state_def)
qed

lemma loadDataForTotalPrecipitation_later:
  assumes a: "aFile s = Some fa" and mem: "allocs_succeed P"
    and room: "room (vid TOTAL_PRECIPITATION) s buf ms" "ms \<noteq> []"
    and found: "first_hit (says4 (grib P) is_precipitation) False True
        (readable (drop (file_pos fa) (file_items fa))) g" "saves P g m"
  shows "loadDataForTotalPrecipitation P buf n_lat n_lon s = (Ok (Some (map Block (ms @ [m]))),
    saved_state (vid TOTAL_PRECIPITATION) buf m (s\<lparr>aFile := Some (rewound fa)\<rparr>))"
proof -
  obtain p where "\<forall>t. aFile t = Some fa \<longrightarrow> search AFile (read4 P is_precipitation) t =
      (Ok (Some g), t\<lparr>aFile := Some (read_to p fa), live_handles := live_handles t + 1\<rparr>)"
    using search_a_run [OF answers_read(2) found(1)] by blast
  moreover have "valid_index (vid TOTAL_PRECIPITATION)" "0 < numberOfSavedRecords s (vid TOTAL_PRECIPITATION)"
    using room by (simp_all add: room_def holds_def)
  ultimately show ?thesis using a add_record_run [OF room(1) mem, of m] found(2)
    by (auto simp: loadDataForTotalPrecipitation_def precipitation_message_def run_simps saved_state_def saves_def)
qed

subsection \<open>Time-integrated snow fall: the loop\<close>

text \<open>\<open>feof\<close>: a read has gone past the last record.\<close>

definition feof_a :: "('g world, bool) prog" where
  "feof_a = bnd (rd aFile) (\<lambda>f. case f of None \<Rightarrow> crash | Some f \<Rightarrow> ret (file_eof f))"

text \<open>
  \<open>rtn = grib_get_double_array(...)\<close> where an error is only printed: the array keeps its
  zeros.
\<close>

definition grib_try_get_double_array ::
  "'g platform \<Rightarrow> 'g option \<Rightarrow> string \<Rightarrow> cdouble list \<Rightarrow> nat \<Rightarrow> ('g world, cdouble list \<times> nat) prog" where
  "grib_try_get_double_array P h k xs n = with_handle h (\<lambda>g. case api_get_doubles (grib P) g k of
      Inl e \<Rightarrow> ret (xs, n)
    | Inr vs \<Rightarrow> if n < length vs then ret (xs, n) else ret (vs @ drop (length vs) xs, length vs))"

definition load_field :: "'g platform \<Rightarrow> 'g option \<Rightarrow> ('g world, cdouble list option \<times> nat) prog" where
  "load_field P h =
     bnd (grib_get_size P h ''values'') (\<lambda>n.
     bnd (calloc_doubles P n) (\<lambda>v.
     bnd (or_exit1 v) (\<lambda>v.
     bnd (grib_try_get_double_array P h ''values'' v n) (\<lambda>(v, n).
     ret (Some v, n)))))"

text \<open>
  The loop over the records of the a file. \<open>rain\<close> and \<open>snow\<close> are
  \<open>ncepTotalRainfallValues\<close> and \<open>ncepCategoricalSnowfallValues\<close>; they are not NULL exactly when
  \<open>found1\<close> and \<open>found2\<close> are not 0. At the end of the file two small blocks take their
  place, the file is read again from its start to have a handle, and \<open>setDummy\<close> is set.
  The result is \<open>None\<close> for the early return.
\<close>

fun snow_loop :: "nat \<Rightarrow> 'g platform \<Rightarrow> 'g option \<Rightarrow> cdouble list option \<Rightarrow> cdouble list option \<Rightarrow> nat
    \<Rightarrow> ('g world, ('g option \<times> cdouble list option \<times> cdouble list option \<times> nat \<times> bool) option) prog" where
  "snow_loop 0 P h1 rain snow n = stuck"
| "snow_loop (Suc fuel) P h1 rain snow n =
     (if rain \<noteq> None \<and> snow \<noteq> None then ret (Some (h1, rain, snow, n, False))
      else
        seq (grib_handle_delete h1) (
        bnd (grib_handle_new_from_file AFile) (\<lambda>h1.
        bnd feof_a (\<lambda>eof.
        if eof then
          bnd (alloc_block P) (\<lambda>ok1.
          bnd (alloc_block P) (\<lambda>ok2.
          seq (rewind AFile) (
          seq (grib_handle_delete h1) (
          bnd (grib_handle_new_from_file AFile) (\<lambda>h1.
          ret (Some (h1, if ok1 then Some [] else None, if ok2 then Some [] else None, n, True)))))))
        else if h1 = None then ret None
        else
          bnd (read3 P (\<lambda>d c v. (d, c, v)) h1) (\<lambda>(ncepDiscipline, ncepCategory, ncepVariable).
          bnd (if ncepDiscipline = 0 \<and> ncepCategory = 1 \<and> ncepVariable = 8 then load_field P h1
               else ret (rain, n)) (\<lambda>(rain, n).
          bnd (if ncepDiscipline = 0 \<and> ncepCategory = 1 \<and> ncepVariable = 195 then load_field P h1
               else ret (snow, n)) (\<lambda>(snow, n).
          snow_loop fuel P h1 rain snow n)))))))"

definition snow_values :: "nat \<Rightarrow> bool \<Rightarrow> cdouble list option \<Rightarrow> cdouble list option
    \<Rightarrow> ('g world, cdouble list) prog" where
  "snow_values n setDummy rain snow = cells n (\<lambda>i.
     if setDummy then ret (Fin 0)
     else bnd (cell_of snow i) (\<lambda>x.
          if deq x (dlit 1) then cell_of rain i else ret (Fin 0)))"

definition loadDataForTimeIntegratedSnowFallWaterEquivalent ::
  "'g platform \<Rightarrow> buffers \<Rightarrow> int \<Rightarrow> int \<Rightarrow> ('g world, buffers) prog" where
  "loadDataForTimeIntegratedSnowFallWaterEquivalent P gribBuffers n_lat n_lon =
     bnd (rd (\<lambda>s. aFile s = None)) (\<lambda>noA. if noA then exit_with 1 else
     seq (rewind AFile) (
     seq (rewind BFile) (
     seq (reset_if_zero (vid TIME_INTEGRATED_SNOW_FALL_WATER_EQUIVALENT)) (
     seq (rewind AFile) (
     bnd (rd search_fuel) (\<lambda>fuel.
     bnd (snow_loop fuel P None None None (nat (n_lat * n_lon))) (\<lambda>found.
     case found of None \<Rightarrow> ret None | Some (h1, rain, snow, n, setDummy) \<Rightarrow>
     bnd (calloc_doubles P n) (\<lambda>values.
     bnd (or_exit1 values) (\<lambda>values.
     bnd (snow_values n setDummy rain snow) (\<lambda>values.
     seq (free snow) (
     seq (free rain) (
     seq (grib_handle_delete h1) (
     bnd (newGribRecord P 1 1 1 0 0 1 n_lat n_lon) (\<lambda>h2.
     bnd (grib_set_double_array P h2 ''values'' values) (\<lambda>h2.
     bnd (save_record P (vid TIME_INTEGRATED_SNOW_FALL_WATER_EQUIVALENT) gribBuffers h2) (\<lambda>retBuffer.
     seq (grib_handle_delete h2) (
     seq (free (Some values)) (
     seq (rewind AFile) (
     ret retBuffer)))))))))))))))))))"

subsection \<open>The loop as a scan of the records\<close>

datatype precip_kind = Rain "cdouble list" | CatSnow "cdouble list" | OtherField

text \<open>The two arrays, the number of values last loaded, and the blocks that were allocated.\<close>

type_synonym snow_found = "cdouble list option \<times> cdouble list option \<times> nat \<times> nat"

fun snow_take :: "precip_kind \<Rightarrow> snow_found \<Rightarrow> snow_found" where
  "snow_take (Rain vs) (r, q, n, b) = (Some vs, q, length vs, b + 1)"
| "snow_take (CatSnow vs) (r, q, n, b) = (r, Some vs, length vs, b + 1)"
| "snow_take OtherField st = st"

fun snow_scan :: "snow_found \<Rightarrow> ('g \<times> precip_kind) list \<Rightarrow> snow_found" where
  "snow_scan st [] = st"
| "snow_scan (r, q, n, b) (x # xs) =
     (if r \<noteq> None \<and> q \<noteq> None then (r, q, n, b) else snow_scan (snow_take (snd x) (r, q, n, b)) xs)"

definition is_precip_kind :: "'g platform \<Rightarrow> 'g \<times> precip_kind \<Rightarrow> bool" where
  "is_precip_kind P x \<longleftrightarrow> (\<exists>d c v. keys3 (grib P) (fst x) d c v \<and>
     (case snd x of
        Rain vs \<Rightarrow> (d, c, v) = (0, 1, 8) \<and> has_values P (fst x) vs
      | CatSnow vs \<Rightarrow> (d, c, v) = (0, 1, 195) \<and> has_values P (fst x) vs
      | OtherField \<Rightarrow> (d, c, v) \<noteq> (0, 1, 8) \<and> (d, c, v) \<noteq> (0, 1, 195)))"

definition handle_no :: "'g option \<Rightarrow> int" where
  "handle_no h = (if h = None then 0 else 1)"

lemma delete_handle_no: "grib_handle_delete h s = (Ok (), s\<lparr>live_handles := live_handles s - handle_no h\<rparr>)"
  by (cases h) (simp_all add: run_simps handle_no_def)

lemma load_field_run [run_simps]:
  "has_values P g vs \<Longrightarrow> allocs_succeed P \<Longrightarrow> load_field P (Some g) s = (Ok (Some vs, length vs),
     s\<lparr>allocations := Suc (allocations s), live_blocks := live_blocks s + 1\<rparr>)"
  by (simp add: load_field_def has_values_def run_simps grib_try_get_double_array_def)

lemma snow_loop_step:
  assumes kind: "is_precip_kind P (g, k)" and open_: "r = None \<or> q = None" and mem: "allocs_succeed P"
    and f: "aFile s = Some f" "\<not> file_eof f" "drop (file_pos f) (file_items f) = Inr g # ys"
    and take: "snow_take k (r, q, n, 0) = (r', q', n', b')"
  shows "snow_loop (Suc fuel) P h r q n s = snow_loop fuel P (Some g) r' q' n'
    (s\<lparr>aFile := Some (read_to (Suc (file_pos f)) f), live_handles := live_handles s - handle_no h + 1,
       allocations := allocations s + b', live_blocks := live_blocks s + int b'\<rparr>)"
proof -
  have "grib_handle_new_from_file AFile (s\<lparr>live_handles := x\<rparr>) = (Ok (Some g),
      s\<lparr>aFile := Some (read_to (Suc (file_pos f)) f), live_handles := x + 1\<rparr>)" for x
    using read_next [of AFile "s\<lparr>live_handles := x\<rparr>" g ys] f by (simp add: rest_def advance_def read_to_def)
  moreover obtain d c v where "keys3 (grib P) g d c v"
     "case k of Rain vs \<Rightarrow> (d, c, v) = (0, 1, 8) \<and> has_values P g vs
      | CatSnow vs \<Rightarrow> (d, c, v) = (0, 1, 195) \<and> has_values P g vs
      | OtherField \<Rightarrow> (d, c, v) \<noteq> (0, 1, 8) \<and> (d, c, v) \<noteq> (0, 1, 195)"
    using kind unfolding is_precip_kind_def fst_conv snd_conv by blast
  ultimately show ?thesis using open_ mem f(2) take
    by (cases k) (auto simp: delete_handle_no feof_a_def run_simps read_to_def)
qed

lemma snow_scan_blocks: "snow_scan (r, q, n, b) xs = (r', q', n', b') \<Longrightarrow> b \<le> b'"
proof (induction xs arbitrary: r q n b)
  case (Cons x xs)
  obtain r1 q1 n1 b1 where 1: "snow_take (snd x) (r, q, n, b) = (r1, q1, n1, b1)" by (metis prod_cases4)
  then have "b \<le> b1" by (cases "snd x") auto
  with Cons.IH [of r1 q1 n1 b1] Cons.prems 1 show ?case by (auto split: if_splits)
qed simp

lemma snow_take_shift:
  "snow_take k (r, q, n, 0) = (r', q', n', b') \<Longrightarrow> snow_take k (r, q, n, b) = (r', q', n', b + b')"
  by (cases k) auto

lemma snow_loop_found:
  assumes "list_all (is_precip_kind P) xs" "snow_scan (r, q, n, b) xs = (Some r', Some q', n', b')"
    and "readable (drop (file_pos f) (file_items f)) = map fst xs @ gs" "\<not> file_eof f"
    and "length xs < fuel" "allocs_succeed P" "h \<noteq> None \<or> r = None \<or> q = None"
  shows "\<exists>p g. \<forall>s. aFile s = Some f \<longrightarrow> snow_loop fuel P h r q n s =
    (Ok (Some (Some g, Some r', Some q', n', False)), s\<lparr>aFile := Some (read_to p f),
      live_handles := live_handles s - handle_no h + 1,
      live_blocks := live_blocks s + int (b' - b), allocations := allocations s + (b' - b)\<rparr>)"
  using assms
proof (induction xs arbitrary: r q n b f fuel h)
  case Nil
  then obtain m g where "fuel = Suc m" "h = Some g" by (cases fuel; cases h) auto
  then show ?case using Nil.prems
    by (intro exI [of _ "file_pos f"] exI [of _ g]) (auto simp: run_simps read_to_def handle_no_def)
next
  case (Cons x xs)
  obtain m where m: "fuel = Suc m" "length xs < m" using Cons.prems(5) by (cases fuel) auto
  obtain g k where x: "x = (g, k)" by (cases x)
  show ?case
  proof (cases "r \<noteq> None \<and> q \<noteq> None")
    case True
    then obtain g where "h = Some g" using Cons.prems(7) by (cases h) auto
    then show ?thesis using Cons.prems True m
      by (intro exI [of _ "file_pos f"] exI [of _ g]) (auto simp: run_simps read_to_def handle_no_def)
  next
    case False
    obtain r1 q1 n1 b1 where t: "snow_take k (r, q, n, 0) = (r1, q1, n1, b1)" by (metis prod_cases4)
    let ?f = "read_to (Suc (file_pos f)) f"
    obtain ys where ys: "drop (file_pos f) (file_items f) = Inr g # ys" "readable ys = map fst xs @ gs"
      using Cons.prems(3) x by (auto dest: readable_Cons)
    then have d: "drop (file_pos ?f) (file_items ?f) = ys"
      by (metis drop_Suc list.sel(3) read_to_simps(2,4) tl_drop)
    have sc: "snow_scan (r1, q1, n1, b + b1) xs = (Some r', Some q', n', b')"
      using Cons.prems(2) False x snow_take_shift [OF t, of b] by auto
    then have le: "b + b1 \<le> b'" by (rule snow_scan_blocks)
    have "\<not> file_eof ?f" using Cons.prems(4) by (simp add: read_to_def)
    then obtain p g' where "\<forall>s. aFile s = Some ?f \<longrightarrow> snow_loop m P (Some g) r1 q1 n1 s =
      (Ok (Some (Some g', Some r', Some q', n', False)), s\<lparr>aFile := Some (read_to p ?f),
        live_handles := live_handles s - handle_no (Some g) + 1,
        live_blocks := live_blocks s + int (b' - (b + b1)), allocations := allocations s + (b' - (b + b1))\<rparr>)"
      using Cons.IH [of r1 q1 n1 "b + b1" ?f m "Some g"] Cons.prems(1,6) sc d ys(2) m(2) by auto
    moreover have "is_precip_kind P (g, k)" using Cons.prems(1) x by simp
    moreover have "r = None \<or> q = None" using False by auto
    ultimately show ?thesis
      using snow_loop_step [OF _ _ Cons.prems(6) _ Cons.prems(4) ys(1) t] m(1) le
      by (intro exI [of _ p] exI [of _ g']) (simp add: handle_no_def of_nat_diff)
  qed
qed

lemma snow_loop_end:
  assumes "list_all (is_precip_kind P) xs" "snow_scan (r, q, n, b) xs = (r', q', n', b')" "r' = None \<or> q' = None"
    and "readable (drop (file_pos f) (file_items f)) = map fst xs" "all_readable (drop (file_pos f) (file_items f))"
    and "\<not> file_eof f" "length xs + 1 < fuel" "allocs_succeed P" "file_items f = Inr g0 # zs"
  shows "\<forall>s. aFile s = Some f \<longrightarrow> snow_loop fuel P h r q n s =
    (Ok (Some (Some g0, Some [], Some [], n', True)), s\<lparr>aFile := Some (read_to 1 (rewound f)),
      live_handles := live_handles s - handle_no h + 1,
      live_blocks := live_blocks s + int (b' - b) + 2, allocations := allocations s + (b' - b) + 2\<rparr>)"
  using assms
proof (induction xs arbitrary: r q n b f fuel h)
  case Nil
  then obtain m where m: "fuel = Suc m" by (cases fuel) auto
  have st: "r' = r" "q' = q" "n' = n" "b' = b" using Nil.prems(2) by simp_all
  have e: "drop (file_pos f) (file_items f) = []" by (rule all_readable_empty [OF Nil.prems(5)]) (use Nil.prems(4) in simp)
  then have l: "\<not> file_pos f < length (file_items f)" by simp
  show ?case using Nil.prems(3,8,9) l m
    by (auto simp: st run_simps delete_handle_no feof_a_def grib_handle_new_from_file_def rewound_def read_to_def
        handle_no_def)
next
  case (Cons x xs)
  obtain m where m: "fuel = Suc m" "length xs + 1 < m" using Cons.prems(7) by (cases fuel) auto
  obtain g k where x: "x = (g, k)" by (cases x)
  have open_: "r = None \<or> q = None" using Cons.prems(2,3) by (auto split: if_splits)
  obtain r1 q1 n1 b1 where t: "snow_take k (r, q, n, 0) = (r1, q1, n1, b1)" by (metis prod_cases4)
  let ?f = "read_to (Suc (file_pos f)) f"
  obtain ys where ys: "drop (file_pos f) (file_items f) = Inr g # ys" "readable ys = map fst xs"
    using Cons.prems(4) x by (auto dest: readable_Cons)
  then have d: "drop (file_pos ?f) (file_items ?f) = ys"
    by (metis drop_Suc list.sel(3) read_to_simps(2,4) tl_drop)
  have sc: "snow_scan (r1, q1, n1, b + b1) xs = (r', q', n', b')"
    using Cons.prems(2) open_ x snow_take_shift [OF t, of b] by auto
  then have le: "b + b1 \<le> b'" by (rule snow_scan_blocks)
  have "\<not> file_eof ?f" "all_readable ys" using Cons.prems(5,6) ys(1) by (simp_all add: read_to_def)
  then have "\<forall>s. aFile s = Some ?f \<longrightarrow> snow_loop m P (Some g) r1 q1 n1 s =
      (Ok (Some (Some g0, Some [], Some [], n', True)), s\<lparr>aFile := Some (read_to 1 (rewound ?f)),
        live_handles := live_handles s - handle_no (Some g) + 1,
        live_blocks := live_blocks s + int (b' - (b + b1)) + 2, allocations := allocations s + (b' - (b + b1)) + 2\<rparr>)"
    using Cons.IH [of r1 q1 n1 "b + b1" ?f m "Some g"] Cons.prems(1,3,8,9) sc d ys(2) m(2) by auto
  moreover have "is_precip_kind P (g, k)" using Cons.prems(1) x by simp
  ultimately show ?case
    using snow_loop_step [OF _ open_ Cons.prems(8) _ Cons.prems(6) ys(1) t] m(1) le
    by (simp add: handle_no_def of_nat_diff)
qed

subsection \<open>What the loader stores\<close>

definition snow_base :: "int \<Rightarrow> int \<Rightarrow> setting list" where
  "snow_base n_lat n_lon = newGribRecord_settings 1 1 1 0 0 1 n_lat n_lon"

lemma snow_values_found [run_simps]:
  assumes "length qs = length rs"
  shows "snow_values (length rs) False (Some rs) (Some qs) s = (Ok (map2 snow_where_snowing qs rs), s)"
proof -
  have "snow_values (length rs) False (Some rs) (Some qs) s =
      (Ok (map (\<lambda>i. snow_where_snowing (qs ! i) (rs ! i)) [0..<length rs]), s)"
    unfolding snow_values_def by (rule cells_run) (use assms in \<open>simp add: run_simps snow_where_snowing_def\<close>)
  then show ?thesis using pointwise_map2 [OF assms, of snow_where_snowing] by (simp add: pointwise_def)
qed

lemma snow_values_dummy [run_simps]: "snow_values n True r q s = (Ok (replicate n (Fin 0)), s)"
proof -
  have "snow_values n True r q s = (Ok (map (\<lambda>i. Fin 0) [0..<n]), s)"
    unfolding snow_values_def by (rule cells_run) (simp add: run_simps)
  then show ?thesis by (simp add: map_replicate_const)
qed

lemma a_fuel: "length (readable (file_items f)) + 1 <
    search_fuel (s\<lparr>bFile := Some g, aFile := Some (rewound f)\<rparr>)"
  using readable_fuel [of AFile "s\<lparr>bFile := Some g, aFile := Some (rewound f)\<rparr>"] by (simp add: rest_def)

lemma rewound_eof [simp]: "\<not> file_eof (rewound f)"
  by (simp add: rewound_def)

text \<open>
  Both records are in the a file: the snow field is stored. \<open>b\<close> counts the fields that were
  loaded; when the file has one of each, \<open>b = 2\<close> and no block is lost.
\<close>

lemma loadSnow_run:
  assumes files: "aFile s = Some fa" "bFile s = Some fb" and mem: "allocs_succeed P"
    and room: "room (vid TIME_INTEGRATED_SNOW_FALL_WATER_EQUIVALENT) s buf ms"
    and recs: "list_all (is_precip_kind P) xs" "readable (file_items fa) = map fst xs"
      "snow_scan (None, None, nat (n_lat * n_lon), 0) xs = (Some rs, Some qs, length rs, b)"
    and size: "length qs = length rs"
    and temp: "temporary_record P (snow_base n_lat n_lon) (map2 snow_where_snowing qs rs) m"
  shows "loadDataForTimeIntegratedSnowFallWaterEquivalent P buf n_lat n_lon s = (Ok (Some (map Block (ms @ [m]))),
    saved_state (vid TIME_INTEGRATED_SNOW_FALL_WATER_EQUIVALENT) buf m
      (s\<lparr>aFile := Some (rewound fa), bFile := Some (rewound fb),
        allocations := allocations s + b + 1, live_blocks := live_blocks s + int b - 2\<rparr>))"
proof -
  obtain g0 g3 where new: "base_record P (snow_base n_lat n_lon) g0"
    "api_set_doubles (grib P) g0 ''values'' (map2 snow_where_snowing qs rs) = Inr g3" "saves P g3 m"
    using temp by (auto simp: temporary_record_def)
  let ?fuel = "search_fuel (s\<lparr>bFile := Some (rewound fb), aFile := Some (rewound fa)\<rparr>)"
  have fuel: "length xs < ?fuel"
    using a_fuel [of fa "rewound fb" s] recs(2) by simp
  have d: "readable (drop (file_pos (rewound fa)) (file_items (rewound fa))) = map fst xs @ []"
    using recs(2) by simp
  obtain p g where "\<forall>t. aFile t = Some (rewound fa) \<longrightarrow>
      snow_loop ?fuel P None None None (nat (n_lat * n_lon)) t =
      (Ok (Some (Some g, Some rs, Some qs, length rs, False)), t\<lparr>aFile := Some (read_to p (rewound fa)),
      live_handles := live_handles t - handle_no (None :: 'a option) + 1,
      live_blocks := live_blocks t + int (b - 0), allocations := allocations t + (b - 0)\<rparr>)"
    using snow_loop_found [OF recs(1,3) d rewound_eof fuel mem disjI2 [OF disjI1 [OF refl]], of None] by blast
  moreover have "valid_index (vid TIME_INTEGRATED_SNOW_FALL_WATER_EQUIVALENT)"
    using room by (simp add: room_def)
  ultimately show ?thesis using files mem new size save_record_run [OF room mem new(3)]
    by (simp add: loadDataForTimeIntegratedSnowFallWaterEquivalent_def run_simps newGribRecord_run saved_state_def
        handle_no_def flip: snow_base_def)
qed

text \<open>
  One of the records is not there: a field of zeros is stored. A block is lost for every field that
  had been loaded.
\<close>

lemma loadSnow_missing:
  assumes files: "aFile s = Some fa" "bFile s = Some fb" and mem: "allocs_succeed P"
    and room: "room (vid TIME_INTEGRATED_SNOW_FALL_WATER_EQUIVALENT) s buf ms"
    and recs: "list_all (is_precip_kind P) xs" "file_items fa = map (Inr \<circ> fst) xs" "xs \<noteq> []"
      "snow_scan (None, None, nat (n_lat * n_lon), 0) xs = (r, q, n, b)" "r = None \<or> q = None"
    and temp: "temporary_record P (snow_base n_lat n_lon) (replicate n (Fin 0)) m"
  shows "loadDataForTimeIntegratedSnowFallWaterEquivalent P buf n_lat n_lon s = (Ok (Some (map Block (ms @ [m]))),
    saved_state (vid TIME_INTEGRATED_SNOW_FALL_WATER_EQUIVALENT) buf m
      (s\<lparr>aFile := Some (rewound fa), bFile := Some (rewound fb),
        allocations := allocations s + b + 3, live_blocks := live_blocks s + int b\<rparr>))"
proof -
  obtain g0 g3 where new: "base_record P (snow_base n_lat n_lon) g0"
    "api_set_doubles (grib P) g0 ''values'' (replicate n (Fin 0)) = Inr g3" "saves P g3 m"
    using temp by (auto simp: temporary_record_def)
  let ?fuel = "search_fuel (s\<lparr>bFile := Some (rewound fb), aFile := Some (rewound fa)\<rparr>)"
  have items: "file_items fa = map Inr (map fst xs)" using recs(2) by simp
  then have r: "readable (file_items fa) = map fst xs" "all_readable (file_items fa)"
    by (simp_all only: readable_map all_readable_map)
  have fuel: "length xs + 1 < ?fuel"
    using a_fuel [of fa "rewound fb" s] r(1) by simp
  obtain g1 zs where first: "file_items fa = Inr g1 # zs" using recs(2,3) by (cases xs) auto
  have d: "readable (drop (file_pos (rewound fa)) (file_items (rewound fa))) = map fst xs"
      "all_readable (drop (file_pos (rewound fa)) (file_items (rewound fa)))"
      "file_items (rewound fa) = Inr g1 # zs"
    using r first by simp_all
  note snow_loop_end [OF recs(1,4,5) d(1,2) rewound_eof fuel mem d(3), of None]
  moreover have "valid_index (vid TIME_INTEGRATED_SNOW_FALL_WATER_EQUIVALENT)"
    using room by (simp add: room_def)
  ultimately show ?thesis using files mem new save_record_run [OF room mem new(3)]
    by (simp add: loadDataForTimeIntegratedSnowFallWaterEquivalent_def run_simps newGribRecord_run saved_state_def
        handle_no_def flip: snow_base_def)
qed

end
