(* ===== verification/HourIntegration.thy ===== *)
theory HourIntegration
  imports PrecipitationLoaders
begin

text \<open>
  The loop over the forecast hours that all time-integrated variables share: a running sum
  over the saved records, and one output file per hour. The locale \<open>hour_integrator\<close> states
  what the body of the loop must do; it is interpreted for the body of every such generator.
\<close>

subsection \<open>Steps of the loop body\<close>

definition forecast_hours :: "int list" where
  "forecast_hours = map (\<lambda>k. 6 * int k) [0..<FORECAST_HOURS div 6 + 1]"

text \<open>\<open>timeAdd(&tmInit, &tmEnd)\<close> for the offset \<open>fff\<close>.\<close>

definition end_of_interval :: "int \<Rightarrow> int \<Rightarrow> int \<Rightarrow> int \<Rightarrow> int \<Rightarrow> ('g world, dt) prog" where
  "end_of_interval yyyy mm dd hh fff =
     (case timeAdd \<lparr>yr = yyyy, mo = mm, dy = dd, hr = hh, mn = 0\<rparr> (hours_offset fff) of
        None \<Rightarrow> crash | Some tmEnd \<Rightarrow> ret tmEnd)"

text \<open>\<open>resource[i]\<close> and \<open>bytesPerRecord[v][i]\<close>.\<close>

definition resource_cell :: "buffers \<Rightarrow> nat \<Rightarrow> ('g world, saved) prog" where
  "resource_cell resource i = (case resource of None \<Rightarrow> crash | Some cs \<Rightarrow> cell cs i)"

definition record_bytes :: "int \<Rightarrow> nat \<Rightarrow> ('g world, int) prog" where
  "record_bytes v i = (if \<not> valid_index v \<or> SAVED_COLUMNS \<le> i then crash else rd (\<lambda>s. bytesPerRecord s v i))"

text \<open>
  \<open>grib_handle_new_from_message(NULL, resource[i], bytesPerRecord[v][i])\<close>: the bytes that are
  read. An uninitialised or NULL pointer, or more bytes than the block has, is undefined.
\<close>

definition saved_message :: "int \<Rightarrow> buffers \<Rightarrow> nat \<Rightarrow> ('g world, byte list) prog" where
  "saved_message v resource i =
     bnd (resource_cell resource i) (\<lambda>c.
     bnd (record_bytes v i) (\<lambda>k.
     case c of
       Block bs \<Rightarrow> if 0 \<le> k \<and> k \<le> int (length bs) then ret (take (nat k) bs) else crash
     | _ \<Rightarrow> crash))"

definition open_saved :: "'g platform \<Rightarrow> int \<Rightarrow> buffers \<Rightarrow> nat \<Rightarrow> ('g world, 'g option) prog" where
  "open_saved P v resource i =
     bnd (saved_message v resource i) (\<lambda>bytes.
     bnd (grib_handle_new_from_message P bytes) (\<lambda>h.
     bnd (grib_get_long P h ''parameterNumber'') (\<lambda>temp.
     ret h)))"

text \<open>Writing the first cells of an array.\<close>

definition overwrite :: "'x list \<Rightarrow> 'x list \<Rightarrow> 'x list" where
  "overwrite front xs = front @ drop (length front) xs"

text \<open>
  The loop over the points: \<open>f\<close> gives the new running sum and the output from the old running
  sum and the value. The output array may be NULL, its allocation was not checked.
\<close>

definition integrate_points :: "nat \<Rightarrow> (cdouble \<Rightarrow> cdouble \<Rightarrow> cdouble \<times> cdouble) \<Rightarrow> cdouble list
    \<Rightarrow> cdouble list option \<Rightarrow> cdouble list option \<Rightarrow> ('g world, cdouble list \<times> cdouble list option) prog" where
  "integrate_points n f runningSum ncepValues values =
     bnd (cells n (\<lambda>i.
       bnd (cell runningSum i) (\<lambda>r.
       bnd (cell_of ncepValues i) (\<lambda>v.
       bnd (cell_of values i) (\<lambda>_.
       ret (f r v)))))) (\<lambda>ps.
     ret (overwrite (map fst ps) runningSum, map_option (overwrite (map snd ps)) values))"

text \<open>From \<open>newGribRecord\<close> to \<open>grib_handle_delete(gh)\<close>.\<close>

definition write_hour :: "'g platform \<Rightarrow> setting list \<Rightarrow> int \<Rightarrow> int \<Rightarrow> int \<Rightarrow> int \<Rightarrow> int \<Rightarrow> int \<Rightarrow> string
    \<Rightarrow> cdouble list option \<Rightarrow> nat \<Rightarrow> ('g world, unit) prog" where
  "write_hour P settings yyyy mm dd hh fff em fileName values n =
     bnd (newGribRecord P yyyy mm dd hh fff em (get_n_lat yyyy mm dd hh) (get_n_lon yyyy mm dd hh)) (\<lambda>gh.
     bnd (grib_set P gh settings) (\<lambda>gh.
     bnd (grib_set_double_array P gh ''values'' (case values of None \<Rightarrow> [] | Some xs \<Rightarrow> take n xs)) (\<lambda>gh.
     bnd (writeGribToFile P gh fileName) (\<lambda>status.
     grib_handle_delete gh))))"

text \<open>
  The frame of every generator: \<open>calloc\<close> of the running sum with \<open>exit(1)\<close> when it fails, the
  loop, and \<open>free\<close>. The body passes on the running sum and \<open>ncepValuesSize\<close>.
\<close>

definition integrate_hours :: "'g platform \<Rightarrow> nat \<Rightarrow> (int \<Rightarrow> cdouble list \<times> nat \<Rightarrow> ('g world, cdouble list \<times> nat) prog)
    \<Rightarrow> ('g world, unit) prog" where
  "integrate_hours P n hour =
     bnd (calloc_doubles P n) (\<lambda>runningSum.
     bnd (or_exit1 runningSum) (\<lambda>runningSum.
     bnd (for_each forecast_hours hour (runningSum, n)) (\<lambda>(runningSum, n).
     free (Some runningSum))))"

subsection \<open>The interface of a loop body\<close>

text \<open>
  In a state that is \<open>ready\<close>, iteration \<open>k\<close> takes the running sum \<open>partial k\<close> to \<open>partial (k + 1)\<close>,
  writes \<open>output_of k\<close>, makes \<open>cost\<close> memory requests and gives back what it took.
\<close>

definition emitted :: "nat \<Rightarrow> (string \<times> byte list) list \<Rightarrow> 'g world \<Rightarrow> 'g world" where
  "emitted c fs s = s\<lparr>output_files := output_files s @ fs, allocations := allocations s + c\<rparr>"

locale hour_integrator =
  fixes hour :: "int \<Rightarrow> cdouble list \<times> nat \<Rightarrow> ('g world, cdouble list \<times> nat) prog"
    and ready :: "'g world \<Rightarrow> bool"
    and partial :: "nat \<Rightarrow> cdouble list"
    and points :: nat
    and output_of :: "nat \<Rightarrow> string \<times> byte list"
    and cost :: nat
  assumes hour_run: "ready s \<Longrightarrow> k < FORECAST_HOURS div 6 + 1 \<Longrightarrow>
      hour (6 * int k) (partial k, points) s = (Ok (partial (Suc k), points), emitted cost [output_of k] s)"
    and ready_emitted: "ready s \<Longrightarrow> ready (emitted c fs s)"
    and ready_frame: "ready s \<Longrightarrow> ready (s\<lparr>allocations := a, live_blocks := b\<rparr>)"
    and partial_start: "partial 0 = replicate points (Fin 0)"
begin

lemma hours_run:
  assumes "ready s"
  shows "for_each forecast_hours hour (partial 0, points) s =
    (Ok (partial (FORECAST_HOURS div 6 + 1), points),
      emitted (cost * (FORECAST_HOURS div 6 + 1)) (map output_of [0..<FORECAST_HOURS div 6 + 1]) s)"
proof -
  let ?I = "\<lambda>k a t. a = (partial k, points) \<and> t = emitted (cost * k) (map output_of [0..<k]) s"
  have "\<exists>a' s'. for_each (map (\<lambda>k. 6 * int k) [0..<FORECAST_HOURS div 6 + 1]) hour (partial 0, points) s = (Ok a', s') \<and>
      ?I (FORECAST_HOURS div 6 + 1) a' s'"
  proof (rule for_each_upt_inv [where I = ?I])
    show "?I 0 (partial 0, points) s" by (simp add: emitted_def)
  next
    fix k a t
    assume "k < FORECAST_HOURS div 6 + 1" "?I k a t"
    moreover from this have "ready t" using ready_emitted [OF assms] by simp
    ultimately show "\<exists>a' s'. hour (6 * int k) a t = (Ok a', s') \<and> ?I (Suc k) a' s'"
      using hour_run [of t k] by (simp add: emitted_def algebra_simps)
  qed
  then show ?thesis by (simp add: forecast_hours_def)
qed

lemma integrate_run:
  assumes "ready s" "allocs_succeed P"
  shows "integrate_hours P points hour s = (Ok (),
    emitted (cost * (FORECAST_HOURS div 6 + 1) + 1) (map output_of [0..<FORECAST_HOURS div 6 + 1]) s)"
proof -
  let ?s = "s\<lparr>allocations := Suc (allocations s), live_blocks := live_blocks s + 1\<rparr>"
  have "ready ?s" by (rule ready_frame) (rule assms(1))
  from hours_run [OF this] assms(2) show ?thesis
    by (simp add: integrate_hours_def run_simps emitted_def flip: partial_start)
qed

end

end
