(* ===== verification/Integrators.thy ===== *)
theory Integrators
  imports HourIntegration
begin

text \<open>
  The generators of the time-integrated variables: \<open>src/src/generateTimeIntegrated*.c\<close> and
  \<open>src/src/generateTotalPrecipitation.c\<close>. Each is the loop of \<open>integrate_hours\<close> with its
  own body. Fluxes are averages over six hours, so the running sum is multiplied by 21600
  seconds, with the sign reversed for the upward fluxes; amounts are summed as they are.
\<close>

subsection \<open>Metadata\<close>

text \<open>The settings that the five fluxes share.\<close>

definition flux_settings :: "int \<Rightarrow> int \<Rightarrow> int \<Rightarrow> dt \<Rightarrow> int \<Rightarrow> setting list" where
  "flux_settings category parameterNumber surface tmEnd fff =
     [SetLong ''productDefinitionTemplateNumber'' 11,
      SetLong ''parameterCategory'' category,
      SetLong ''parameterNumber'' parameterNumber,
      SetLong ''typeOfFirstFixedSurface'' surface,
      SetMissing ''scaleFactorOfFirstFixedSurface'',
      SetMissing ''scaledValueOfFirstFixedSurface'',
      SetLong ''typeOfSecondFixedSurface'' 255,
      SetMissing ''scaleFactorOfSecondFixedSurface'',
      SetMissing ''scaledValueOfSecondFixedSurface'',
      SetLong ''yearOfEndOfOverallTimeInterval'' (yr tmEnd),
      SetLong ''monthOfEndOfOverallTimeInterval'' (mo tmEnd),
      SetLong ''dayOfEndOfOverallTimeInterval'' (dy tmEnd),
      SetLong ''hourOfEndOfOverallTimeInterval'' (hr tmEnd),
      SetLong ''minuteOfEndOfOverallTimeInterval'' 0,
      SetLong ''secondOfEndOfOverallTimeInterval'' 0,
      SetLong ''typeOfStatisticalProcessing'' 1,
      SetLong ''typeOfTimeIncrementBetweenSuccessiveFieldsUsedInTheStatisticalProcessing'' 2,
      SetLong ''numberOfMissingInStatisticalProcess'' 0,
      SetLong ''indicatorOfUnitOfTimeRange'' 1,
      SetLong ''lengthOfTimeRange'' fff,
      SetLong ''indicatorOfUnitForTimeIncrement'' 255,
      SetLong ''timeIncrement'' 0,
      SetLong ''startStep'' 0,
      SetLong ''endStep'' fff]"

definition snow_fall_integral_settings :: "dt \<Rightarrow> int \<Rightarrow> setting list" where
  "snow_fall_integral_settings tmEnd fff =
     [SetLong ''productDefinitionTemplateNumber'' 11,
      SetLong ''parameterCategory'' 1,
      SetLong ''parameterNumber'' 53,
      SetLong ''typeOfFirstFixedSurface'' 1,
      SetMissing ''scaleFactorOfFirstFixedSurface'',
      SetMissing ''scaledValueOfFirstFixedSurface'',
      SetLong ''typeOfSecondFixedSurface'' 255,
      SetMissing ''scaleFactorOfSecondFixedSurface'',
      SetMissing ''scaledValueOfSecondFixedSurface'',
      SetLong ''forecastTime'' 0,
      SetLong ''yearOfEndOfOverallTimeInterval'' (yr tmEnd),
      SetLong ''monthOfEndOfOverallTimeInterval'' (mo tmEnd),
      SetLong ''dayOfEndOfOverallTimeInterval'' (dy tmEnd),
      SetLong ''hourOfEndOfOverallTimeInterval'' (hr tmEnd),
      SetLong ''minuteOfEndOfOverallTimeInterval'' 0,
      SetLong ''secondOfEndOfOverallTimeInterval'' 0,
      SetLong ''numberOfMissingInStatisticalProcess'' 0,
      SetLong ''typeOfStatisticalProcessing'' 1,
      SetLong ''typeOfTimeIncrementBetweenSuccessiveFieldsUsedInTheStatisticalProcessing'' 2,
      SetLong ''indicatorOfUnitOfTimeRange'' 1,
      SetLong ''lengthOfTimeRange'' fff,
      SetLong ''indicatorOfUnitForTimeIncrement'' 255,
      SetLong ''timeIncrement'' 0,
      SetLong ''startStep'' 0,
      SetLong ''endStep'' fff,
      SetLong ''lengthOfTimeRange'' fff]"

text \<open>Total precipitation takes the initial time as the end of the interval.\<close>

definition total_precipitation_settings :: "int \<Rightarrow> int \<Rightarrow> int \<Rightarrow> int \<Rightarrow> int \<Rightarrow> setting list" where
  "total_precipitation_settings yyyy mm dd hh fff =
     [SetLong ''productDefinitionTemplateNumber'' 11,
      SetLong ''tablesVersion'' 5,
      SetLong ''grib2LocalSectionPresent'' 0,
      SetLong ''parameterCategory'' 1,
      SetLong ''parameterNumber'' 52,
      SetLong ''typeOfFirstFixedSurface'' 1,
      SetMissing ''scaleFactorOfFirstFixedSurface'',
      SetMissing ''scaledValueOfFirstFixedSurface'',
      SetLong ''typeOfSecondFixedSurface'' 255,
      SetMissing ''scaleFactorOfSecondFixedSurface'',
      SetMissing ''scaledValueOfSecondFixedSurface'',
      SetLong ''yearOfEndOfOverallTimeInterval'' yyyy,
      SetLong ''monthOfEndOfOverallTimeInterval'' mm,
      SetLong ''dayOfEndOfOverallTimeInterval'' dd,
      SetLong ''hourOfEndOfOverallTimeInterval'' hh,
      SetLong ''minuteOfEndOfOverallTimeInterval'' 0,
      SetLong ''secondOfEndOfOverallTimeInterval'' 0,
      SetLong ''typeOfStatisticalProcessing'' 1,
      SetLong ''typeOfTimeIncrementBetweenSuccessiveFieldsUsedInTheStatisticalProcessing'' 2,
      SetLong ''numberOfMissingInStatisticalProcess'' 0,
      SetLong ''indicatorOfUnitOfTimeRange'' 1,
      SetLong ''lengthOfTimeRange'' fff,
      SetLong ''indicatorOfUnitForTimeIncrement'' 255,
      SetLong ''timeIncrement'' 0,
      SetLong ''startStep'' 0,
      SetLong ''endStep'' fff]"

subsection \<open>What is done at a point\<close>

text \<open>Pairs of the new running sum and the output.\<close>

definition flux_point :: "cdouble \<Rightarrow> int \<Rightarrow> cdouble \<Rightarrow> cdouble \<Rightarrow> cdouble \<times> cdouble" where
  "flux_point factor fff r v =
     (if fff = 0 then (Fin 0, Fin 0) else let r = dadd r v in (r, dmul r factor))"

text \<open>The thermal radiation first stores the value and then 0 in the running sum.\<close>

definition thermal_point :: "int \<Rightarrow> cdouble \<Rightarrow> cdouble \<Rightarrow> cdouble \<times> cdouble" where
  "thermal_point fff r v =
     (if fff = 0 then (let r = v; r = Fin 0 in (r, Fin 0))
      else let r = dadd r v in (r, dmul r (dlit 21600)))"

definition snow_fall_point :: "int \<Rightarrow> cdouble \<Rightarrow> cdouble \<Rightarrow> cdouble \<times> cdouble" where
  "snow_fall_point fff r v =
     (if fff = 0 then (Fin 0, Fin 0) else let r = dadd r v in (r, r))"

definition precipitation_point :: "int \<Rightarrow> cdouble \<Rightarrow> cdouble \<Rightarrow> cdouble \<times> cdouble" where
  "precipitation_point fff r v =
     (if fff = 0 then (v, Fin 0) else let r = dadd r v in (r, r))"

subsection \<open>The loop bodies\<close>

text \<open>
  The body of four of the flux generators, which differ in the variable, the metadata and the
  computation at a point.
\<close>

definition flux_hour :: "'g platform \<Rightarrow> tiggeVariableNames \<Rightarrow> (dt \<Rightarrow> int \<Rightarrow> setting list)
    \<Rightarrow> (int \<Rightarrow> cdouble \<Rightarrow> cdouble \<Rightarrow> cdouble \<times> cdouble) \<Rightarrow> int \<Rightarrow> int \<Rightarrow> int \<Rightarrow> int \<Rightarrow> int \<Rightarrow> buffers
    \<Rightarrow> int \<Rightarrow> cdouble list \<times> nat \<Rightarrow> ('g world, cdouble list \<times> nat) prog" where
  "flux_hour P v settings point yyyy mm dd hh em resource fff acc = (case acc of (runningSum, n) \<Rightarrow>
     bnd (end_of_interval yyyy mm dd hh fff) (\<lambda>tmEnd.
     bnd (open_saved P (vid v) resource (nat (fff div 6))) (\<lambda>ncepGribRecord.
     bnd (calloc_doubles P n) (\<lambda>ncepValues.
     bnd (grib_get_double_array P ncepGribRecord ''values'' ncepValues n) (\<lambda>(ncepValues, n).
     bnd (output_name v yyyy mm dd hh fff em) (\<lambda>fileName.
     bnd (calloc_doubles P n) (\<lambda>values.
     bnd (integrate_points n (point fff) runningSum ncepValues values) (\<lambda>(runningSum, values).
     seq (write_hour P (settings tmEnd fff) yyyy mm dd hh fff em fileName values n) (
     seq (free ncepValues) (
     seq (free values) (
     seq (grib_handle_delete ncepGribRecord) (
     ret (runningSum, n)))))))))))))"

text \<open>
  Outgoing long-wave radiation skips an hour whose record is NULL or has no bytes, and requests
  both arrays before it reads the values.
\<close>

definition outgoing_hour :: "'g platform \<Rightarrow> int \<Rightarrow> int \<Rightarrow> int \<Rightarrow> int \<Rightarrow> int \<Rightarrow> buffers
    \<Rightarrow> int \<Rightarrow> cdouble list \<times> nat \<Rightarrow> ('g world, cdouble list \<times> nat) prog" where
  "outgoing_hour P yyyy mm dd hh em resource fff acc = (case acc of (runningSum, n) \<Rightarrow>
     (let v = TIME_INTEGRATED_OUTGOING_LONG_WAVE_RADIATION; i = nat (fff div 6) in
     bnd (end_of_interval yyyy mm dd hh fff) (\<lambda>tmEnd.
     bnd (resource_cell resource i) (\<lambda>c.
     if c = Indet then crash
     else if c = NullPtr then ret (runningSum, n)
     else
     bnd (record_bytes (vid v) i) (\<lambda>bytes.
     if bytes = 0 then ret (runningSum, n)
     else
     bnd (open_saved P (vid v) resource i) (\<lambda>ncepGribRecord.
     bnd (calloc_doubles P n) (\<lambda>ncepValues.
     bnd (calloc_doubles P n) (\<lambda>values.
     bnd (grib_get_double_array P ncepGribRecord ''values'' ncepValues n) (\<lambda>(ncepValues, n).
     bnd (output_name v yyyy mm dd hh fff em) (\<lambda>fileName.
     bnd (integrate_points n (flux_point (dlit (- 21600)) fff) runningSum ncepValues values) (\<lambda>(runningSum, values).
     seq (write_hour P (flux_settings 5 5 8 tmEnd fff) yyyy mm dd hh fff em fileName values n) (
     seq (free ncepValues) (
     seq (free values) (
     seq (grib_handle_delete ncepGribRecord) (
     ret (runningSum, n))))))))))))))))"

text \<open>Snow fall skips an hour whose record is NULL or has no size above 0.\<close>

definition snow_hour :: "'g platform \<Rightarrow> int \<Rightarrow> int \<Rightarrow> int \<Rightarrow> int \<Rightarrow> int \<Rightarrow> buffers
    \<Rightarrow> int \<Rightarrow> cdouble list \<times> nat \<Rightarrow> ('g world, cdouble list \<times> nat) prog" where
  "snow_hour P yyyy mm dd hh em resource fff acc = (case acc of (runningSum, n) \<Rightarrow>
     (let v = TIME_INTEGRATED_SNOW_FALL_WATER_EQUIVALENT; resourceIndex = nat (fff div 6) in
     bnd (resource_cell resource resourceIndex) (\<lambda>c.
     if c = Indet then crash
     else if c = NullPtr then ret (runningSum, n)
     else
     bnd (record_bytes (vid v) resourceIndex) (\<lambda>bytes.
     if bytes \<le> 0 then ret (runningSum, n)
     else
     bnd (end_of_interval yyyy mm dd hh fff) (\<lambda>tmEnd.
     bnd (open_saved P (vid v) resource resourceIndex) (\<lambda>ncepGribRecord.
     bnd (calloc_doubles P n) (\<lambda>ncepValues.
     bnd (grib_get_double_array P ncepGribRecord ''values'' ncepValues n) (\<lambda>(ncepValues, n).
     bnd (output_name v yyyy mm dd hh fff em) (\<lambda>fileName.
     bnd (calloc_doubles P n) (\<lambda>values.
     bnd (integrate_points n (snow_fall_point fff) runningSum ncepValues values) (\<lambda>(runningSum, values).
     seq (write_hour P (snow_fall_integral_settings tmEnd fff) yyyy mm dd hh fff em fileName values n) (
     seq (free ncepValues) (
     seq (free values) (
     seq (grib_handle_delete ncepGribRecord) (
     ret (runningSum, n))))))))))))))))"

text \<open>Total precipitation reads no record at hour 0.\<close>

definition precipitation_hour :: "'g platform \<Rightarrow> int \<Rightarrow> int \<Rightarrow> int \<Rightarrow> int \<Rightarrow> int \<Rightarrow> buffers
    \<Rightarrow> int \<Rightarrow> cdouble list \<times> nat \<Rightarrow> ('g world, cdouble list \<times> nat) prog" where
  "precipitation_hour P yyyy mm dd hh em resource fff acc = (case acc of (runningSum, n) \<Rightarrow>
     bnd (if fff \<noteq> 0 then open_saved P (vid TOTAL_PRECIPITATION) resource (nat (fff div 6))
          else ret None) (\<lambda>ncepGribRecord.
     bnd (calloc_doubles P n) (\<lambda>ncepValues.
     bnd (calloc_doubles P n) (\<lambda>values.
     bnd (if fff \<noteq> 0 then grib_get_double_array P ncepGribRecord ''values'' ncepValues n
          else ret (ncepValues, n)) (\<lambda>(ncepValues, n).
     bnd (output_name TOTAL_PRECIPITATION yyyy mm dd hh fff em) (\<lambda>fileName.
     bnd (integrate_points n (precipitation_point fff) runningSum ncepValues values) (\<lambda>(runningSum, values).
     seq (write_hour P (total_precipitation_settings yyyy mm dd hh fff) yyyy mm dd hh fff em fileName values n) (
     seq (free ncepValues) (
     seq (free values) (
     seq (grib_handle_delete ncepGribRecord) (
     ret (runningSum, n))))))))))))"

subsection \<open>The generators\<close>

definition generateTimeIntegratedOutgoingLongWaveRadiation ::
  "'g platform \<Rightarrow> int \<Rightarrow> int \<Rightarrow> int \<Rightarrow> int \<Rightarrow> int \<Rightarrow> buffers \<Rightarrow> ('g world, unit) prog" where
  "generateTimeIntegratedOutgoingLongWaveRadiation P yyyy mm dd hh em resource =
     integrate_hours P (nat (get_n_points yyyy mm dd hh)) (outgoing_hour P yyyy mm dd hh em resource)"

definition generateTimeIntegratedSurfaceLatentHeatFlux ::
  "'g platform \<Rightarrow> int \<Rightarrow> int \<Rightarrow> int \<Rightarrow> int \<Rightarrow> int \<Rightarrow> buffers \<Rightarrow> ('g world, unit) prog" where
  "generateTimeIntegratedSurfaceLatentHeatFlux P yyyy mm dd hh em resource =
     integrate_hours P (nat (get_n_points yyyy mm dd hh))
       (flux_hour P TIME_INTEGRATED_SURFACE_LATENT_HEAT_FLUX (flux_settings 0 10 1)
          (flux_point (dlit (- 21600))) yyyy mm dd hh em resource)"

definition generateTimeIntegratedSurfaceSensibleHeatFlux ::
  "'g platform \<Rightarrow> int \<Rightarrow> int \<Rightarrow> int \<Rightarrow> int \<Rightarrow> int \<Rightarrow> buffers \<Rightarrow> ('g world, unit) prog" where
  "generateTimeIntegratedSurfaceSensibleHeatFlux P yyyy mm dd hh em resource =
     integrate_hours P (nat (get_n_points yyyy mm dd hh))
       (flux_hour P TIME_INTEGRATED_SURFACE_SENSIBLE_HEAT_FLUX (flux_settings 0 11 1)
          (flux_point (dlit (- 21600))) yyyy mm dd hh em resource)"

definition generateTimeIntegratedSurfaceNetSolarRadiation ::
  "'g platform \<Rightarrow> int \<Rightarrow> int \<Rightarrow> int \<Rightarrow> int \<Rightarrow> int \<Rightarrow> buffers \<Rightarrow> ('g world, unit) prog" where
  "generateTimeIntegratedSurfaceNetSolarRadiation P yyyy mm dd hh em resource =
     integrate_hours P (nat (get_n_points yyyy mm dd hh))
       (flux_hour P TIME_INTEGRATED_SURFACE_NET_SOLAR_RADIATION (flux_settings 4 9 1)
          (flux_point (dlit 21600)) yyyy mm dd hh em resource)"

definition generateTimeIntegratedSurfaceNetThermalRadiation ::
  "'g platform \<Rightarrow> int \<Rightarrow> int \<Rightarrow> int \<Rightarrow> int \<Rightarrow> int \<Rightarrow> buffers \<Rightarrow> ('g world, unit) prog" where
  "generateTimeIntegratedSurfaceNetThermalRadiation P yyyy mm dd hh em resource =
     integrate_hours P (nat (get_n_points yyyy mm dd hh))
       (flux_hour P TIME_INTEGRATED_SURFACE_NET_THERMAL_RADIATION (flux_settings 5 5 1)
          thermal_point yyyy mm dd hh em resource)"

text \<open>The argument \<open>fff\<close> is overwritten by the loop; the handles deleted after it are always NULL.\<close>

definition generateTimeIntegratedSnowFallWaterEquivalent ::
  "'g platform \<Rightarrow> int \<Rightarrow> int \<Rightarrow> int \<Rightarrow> int \<Rightarrow> int \<Rightarrow> int \<Rightarrow> buffers \<Rightarrow> ('g world, unit) prog" where
  "generateTimeIntegratedSnowFallWaterEquivalent P yyyy mm dd hh fff em resource =
     integrate_hours P (nat (get_n_points yyyy mm dd hh)) (snow_hour P yyyy mm dd hh em resource)"

definition generateTotalPrecipitation ::
  "'g platform \<Rightarrow> int \<Rightarrow> int \<Rightarrow> int \<Rightarrow> int \<Rightarrow> int \<Rightarrow> buffers \<Rightarrow> ('g world, unit) prog" where
  "generateTotalPrecipitation P yyyy mm dd hh em resource =
     integrate_hours P (nat (get_n_points yyyy mm dd hh)) (precipitation_hour P yyyy mm dd hh em resource)"

subsection \<open>Symbolic execution of the steps\<close>

definition resource_ready :: "tiggeVariableNames \<Rightarrow> buffers \<Rightarrow> byte list list \<Rightarrow> 'g world \<Rightarrow> bool" where
  "resource_ready v resource ms s \<longleftrightarrow> valid_index (vid v) \<and> holds (vid v) s resource ms \<and>
     length ms = FORECAST_HOURS div 6 + 1"

definition record_gives :: "'g platform \<Rightarrow> byte list \<Rightarrow> cdouble list \<Rightarrow> bool" where
  "record_gives P m xs \<longleftrightarrow> (\<exists>g x. handle_from_message (grib P) m = Some g \<and>
     api_get_long (grib P) g ''parameterNumber'' = Inr x \<and> api_get_doubles (grib P) g ''values'' = Inr xs)"

definition hour_output :: "'g platform \<Rightarrow> tiggeVariableNames \<Rightarrow> setting list \<Rightarrow> int \<Rightarrow> int \<Rightarrow> int \<Rightarrow> int \<Rightarrow> int \<Rightarrow> int
    \<Rightarrow> cdouble list \<Rightarrow> string \<times> byte list \<Rightarrow> bool" where
  "hour_output P v settings yyyy mm dd hh em fff field out \<longleftrightarrow>
     destination P v yyyy mm dd hh fff em (fst out) \<and>
     produces P (base_settings yyyy mm dd hh fff em) settings field (snd out)"

lemma resource_ready_frame:
  "resource_ready v resource ms s \<Longrightarrow> numberOfSavedRecords t = numberOfSavedRecords s \<Longrightarrow>
     bytesPerRecord t = bytesPerRecord s \<Longrightarrow> resource_ready v resource ms t"
  by (simp add: resource_ready_def holds_def)

lemma resource_facts:
  fixes s t :: "'g world"
  assumes "resource_ready v resource ms s" "k < FORECAST_HOURS div 6 + 1"
  shows "resource_cell resource k t = (Ok (Block (ms ! k)), t)"
    "record_bytes (vid v) k s = (Ok (int (length (ms ! k))), s)"
proof -
  have "ms \<noteq> []" using assms by (auto simp: resource_ready_def)
  then show "resource_cell resource k t = (Ok (Block (ms ! k)), t)"
    "record_bytes (vid v) k s = (Ok (int (length (ms ! k))), s)"
    using assms by (simp_all add: resource_ready_def holds_def resource_cell_def record_bytes_def run_simps
        SAVED_COLUMNS_def)
qed

lemma open_saved_run:
  assumes "resource_ready v resource ms s" "k < FORECAST_HOURS div 6 + 1"
    and "handle_from_message (grib P) (ms ! k) = Some g" "api_get_long (grib P) g ''parameterNumber'' = Inr x"
  shows "open_saved P (vid v) resource k s = (Ok (Some g), s\<lparr>live_handles := live_handles s + 1\<rparr>)"
  using assms(3,4) resource_facts [OF assms(1,2)]
  by (simp add: open_saved_def saved_message_def run_simps grib_handle_new_from_message_def)

lemma integrate_points_run [run_simps]:
  assumes "length run = n" "length vs = n" "length out = n"
  shows "integrate_points n f run (Some vs) (Some out) s =
    (Ok (map2 (\<lambda>r v. fst (f r v)) run vs, Some (map2 (\<lambda>r v. snd (f r v)) run vs)), s)"
proof -
  have "cells n (\<lambda>i. bnd (cell run i) (\<lambda>r. bnd (cell_of (Some vs) i) (\<lambda>v. bnd (cell_of (Some out) i) (\<lambda>_. ret (f r v))))) s =
      (Ok (map (\<lambda>i. f (run ! i) (vs ! i)) [0..<n]), s)"
    by (rule cells_run) (use assms in \<open>simp add: run_simps\<close>)
  moreover have "map (\<lambda>i. h (f (run ! i) (vs ! i))) [0..<n] = map2 (\<lambda>r v. h (f r v)) run vs" for h :: "_ \<Rightarrow> cdouble"
    by (rule nth_equalityI) (use assms in simp_all)
  ultimately show ?thesis
    using assms by (simp add: integrate_points_def run_simps overwrite_def comp_def)
qed

lemma write_hour_run:
  assumes "destination P v yyyy mm dd hh fff em path" "generateFileName (vid v) yyyy mm dd hh fff em = Some name"
    and "produces P (base_settings yyyy mm dd hh fff em) settings field m" "length field = n"
  shows "write_hour P settings yyyy mm dd hh fff em name (Some field) n s =
    (Ok (), s\<lparr>output_files := output_files s @ [(path, m)]\<rparr>)"
proof -
  obtain g0 g1 g2 where "base_record P (base_settings yyyy mm dd hh fff em) g0"
      "apply_settings (grib P) g0 settings = Inr g1" "api_set_doubles (grib P) g1 ''values'' field = Inr g2"
      "api_message (grib P) g2 = Inr m"
    using assms(3) by (rule producesE)
  moreover have "writable P name path" using assms(1,2) by (auto simp: destination_def)
  ultimately show ?thesis using assms(4)
    by (simp add: write_hour_def run_simps newGribRecord_run flip: base_settings_def)
qed

subsection \<open>Running sums\<close>

text \<open>
  The running sum before iteration \<open>k\<close> and the field that iteration \<open>k\<close> writes, for the
  values \<open>vals k\<close> of the saved records.
\<close>

fun hour_sums :: "(int \<Rightarrow> cdouble \<Rightarrow> cdouble \<Rightarrow> cdouble \<times> cdouble) \<Rightarrow> (nat \<Rightarrow> cdouble list) \<Rightarrow> nat \<Rightarrow> nat
    \<Rightarrow> cdouble list" where
  "hour_sums point vals n 0 = replicate n (Fin 0)"
| "hour_sums point vals n (Suc k) =
     map2 (\<lambda>r v. fst (point (6 * int k) r v)) (hour_sums point vals n k) (vals k)"

definition hour_field :: "(int \<Rightarrow> cdouble \<Rightarrow> cdouble \<Rightarrow> cdouble \<times> cdouble) \<Rightarrow> (nat \<Rightarrow> cdouble list) \<Rightarrow> nat \<Rightarrow> nat
    \<Rightarrow> cdouble list" where
  "hour_field point vals n k =
     map2 (\<lambda>r v. snd (point (6 * int k) r v)) (hour_sums point vals n k) (vals k)"

lemma hour_sums_length: "(\<And>j. j < k \<Longrightarrow> length (vals j) = n) \<Longrightarrow> length (hour_sums point vals n k) = n"
  by (induction k) simp_all

subsection \<open>The fluxes\<close>

text \<open>
  Everything the loop needs: the saved records open and have values for the grid, the dates
  can be computed, the output files can be written and get the messages \<open>outs k\<close>.
\<close>

definition hours_ready :: "'g platform \<Rightarrow> tiggeVariableNames \<Rightarrow> (dt \<Rightarrow> int \<Rightarrow> setting list)
    \<Rightarrow> (int \<Rightarrow> cdouble \<Rightarrow> cdouble \<Rightarrow> cdouble \<times> cdouble) \<Rightarrow> int \<Rightarrow> int \<Rightarrow> int \<Rightarrow> int \<Rightarrow> int \<Rightarrow> buffers
    \<Rightarrow> byte list list \<Rightarrow> (nat \<Rightarrow> cdouble list) \<Rightarrow> (nat \<Rightarrow> string \<times> byte list) \<Rightarrow> 'g world \<Rightarrow> bool" where
  "hours_ready P v settings point yyyy mm dd hh em resource ms vals outs s \<longleftrightarrow>
     allocs_succeed P \<and> resource_ready v resource ms s \<and>
     (\<forall>k < FORECAST_HOURS div 6 + 1.
        ms ! k \<noteq> [] \<and> record_gives P (ms ! k) (vals k) \<and> length (vals k) = nat (get_n_points yyyy mm dd hh) \<and>
        (\<exists>tmEnd. timeAdd \<lparr>yr = yyyy, mo = mm, dy = dd, hr = hh, mn = 0\<rparr> (hours_offset (6 * int k)) = Some tmEnd \<and>
           hour_output P v (settings tmEnd (6 * int k)) yyyy mm dd hh em (6 * int k)
             (hour_field point vals (nat (get_n_points yyyy mm dd hh)) k) (outs k)))"

lemma hours_readyE:
  assumes "hours_ready P v settings point yyyy mm dd hh em resource ms vals outs s" "k < FORECAST_HOURS div 6 + 1"
  obtains g x tmEnd name path m where
    "allocs_succeed P" "resource_ready v resource ms s" "ms ! k \<noteq> []"
    "handle_from_message (grib P) (ms ! k) = Some g" "api_get_long (grib P) g ''parameterNumber'' = Inr x"
    "api_get_doubles (grib P) g ''values'' = Inr (vals k)" "length (vals k) = nat (get_n_points yyyy mm dd hh)"
    "length (hour_sums point vals (nat (get_n_points yyyy mm dd hh)) k) = nat (get_n_points yyyy mm dd hh)"
    "timeAdd \<lparr>yr = yyyy, mo = mm, dy = dd, hr = hh, mn = 0\<rparr> (hours_offset (6 * int k)) = Some tmEnd"
    "outs k = (path, m)" "destination P v yyyy mm dd hh (6 * int k) em path"
    "generateFileName (vid v) yyyy mm dd hh (6 * int k) em = Some name"
    "produces P (base_settings yyyy mm dd hh (6 * int k) em) (settings tmEnd (6 * int k))
       (hour_field point vals (nat (get_n_points yyyy mm dd hh)) k) m"
proof -
  have "length (hour_sums point vals (nat (get_n_points yyyy mm dd hh)) k) = nat (get_n_points yyyy mm dd hh)"
    by (rule hour_sums_length) (use assms in \<open>simp add: hours_ready_def\<close>)
  with assms that show ?thesis
    by (cases "outs k") (fastforce simp: hours_ready_def record_gives_def hour_output_def destination_def)
qed

lemma flux_hour_run:
  assumes ready: "hours_ready P v settings point yyyy mm dd hh em resource ms vals outs s"
    and k: "k < FORECAST_HOURS div 6 + 1"
  shows "flux_hour P v settings point yyyy mm dd hh em resource (6 * int k)
      (hour_sums point vals (nat (get_n_points yyyy mm dd hh)) k, nat (get_n_points yyyy mm dd hh)) s =
    (Ok (hour_sums point vals (nat (get_n_points yyyy mm dd hh)) (Suc k), nat (get_n_points yyyy mm dd hh)),
      emitted 2 [outs k] s)"
proof -
  obtain g x tmEnd name path m where r: "allocs_succeed P" "resource_ready v resource ms s" "ms ! k \<noteq> []"
    "handle_from_message (grib P) (ms ! k) = Some g" "api_get_long (grib P) g ''parameterNumber'' = Inr x"
    "api_get_doubles (grib P) g ''values'' = Inr (vals k)" "length (vals k) = nat (get_n_points yyyy mm dd hh)"
    "length (hour_sums point vals (nat (get_n_points yyyy mm dd hh)) k) = nat (get_n_points yyyy mm dd hh)"
    "timeAdd \<lparr>yr = yyyy, mo = mm, dy = dd, hr = hh, mn = 0\<rparr> (hours_offset (6 * int k)) = Some tmEnd"
    "outs k = (path, m)" "destination P v yyyy mm dd hh (6 * int k) em path"
    "generateFileName (vid v) yyyy mm dd hh (6 * int k) em = Some name"
    "produces P (base_settings yyyy mm dd hh (6 * int k) em) (settings tmEnd (6 * int k))
       (hour_field point vals (nat (get_n_points yyyy mm dd hh)) k) m"
    using hours_readyE [OF ready k] .
  have i: "nat (6 * int k div 6) = k" by simp
  have len: "length (hour_field point vals (nat (get_n_points yyyy mm dd hh)) k) = nat (get_n_points yyyy mm dd hh)"
    using r(7,8) by (simp add: hour_field_def)
  note open_saved_run [OF r(2) k r(4,5)] write_hour_run [OF r(11,12,13) len]
  then show ?thesis using r
    by (simp add: flux_hour_def i end_of_interval_def run_simps emitted_def hour_field_def)
qed

lemma hours_ready_frame:
  "hours_ready P v settings point yyyy mm dd hh em resource ms vals outs s \<Longrightarrow>
     numberOfSavedRecords t = numberOfSavedRecords s \<Longrightarrow> bytesPerRecord t = bytesPerRecord s \<Longrightarrow>
     hours_ready P v settings point yyyy mm dd hh em resource ms vals outs t"
  unfolding hours_ready_def using resource_ready_frame by blast

interpretation flux: hour_integrator "flux_hour P v settings point yyyy mm dd hh em resource"
    "hours_ready P v settings point yyyy mm dd hh em resource ms vals outs"
    "hour_sums point vals (nat (get_n_points yyyy mm dd hh))" "nat (get_n_points yyyy mm dd hh)" outs 2
  for P v settings point yyyy mm dd hh em resource ms vals outs
proof unfold_locales
qed (auto simp: flux_hour_run emitted_def elim: hours_ready_frame)

lemma outgoing_hour_run:
  assumes ready: "hours_ready P TIME_INTEGRATED_OUTGOING_LONG_WAVE_RADIATION (flux_settings 5 5 8)
      (flux_point (dlit (- 21600))) yyyy mm dd hh em resource ms vals outs s"
    and k: "k < FORECAST_HOURS div 6 + 1"
  shows "outgoing_hour P yyyy mm dd hh em resource (6 * int k)
      (hour_sums (flux_point (dlit (- 21600))) vals (nat (get_n_points yyyy mm dd hh)) k,
        nat (get_n_points yyyy mm dd hh)) s =
    (Ok (hour_sums (flux_point (dlit (- 21600))) vals (nat (get_n_points yyyy mm dd hh)) (Suc k),
        nat (get_n_points yyyy mm dd hh)), emitted 2 [outs k] s)"
proof -
  obtain g x tmEnd name path m where r: "allocs_succeed P"
    "resource_ready TIME_INTEGRATED_OUTGOING_LONG_WAVE_RADIATION resource ms s" "ms ! k \<noteq> []"
    "handle_from_message (grib P) (ms ! k) = Some g" "api_get_long (grib P) g ''parameterNumber'' = Inr x"
    "api_get_doubles (grib P) g ''values'' = Inr (vals k)" "length (vals k) = nat (get_n_points yyyy mm dd hh)"
    "length (hour_sums (flux_point (dlit (- 21600))) vals (nat (get_n_points yyyy mm dd hh)) k) =
      nat (get_n_points yyyy mm dd hh)"
    "timeAdd \<lparr>yr = yyyy, mo = mm, dy = dd, hr = hh, mn = 0\<rparr> (hours_offset (6 * int k)) = Some tmEnd"
    "outs k = (path, m)" "destination P TIME_INTEGRATED_OUTGOING_LONG_WAVE_RADIATION yyyy mm dd hh (6 * int k) em path"
    "generateFileName (vid TIME_INTEGRATED_OUTGOING_LONG_WAVE_RADIATION) yyyy mm dd hh (6 * int k) em = Some name"
    "produces P (base_settings yyyy mm dd hh (6 * int k) em) (flux_settings 5 5 8 tmEnd (6 * int k))
       (hour_field (flux_point (dlit (- 21600))) vals (nat (get_n_points yyyy mm dd hh)) k) m"
    using hours_readyE [OF ready k] .
  have i: "nat (6 * int k div 6) = k" by simp
  have len: "length (hour_field (flux_point (dlit (- 21600))) vals (nat (get_n_points yyyy mm dd hh)) k) =
      nat (get_n_points yyyy mm dd hh)"
    using r(7,8) by (simp add: hour_field_def)
  note resource_facts [OF r(2) k] open_saved_run [OF r(2) k r(4,5)] write_hour_run [OF r(11,12,13) len]
  then show ?thesis using r
    by (simp add: outgoing_hour_def i end_of_interval_def run_simps emitted_def hour_field_def Let_def)
qed

lemma snow_hour_run:
  assumes ready: "hours_ready P TIME_INTEGRATED_SNOW_FALL_WATER_EQUIVALENT snow_fall_integral_settings
      snow_fall_point yyyy mm dd hh em resource ms vals outs s"
    and k: "k < FORECAST_HOURS div 6 + 1"
  shows "snow_hour P yyyy mm dd hh em resource (6 * int k)
      (hour_sums snow_fall_point vals (nat (get_n_points yyyy mm dd hh)) k, nat (get_n_points yyyy mm dd hh)) s =
    (Ok (hour_sums snow_fall_point vals (nat (get_n_points yyyy mm dd hh)) (Suc k),
        nat (get_n_points yyyy mm dd hh)), emitted 2 [outs k] s)"
proof -
  obtain g x tmEnd name path m where r: "allocs_succeed P"
    "resource_ready TIME_INTEGRATED_SNOW_FALL_WATER_EQUIVALENT resource ms s" "ms ! k \<noteq> []"
    "handle_from_message (grib P) (ms ! k) = Some g" "api_get_long (grib P) g ''parameterNumber'' = Inr x"
    "api_get_doubles (grib P) g ''values'' = Inr (vals k)" "length (vals k) = nat (get_n_points yyyy mm dd hh)"
    "length (hour_sums snow_fall_point vals (nat (get_n_points yyyy mm dd hh)) k) = nat (get_n_points yyyy mm dd hh)"
    "timeAdd \<lparr>yr = yyyy, mo = mm, dy = dd, hr = hh, mn = 0\<rparr> (hours_offset (6 * int k)) = Some tmEnd"
    "outs k = (path, m)" "destination P TIME_INTEGRATED_SNOW_FALL_WATER_EQUIVALENT yyyy mm dd hh (6 * int k) em path"
    "generateFileName (vid TIME_INTEGRATED_SNOW_FALL_WATER_EQUIVALENT) yyyy mm dd hh (6 * int k) em = Some name"
    "produces P (base_settings yyyy mm dd hh (6 * int k) em) (snow_fall_integral_settings tmEnd (6 * int k))
       (hour_field snow_fall_point vals (nat (get_n_points yyyy mm dd hh)) k) m"
    using hours_readyE [OF ready k] .
  have i: "nat (6 * int k div 6) = k" by simp
  have len: "length (hour_field snow_fall_point vals (nat (get_n_points yyyy mm dd hh)) k) =
      nat (get_n_points yyyy mm dd hh)"
    using r(7,8) by (simp add: hour_field_def)
  note resource_facts [OF r(2) k] open_saved_run [OF r(2) k r(4,5)] write_hour_run [OF r(11,12,13) len]
  then show ?thesis using r
    by (simp add: snow_hour_def i end_of_interval_def run_simps emitted_def hour_field_def Let_def)
qed

interpretation outgoing: hour_integrator "outgoing_hour P yyyy mm dd hh em resource"
    "hours_ready P TIME_INTEGRATED_OUTGOING_LONG_WAVE_RADIATION (flux_settings 5 5 8)
      (flux_point (dlit (- 21600))) yyyy mm dd hh em resource ms vals outs"
    "hour_sums (flux_point (dlit (- 21600))) vals (nat (get_n_points yyyy mm dd hh))"
    "nat (get_n_points yyyy mm dd hh)" outs 2
  for P yyyy mm dd hh em resource ms vals outs
proof unfold_locales
qed (auto simp: outgoing_hour_run emitted_def elim: hours_ready_frame)

interpretation snow: hour_integrator "snow_hour P yyyy mm dd hh em resource"
    "hours_ready P TIME_INTEGRATED_SNOW_FALL_WATER_EQUIVALENT snow_fall_integral_settings
      snow_fall_point yyyy mm dd hh em resource ms vals outs"
    "hour_sums snow_fall_point vals (nat (get_n_points yyyy mm dd hh))"
    "nat (get_n_points yyyy mm dd hh)" outs 2
  for P yyyy mm dd hh em resource ms vals outs
proof unfold_locales
qed (auto simp: snow_hour_run emitted_def elim: hours_ready_frame)

subsection \<open>Total precipitation\<close>

text \<open>The first record is never opened: hour 0 works on the zeros of its own array.\<close>

definition precipitation_ready :: "'g platform \<Rightarrow> int \<Rightarrow> int \<Rightarrow> int \<Rightarrow> int \<Rightarrow> int \<Rightarrow> buffers
    \<Rightarrow> byte list list \<Rightarrow> (nat \<Rightarrow> cdouble list) \<Rightarrow> (nat \<Rightarrow> string \<times> byte list) \<Rightarrow> 'g world \<Rightarrow> bool" where
  "precipitation_ready P yyyy mm dd hh em resource ms vals outs s \<longleftrightarrow>
     allocs_succeed P \<and> resource_ready TOTAL_PRECIPITATION resource ms s \<and>
     vals 0 = replicate (nat (get_n_points yyyy mm dd hh)) (Fin 0) \<and>
     (\<forall>k < FORECAST_HOURS div 6 + 1.
        (k \<noteq> 0 \<longrightarrow> record_gives P (ms ! k) (vals k)) \<and> length (vals k) = nat (get_n_points yyyy mm dd hh) \<and>
        hour_output P TOTAL_PRECIPITATION (total_precipitation_settings yyyy mm dd hh (6 * int k))
          yyyy mm dd hh em (6 * int k)
          (hour_field precipitation_point vals (nat (get_n_points yyyy mm dd hh)) k) (outs k))"

lemma precipitation_ready_frame:
  "precipitation_ready P yyyy mm dd hh em resource ms vals outs s \<Longrightarrow>
     numberOfSavedRecords t = numberOfSavedRecords s \<Longrightarrow> bytesPerRecord t = bytesPerRecord s \<Longrightarrow>
     precipitation_ready P yyyy mm dd hh em resource ms vals outs t"
  unfolding precipitation_ready_def using resource_ready_frame by blast

lemma precipitation_hour_run:
  assumes ready: "precipitation_ready P yyyy mm dd hh em resource ms vals outs s"
    and k: "k < FORECAST_HOURS div 6 + 1"
  shows "precipitation_hour P yyyy mm dd hh em resource (6 * int k)
      (hour_sums precipitation_point vals (nat (get_n_points yyyy mm dd hh)) k, nat (get_n_points yyyy mm dd hh)) s =
    (Ok (hour_sums precipitation_point vals (nat (get_n_points yyyy mm dd hh)) (Suc k),
        nat (get_n_points yyyy mm dd hh)), emitted 2 [outs k] s)"
proof -
  let ?n = "nat (get_n_points yyyy mm dd hh)"
  obtain path m where o: "outs k = (path, m)" by (cases "outs k")
  have out: "hour_output P TOTAL_PRECIPITATION (total_precipitation_settings yyyy mm dd hh (6 * int k))
      yyyy mm dd hh em (6 * int k) (hour_field precipitation_point vals ?n k) (path, m)"
    and len: "length (vals k) = ?n" and mem: "allocs_succeed P" and res: "resource_ready TOTAL_PRECIPITATION resource ms s"
    using ready k o unfolding precipitation_ready_def by metis+
  obtain name where name: "generateFileName (vid TOTAL_PRECIPITATION) yyyy mm dd hh (6 * int k) em = Some name"
    using out by (auto simp: hour_output_def destination_def)
  have lsum: "length (hour_sums precipitation_point vals ?n k) = ?n"
    by (rule hour_sums_length) (use ready k in \<open>simp add: precipitation_ready_def\<close>)
  have lfield: "length (hour_field precipitation_point vals ?n k) = ?n"
    using len lsum by (simp add: hour_field_def)
  have "destination P TOTAL_PRECIPITATION yyyy mm dd hh (6 * int k) em path"
    "produces P (base_settings yyyy mm dd hh (6 * int k) em) (total_precipitation_settings yyyy mm dd hh (6 * int k))
      (hour_field precipitation_point vals ?n k) m"
    using out by (simp_all add: hour_output_def)
  note emit = write_hour_run [OF this(1) name this(2) lfield]
  have i: "nat (6 * int k div 6) = k" by simp
  show ?thesis
  proof (cases "k = 0")
    case True
    then have v: "vals k = replicate ?n (Fin 0)" using ready by (simp add: precipitation_ready_def)
    show ?thesis using emit name mem lsum o True v
      by (simp add: precipitation_hour_def run_simps emitted_def hour_field_def)
  next
    case False
    then have "record_gives P (ms ! k) (vals k)" using ready k by (simp add: precipitation_ready_def)
    then obtain g x where "handle_from_message (grib P) (ms ! k) = Some g"
      "api_get_long (grib P) g ''parameterNumber'' = Inr x" "api_get_doubles (grib P) g ''values'' = Inr (vals k)"
      by (auto simp: record_gives_def)
    with open_saved_run [OF res k this(1,2)] show ?thesis using emit name mem lsum len o False
      by (simp add: precipitation_hour_def i run_simps emitted_def hour_field_def)
  qed
qed

interpretation precipitation: hour_integrator "precipitation_hour P yyyy mm dd hh em resource"
    "precipitation_ready P yyyy mm dd hh em resource ms vals outs"
    "hour_sums precipitation_point vals (nat (get_n_points yyyy mm dd hh))"
    "nat (get_n_points yyyy mm dd hh)" outs 2
  for P yyyy mm dd hh em resource ms vals outs
proof unfold_locales
qed (auto simp: precipitation_hour_run emitted_def elim: precipitation_ready_frame)

end
