(* ===== verification/RunningSums.thy ===== *)
theory RunningSums
  imports Integrators
begin

text \<open>
  What the running sums are, in exact arithmetic. The sums are computed in binary floating
  point; on values that are short binary fractions (as the values of GRIB records with simple
  packing and no decimal scaling are) no rounding takes place, and the output is the
  mathematical sum times the factor.
\<close>

subsection \<open>The points of the different generators\<close>

lemma thermal_point_flux: "thermal_point = flux_point (dlit 21600)"
  by (intro ext) (simp add: thermal_point_def flux_point_def Let_def)

lemma flux_literals: "dlit (- 21600) = Fin (of_int (- 21600))" "dlit 21600 = Fin (of_int 21600)"
  by (simp_all add: dlit_def rnd_numeral rnd_neg_numeral)

text \<open>
  The first component is the same for all of them: 0 at hour 0, except that total precipitation
  starts from its first array, then the sum.
\<close>

definition sums_up :: "(int \<Rightarrow> cdouble \<Rightarrow> cdouble \<Rightarrow> cdouble \<times> cdouble) \<Rightarrow> bool" where
  "sums_up point \<longleftrightarrow> (\<forall>r v. fst (point 0 r v) = Fin 0) \<and> (\<forall>fff r v. fff \<noteq> 0 \<longrightarrow> fst (point fff r v) = dadd r v)"

lemma sums_up_points [simp]: "sums_up (flux_point c)" "sums_up snow_fall_point"
  by (simp_all add: sums_up_def flux_point_def snow_fall_point_def Let_def)

definition exact_inputs :: "int \<Rightarrow> int \<Rightarrow> nat \<Rightarrow> nat \<Rightarrow> (nat \<Rightarrow> cdouble list) \<Rightarrow> bool" where
  "exact_inputs q b n hours vals \<longleftrightarrow> - 1074 \<le> q \<and> q \<le> 970 \<and>
     (\<forall>j. 0 < j \<and> j < hours \<longrightarrow> length (vals j) = n \<and> (\<forall>x \<in> set (vals j). finite_short q b x))"

subsection \<open>The sums\<close>

lemma hour_sums_exact:
  assumes point: "sums_up point" and ex: "exact_inputs q b n hours vals" and l0: "length (vals 0) = n"
    and b: "0 \<le> b" "int hours * b < 2 ^ 53" and k: "k < hours" and i: "i < n"
  shows "finite_short q (int k * b) (hour_sums point vals n (Suc k) ! i) \<and>
    dval (hour_sums point vals n (Suc k) ! i) = (\<Sum>j = 1..k. dval (vals j ! i))"
  using k
proof (induction k)
  case 0
  then show ?case using point i l0
    by (simp add: sums_up_def finite_short_def short_def)
next
  case (Suc k)
  then have IH: "finite_short q (int k * b) (hour_sums point vals n (Suc k) ! i)"
    "dval (hour_sums point vals n (Suc k) ! i) = (\<Sum>j = 1..k. dval (vals j ! i))" by auto
  have len: "length (vals j) = n" if "j < hours" for j
    using ex l0 that by (cases "j = 0") (auto simp: exact_inputs_def)
  then have ls: "length (hour_sums point vals n (Suc k)) = n"
    by (intro hour_sums_length) (use Suc.prems in auto)
  have v: "finite_short q b (vals (Suc k) ! i)"
    using ex Suc.prems i len [of "Suc k"] by (auto simp: exact_inputs_def)
  have step: "hour_sums point vals n (Suc (Suc k)) ! i =
      dadd (hour_sums point vals n (Suc k) ! i) (vals (Suc k) ! i)"
    using ls len [of "Suc k"] Suc.prems i point
    by (subst hour_sums.simps(2)) (simp add: sums_up_def del: hour_sums.simps(2))
  have "int k * b + b \<le> int hours * b"
    using Suc.prems b(1) mult_right_mono [of "int (Suc k)" "int hours" b] by (simp add: algebra_simps)
  then have "int k * b + b < 2 ^ 53" using b(2) by linarith
  from dadd_exact [OF IH(1) v this] ex
  have "dadd (hour_sums point vals n (Suc k) ! i) (vals (Suc k) ! i) =
      Fin (dval (hour_sums point vals n (Suc k) ! i) + dval (vals (Suc k) ! i))"
    "finite_short q (int k * b + b) (dadd (hour_sums point vals n (Suc k) ! i) (vals (Suc k) ! i))"
    by (auto simp: exact_inputs_def)
  with step IH(2) show ?case by (simp add: algebra_simps)
qed

text \<open>A flux: the factor times the sum of the averages after the initial hour.\<close>

text \<open>C4. The files of the fluxes hold the time integral without any rounding error: on short binary fractions
  the field of hour \<open>k\<close> is, at every point, the mathematical product of the factor and
  the sum of the six-hour averages of the hours 1 to \<open>k\<close>; the initial hour is not
  counted.\<close>

lemma flux_field_exact:
  assumes ex: "exact_inputs q b n hours vals" and l0: "length (vals 0) = n"
    and c: "c \<noteq> 0" and b: "0 \<le> b" "\<bar>c\<bar> * (int hours * b) < 2 ^ 53" and k: "k < hours" and i: "i < n"
  shows "represents (hour_field (flux_point (Fin (of_int c))) vals n k ! i)
    (of_int c * (\<Sum>j = 1..k. dval (vals j ! i)))"
proof (cases k)
  case 0
  then show ?thesis using l0 i by (simp add: hour_field_def flux_point_def represents_def)
next
  case (Suc m)
  let ?p = "flux_point (Fin (of_int c))"
  have "1 * (int hours * b) \<le> \<bar>c\<bar> * (int hours * b)"
    using c b(1) by (intro mult_right_mono) auto
  then have b': "int hours * b < 2 ^ 53" using b(2) by linarith
  have len: "length (vals j) = n" if "j < hours" for j
    using ex l0 that by (cases "j = 0") (auto simp: exact_inputs_def)
  have ls: "length (hour_sums ?p vals n k) = n" by (rule hour_sums_length) (use k len in auto)
  have s: "finite_short q (int k * b) (hour_sums ?p vals n (Suc k) ! i)"
    "dval (hour_sums ?p vals n (Suc k) ! i) = (\<Sum>j = 1..k. dval (vals j ! i))"
    using hour_sums_exact [OF sums_up_points(1) ex l0 b(1) b' k i] by auto
  have eq: "hour_field ?p vals n k ! i = dmul (hour_sums ?p vals n (Suc k) ! i) (Fin (of_int c))"
    using ls len [OF k] i Suc by (simp add: hour_field_def flux_point_def Let_def)
  have "\<bar>c\<bar> * (int k * b) \<le> \<bar>c\<bar> * (int hours * b)"
    using k b(1) by (intro mult_left_mono mult_right_mono) auto
  then have "\<bar>c\<bar> * (int k * b) < 2 ^ 53" using b(2) by linarith
  from dmul_int_exact [OF s(1) this _ _ c] ex show ?thesis
    by (simp add: eq s(2) exact_inputs_def mult.commute del: hour_sums.simps(2))
qed

text \<open>An amount: the sum.\<close>

lemma snow_field_exact:
  assumes ex: "exact_inputs q b n hours vals" and l0: "length (vals 0) = n"
    and b: "0 \<le> b" "int hours * b < 2 ^ 53" and k: "k < hours" and i: "i < n"
  shows "represents (hour_field snow_fall_point vals n k ! i) (\<Sum>j = 1..k. dval (vals j ! i))"
proof -
  have len: "length (vals j) = n" if "j < hours" for j
    using ex l0 that by (cases "j = 0") (auto simp: exact_inputs_def)
  have ls: "length (hour_sums snow_fall_point vals n k) = n" by (rule hour_sums_length) (use k len in auto)
  have "hour_field snow_fall_point vals n k ! i = hour_sums snow_fall_point vals n (Suc k) ! i"
    using ls len [OF k] i by (simp add: hour_field_def snow_fall_point_def Let_def)
  moreover have "finite_short q (int k * b) (hour_sums snow_fall_point vals n (Suc k) ! i)"
    "dval (hour_sums snow_fall_point vals n (Suc k) ! i) = (\<Sum>j = 1..k. dval (vals j ! i))"
    using hour_sums_exact [OF sums_up_points(2) ex l0 b k i] by auto
  ultimately show ?thesis by (auto simp: represents_def finite_short_def)
qed

text \<open>Total precipitation, whose first array holds zeros, gives the same fields.\<close>

lemma precipitation_later: "fff \<noteq> 0 \<Longrightarrow> precipitation_point fff = snow_fall_point fff"
  by (intro ext) (simp add: precipitation_point_def snow_fall_point_def)

lemma precipitation_sums:
  assumes v: "vals 0 = replicate n (Fin 0)"
  shows "hour_sums precipitation_point vals n k = hour_sums snow_fall_point vals n k"
proof (induction k)
  case (Suc k)
  show ?case
  proof (cases "k = 0")
    case True
    then show ?thesis using v
      by (simp add: precipitation_point_def snow_fall_point_def map2_map_map zip_replicate)
  next
    case False
    with Suc.IH show ?thesis by (simp add: precipitation_later)
  qed
qed simp

lemma precipitation_field:
  assumes v: "vals 0 = replicate n (Fin 0)"
  shows "hour_field precipitation_point vals n k = hour_field snow_fall_point vals n k"
proof (cases "k = 0")
  case True
  then show ?thesis by (simp add: hour_field_def precipitation_point_def snow_fall_point_def)
next
  case False
  then show ?thesis
    by (simp add: hour_field_def precipitation_later precipitation_sums [where vals = vals and n = n, OF v])
qed

text \<open>C5. The files of total precipitation and of the time-integrated snow fall hold the mathematical sums: on
  short binary fractions no rounding happens, and the field of hour \<open>k\<close> is, at every point, the sum of the
  records of the hours 1 to \<open>k\<close>. The two generators agree although the first one starts its sum from an
  array of zeros instead of skipping the initial hour.\<close>

theorem amount_fields_exact:
  assumes "exact_inputs q b n hours vals" "0 \<le> b" "int hours * b < 2 ^ 53" "k < hours" "i < n"
    and "vals 0 = replicate n (Fin 0)"
  shows "represents (hour_field snow_fall_point vals n k ! i) (\<Sum>j = 1..k. dval (vals j ! i)) \<and>
    hour_field precipitation_point vals n k = hour_field snow_fall_point vals n k"
  using snow_field_exact [OF assms(1) _ assms(2-5)] precipitation_field [where vals = vals and n = n and k = k, OF assms(6)] assms(6) by simp

text \<open>The generator of the net thermal radiation, which at the initial hour stores the record in its sum and
  at once overwrites it with 0, computes the same as the common flux generator with the factor 21600.\<close>

theorem net_thermal_is_a_flux:
  "generateTimeIntegratedSurfaceNetThermalRadiation P yyyy mm dd hh em resource =
    integrate_hours P (nat (get_n_points yyyy mm dd hh))
      (flux_hour P TIME_INTEGRATED_SURFACE_NET_THERMAL_RADIATION (flux_settings 5 5 1) (flux_point (dlit 21600))
        yyyy mm dd hh em resource)"
  by (simp add: generateTimeIntegratedSurfaceNetThermalRadiation_def thermal_point_flux)

end
