(* ===== verification/Driver.thy ===== *)
theory Driver
  imports PotentialTemperature TotalColumnWater RunningSums
begin

text \<open>
  The dispatch of \<open>src/src/generateVariable.c\<close> and \<open>src/src/loadDataForVariable.c\<close>, and
  \<open>main\<close> of \<open>src/src/ncdcTigge.c\<close>: arguments, the loops over ensemble members and forecast
  hours, and the buffers of the time-integrated variables.
\<close>

subsection \<open>The dispatch\<close>

text \<open>\<open>processQueueContains\<close> on the global queue.\<close>

definition queue_contains :: "string \<Rightarrow> ('g world, int) prog" where
  "queue_contains name = bnd (rd variablesToProcess) (\<lambda>q.
     case processQueueContains q name of None \<Rightarrow> crash | Some c \<Rightarrow> ret c)"

definition generateVariable ::
  "'g platform \<Rightarrow> int \<Rightarrow> int \<Rightarrow> int \<Rightarrow> int \<Rightarrow> int \<Rightarrow> int \<Rightarrow> int \<Rightarrow> buffers \<Rightarrow> ('g world, int) prog" where
  "generateVariable P varName yyyy mm dd hh fff em resource =
     (case variableShortName varName of None \<Rightarrow> ret 0 | Some name \<Rightarrow>
      bnd (queue_contains name) (\<lambda>c.
      if c = 0 then ret 0
      else
        seq (only_if (varName = vid SNOW_FALL_WATER_EQUIVALENT)
               (generateSnowFallWaterEquivalent P yyyy mm dd hh fff em)) (
        seq (only_if (varName = vid TIME_INTEGRATED_SNOW_FALL_WATER_EQUIVALENT)
               (generateTimeIntegratedSnowFallWaterEquivalent P yyyy mm dd hh fff em resource)) (
        seq (only_if (varName = vid TIME_INTEGRATED_OUTGOING_LONG_WAVE_RADIATION)
               (generateTimeIntegratedOutgoingLongWaveRadiation P yyyy mm dd hh em resource)) (
        seq (only_if (varName = vid TIME_INTEGRATED_SURFACE_LATENT_HEAT_FLUX)
               (generateTimeIntegratedSurfaceLatentHeatFlux P yyyy mm dd hh em resource)) (
        seq (only_if (varName = vid TIME_INTEGRATED_SURFACE_SENSIBLE_HEAT_FLUX)
               (generateTimeIntegratedSurfaceSensibleHeatFlux P yyyy mm dd hh em resource)) (
        seq (only_if (varName = vid TIME_INTEGRATED_SURFACE_NET_SOLAR_RADIATION)
               (generateTimeIntegratedSurfaceNetSolarRadiation P yyyy mm dd hh em resource)) (
        seq (only_if (varName = vid TIME_INTEGRATED_SURFACE_NET_THERMAL_RADIATION)
               (generateTimeIntegratedSurfaceNetThermalRadiation P yyyy mm dd hh em resource)) (
        seq (only_if (varName = vid TOTAL_PRECIPITATION)
               (generateTotalPrecipitation P yyyy mm dd hh em resource)) (
        seq (only_if (varName = vid TOTAL_COLUMN_WATER)
               (generateTotalColumnWater P yyyy mm dd hh fff em)) (
        seq (only_if (varName = vid POTENTIAL_TEMPERATURE)
               (generatePotentialTemperature P yyyy mm dd hh fff em)) (
        seq (only_if (varName = vid SOIL_MOISTURE)
               (generateSoilMoisture P yyyy mm dd hh fff em)) (
        seq (only_if (varName = vid SOIL_TEMPERATURE)
               (generateSoilTemperature P yyyy mm dd hh fff em)) (
        ret 0))))))))))))))"

definition loadDataForVariable :: "'g platform \<Rightarrow> int \<Rightarrow> buffers \<Rightarrow> int \<Rightarrow> int \<Rightarrow> ('g world, buffers) prog" where
  "loadDataForVariable P varName gribBuffer n_lat n_lon =
     (case variableShortName varName of None \<Rightarrow> ret None | Some name \<Rightarrow>
      bnd (queue_contains name) (\<lambda>c.
      if c = 0 then ret None
      else if varName = vid TIME_INTEGRATED_OUTGOING_LONG_WAVE_RADIATION then
        loadDataForTimeIntegratedOutgoingLongWaveRadiation P gribBuffer n_lat n_lon
      else if varName = vid TIME_INTEGRATED_SURFACE_LATENT_HEAT_FLUX then
        loadDataForTimeIntegratedSurfaceLatentHeatFlux P gribBuffer n_lat n_lon
      else if varName = vid TIME_INTEGRATED_SURFACE_SENSIBLE_HEAT_FLUX then
        loadDataForTimeIntegratedSurfaceSensibleHeatFlux P gribBuffer n_lat n_lon
      else if varName = vid TIME_INTEGRATED_SURFACE_NET_SOLAR_RADIATION then
        loadDataForTimeIntegratedSurfaceNetSolarRadiation P gribBuffer n_lat n_lon
      else if varName = vid TIME_INTEGRATED_SURFACE_NET_THERMAL_RADIATION then
        loadDataForTimeIntegratedSurfaceNetThermalRadiation P gribBuffer n_lat n_lon
      else if varName = vid TIME_INTEGRATED_SNOW_FALL_WATER_EQUIVALENT then
        loadDataForTimeIntegratedSnowFallWaterEquivalent P gribBuffer n_lat n_lon
      else if varName = vid TOTAL_PRECIPITATION then
        loadDataForTotalPrecipitation P gribBuffer n_lat n_lon
      else ret None))"

subsection \<open>The arguments\<close>

text \<open>\<open>strncpy\<close> of four, two, two and two characters, \<open>atoi\<close> of each.\<close>

definition parse_date :: "string \<Rightarrow> int \<times> int \<times> int \<times> int" where
  "parse_date arg =
     (let syear = take 4 arg; smonth = take 2 (drop 4 arg); sday = take 2 (drop 6 arg); shour = take 2 (drop 8 arg)
      in (atoi syear, atoi smonth, atoi sday, atoi shour))"

text \<open>The loop over \<open>argv[2]\<close>, ..: whether \<open>main\<close> goes on.\<close>

fun add_variables :: "nat \<Rightarrow> string list \<Rightarrow> ('g world, bool) prog" where
  "add_variables i [] = ret True"
| "add_variables i (arg # args) =
     bnd (rd variablesToProcess) (\<lambda>q.
     case addVariableToProcessList q i arg of None \<Rightarrow> crash | Some (status, q') \<Rightarrow>
     seq (upd (\<lambda>s. s\<lparr>variablesToProcess := q'\<rparr>)) (
     if status = 0 then add_variables (Suc i) args
     else if status = 1 then
       seq (upd (\<lambda>s. s\<lparr>variablesToProcess := fillQueueWithDefault (variablesToProcess s)\<rparr>)) (ret True)
     else ret False))"

text \<open>
  The argument parser, for \<open>argv\<close> without the program name. \<open>None\<close> stands for
  \<open>return 1\<close>. With more than 13 variable arguments the queue stays empty.
\<close>

definition parse_arguments :: "string list \<Rightarrow> ('g world, (int \<times> int \<times> int \<times> int) option) prog" where
  "parse_arguments args =
     (case args of
        [] \<Rightarrow> ret None
      | date # vars \<Rightarrow>
          if length date \<noteq> 10 then ret None
          else
            seq (upd (\<lambda>s. s\<lparr>variablesToProcess := fillQueueWithBogusData (variablesToProcess s)\<rparr>)) (
            seq (only_if (vars = [])
                   (upd (\<lambda>s. s\<lparr>variablesToProcess := fillQueueWithDefault (variablesToProcess s)\<rparr>))) (
            bnd (if vars \<noteq> [] \<and> length vars \<le> NUMBER_OF_VARIABLES then add_variables 0 vars
                 else ret True) (\<lambda>ok.
            ret (if ok then Some (parse_date date) else None)))))"

subsection \<open>Opening the input\<close>

text \<open>
  \<open>generateInputFilename\<close> into a buffer of 256 bytes. A missing environment variable would be
  printed through a NULL pointer.
\<close>

definition input_name ::
  "'g platform \<Rightarrow> int \<Rightarrow> int \<Rightarrow> int \<Rightarrow> int \<Rightarrow> int \<Rightarrow> int \<Rightarrow> int \<Rightarrow> ('g world, string) prog" where
  "input_name P fileNumber yyyy mm dd hh fff em =
     (case env_TIGGE_INPUT P of None \<Rightarrow> crash | Some prefix \<Rightarrow>
      let name = generateInputFilename prefix fileNumber yyyy mm dd hh fff em in
      if length name + 1 \<le> 256 then ret name else crash)"

definition fopen_r :: "'g platform \<Rightarrow> string \<Rightarrow> 'g gfile option" where
  "fopen_r P name = map_option (\<lambda>xs. \<lparr>file_items = xs, file_pos = 0, file_eof = False\<rparr>) (input_files P name)"

text \<open>Whether both files are open; \<open>main\<close> returns 1 otherwise.\<close>

definition open_inputs ::
  "'g platform \<Rightarrow> int \<Rightarrow> int \<Rightarrow> int \<Rightarrow> int \<Rightarrow> int \<Rightarrow> int \<Rightarrow> ('g world, bool) prog" where
  "open_inputs P yyyy mm dd hh fff em =
     bnd (input_name P 0 yyyy mm dd hh fff em) (\<lambda>aFileName.
     bnd (input_name P 1 yyyy mm dd hh fff em) (\<lambda>bFileName.
     seq (upd (\<lambda>s. s\<lparr>aFile := fopen_r P aFileName\<rparr>)) (
     seq (upd (\<lambda>s. s\<lparr>bFile := fopen_r P bFileName\<rparr>)) (
     ret (fopen_r P aFileName \<noteq> None \<and> fopen_r P bFileName \<noteq> None)))))"

text \<open>\<open>fclose\<close>; the closed streams are not used again.\<close>

definition close_inputs :: "('g world, unit) prog" where
  "close_inputs =
     seq (upd (\<lambda>s. s\<lparr>aFile := None\<rparr>)) (
     upd (\<lambda>s. s\<lparr>bFile := None\<rparr>))"

subsection \<open>One forecast hour\<close>

record ti_buffers =
  timeIntegratedOutgoingLongWaveRadiationBuffer :: buffers
  timeIntegratedSurfaceLatentHeatFluxBuffer :: buffers
  timeIntegratedSurfaceSensibleHeatFluxBuffer :: buffers
  timeIntegratedSurfaceNetSolarRadiationBuffer :: buffers
  timeIntegratedSurfaceNetThermalRadiationBuffer :: buffers
  timeIntegratedSnowFallWaterEquivalentBuffer :: buffers
  totalPrecipitationBuffer :: buffers

definition no_buffers :: ti_buffers where
  "no_buffers = \<lparr>timeIntegratedOutgoingLongWaveRadiationBuffer = None,
     timeIntegratedSurfaceLatentHeatFluxBuffer = None, timeIntegratedSurfaceSensibleHeatFluxBuffer = None,
     timeIntegratedSurfaceNetSolarRadiationBuffer = None, timeIntegratedSurfaceNetThermalRadiationBuffer = None,
     timeIntegratedSnowFallWaterEquivalentBuffer = None, totalPrecipitationBuffer = None\<rparr>"

text \<open>Missing input may be filled in at hour 0 only.\<close>

definition set_ignore :: "int \<Rightarrow> ('g world, unit) prog" where
  "set_ignore forecastHour =
     seq (upd (\<lambda>s. s\<lparr>ignoreMissingInput := 1\<rparr>)) (
     only_if (forecastHour \<noteq> 0) (upd (\<lambda>s. s\<lparr>ignoreMissingInput := 0\<rparr>)))"

definition load_fluxes :: "'g platform \<Rightarrow> int \<Rightarrow> int \<Rightarrow> ti_buffers \<Rightarrow> ('g world, ti_buffers) prog" where
  "load_fluxes P n_lat n_lon b =
     bnd (loadDataForVariable P (vid TIME_INTEGRATED_OUTGOING_LONG_WAVE_RADIATION)
            (timeIntegratedOutgoingLongWaveRadiationBuffer b) n_lat n_lon) (\<lambda>olr.
     bnd (loadDataForVariable P (vid TIME_INTEGRATED_SURFACE_LATENT_HEAT_FLUX)
            (timeIntegratedSurfaceLatentHeatFluxBuffer b) n_lat n_lon) (\<lambda>lhf.
     bnd (loadDataForVariable P (vid TIME_INTEGRATED_SURFACE_SENSIBLE_HEAT_FLUX)
            (timeIntegratedSurfaceSensibleHeatFluxBuffer b) n_lat n_lon) (\<lambda>shf.
     bnd (loadDataForVariable P (vid TIME_INTEGRATED_SURFACE_NET_SOLAR_RADIATION)
            (timeIntegratedSurfaceNetSolarRadiationBuffer b) n_lat n_lon) (\<lambda>ssr.
     bnd (loadDataForVariable P (vid TIME_INTEGRATED_SURFACE_NET_THERMAL_RADIATION)
            (timeIntegratedSurfaceNetThermalRadiationBuffer b) n_lat n_lon) (\<lambda>str.
     ret (b\<lparr>timeIntegratedOutgoingLongWaveRadiationBuffer := olr,
            timeIntegratedSurfaceLatentHeatFluxBuffer := lhf,
            timeIntegratedSurfaceSensibleHeatFluxBuffer := shf,
            timeIntegratedSurfaceNetSolarRadiationBuffer := ssr,
            timeIntegratedSurfaceNetThermalRadiationBuffer := str\<rparr>))))))"

definition generate_instant ::
  "'g platform \<Rightarrow> int \<Rightarrow> int \<Rightarrow> int \<Rightarrow> int \<Rightarrow> int \<Rightarrow> int \<Rightarrow> ('g world, int) prog" where
  "generate_instant P yyyy mm dd hh fff em =
     bnd (generateVariable P (vid SNOW_FALL_WATER_EQUIVALENT) yyyy mm dd hh fff em None) (\<lambda>status.
     bnd (generateVariable P (vid TOTAL_COLUMN_WATER) yyyy mm dd hh fff em None) (\<lambda>status.
     bnd (generateVariable P (vid POTENTIAL_TEMPERATURE) yyyy mm dd hh fff em None) (\<lambda>status.
     bnd (generateVariable P (vid SOIL_MOISTURE) yyyy mm dd hh fff em None) (\<lambda>status.
     generateVariable P (vid SOIL_TEMPERATURE) yyyy mm dd hh fff em None))))"

definition load_amounts :: "'g platform \<Rightarrow> int \<Rightarrow> int \<Rightarrow> ti_buffers \<Rightarrow> ('g world, ti_buffers) prog" where
  "load_amounts P n_lat n_lon b =
     bnd (loadDataForVariable P (vid TOTAL_PRECIPITATION) (totalPrecipitationBuffer b) n_lat n_lon) (\<lambda>tp.
     bnd (loadDataForVariable P (vid TIME_INTEGRATED_SNOW_FALL_WATER_EQUIVALENT)
            (timeIntegratedSnowFallWaterEquivalentBuffer b) n_lat n_lon) (\<lambda>sf.
     ret (b\<lparr>totalPrecipitationBuffer := tp, timeIntegratedSnowFallWaterEquivalentBuffer := sf\<rparr>)))"

text \<open>\<open>Inl\<close> is a \<open>return\<close> from \<open>main\<close>.\<close>

definition hour_step ::
  "'g platform \<Rightarrow> int \<Rightarrow> int \<Rightarrow> int \<Rightarrow> int \<Rightarrow> int \<Rightarrow> int \<Rightarrow> ti_buffers \<Rightarrow> ('g world, int + ti_buffers) prog" where
  "hour_step P yyyy mm dd hh em fff b =
     (let n_lon = get_n_lon yyyy mm dd hh; n_lat = get_n_lat yyyy mm dd hh in
      seq (set_ignore fff) (
      bnd (open_inputs P yyyy mm dd hh fff em) (\<lambda>ok.
      if \<not> ok then ret (Inl 1)
      else
        bnd (load_fluxes P n_lat n_lon b) (\<lambda>b.
        seq (upd (\<lambda>s. s\<lparr>ignoreMissingInput := 0\<rparr>)) (
        bnd (generate_instant P yyyy mm dd hh fff em) (\<lambda>status.
        bnd (load_amounts P n_lat n_lon b) (\<lambda>b.
        seq close_inputs (
        ret (Inr b))))))))) "

subsection \<open>One ensemble member\<close>

text \<open>A loop whose body may return from the procedure.\<close>

primrec for_return :: "'x list \<Rightarrow> ('x \<Rightarrow> 'a \<Rightarrow> ('s, 'r + 'a) prog) \<Rightarrow> 'a \<Rightarrow> ('s, 'r + 'a) prog" where
  "for_return [] body a = ret (Inr a)"
| "for_return (x # xs) body a = bnd (body x a) (\<lambda>r. case r of
      Inl c \<Rightarrow> ret (Inl c)
    | Inr a \<Rightarrow> for_return xs body a)"

definition generate_integrated ::
  "'g platform \<Rightarrow> int \<Rightarrow> int \<Rightarrow> int \<Rightarrow> int \<Rightarrow> int \<Rightarrow> ti_buffers \<Rightarrow> ('g world, int) prog" where
  "generate_integrated P yyyy mm dd hh em b =
     bnd (generateVariable P (vid TIME_INTEGRATED_OUTGOING_LONG_WAVE_RADIATION) yyyy mm dd hh 0 em
            (timeIntegratedOutgoingLongWaveRadiationBuffer b)) (\<lambda>_.
     bnd (generateVariable P (vid TIME_INTEGRATED_SURFACE_LATENT_HEAT_FLUX) yyyy mm dd hh 0 em
            (timeIntegratedSurfaceLatentHeatFluxBuffer b)) (\<lambda>_.
     bnd (generateVariable P (vid TIME_INTEGRATED_SURFACE_SENSIBLE_HEAT_FLUX) yyyy mm dd hh 0 em
            (timeIntegratedSurfaceSensibleHeatFluxBuffer b)) (\<lambda>_.
     bnd (generateVariable P (vid TIME_INTEGRATED_SNOW_FALL_WATER_EQUIVALENT) yyyy mm dd hh 0 em
            (timeIntegratedSnowFallWaterEquivalentBuffer b)) (\<lambda>_.
     bnd (generateVariable P (vid TIME_INTEGRATED_SURFACE_NET_SOLAR_RADIATION) yyyy mm dd hh 0 em
            (timeIntegratedSurfaceNetSolarRadiationBuffer b)) (\<lambda>_.
     bnd (generateVariable P (vid TIME_INTEGRATED_SURFACE_NET_THERMAL_RADIATION) yyyy mm dd hh 0 em
            (timeIntegratedSurfaceNetThermalRadiationBuffer b)) (\<lambda>_.
     generateVariable P (vid TOTAL_PRECIPITATION) yyyy mm dd hh 0 em (totalPrecipitationBuffer b)))))))"

definition free_records :: "ti_buffers \<Rightarrow> ('g world, ti_buffers) prog" where
  "free_records b =
     bnd (freeDataForVariable (vid TIME_INTEGRATED_OUTGOING_LONG_WAVE_RADIATION)
            (timeIntegratedOutgoingLongWaveRadiationBuffer b)) (\<lambda>olr.
     bnd (freeDataForVariable (vid TIME_INTEGRATED_SURFACE_LATENT_HEAT_FLUX)
            (timeIntegratedSurfaceLatentHeatFluxBuffer b)) (\<lambda>lhf.
     bnd (freeDataForVariable (vid TIME_INTEGRATED_SURFACE_SENSIBLE_HEAT_FLUX)
            (timeIntegratedSurfaceSensibleHeatFluxBuffer b)) (\<lambda>shf.
     bnd (freeDataForVariable (vid TIME_INTEGRATED_SURFACE_NET_SOLAR_RADIATION)
            (timeIntegratedSurfaceNetSolarRadiationBuffer b)) (\<lambda>ssr.
     bnd (freeDataForVariable (vid TIME_INTEGRATED_SURFACE_NET_THERMAL_RADIATION)
            (timeIntegratedSurfaceNetThermalRadiationBuffer b)) (\<lambda>str.
     bnd (freeDataForVariable (vid TIME_INTEGRATED_SNOW_FALL_WATER_EQUIVALENT)
            (timeIntegratedSnowFallWaterEquivalentBuffer b)) (\<lambda>sf.
     bnd (freeDataForVariable (vid TOTAL_PRECIPITATION) (totalPrecipitationBuffer b)) (\<lambda>tp.
     ret \<lparr>timeIntegratedOutgoingLongWaveRadiationBuffer = olr,
          timeIntegratedSurfaceLatentHeatFluxBuffer = lhf, timeIntegratedSurfaceSensibleHeatFluxBuffer = shf,
          timeIntegratedSurfaceNetSolarRadiationBuffer = ssr, timeIntegratedSurfaceNetThermalRadiationBuffer = str,
          timeIntegratedSnowFallWaterEquivalentBuffer = sf, totalPrecipitationBuffer = tp\<rparr>)))))))"

definition member_step ::
  "'g platform \<Rightarrow> int \<Rightarrow> int \<Rightarrow> int \<Rightarrow> int \<Rightarrow> int \<Rightarrow> ti_buffers \<Rightarrow> ('g world, int + ti_buffers) prog" where
  "member_step P yyyy mm dd hh em b =
     bnd (for_return forecast_hours (hour_step P yyyy mm dd hh em) b) (\<lambda>r.
     case r of Inl c \<Rightarrow> ret (Inl c) | Inr b \<Rightarrow>
     bnd (generate_integrated P yyyy mm dd hh em b) (\<lambda>_.
     bnd (free_records b) (\<lambda>b.
     ret (Inr b))))"

subsection \<open>main\<close>

definition free_buffers :: "ti_buffers \<Rightarrow> ('g world, unit) prog" where
  "free_buffers b =
     seq (free (timeIntegratedOutgoingLongWaveRadiationBuffer b)) (
     seq (free (timeIntegratedSurfaceLatentHeatFluxBuffer b)) (
     seq (free (timeIntegratedSurfaceSensibleHeatFluxBuffer b)) (
     seq (free (timeIntegratedSurfaceNetSolarRadiationBuffer b)) (
     seq (free (timeIntegratedSurfaceNetThermalRadiationBuffer b)) (
     seq (free (timeIntegratedSnowFallWaterEquivalentBuffer b)) (
     free (totalPrecipitationBuffer b)))))))"

definition main :: "'g platform \<Rightarrow> string list \<Rightarrow> ('g world, int) prog" where
  "main P args =
     seq (upd (\<lambda>s. s\<lparr>ignoreMissingInput := 0\<rparr>)) (
     bnd (parse_arguments args) (\<lambda>date.
     case date of None \<Rightarrow> ret 1 | Some (yyyy, mm, dd, hh) \<Rightarrow>
     bnd (for_return (map int [0..<nat (get_n_members yyyy mm dd hh)]) (member_step P yyyy mm dd hh) no_buffers) (\<lambda>r.
     case r of Inl c \<Rightarrow> ret c | Inr b \<Rightarrow>
     seq (free_buffers b) (
     ret 0))))"

end
