(* ===== verification/Members.thy ===== *)
theory Members
  imports Driver
begin

text \<open>
  What a run of the driver is made of, whatever variables are queued: the queue as a set of
  variables, the procedures behind a variable, the buffers by variable, and the calls of
  \<open>ncdcTigge.c\<close> in their order as loops over the variables.
\<close>

subsection \<open>The queue\<close>

lemma vid_inj [simp]: "vid v = vid w \<longleftrightarrow> v = w"
  by (cases v; cases w) simp_all

lemma known_vid [simp]: "known_id (vid v)"
  by (cases v) (simp_all add: known_id_def)

lemma queue_contains_run:
  assumes "filled k (variablesToProcess s)" "variableShortName i = Some n"
  shows "queue_contains n s = (Ok (if i \<in> set (take k (variablesToProcess s)) then 1 else 0), s)"
  by (simp add: queue_contains_def run_simps processQueueContains_filled [OF assms])

text \<open>What is not queued is neither loaded nor generated.\<close>

lemma loadDataForVariable_skip:
  assumes "filled k (variablesToProcess s)" "i \<notin> set (take k (variablesToProcess s))"
  shows "loadDataForVariable P i buf n_lat n_lon s = (Ok None, s)"
proof (cases "variableShortName i")
  case (Some n)
  then show ?thesis using assms queue_contains_run [OF assms(1) Some]
    by (simp add: loadDataForVariable_def run_simps)
qed (simp add: loadDataForVariable_def run_simps)

lemma generateVariable_skip:
  assumes "filled k (variablesToProcess s)" "i \<notin> set (take k (variablesToProcess s))"
  shows "generateVariable P i yyyy mm dd hh fff em resource s = (Ok 0, s)"
proof (cases "variableShortName i")
  case (Some n)
  then show ?thesis using assms queue_contains_run [OF assms(1) Some]
    by (simp add: generateVariable_def run_simps)
qed (simp add: generateVariable_def run_simps)

subsection \<open>The kinds of variables and their procedures\<close>

fun is_flux :: "tiggeVariableNames \<Rightarrow> bool" where
  "is_flux v = (v \<in> {TIME_INTEGRATED_OUTGOING_LONG_WAVE_RADIATION, TIME_INTEGRATED_SURFACE_LATENT_HEAT_FLUX,
     TIME_INTEGRATED_SURFACE_SENSIBLE_HEAT_FLUX, TIME_INTEGRATED_SURFACE_NET_SOLAR_RADIATION,
     TIME_INTEGRATED_SURFACE_NET_THERMAL_RADIATION})"

fun is_amount :: "tiggeVariableNames \<Rightarrow> bool" where
  "is_amount v = (v \<in> {TIME_INTEGRATED_SNOW_FALL_WATER_EQUIVALENT, TOTAL_PRECIPITATION})"

fun is_instant :: "tiggeVariableNames \<Rightarrow> bool" where
  "is_instant v = (v \<in> {SNOW_FALL_WATER_EQUIVALENT, TOTAL_COLUMN_WATER, POTENTIAL_TEMPERATURE,
     SOIL_MOISTURE, SOIL_TEMPERATURE})"

definition integrated :: "tiggeVariableNames \<Rightarrow> bool" where
  "integrated v \<longleftrightarrow> is_flux v \<or> is_amount v"

definition loader_of :: "'g platform \<Rightarrow> tiggeVariableNames \<Rightarrow> buffers \<Rightarrow> int \<Rightarrow> int \<Rightarrow> ('g world, buffers) prog" where
  "loader_of P v = (case v of
       TIME_INTEGRATED_OUTGOING_LONG_WAVE_RADIATION \<Rightarrow> loadDataForTimeIntegratedOutgoingLongWaveRadiation P
     | TIME_INTEGRATED_SURFACE_LATENT_HEAT_FLUX \<Rightarrow> loadDataForTimeIntegratedSurfaceLatentHeatFlux P
     | TIME_INTEGRATED_SURFACE_SENSIBLE_HEAT_FLUX \<Rightarrow> loadDataForTimeIntegratedSurfaceSensibleHeatFlux P
     | TIME_INTEGRATED_SURFACE_NET_SOLAR_RADIATION \<Rightarrow> loadDataForTimeIntegratedSurfaceNetSolarRadiation P
     | TIME_INTEGRATED_SURFACE_NET_THERMAL_RADIATION \<Rightarrow> loadDataForTimeIntegratedSurfaceNetThermalRadiation P
     | TIME_INTEGRATED_SNOW_FALL_WATER_EQUIVALENT \<Rightarrow> loadDataForTimeIntegratedSnowFallWaterEquivalent P
     | TOTAL_PRECIPITATION \<Rightarrow> loadDataForTotalPrecipitation P
     | _ \<Rightarrow> (\<lambda>_ _ _. ret None))"

definition generator_of :: "'g platform \<Rightarrow> tiggeVariableNames \<Rightarrow> int \<Rightarrow> int \<Rightarrow> int \<Rightarrow> int \<Rightarrow> int \<Rightarrow> buffers
    \<Rightarrow> ('g world, unit) prog" where
  "generator_of P v yyyy mm dd hh em = (case v of
       TIME_INTEGRATED_OUTGOING_LONG_WAVE_RADIATION \<Rightarrow> generateTimeIntegratedOutgoingLongWaveRadiation P yyyy mm dd hh em
     | TIME_INTEGRATED_SURFACE_LATENT_HEAT_FLUX \<Rightarrow> generateTimeIntegratedSurfaceLatentHeatFlux P yyyy mm dd hh em
     | TIME_INTEGRATED_SURFACE_SENSIBLE_HEAT_FLUX \<Rightarrow> generateTimeIntegratedSurfaceSensibleHeatFlux P yyyy mm dd hh em
     | TIME_INTEGRATED_SURFACE_NET_SOLAR_RADIATION \<Rightarrow> generateTimeIntegratedSurfaceNetSolarRadiation P yyyy mm dd hh em
     | TIME_INTEGRATED_SURFACE_NET_THERMAL_RADIATION \<Rightarrow> generateTimeIntegratedSurfaceNetThermalRadiation P yyyy mm dd hh em
     | TIME_INTEGRATED_SNOW_FALL_WATER_EQUIVALENT \<Rightarrow> generateTimeIntegratedSnowFallWaterEquivalent P yyyy mm dd hh 0 em
     | TOTAL_PRECIPITATION \<Rightarrow> generateTotalPrecipitation P yyyy mm dd hh em
     | _ \<Rightarrow> (\<lambda>_. ret ()))"

definition instant_generator :: "'g platform \<Rightarrow> tiggeVariableNames \<Rightarrow> int \<Rightarrow> int \<Rightarrow> int \<Rightarrow> int \<Rightarrow> int \<Rightarrow> int
    \<Rightarrow> ('g world, unit) prog" where
  "instant_generator P v = (case v of
       SNOW_FALL_WATER_EQUIVALENT \<Rightarrow> generateSnowFallWaterEquivalent P
     | TOTAL_COLUMN_WATER \<Rightarrow> generateTotalColumnWater P
     | POTENTIAL_TEMPERATURE \<Rightarrow> generatePotentialTemperature P
     | SOIL_MOISTURE \<Rightarrow> generateSoilMoisture P
     | SOIL_TEMPERATURE \<Rightarrow> generateSoilTemperature P
     | _ \<Rightarrow> (\<lambda>_ _ _ _ _ _. ret ()))"

text \<open>The queue holds the variables of a set.\<close>

definition queued :: "tiggeVariableNames set \<Rightarrow> 'g world \<Rightarrow> bool" where
  "queued Q s \<longleftrightarrow> (\<exists>k. filled k (variablesToProcess s) \<and> set (take k (variablesToProcess s)) = vid ` Q)"

lemma vid_image: "vid v \<in> vid ` Q \<longleftrightarrow> v \<in> Q"
  by auto

lemma queued_contains:
  assumes "queued Q s"
  obtains n where "variableShortName (vid v) = Some n" "queue_contains n s = (Ok (if v \<in> Q then 1 else 0), s)"
proof -
  obtain n where n: "variableShortName (vid v) = Some n" using variableShortName_Some_iff known_vid by blast
  from assms obtain k where "filled k (variablesToProcess s)" "set (take k (variablesToProcess s)) = vid ` Q"
    by (auto simp: queued_def)
  with queue_contains_run [OF _ n, of k s] n vid_image [of v Q] that show thesis by simp
qed

lemma queued_load:
  assumes "queued Q s" "integrated v"
  shows "loadDataForVariable P (vid v) a n_lat n_lon s =
    (if v \<in> Q then loader_of P v a n_lat n_lon s else (Ok None, s))"
proof -
  obtain n where "variableShortName (vid v) = Some n" "queue_contains n s = (Ok (if v \<in> Q then 1 else 0), s)"
    using queued_contains [OF assms(1)] .
  then show ?thesis using assms(2)
    by (auto simp: loadDataForVariable_def loader_of_def integrated_def run_simps simp del: vid.simps)
qed

lemma queued_generate:
  assumes "queued Q s" "integrated v" "v \<in> Q \<Longrightarrow> generator_of P v yyyy mm dd hh em resource s = (Ok (), t)"
  shows "generateVariable P (vid v) yyyy mm dd hh 0 em resource s = (Ok 0, if v \<in> Q then t else s)"
proof -
  obtain n where "variableShortName (vid v) = Some n" "queue_contains n s = (Ok (if v \<in> Q then 1 else 0), s)"
    using queued_contains [OF assms(1)] .
  then show ?thesis using assms(2,3)
    by (auto simp: generateVariable_def generator_of_def integrated_def run_simps simp del: vid.simps)
qed

lemma queued_generate_instant:
  assumes "queued Q s" "is_instant v" "v \<in> Q \<Longrightarrow> instant_generator P v yyyy mm dd hh fff em s = (Ok (), t)"
  shows "generateVariable P (vid v) yyyy mm dd hh fff em resource s = (Ok 0, if v \<in> Q then t else s)"
proof -
  obtain n where "variableShortName (vid v) = Some n" "queue_contains n s = (Ok (if v \<in> Q then 1 else 0), s)"
    using queued_contains [OF assms(1)] .
  then show ?thesis using assms(2,3)
    by (auto simp: generateVariable_def instant_generator_def run_simps simp del: vid.simps)
qed

subsection \<open>The buffers by variable\<close>

fun buffer_of :: "ti_buffers \<Rightarrow> tiggeVariableNames \<Rightarrow> buffers" where
  "buffer_of b TIME_INTEGRATED_OUTGOING_LONG_WAVE_RADIATION = timeIntegratedOutgoingLongWaveRadiationBuffer b"
| "buffer_of b TIME_INTEGRATED_SURFACE_LATENT_HEAT_FLUX = timeIntegratedSurfaceLatentHeatFluxBuffer b"
| "buffer_of b TIME_INTEGRATED_SURFACE_SENSIBLE_HEAT_FLUX = timeIntegratedSurfaceSensibleHeatFluxBuffer b"
| "buffer_of b TIME_INTEGRATED_SURFACE_NET_SOLAR_RADIATION = timeIntegratedSurfaceNetSolarRadiationBuffer b"
| "buffer_of b TIME_INTEGRATED_SURFACE_NET_THERMAL_RADIATION = timeIntegratedSurfaceNetThermalRadiationBuffer b"
| "buffer_of b TIME_INTEGRATED_SNOW_FALL_WATER_EQUIVALENT = timeIntegratedSnowFallWaterEquivalentBuffer b"
| "buffer_of b TOTAL_PRECIPITATION = totalPrecipitationBuffer b"
| "buffer_of b _ = None"

fun set_buffer :: "tiggeVariableNames \<Rightarrow> buffers \<Rightarrow> ti_buffers \<Rightarrow> ti_buffers" where
  "set_buffer TIME_INTEGRATED_OUTGOING_LONG_WAVE_RADIATION a b = b\<lparr>timeIntegratedOutgoingLongWaveRadiationBuffer := a\<rparr>"
| "set_buffer TIME_INTEGRATED_SURFACE_LATENT_HEAT_FLUX a b = b\<lparr>timeIntegratedSurfaceLatentHeatFluxBuffer := a\<rparr>"
| "set_buffer TIME_INTEGRATED_SURFACE_SENSIBLE_HEAT_FLUX a b = b\<lparr>timeIntegratedSurfaceSensibleHeatFluxBuffer := a\<rparr>"
| "set_buffer TIME_INTEGRATED_SURFACE_NET_SOLAR_RADIATION a b = b\<lparr>timeIntegratedSurfaceNetSolarRadiationBuffer := a\<rparr>"
| "set_buffer TIME_INTEGRATED_SURFACE_NET_THERMAL_RADIATION a b = b\<lparr>timeIntegratedSurfaceNetThermalRadiationBuffer := a\<rparr>"
| "set_buffer TIME_INTEGRATED_SNOW_FALL_WATER_EQUIVALENT a b = b\<lparr>timeIntegratedSnowFallWaterEquivalentBuffer := a\<rparr>"
| "set_buffer TOTAL_PRECIPITATION a b = b\<lparr>totalPrecipitationBuffer := a\<rparr>"
| "set_buffer _ a b = b"

lemma buffer_of_set: "integrated v \<Longrightarrow> buffer_of (set_buffer v a b) w = (if v = w then a else buffer_of b w)"
  by (cases v; cases w) (simp_all add: integrated_def)

definition flux_order :: "tiggeVariableNames list" where
  "flux_order = [TIME_INTEGRATED_OUTGOING_LONG_WAVE_RADIATION, TIME_INTEGRATED_SURFACE_LATENT_HEAT_FLUX,
     TIME_INTEGRATED_SURFACE_SENSIBLE_HEAT_FLUX, TIME_INTEGRATED_SURFACE_NET_SOLAR_RADIATION,
     TIME_INTEGRATED_SURFACE_NET_THERMAL_RADIATION]"

definition instant_order :: "tiggeVariableNames list" where
  "instant_order = [SNOW_FALL_WATER_EQUIVALENT, TOTAL_COLUMN_WATER, POTENTIAL_TEMPERATURE, SOIL_MOISTURE, SOIL_TEMPERATURE]"

definition amount_order :: "tiggeVariableNames list" where
  "amount_order = [TOTAL_PRECIPITATION, TIME_INTEGRATED_SNOW_FALL_WATER_EQUIVALENT]"

definition integrated_order :: "tiggeVariableNames list" where
  "integrated_order = [TIME_INTEGRATED_OUTGOING_LONG_WAVE_RADIATION, TIME_INTEGRATED_SURFACE_LATENT_HEAT_FLUX,
     TIME_INTEGRATED_SURFACE_SENSIBLE_HEAT_FLUX, TIME_INTEGRATED_SNOW_FALL_WATER_EQUIVALENT,
     TIME_INTEGRATED_SURFACE_NET_SOLAR_RADIATION, TIME_INTEGRATED_SURFACE_NET_THERMAL_RADIATION, TOTAL_PRECIPITATION]"

definition free_order :: "tiggeVariableNames list" where
  "free_order = flux_order @ rev amount_order"

lemma orders:
  "set flux_order = {v. is_flux v}" "set instant_order = {v. is_instant v}" "set amount_order = {v. is_amount v}"
  "set integrated_order = {v. integrated v}" "set free_order = {v. integrated v}"
  "distinct flux_order" "distinct amount_order" "distinct integrated_order" "distinct free_order"
  by (auto simp: flux_order_def instant_order_def amount_order_def integrated_order_def free_order_def integrated_def)

subsection \<open>The calls in their order\<close>

definition load_each :: "'g platform \<Rightarrow> int \<Rightarrow> int \<Rightarrow> tiggeVariableNames list \<Rightarrow> ti_buffers \<Rightarrow> ('g world, ti_buffers) prog" where
  "load_each P n_lat n_lon vs = for_each vs (\<lambda>v b.
     bnd (loadDataForVariable P (vid v) (buffer_of b v) n_lat n_lon) (\<lambda>a. ret (set_buffer v a b)))"

definition free_each :: "tiggeVariableNames list \<Rightarrow> ti_buffers \<Rightarrow> ('g world, ti_buffers) prog" where
  "free_each vs = for_each vs (\<lambda>v b.
     bnd (freeDataForVariable (vid v) (buffer_of b v)) (\<lambda>a. ret (set_buffer v a b)))"

definition generate_each :: "(tiggeVariableNames \<Rightarrow> ('g world, int) prog) \<Rightarrow> tiggeVariableNames list \<Rightarrow> ('g world, int) prog" where
  "generate_each gen vs = for_each vs (\<lambda>v _. gen v) 0"

lemma bnd_ret [simp]: "bnd (ret x) f = f x" "bnd m ret = m"
proof -
  show "bnd (ret x) f = f x" by (rule ext) (simp add: run_simps)
  have "continue (m s) ret = m s" for s by (cases "m s"; cases "fst (m s)") (auto simp: run_simps)
  then show "bnd m ret = m" by (intro ext) (simp add: bnd_def)
qed

lemma for_each_fun:
  "for_each [] body = ret" "for_each (x # xs) body = (\<lambda>a. bnd (body x a) (for_each xs body))"
  by (rule ext, simp)+

lemma load_fluxes_each: "load_fluxes P n_lat n_lon = load_each P n_lat n_lon flux_order"
  by (rule ext) (simp add: load_fluxes_def load_each_def flux_order_def bnd_assoc del: vid.simps)

lemma load_amounts_each: "load_amounts P n_lat n_lon = load_each P n_lat n_lon amount_order"
  by (rule ext) (simp add: load_amounts_def load_each_def amount_order_def bnd_assoc del: vid.simps)

lemma generate_instant_each:
  "generate_instant P yyyy mm dd hh fff em =
    generate_each (\<lambda>v. generateVariable P (vid v) yyyy mm dd hh fff em None) instant_order"
  by (simp add: generate_instant_def generate_each_def instant_order_def for_each_fun del: vid.simps)

lemma generate_integrated_each:
  "generate_integrated P yyyy mm dd hh em b =
    generate_each (\<lambda>v. generateVariable P (vid v) yyyy mm dd hh 0 em (buffer_of b v)) integrated_order"
  by (simp add: generate_integrated_def generate_each_def integrated_order_def for_each_fun del: vid.simps)

lemma free_records_each: "free_records = free_each free_order"
proof (rule ext)
  fix b
  show "free_records b = free_each free_order b"
    by (cases b) (simp add: free_records_def free_each_def free_order_def flux_order_def amount_order_def bnd_assoc del: vid.simps)
qed


subsection \<open>Loops that may return\<close>

lemma for_return_upt_from:
  assumes step: "\<And>k a s. k < n \<Longrightarrow> I k a s \<Longrightarrow> \<exists>a' s'. body (g k) a s = (Ok (Inr a'), s') \<and> I (Suc k) a' s'"
  shows "k \<le> n \<Longrightarrow> I k a s \<Longrightarrow> \<exists>a' s'. for_return (map g [k..<n]) body a s = (Ok (Inr a'), s') \<and> I n a' s'"
proof (induction "n - k" arbitrary: k a s)
  case 0
  then show ?case by (simp add: run_simps)
next
  case (Suc d)
  then have k: "k < n" by simp
  with step Suc.prems obtain a1 s1 where 1: "body (g k) a s = (Ok (Inr a1), s1)" "I (Suc k) a1 s1" by blast
  have "d = n - Suc k" "Suc k \<le> n" using Suc.hyps(2) k by simp_all
  with Suc.hyps(1) 1(2) obtain a2 s2 where "for_return (map g [Suc k..<n]) body a1 s1 = (Ok (Inr a2), s2)" "I n a2 s2"
    by blast
  with 1(1) k show ?case by (simp add: upt_conv_Cons run_simps)
qed

lemma for_return_upt_inv:
  assumes "I 0 a s"
    and "\<And>k a s. k < n \<Longrightarrow> I k a s \<Longrightarrow> \<exists>a' s'. body (g k) a s = (Ok (Inr a'), s') \<and> I (Suc k) a' s'"
  shows "\<exists>a' s'. for_return (map g [0..<n]) body a s = (Ok (Inr a'), s') \<and> I n a' s'"
  using for_return_upt_from [of n I body g 0 a s] assms by blast

subsection \<open>Input files\<close>

definition fresh :: "(int + 'g) list \<Rightarrow> 'g gfile" where
  "fresh xs = \<lparr>file_items = xs, file_pos = 0, file_eof = False\<rparr>"

text \<open>The two input files of a member and an hour.\<close>

definition input_hour :: "'g platform \<Rightarrow> int \<Rightarrow> int \<Rightarrow> int \<Rightarrow> int \<Rightarrow> int \<Rightarrow> int
    \<Rightarrow> (int + 'g) list \<Rightarrow> (int + 'g) list \<Rightarrow> bool" where
  "input_hour P yyyy mm dd hh em fff as bs \<longleftrightarrow> (\<exists>prefix. env_TIGGE_INPUT P = Some prefix \<and>
     (\<forall>n. length (generateInputFilename prefix n yyyy mm dd hh fff em) < 256) \<and>
     input_files P (generateInputFilename prefix 0 yyyy mm dd hh fff em) = Some as \<and>
     input_files P (generateInputFilename prefix 1 yyyy mm dd hh fff em) = Some bs)"

lemma open_inputs_run:
  assumes "input_hour P yyyy mm dd hh em fff as bs"
  shows "open_inputs P yyyy mm dd hh fff em s =
    (Ok True, s\<lparr>aFile := Some (fresh as), bFile := Some (fresh bs)\<rparr>)"
  using assms by (auto simp: input_hour_def open_inputs_def input_name_def fopen_r_def fresh_def Let_def
      Suc_le_eq run_simps)

subsection \<open>What a call may change\<close>

text \<open>What the loader of a variable may change: the record is saved and nothing is written.\<close>

definition same_outside :: "'g world \<Rightarrow> 'g world \<Rightarrow> bool" where
  "same_outside s t \<longleftrightarrow> variablesToProcess t = variablesToProcess s \<and> output_files t = output_files s \<and>
     live_handles t = live_handles s \<and> open_outputs t = open_outputs s"

lemma same_outside_trans: "same_outside s t \<Longrightarrow> same_outside t u \<Longrightarrow> same_outside s u"
  by (simp add: same_outside_def)

definition kept :: "'g world \<Rightarrow> 'g world \<Rightarrow> bool" where
  "kept s t \<longleftrightarrow> same_outside s t \<and> aFile t = aFile s \<and> bFile t = bFile s \<and> ignoreMissingInput t = ignoreMissingInput s"

lemma kept_trans: "kept s t \<Longrightarrow> kept t u \<Longrightarrow> kept s u"
  by (auto simp: kept_def same_outside_def)

lemma kept_refl [simp]: "kept s s"
  by (simp add: kept_def same_outside_def)

definition saved_as :: "int \<Rightarrow> buffers \<Rightarrow> byte list \<Rightarrow> 'g world \<Rightarrow> 'g world \<Rightarrow> bool" where
  "saved_as i a m s t \<longleftrightarrow> kept s t \<and>
     numberOfSavedRecords t = numberOfSavedRecords (saved_state i a m s) \<and>
     bytesPerRecord t = bytesPerRecord (saved_state i a m s)"

lemma saved_as_holds:
  "saved_as i a m s t \<Longrightarrow> holds i s a ms \<Longrightarrow> holds i t (Some (map Block (ms @ [m]))) (ms @ [m])"
  using holds_saved_state [of i s a ms m] by (simp add: saved_as_def holds_def)

lemma saved_as_others:
  "saved_as i a m s t \<Longrightarrow> j \<noteq> i \<Longrightarrow> numberOfSavedRecords t j = numberOfSavedRecords s j"
  by (simp add: saved_as_def saved_state_def)

text \<open>Missing input is ignored for a flux at the initial hour.\<close>

definition ignored :: "tiggeVariableNames \<Rightarrow> nat \<Rightarrow> int" where
  "ignored v k = (if is_flux v \<and> k = 0 then 1 else 0)"

end
