(* ===== verification/MemberRuns.thy ===== *)
theory MemberRuns
  imports Members
begin

text \<open>
  A run of the driver for any set of queued variables. The locales \<open>integrated_variable\<close> and
  \<open>instant_variable\<close> state what the driver relies on in the procedures of one variable; the
  locale \<open>tigge_variables\<close> has both contracts for all variables, and in it the hours of a member,
  the members, and the program are run.
\<close>

subsection \<open>The records of all variables\<close>

definition stored :: "tiggeVariableNames set \<Rightarrow> (tiggeVariableNames \<Rightarrow> byte list list) \<Rightarrow> (tiggeVariableNames \<Rightarrow> nat)
    \<Rightarrow> ti_buffers \<Rightarrow> 'g world \<Rightarrow> bool" where
  "stored Q ms n b s \<longleftrightarrow> (\<forall>v. integrated v \<longrightarrow>
     (if v \<in> Q then n v \<le> length (ms v) \<and> holds (vid v) s (buffer_of b v) (take (n v) (ms v))
      else numberOfSavedRecords s (vid v) = 0))"

lemma stored_cong:
  assumes "stored Q ms n b s" "\<forall>v. integrated v \<longrightarrow> n' v = n v"
    and "numberOfSavedRecords t = numberOfSavedRecords s" "bytesPerRecord t = bytesPerRecord s"
  shows "stored Q ms n' b t"
proof -
  have "holds (vid v) t = holds (vid v) s" for v by (intro ext) (simp add: holds_def assms(3,4))
  with assms(1-3) show ?thesis by (simp add: stored_def)
qed

lemma storedD:
  "stored Q ms n b s \<Longrightarrow> integrated v \<Longrightarrow> v \<in> Q \<Longrightarrow> holds (vid v) s (buffer_of b v) (take (n v) (ms v))"
  "stored Q ms n b s \<Longrightarrow> integrated v \<Longrightarrow> v \<notin> Q \<Longrightarrow> numberOfSavedRecords s (vid v) = 0"
  by (auto simp: stored_def)

lemma queued_same: "variablesToProcess t = variablesToProcess s \<Longrightarrow> queued Q t = queued Q s"
  by (simp add: queued_def)

lemma stored_save:
  assumes st: "stored Q ms n b s" and v: "v \<in> Q" "integrated v" "n v < length (ms v)"
    and sv: "saved_as (vid v) (buffer_of b v) (ms v ! n v) s t"
  shows "stored Q ms (n(v := Suc (n v))) (set_buffer v (Some (map Block (take (Suc (n v)) (ms v)))) b) t"
  unfolding stored_def
proof (intro allI impI)
  fix w assume w: "integrated w"
  show "if w \<in> Q then (n(v := Suc (n v))) w \<le> length (ms w) \<and>
      holds (vid w) t (buffer_of (set_buffer v (Some (map Block (take (Suc (n v)) (ms v)))) b) w) (take ((n(v := Suc (n v))) w) (ms w))
    else numberOfSavedRecords t (vid w) = 0"
  proof (cases "w = v")
    case True
    have "holds (vid v) s (buffer_of b v) (take (n v) (ms v))" using st v by (simp add: stored_def)
    from saved_as_holds [OF sv this] v True show ?thesis
      by (simp add: buffer_of_set take_Suc_conv_app_nth)
  next
    case False
    have "numberOfSavedRecords t (vid w) = numberOfSavedRecords s (vid w)" "bytesPerRecord t (vid w) = bytesPerRecord s (vid w)"
      using sv False by (simp_all add: saved_as_def saved_state_def)
    with st w v(2) False show ?thesis by (auto simp: stored_def holds_def buffer_of_set)
  qed
qed


subsection \<open>Generating\<close>

lemma emitted_simps [simp]:
  "variablesToProcess (emitted c fs s) = variablesToProcess s" "aFile (emitted c fs s) = aFile s"
  "bFile (emitted c fs s) = bFile s" "ignoreMissingInput (emitted c fs s) = ignoreMissingInput s"
  "numberOfSavedRecords (emitted c fs s) = numberOfSavedRecords s" "bytesPerRecord (emitted c fs s) = bytesPerRecord s"
  "output_files (emitted c fs s) = output_files s @ fs" "live_handles (emitted c fs s) = live_handles s"
  "open_outputs (emitted c fs s) = open_outputs s" "live_blocks (emitted c fs s) = live_blocks s"
  by (simp_all add: emitted_def)

lemma emitted_emitted [simp]: "emitted d gs (emitted c fs s) = emitted (c + d) (fs @ gs) s"
  by (simp add: emitted_def add.assoc)

lemma emitted_nothing [simp]: "emitted 0 [] s = s"
  by (simp add: emitted_def)

lemma queued_emitted: "queued Q (emitted c fs s) = queued Q s"
  by (rule queued_same) simp

lemma generate_each_run:
  assumes "\<And>v c fs. v \<in> set vs \<Longrightarrow> \<exists>d. gen v (emitted c fs s) =
      (Ok 0, if v \<in> Q then emitted d (files v) (emitted c fs s) else emitted c fs s)"
  shows "\<exists>c. generate_each gen vs s = (Ok 0, emitted c (concat (map files (filter (\<lambda>v. v \<in> Q) vs))) s)"
proof -
  have "\<exists>d. for_each vs (\<lambda>v _. gen v) 0 (emitted c fs s) =
      (Ok 0, emitted d (fs @ concat (map files (filter (\<lambda>v. v \<in> Q) vs))) s)" for c fs
    using assms
  proof (induction vs arbitrary: c fs)
    case Nil
    then show ?case by (auto simp: run_simps)
  next
    case (Cons v vs)
    obtain d where d: "gen v (emitted c fs s) =
        (Ok 0, if v \<in> Q then emitted (c + d) (fs @ files v) s else emitted c fs s)"
      using Cons.prems [of v c fs] by (cases "v \<in> Q") auto
    obtain e where "for_each vs (\<lambda>v _. gen v) 0 (if v \<in> Q then emitted (c + d) (fs @ files v) s else emitted c fs s) =
        (Ok 0, emitted e ((if v \<in> Q then fs @ files v else fs) @ concat (map files (filter (\<lambda>v. v \<in> Q) vs))) s)"
      using Cons.IH [of "c + d" "fs @ files v"] Cons.IH [of c fs] Cons.prems by (cases "v \<in> Q") auto
    with d show ?case by (intro exI [of _ e]) (simp add: run_simps)
  qed
  from this [of 0 "[]"] show ?thesis by (simp add: generate_each_def)
qed

subsection \<open>The contracts\<close>

text \<open>
  A time-integrated variable: its loader saves the record of an hour, its generator writes the
  files of all hours from the records.
\<close>

locale integrated_variable =
  fixes P :: "'g platform" and v :: tiggeVariableNames
    and input :: "int \<Rightarrow> int \<Rightarrow> int \<Rightarrow> (int + 'g) list \<Rightarrow> (int + 'g) list \<Rightarrow> nat \<Rightarrow> byte list \<Rightarrow> bool"
    and output_ok :: "int \<Rightarrow> int \<Rightarrow> int \<Rightarrow> int \<Rightarrow> int \<Rightarrow> byte list list \<Rightarrow> (nat \<Rightarrow> string \<times> byte list) \<Rightarrow> bool"
  assumes integrated: "integrated v"
    and load_run: "input n_lat n_lon (ignoreMissingInput s) as bs (length ms) m \<Longrightarrow>
      aFile s = Some (fresh as) \<Longrightarrow> bFile s = Some (fresh bs) \<Longrightarrow> room (vid v) s a ms \<Longrightarrow>
      \<exists>t. loader_of P v a n_lat n_lon s = (Ok (Some (map Block (ms @ [m]))), t) \<and> saved_as (vid v) a m s t"
    and generate_run: "output_ok yyyy mm dd hh em ms outs \<Longrightarrow> length ms = FORECAST_HOURS div 6 + 1 \<Longrightarrow>
      holds (vid v) s (Some (map Block ms)) ms \<Longrightarrow>
      \<exists>c. generator_of P v yyyy mm dd hh em (Some (map Block ms)) s =
        (Ok (), emitted c (map outs [0..<FORECAST_HOURS div 6 + 1]) s)"
begin

lemma load_one:
  assumes q: "queued Q s" and st: "stored Q ms n b s"
    and files: "aFile s = Some (fresh as)" "bFile s = Some (fresh bs)"
    and inp: "v \<in> Q \<Longrightarrow> n v < length (ms v) \<and> length (ms v) < SAVED_COLUMNS \<and>
      input n_lat n_lon (ignoreMissingInput s) as bs (n v) (ms v ! n v)"
  shows "\<exists>b' t. bnd (loadDataForVariable P (vid v) (buffer_of b v) n_lat n_lon) (\<lambda>a. ret (set_buffer v a b)) s = (Ok b', t) \<and>
    stored Q ms (n(v := Suc (n v))) b' t \<and> kept s t"
proof -
  note v = integrated
  show ?thesis
  proof (cases "v \<in> Q")
    case True
    with inp have i: "n v < length (ms v)" "length (ms v) < SAVED_COLUMNS"
      "input n_lat n_lon (ignoreMissingInput s) as bs (length (take (n v) (ms v))) (ms v ! n v)"
      by (auto simp: min_def)
    have "v \<noteq> TEST_VARIABLE_TI" using v by (auto simp: integrated_def)
    then have r: "room (vid v) s (buffer_of b v) (take (n v) (ms v))"
      using st True v i valid_vid by (auto simp: stored_def room_def simp del: vid.simps)
    from load_run [OF i(3) files r] obtain t where
      t: "loader_of P v (buffer_of b v) n_lat n_lon s = (Ok (Some (map Block (take (n v) (ms v) @ [ms v ! n v]))), t)"
        "saved_as (vid v) (buffer_of b v) (ms v ! n v) s t" by blast
    then have "kept s t" by (simp add: saved_as_def)
    with t stored_save [OF st True v i(1) t(2)] queued_load [OF q v, of P] i(1) True show ?thesis
      by (simp add: run_simps take_Suc_conv_app_nth)
  next
    case False
    have "stored Q ms (n(v := Suc (n v))) (set_buffer v None b) s"
      using st False v by (auto simp: stored_def buffer_of_set)
    with queued_load [OF q v, of P] False show ?thesis by (simp add: run_simps)
  qed
qed

lemma generate_one:
  assumes q: "queued Q s" and st: "stored Q ms (\<lambda>_. FORECAST_HOURS div 6 + 1) b s"
    and ok: "v \<in> Q \<Longrightarrow> length (ms v) = FORECAST_HOURS div 6 + 1 \<and> output_ok yyyy mm dd hh em (ms v) outs"
  shows "\<exists>d. generateVariable P (vid v) yyyy mm dd hh 0 em (buffer_of b v) (emitted c fs s) =
    (Ok 0, if v \<in> Q then emitted d (map outs [0..<FORECAST_HOURS div 6 + 1]) (emitted c fs s) else emitted c fs s)"
proof -
  have q: "queued Q (emitted c fs s)" using q by (simp add: queued_emitted)
  have "\<exists>d. generator_of P v yyyy mm dd hh em (buffer_of b v) (emitted c fs s) =
      (Ok (), emitted d (map outs [0..<FORECAST_HOURS div 6 + 1]) (emitted c fs s))" if Q: "v \<in> Q"
  proof -
    have m: "length (ms v) = FORECAST_HOURS div 6 + 1" "output_ok yyyy mm dd hh em (ms v) outs" using ok [OF Q] by auto
    have h: "holds (vid v) s (buffer_of b v) (ms v)" using storedD(1) [OF st integrated Q] m(1) by simp
    have "ms v \<noteq> []" using m(1) by auto
    with h have b: "buffer_of b v = Some (map Block (ms v))" by (simp add: holds_def)
    have "holds (vid v) (emitted c fs s) (Some (map Block (ms v))) (ms v)" using h b by (simp add: holds_def)
    from generate_run [OF m(2,1) this] b show ?thesis by simp
  qed
  then obtain d where "v \<in> Q \<Longrightarrow> generator_of P v yyyy mm dd hh em (buffer_of b v) (emitted c fs s) =
      (Ok (), emitted d (map outs [0..<FORECAST_HOURS div 6 + 1]) (emitted c fs s))" by blast
  from queued_generate [OF q integrated this] show ?thesis by blast
qed

end

text \<open>A variable of one hour: its generator writes one file and leaves the input files at their beginning.\<close>

locale instant_variable =
  fixes P :: "'g platform" and v :: tiggeVariableNames
    and input :: "int \<Rightarrow> int \<Rightarrow> int \<Rightarrow> int \<Rightarrow> int \<Rightarrow> int \<Rightarrow> (int + 'g) list \<Rightarrow> (int + 'g) list \<Rightarrow> string \<times> byte list \<Rightarrow> bool"
  assumes instant: "is_instant v"
    and instant_run: "input yyyy mm dd hh fff em as bs out \<Longrightarrow> aFile s = Some (fresh as) \<Longrightarrow> bFile s = Some (fresh bs) \<Longrightarrow>
      \<exists>c. instant_generator P v yyyy mm dd hh fff em s = (Ok (), emitted c [out] s)"
begin

lemma instant_one:
  assumes q: "queued Q s" and files: "aFile s = Some (fresh as)" "bFile s = Some (fresh bs)"
    and inp: "v \<in> Q \<Longrightarrow> input yyyy mm dd hh fff em as bs out"
  shows "\<exists>d. generateVariable P (vid v) yyyy mm dd hh fff em None (emitted c fs s) =
    (Ok 0, if v \<in> Q then emitted d [out] (emitted c fs s) else emitted c fs s)"
proof -
  have q: "queued Q (emitted c fs s)" using q by (simp add: queued_emitted)
  have "\<exists>d. v \<in> Q \<longrightarrow> instant_generator P v yyyy mm dd hh fff em (emitted c fs s) = (Ok (), emitted d [out] (emitted c fs s))"
    using instant_run [of yyyy mm dd hh fff em as bs out "emitted c fs s"] files inp by auto
  then obtain d where "v \<in> Q \<Longrightarrow> instant_generator P v yyyy mm dd hh fff em (emitted c fs s) = (Ok (), emitted d [out] (emitted c fs s))"
    by blast
  from queued_generate_instant [OF q instant this] show ?thesis by blast
qed

end

subsection \<open>Freeing\<close>

lemma free_each_run:
  assumes "\<And>v. v \<in> set vs \<Longrightarrow> integrated v" "distinct vs" "stored Q ms n b s"
  shows "\<exists>b' t. free_each vs b s = (Ok b', t) \<and> same_outside s t \<and>
    stored Q ms (\<lambda>v. if v \<in> set vs then 0 else n v) b' t"
  using assms
proof (induction vs arbitrary: n b s)
  case Nil
  then show ?case by (simp add: free_each_def run_simps same_outside_def)
next
  case (Cons v vs)
  let ?m = "if v \<in> Q then take (n v) (ms v) else []"
  have v: "integrated v" "v \<noteq> TEST_VARIABLE_TI" using Cons.prems(1) by (auto simp: integrated_def)
  have h: "holds (vid v) s (buffer_of b v) ?m" using storedD [OF Cons.prems(3) v(1)] by (simp add: holds_def)
  obtain a s1 where 1: "freeDataForVariable (vid v) (buffer_of b v) s = (Ok a, s1)" "same_outside s s1"
    "numberOfSavedRecords s1 = (numberOfSavedRecords s)(vid v := 0)" "bytesPerRecord s1 = bytesPerRecord s"
    using freeDataForVariable_run [OF h valid_vid [OF v(2)]] by (force simp: same_outside_def)
  have st: "stored Q ms (n(v := 0)) (set_buffer v a b) s1"
    unfolding stored_def
  proof (intro allI impI)
    fix w assume w: "integrated w"
    show "if w \<in> Q then (n(v := 0)) w \<le> length (ms w) \<and>
        holds (vid w) s1 (buffer_of (set_buffer v a b) w) (take ((n(v := 0)) w) (ms w))
      else numberOfSavedRecords s1 (vid w) = 0"
      using Cons.prems(3) w v(1) 1(3,4) by (cases "w = v") (auto simp: stored_def holds_def buffer_of_set)
  qed
  from Cons.IH [OF Cons.prems(1) _ st] Cons.prems(2) obtain b2 s2 where
    2: "free_each vs (set_buffer v a b) s1 = (Ok b2, s2)" "same_outside s1 s2"
      "stored Q ms (\<lambda>w. if w \<in> set vs then 0 else (n(v := 0)) w) b2 s2" by auto
  have "(\<lambda>w. if w \<in> set vs then 0 else (n(v := 0)) w) = (\<lambda>w. if w \<in> set (v # vs) then 0 else n w)" by auto
  with 1 2 same_outside_trans [OF 1(2) 2(2)] show ?case by (auto simp: free_each_def run_simps)
qed



lemma free_block_run: "\<exists>c. free x s = (Ok (), s\<lparr>live_blocks := c\<rparr>)"
proof (cases x)
  case None
  then show ?thesis by (auto simp: run_simps intro!: exI [of _ "live_blocks s"])
qed (auto simp: run_simps)

lemma seq_blocks:
  assumes "\<And>s. \<exists>c. m s = (Ok (), s\<lparr>live_blocks := c\<rparr>)" "\<And>s. \<exists>c. n s = (Ok (), s\<lparr>live_blocks := c\<rparr>)"
  shows "\<exists>c. seq m n s = (Ok (), s\<lparr>live_blocks := c\<rparr>)"
proof -
  obtain c where c: "m s = (Ok (), s\<lparr>live_blocks := c\<rparr>)" using assms(1) by blast
  obtain d where "n (s\<lparr>live_blocks := c\<rparr>) = (Ok (), s\<lparr>live_blocks := c\<rparr>\<lparr>live_blocks := d\<rparr>)" using assms(2) by blast
  with c show ?thesis by (auto simp: run_simps)
qed

lemma free_buffers_run: "\<exists>c. free_buffers b s = (Ok (), s\<lparr>live_blocks := c\<rparr>)"
  unfolding free_buffers_def by (intro seq_blocks free_block_run)

subsection \<open>The files of an hour and of a member\<close>

definition wrote :: "(string \<times> byte list) list \<Rightarrow> 'g world \<Rightarrow> 'g world \<Rightarrow> bool" where
  "wrote fs s t \<longleftrightarrow> variablesToProcess t = variablesToProcess s \<and> output_files t = output_files s @ fs \<and>
     live_handles t = live_handles s \<and> open_outputs t = open_outputs s"

lemma wrote_nothing: "wrote [] s t \<longleftrightarrow> same_outside s t"
  by (simp add: wrote_def same_outside_def)

lemma wrote_trans: "wrote fs s t \<Longrightarrow> wrote gs t u \<Longrightarrow> wrote (fs @ gs) s u"
  by (simp add: wrote_def)

lemma wrote_emitted [simp]: "wrote fs s (emitted c fs s)"
  by (simp add: wrote_def)

lemma queued_wrote: "wrote fs s t \<Longrightarrow> queued Q t = queued Q s"
  by (rule queued_same) (simp add: wrote_def)

definition hour_files :: "tiggeVariableNames set \<Rightarrow> (tiggeVariableNames \<Rightarrow> nat \<Rightarrow> string \<times> byte list) \<Rightarrow> nat
    \<Rightarrow> (string \<times> byte list) list" where
  "hour_files Q outs k = map (\<lambda>v. outs v k) (filter (\<lambda>v. v \<in> Q) instant_order)"

definition member_files :: "tiggeVariableNames set \<Rightarrow> (tiggeVariableNames \<Rightarrow> nat \<Rightarrow> string \<times> byte list)
    \<Rightarrow> (string \<times> byte list) list" where
  "member_files Q outs = concat (map (hour_files Q outs) [0..<FORECAST_HOURS div 6 + 1]) @
     concat (map (\<lambda>v. map (outs v) [0..<FORECAST_HOURS div 6 + 1]) (filter (\<lambda>v. v \<in> Q) integrated_order))"

lemma amount_not_flux: "is_amount v \<Longrightarrow> \<not> is_flux v"
  by auto

text \<open>The input of an hour.\<close>

definition hour_ready :: "'g platform \<Rightarrow> (tiggeVariableNames \<Rightarrow> int \<Rightarrow> int \<Rightarrow> int \<Rightarrow> (int + 'g) list \<Rightarrow> (int + 'g) list \<Rightarrow> nat \<Rightarrow> byte list \<Rightarrow> bool)
    \<Rightarrow> (tiggeVariableNames \<Rightarrow> int \<Rightarrow> int \<Rightarrow> int \<Rightarrow> int \<Rightarrow> int \<Rightarrow> int \<Rightarrow> (int + 'g) list \<Rightarrow> (int + 'g) list \<Rightarrow> string \<times> byte list \<Rightarrow> bool)
    \<Rightarrow> tiggeVariableNames set \<Rightarrow> int \<Rightarrow> int \<Rightarrow> int \<Rightarrow> int \<Rightarrow> int \<Rightarrow> (tiggeVariableNames \<Rightarrow> byte list list)
    \<Rightarrow> (tiggeVariableNames \<Rightarrow> nat \<Rightarrow> string \<times> byte list) \<Rightarrow> nat \<Rightarrow> bool" where
  "hour_ready P input inst Q yyyy mm dd hh em ms outs k \<longleftrightarrow>
     (\<exists>as bs. input_hour P yyyy mm dd hh em (6 * int k) as bs \<and>
       (\<forall>v. v \<in> Q \<longrightarrow> integrated v \<longrightarrow>
          input v (get_n_lat yyyy mm dd hh) (get_n_lon yyyy mm dd hh) (ignored v k) as bs k (ms v ! k)) \<and>
       (\<forall>v. v \<in> Q \<longrightarrow> is_instant v \<longrightarrow> inst v yyyy mm dd hh (6 * int k) em as bs (outs v k)))"

subsection \<open>The runs\<close>

text \<open>All variables.\<close>

locale tigge_variables =
  fixes P :: "'g platform"
    and input :: "tiggeVariableNames \<Rightarrow> int \<Rightarrow> int \<Rightarrow> int \<Rightarrow> (int + 'g) list \<Rightarrow> (int + 'g) list \<Rightarrow> nat \<Rightarrow> byte list \<Rightarrow> bool"
    and out :: "tiggeVariableNames \<Rightarrow> int \<Rightarrow> int \<Rightarrow> int \<Rightarrow> int \<Rightarrow> int \<Rightarrow> byte list list \<Rightarrow> (nat \<Rightarrow> string \<times> byte list) \<Rightarrow> bool"
    and inst :: "tiggeVariableNames \<Rightarrow> int \<Rightarrow> int \<Rightarrow> int \<Rightarrow> int \<Rightarrow> int \<Rightarrow> int \<Rightarrow> (int + 'g) list \<Rightarrow> (int + 'g) list \<Rightarrow> string \<times> byte list \<Rightarrow> bool"
  assumes integrated_contract: "integrated v \<Longrightarrow> integrated_variable P v (input v) (out v)"
    and instant_contract: "is_instant v \<Longrightarrow> instant_variable P v (inst v)"
begin

lemma load_each_run:
  assumes "\<And>v. v \<in> set vs \<Longrightarrow> integrated v" "distinct vs" "queued Q s" "stored Q ms n b s"
    and "aFile s = Some (fresh as)" "bFile s = Some (fresh bs)"
    and "\<And>v. v \<in> set vs \<Longrightarrow> v \<in> Q \<Longrightarrow> n v < length (ms v) \<and> length (ms v) < SAVED_COLUMNS \<and>
      input v n_lat n_lon (ignoreMissingInput s) as bs (n v) (ms v ! n v)"
  shows "\<exists>b' t. load_each P n_lat n_lon vs b s = (Ok b', t) \<and>
    stored Q ms (\<lambda>v. if v \<in> set vs then Suc (n v) else n v) b' t \<and> kept s t"
  using assms
proof (induction vs arbitrary: n b s)
  case Nil
  then show ?case by (simp add: load_each_def run_simps)
next
  case (Cons v vs)
  let ?n = "n(v := Suc (n v))"
  obtain b1 s1 where 1: "bnd (loadDataForVariable P (vid v) (buffer_of b v) n_lat n_lon) (\<lambda>a. ret (set_buffer v a b)) s = (Ok b1, s1)"
    "stored Q ms ?n b1 s1" "kept s s1"
    using integrated_variable.load_one [OF integrated_contract Cons.prems(3-6)] Cons.prems(1,7) by force
  have k: "queued Q s1" "aFile s1 = Some (fresh as)" "bFile s1 = Some (fresh bs)"
    "ignoreMissingInput s1 = ignoreMissingInput s"
    using 1(3) Cons.prems queued_same [of s1 s Q] by (simp_all add: kept_def same_outside_def)
  obtain b2 s2 where 2: "load_each P n_lat n_lon vs b1 s1 = (Ok b2, s2)"
    "stored Q ms (\<lambda>w. if w \<in> set vs then Suc (?n w) else ?n w) b2 s2" "kept s1 s2"
    using Cons.IH [OF Cons.prems(1) _ k(1) 1(2) k(2,3)] Cons.prems(2,7) k(4) by fastforce
  have "(\<lambda>w. if w \<in> set vs then Suc (?n w) else ?n w) = (\<lambda>w. if w \<in> set (v # vs) then Suc (n w) else n w)"
    using Cons.prems(2) by auto
  with 1 2 kept_trans [OF 1(3) 2(3)] show ?case by (auto simp: load_each_def bnd_run)
qed


lemma instants_run:
  assumes "queued Q s" "aFile s = Some (fresh as)" "bFile s = Some (fresh bs)"
    and "\<And>v. v \<in> Q \<Longrightarrow> is_instant v \<Longrightarrow> inst v yyyy mm dd hh fff em as bs (outs v)"
  shows "\<exists>c. generate_instant P yyyy mm dd hh fff em s =
    (Ok 0, emitted c (map outs (filter (\<lambda>v. v \<in> Q) instant_order)) s)"
proof -
  have "\<exists>d. generateVariable P (vid v) yyyy mm dd hh fff em None (emitted c fs s) =
      (Ok 0, if v \<in> Q then emitted d [outs v] (emitted c fs s) else emitted c fs s)" if "v \<in> set instant_order" for v c fs
    using that orders(2) assms by (intro instant_variable.instant_one [OF instant_contract]) auto
  from generate_each_run [where files = "\<lambda>v. [outs v]" and Q = Q, OF this] show ?thesis
    by (simp add: generate_instant_each)
qed

lemma integrated_run:
  assumes "queued Q s" "stored Q ms (\<lambda>_. FORECAST_HOURS div 6 + 1) b s"
    and "\<And>v. v \<in> Q \<Longrightarrow> integrated v \<Longrightarrow> length (ms v) = FORECAST_HOURS div 6 + 1 \<and> out v yyyy mm dd hh em (ms v) (outs v)"
  shows "\<exists>c. generate_integrated P yyyy mm dd hh em b s =
    (Ok 0, emitted c (concat (map (\<lambda>v. map (outs v) [0..<FORECAST_HOURS div 6 + 1]) (filter (\<lambda>v. v \<in> Q) integrated_order))) s)"
proof -
  have "\<exists>d. generateVariable P (vid v) yyyy mm dd hh 0 em (buffer_of b v) (emitted c fs s) =
      (Ok 0, if v \<in> Q then emitted d (map (outs v) [0..<FORECAST_HOURS div 6 + 1]) (emitted c fs s) else emitted c fs s)"
    if "v \<in> set integrated_order" for v c fs
    using that orders(4) assms(3) by (intro integrated_variable.generate_one [OF integrated_contract assms(1,2)]) auto
  from generate_each_run [where files = "\<lambda>v. map (outs v) [0..<FORECAST_HOURS div 6 + 1]" and Q = Q, OF this]
  show ?thesis by (simp add: generate_integrated_each)
qed

lemma hour_step_each:
  assumes q: "queued Q s" and st: "stored Q ms (\<lambda>_. k) b s"
    and len: "\<And>v. v \<in> Q \<Longrightarrow> integrated v \<Longrightarrow> length (ms v) = FORECAST_HOURS div 6 + 1" and k: "k < FORECAST_HOURS div 6 + 1"
    and files: "input_hour P yyyy mm dd hh em (6 * int k) as bs"
    and inp: "\<And>v. v \<in> Q \<Longrightarrow> integrated v \<Longrightarrow>
      input v (get_n_lat yyyy mm dd hh) (get_n_lon yyyy mm dd hh) (ignored v k) as bs k (ms v ! k)"
    and now: "\<And>v. v \<in> Q \<Longrightarrow> is_instant v \<Longrightarrow> inst v yyyy mm dd hh (6 * int k) em as bs (outs v k)"
  shows "\<exists>b' t. hour_step P yyyy mm dd hh em (6 * int k) b s = (Ok (Inr b'), t) \<and> stored Q ms (\<lambda>_. Suc k) b' t \<and>
    wrote (hour_files Q outs k) s t"
proof -
  define i where "i = (if k = 0 then 1 else 0 :: int)"
  define s1 where "s1 = s\<lparr>ignoreMissingInput := i, aFile := Some (fresh as), bFile := Some (fresh bs)\<rparr>"
  let ?lat = "get_n_lat yyyy mm dd hh" and ?lon = "get_n_lon yyyy mm dd hh"
  have set_ign: "set_ignore (6 * int k) s = (Ok (), s\<lparr>ignoreMissingInput := i\<rparr>)"
    by (simp add: set_ignore_def run_simps i_def)
  have opened: "open_inputs P yyyy mm dd hh (6 * int k) em (s\<lparr>ignoreMissingInput := i\<rparr>) = (Ok True, s1)"
    using open_inputs_run [OF files] by (simp add: s1_def)
  have s1: "wrote [] s s1" "stored Q ms (\<lambda>_. k) b s1" "aFile s1 = Some (fresh as)" "bFile s1 = Some (fresh bs)"
    using stored_cong [OF st, of "\<lambda>_. k" s1] by (simp_all add: s1_def wrote_def)
  have room: "k < length (ms v) \<and> length (ms v) < SAVED_COLUMNS" if "v \<in> Q" "integrated v" for v
    using len [OF that] k by (simp add: SAVED_COLUMNS_def)
  have fl: "ignored v k = ignoreMissingInput s1" if "is_flux v" for v
    using that by (simp add: s1_def ignored_def i_def)
  have i1: "integrated v" "is_flux v" "v \<in> Q \<Longrightarrow> input v ?lat ?lon (ignoreMissingInput s1) as bs k (ms v ! k)"
    if "v \<in> set flux_order" for v
    using that orders(1) inp [of v] fl [of v] by (simp_all add: integrated_def del: is_flux.simps is_amount.simps)
  have "\<exists>b' t. load_each P ?lat ?lon flux_order b s1 = (Ok b', t) \<and>
      stored Q ms (\<lambda>v. if v \<in> set flux_order then Suc k else k) b' t \<and> kept s1 t"
  proof (rule load_each_run [OF _ orders(6) _ s1(2,3,4)])
    show "queued Q s1" using q queued_wrote [OF s1(1)] by blast
    show "k < length (ms v) \<and> length (ms v) < SAVED_COLUMNS \<and> input v ?lat ?lon (ignoreMissingInput s1) as bs k (ms v ! k)"
      if "v \<in> set flux_order" "v \<in> Q" for v
      using room [OF that(2) i1(1) [OF that(1)]] i1(3) [OF that] by blast
  qed (rule i1(1))
  then obtain b2 s2 where 2: "load_each P ?lat ?lon flux_order b s1 = (Ok b2, s2)"
    "stored Q ms (\<lambda>v. if v \<in> set flux_order then Suc k else k) b2 s2" "kept s1 s2" by blast
  define s3 where "s3 = s2\<lparr>ignoreMissingInput := 0\<rparr>"
  have s3: "wrote [] s s3" "aFile s3 = Some (fresh as)" "bFile s3 = Some (fresh bs)" "ignoreMissingInput s3 = 0"
    using 2(3) s1 by (simp_all add: s3_def kept_def wrote_def same_outside_def)
  have "\<exists>c. generate_instant P yyyy mm dd hh (6 * int k) em s3 =
      (Ok 0, emitted c (map (\<lambda>v. outs v k) (filter (\<lambda>v. v \<in> Q) instant_order)) s3)"
  proof (rule instants_run [OF _ s3(2,3) now])
    show "queued Q s3" using q queued_wrote [OF s3(1)] by blast
  qed
  then obtain c where 4: "generate_instant P yyyy mm dd hh (6 * int k) em s3 = (Ok 0, emitted c (hour_files Q outs k) s3)"
    by (auto simp: hour_files_def)
  define s4 where "s4 = emitted c (hour_files Q outs k) s3"
  have w4: "wrote (hour_files Q outs k) s s4" using wrote_trans [OF s3(1)] by (simp add: s4_def)
  have st4: "stored Q ms (\<lambda>v. if v \<in> set flux_order then Suc k else k) b2 s4"
    by (rule stored_cong [OF 2(2)]) (simp_all add: s4_def s3_def)
  let ?n = "\<lambda>v. if v \<in> set flux_order then Suc k else k"
  have i4: "integrated v" "?n v = k" "v \<in> Q \<Longrightarrow> input v ?lat ?lon (ignoreMissingInput s4) as bs k (ms v ! k)"
    if "v \<in> set amount_order" for v
  proof -
    have a: "is_amount v" using that orders(3) by blast
    then have f: "\<not> is_flux v" by (rule amount_not_flux)
    then show "integrated v" "?n v = k" using a orders(1) by (simp_all add: integrated_def del: is_flux.simps is_amount.simps)
    then show "v \<in> Q \<Longrightarrow> input v ?lat ?lon (ignoreMissingInput s4) as bs k (ms v ! k)"
      using inp [of v] f s3(4) by (simp add: s4_def ignored_def del: is_flux.simps)
  qed
  have "\<exists>b' t. load_each P ?lat ?lon amount_order b2 s4 = (Ok b', t) \<and>
      stored Q ms (\<lambda>v. if v \<in> set amount_order then Suc (?n v) else ?n v) b' t \<and> kept s4 t"
  proof (rule load_each_run [OF _ orders(7) _ st4])
    show "queued Q s4" using q queued_wrote [OF w4] by blast
    show "aFile s4 = Some (fresh as)" "bFile s4 = Some (fresh bs)" using s3 by (simp_all add: s4_def)
    show "?n v < length (ms v) \<and> length (ms v) < SAVED_COLUMNS \<and> input v ?lat ?lon (ignoreMissingInput s4) as bs (?n v) (ms v ! ?n v)"
      if "v \<in> set amount_order" "v \<in> Q" for v
      using room [OF that(2) i4(1) [OF that(1)]] i4(3) [OF that] unfolding i4(2) [OF that(1)] by blast
  qed (rule i4(1))
  then obtain b5 s5 where 5: "load_each P ?lat ?lon amount_order b2 s4 = (Ok b5, s5)"
    "stored Q ms (\<lambda>v. if v \<in> set amount_order then Suc (?n v) else ?n v) b5 s5" "kept s4 s5" by blast
  let ?t = "s5\<lparr>aFile := None, bFile := None\<rparr>"
  have "stored Q ms (\<lambda>_. Suc k) b5 ?t"
    by (rule stored_cong [OF 5(2)]) (use amount_not_flux orders(1,3) in \<open>auto simp: integrated_def simp del: is_amount.simps is_flux.simps\<close>)
  moreover have "wrote (hour_files Q outs k) s ?t"
    using w4 5(3) by (simp add: wrote_def kept_def same_outside_def)
  moreover have "hour_step P yyyy mm dd hh em (6 * int k) b s = (Ok (Inr b5), ?t)"
    using 2(1) 4 5(1)
    by (simp add: hour_step_def Let_def run_simps set_ign opened load_fluxes_each load_amounts_each
        close_inputs_def s3_def s4_def)
  ultimately show ?thesis by blast
qed


lemma member_step_each:
  assumes q: "queued Q s" and st: "stored Q ms (\<lambda>_. 0) b s"
    and ok: "\<And>v. v \<in> Q \<Longrightarrow> integrated v \<Longrightarrow> length (ms v) = FORECAST_HOURS div 6 + 1 \<and> out v yyyy mm dd hh em (ms v) (outs v)"
    and hours: "\<And>k. k < FORECAST_HOURS div 6 + 1 \<Longrightarrow> hour_ready P input inst Q yyyy mm dd hh em ms outs k"
  shows "\<exists>b' t. member_step P yyyy mm dd hh em b s = (Ok (Inr b'), t) \<and> stored Q ms (\<lambda>_. 0) b' t \<and>
    wrote (member_files Q outs) s t"
proof -
  let ?n = "FORECAST_HOURS div 6 + 1"
  let ?I = "\<lambda>k c t. stored Q ms (\<lambda>_. k) c t \<and> wrote (concat (map (hour_files Q outs) [0..<k])) s t"
  have "\<exists>c t. for_return (map (\<lambda>k. 6 * int k) [0..<?n]) (hour_step P yyyy mm dd hh em) b s = (Ok (Inr c), t) \<and> ?I ?n c t"
  proof (rule for_return_upt_inv [where I = ?I])
    show "?I 0 b s" using st by (simp add: wrote_def)
  next
    fix k c and t :: "'g world"
    assume k: "k < ?n" and I: "?I k c t"
    from hours [OF k] obtain as bs where files: "input_hour P yyyy mm dd hh em (6 * int k) as bs"
      and inp: "\<And>v. v \<in> Q \<Longrightarrow> integrated v \<Longrightarrow>
        input v (get_n_lat yyyy mm dd hh) (get_n_lon yyyy mm dd hh) (ignored v k) as bs k (ms v ! k)"
      and now: "\<And>v. v \<in> Q \<Longrightarrow> is_instant v \<Longrightarrow> inst v yyyy mm dd hh (6 * int k) em as bs (outs v k)"
      by (auto simp: hour_ready_def)
    have qt: "queued Q t" using q queued_wrote [OF conjunct2 [OF I]] by blast
    have len: "length (ms v) = ?n" if "v \<in> Q" "integrated v" for v using ok [OF that] by blast
    have "\<exists>c' u. hour_step P yyyy mm dd hh em (6 * int k) c t = (Ok (Inr c'), u) \<and> stored Q ms (\<lambda>_. Suc k) c' u \<and>
        wrote (hour_files Q outs k) t u"
      by (rule hour_step_each [OF qt conjunct1 [OF I] _ k files])
        (use len inp now in blast)+
    then obtain c' u where "hour_step P yyyy mm dd hh em (6 * int k) c t = (Ok (Inr c'), u)" "stored Q ms (\<lambda>_. Suc k) c' u"
      "wrote (hour_files Q outs k) t u" by blast
    with wrote_trans [OF conjunct2 [OF I], of _ u]
    show "\<exists>c' u. hour_step P yyyy mm dd hh em (6 * int k) c t = (Ok (Inr c'), u) \<and> ?I (Suc k) c' u" by auto
  qed
  then obtain c t where 1: "for_return forecast_hours (hour_step P yyyy mm dd hh em) b s = (Ok (Inr c), t)"
    "stored Q ms (\<lambda>_. ?n) c t" "wrote (concat (map (hour_files Q outs) [0..<?n])) s t"
    by (auto simp: forecast_hours_def)
  have qt: "queued Q t" using q queued_wrote [OF 1(3)] by blast
  define gs where "gs = concat (map (\<lambda>v. map (outs v) [0..<?n]) (filter (\<lambda>v. v \<in> Q) integrated_order))"
  obtain d where 2: "generate_integrated P yyyy mm dd hh em c t = (Ok 0, emitted d gs t)"
    using integrated_run [OF qt 1(2) ok] by (auto simp: gs_def)
  have "stored Q ms (\<lambda>_. ?n) c (emitted d gs t)" by (rule stored_cong [OF 1(2)]) simp_all
  from free_each_run [OF _ orders(9) this] orders(5) obtain b' u where
    3: "free_records c (emitted d gs t) = (Ok b', u)" "same_outside (emitted d gs t) u"
      "stored Q ms (\<lambda>v. if v \<in> set free_order then 0 else ?n) b' u"
    by (auto simp: free_records_each)
  have "stored Q ms (\<lambda>_. 0) b' u" by (rule stored_cong [OF 3(3)]) (use orders(5) in simp_all)
  moreover have "wrote (member_files Q outs) s u"
    using wrote_trans [OF wrote_trans [OF 1(3) wrote_emitted] 3(2) [folded wrote_nothing]] by (simp add: member_files_def gs_def)
  moreover have "member_step P yyyy mm dd hh em b s = (Ok (Inr b'), u)"
    using 1(1) 2 3(1) by (simp add: member_step_def run_simps)
  ultimately show ?thesis by blast
qed

lemma main_each:
  assumes args: "parse_arguments args (s\<lparr>ignoreMissingInput := 0\<rparr>) = (Ok (Some (yyyy, mm, dd, hh)), s1)"
      "queued Q s1" "output_files s1 = output_files s" "live_handles s1 = live_handles s"
      "open_outputs s1 = open_outputs s" "\<And>v. integrated v \<Longrightarrow> numberOfSavedRecords s1 (vid v) = 0"
    and ok: "\<And>em v. em < nat (get_n_members yyyy mm dd hh) \<Longrightarrow> v \<in> Q \<Longrightarrow> integrated v \<Longrightarrow>
      length (ms em v) = FORECAST_HOURS div 6 + 1 \<and> out v yyyy mm dd hh (int em) (ms em v) (outs em v)"
    and hours: "\<And>em k. em < nat (get_n_members yyyy mm dd hh) \<Longrightarrow> k < FORECAST_HOURS div 6 + 1 \<Longrightarrow>
      hour_ready P input inst Q yyyy mm dd hh (int em) (ms em) (outs em) k"
  shows "\<exists>t. main P args s = (Ok 0, t) \<and>
    output_files t = output_files s @ concat (map (\<lambda>em. member_files Q (outs em)) [0..<nat (get_n_members yyyy mm dd hh)]) \<and>
    live_handles t = live_handles s \<and> open_outputs t = open_outputs s"
proof -
  define n where "n = nat (get_n_members yyyy mm dd hh)"
  have none: "stored Q ns (\<lambda>_. 0) b t \<longleftrightarrow> (\<forall>v. integrated v \<longrightarrow> numberOfSavedRecords t (vid v) = 0)"
    for ns b and t :: "'g world"
    by (auto simp: stored_def holds_def)
  let ?I = "\<lambda>k b t. stored Q (ms k) (\<lambda>_. 0) b t \<and> wrote (concat (map (\<lambda>em. member_files Q (outs em)) [0..<k])) s1 t"
  have "\<exists>b t. for_return (map int [0..<n]) (member_step P yyyy mm dd hh) no_buffers s1 = (Ok (Inr b), t) \<and> ?I n b t"
  proof (rule for_return_upt_inv [where I = ?I])
    show "?I 0 no_buffers s1" using args(6) by (simp add: none wrote_def)
  next
    fix em b and t :: "'g world"
    assume em: "em < n" and I: "?I em b t"
    have qt: "queued Q t" using args(2) queued_wrote [OF conjunct2 [OF I]] by blast
    have "\<exists>b' u. member_step P yyyy mm dd hh (int em) b t = (Ok (Inr b'), u) \<and> stored Q (ms em) (\<lambda>_. 0) b' u \<and>
        wrote (member_files Q (outs em)) t u"
      by (rule member_step_each [OF qt conjunct1 [OF I]])
        (use ok hours em in \<open>auto simp: n_def\<close>)
    then obtain b' u where "member_step P yyyy mm dd hh (int em) b t = (Ok (Inr b'), u)" "stored Q (ms em) (\<lambda>_. 0) b' u"
      "wrote (member_files Q (outs em)) t u" by blast
    with wrote_trans [OF conjunct2 [OF I], of _ u]
    show "\<exists>b' u. member_step P yyyy mm dd hh (int em) b t = (Ok (Inr b'), u) \<and> ?I (Suc em) b' u" by (auto simp: none)
  qed
  then obtain b t where r: "for_return (map int [0..<n]) (member_step P yyyy mm dd hh) no_buffers s1 = (Ok (Inr b), t)"
    "?I n b t" by blast
  obtain c where f: "free_buffers b t = (Ok (), t\<lparr>live_blocks := c\<rparr>)" using free_buffers_run by blast
  have "main P args s = (Ok 0, t\<lparr>live_blocks := c\<rparr>)"
    using args(1) r(1) f by (simp add: main_def run_simps n_def)
  with r(2) args(3-5) show ?thesis by (auto simp: n_def wrote_def)
qed

end

end
