(* ===== verification/MemberInstances.thy ===== *)
theory MemberInstances
  imports MemberRuns
begin

text \<open>
  The contracts of \<open>MemberRuns\<close>, discharged for the seven time-integrated variables (which input
  an hour needs, and what the records of a member must be for the generator to write all hours)
  and for the five variables of one hour (which records the two files of the hour must have).
\<close>

subsection \<open>What an hour needs\<close>

text \<open>The record of a flux: it is in the files, or it is missing, that is ignored, and a blank one is built.\<close>

definition flux_input :: "'g platform \<Rightarrow> int \<Rightarrow> int \<Rightarrow> int \<Rightarrow> int \<Rightarrow> int \<Rightarrow> int \<Rightarrow> int
    \<Rightarrow> (int + 'g) list \<Rightarrow> (int + 'g) list \<Rightarrow> nat \<Rightarrow> byte list \<Rightarrow> bool" where
  "flux_input P d c n l n_lat n_lon ignore as bs k m \<longleftrightarrow> allocs_succeed P \<and> (\<exists>g. saves P g m \<and>
     (first_hit (says4 (grib P) (wanted_record d c n l)) False True (ab_records (fresh as) (fresh bs)) g \<or>
      ignore \<noteq> 0 \<and> all_readable as \<and> all_readable bs \<and>
      no_hit (says4 (grib P) (wanted_record d c n l)) False (ab_records (fresh as) (fresh bs)) \<and>
      blank_record P d c n l n_lat n_lon g \<and> says4 (grib P) (wanted_record d c n l) g True))"

text \<open>Both radiations are in the files; the record is their difference.\<close>

definition radiation_input :: "'g platform \<Rightarrow> int \<Rightarrow> int \<Rightarrow> int \<Rightarrow> int
    \<Rightarrow> (int + 'g) list \<Rightarrow> (int + 'g) list \<Rightarrow> nat \<Rightarrow> byte list \<Rightarrow> bool" where
  "radiation_input P category n_lat n_lon ignore as bs k m \<longleftrightarrow> allocs_succeed P \<and> (\<exists>g1 v1 g2 v2 down up us vs.
     first_two (says4 (grib P) (is_radiation category)) (ab_records (fresh as) (fresh bs)) g1 v1 g2 v2 \<and>
     net_pair v1 v2 g1 g2 down up \<and>
     api_get_doubles (grib P) down ''values'' = Inr us \<and> api_get_doubles (grib P) up ''values'' = Inr vs \<and>
     int (length us) = n_lat * n_lon \<and> int (length vs) = n_lat * n_lon \<and>
     temporary_record P (net_radiation_base n_lat n_lon) (map2 dsub us vs) m)"

text \<open>Zeros at the initial hour, then the record of the precipitation.\<close>

definition precipitation_input :: "'g platform \<Rightarrow> int \<Rightarrow> int \<Rightarrow> int
    \<Rightarrow> (int + 'g) list \<Rightarrow> (int + 'g) list \<Rightarrow> nat \<Rightarrow> byte list \<Rightarrow> bool" where
  "precipitation_input P n_lat n_lon ignore as bs k m \<longleftrightarrow> allocs_succeed P \<and>
     (if k = 0 then m = replicate (nat (n_lat * n_lon)) 0
      else \<exists>g. first_hit (says4 (grib P) is_precipitation) False True (readable as) g \<and> saves P g m)"

text \<open>Rain and the snow mask are in the first file, or one of them is missing and the field is 0.\<close>

definition snow_input :: "'g platform \<Rightarrow> int \<Rightarrow> int \<Rightarrow> int
    \<Rightarrow> (int + 'g) list \<Rightarrow> (int + 'g) list \<Rightarrow> nat \<Rightarrow> byte list \<Rightarrow> bool" where
  "snow_input P n_lat n_lon ignore as bs k m \<longleftrightarrow> allocs_succeed P \<and> (\<exists>xs r q n b.
     list_all (is_precip_kind P) xs \<and>
     snow_scan (None, None, nat (n_lat * n_lon), 0) xs = (r, q, n, b) \<and>
     (case (r, q) of
        (Some rs, Some qs) \<Rightarrow> readable as = map fst xs \<and> n = length rs \<and> length qs = length rs \<and>
          temporary_record P (snow_base n_lat n_lon) (map2 snow_where_snowing qs rs) m
      | _ \<Rightarrow> as = map (Inr \<circ> fst) xs \<and> xs \<noteq> [] \<and>
          temporary_record P (snow_base n_lat n_lon) (replicate n (Fin 0)) m))"

subsection \<open>What the generators need\<close>

definition records_ok :: "'g platform \<Rightarrow> tiggeVariableNames \<Rightarrow> (dt \<Rightarrow> int \<Rightarrow> setting list)
    \<Rightarrow> (int \<Rightarrow> cdouble \<Rightarrow> cdouble \<Rightarrow> cdouble \<times> cdouble) \<Rightarrow> int \<Rightarrow> int \<Rightarrow> int \<Rightarrow> int \<Rightarrow> int
    \<Rightarrow> byte list list \<Rightarrow> (nat \<Rightarrow> string \<times> byte list) \<Rightarrow> bool" where
  "records_ok P v settings point yyyy mm dd hh em ms outs \<longleftrightarrow> allocs_succeed P \<and> (\<exists>vals.
     \<forall>k < FORECAST_HOURS div 6 + 1.
       ms ! k \<noteq> [] \<and> record_gives P (ms ! k) (vals k) \<and> length (vals k) = nat (get_n_points yyyy mm dd hh) \<and>
       (\<exists>tmEnd. timeAdd \<lparr>yr = yyyy, mo = mm, dy = dd, hr = hh, mn = 0\<rparr> (hours_offset (6 * int k)) = Some tmEnd \<and>
          hour_output P v (settings tmEnd (6 * int k)) yyyy mm dd hh em (6 * int k)
            (hour_field point vals (nat (get_n_points yyyy mm dd hh)) k) (outs k)))"

definition precipitation_ok :: "'g platform \<Rightarrow> int \<Rightarrow> int \<Rightarrow> int \<Rightarrow> int \<Rightarrow> int
    \<Rightarrow> byte list list \<Rightarrow> (nat \<Rightarrow> string \<times> byte list) \<Rightarrow> bool" where
  "precipitation_ok P yyyy mm dd hh em ms outs \<longleftrightarrow> allocs_succeed P \<and> (\<exists>vals.
     vals 0 = replicate (nat (get_n_points yyyy mm dd hh)) (Fin 0) \<and>
     (\<forall>k < FORECAST_HOURS div 6 + 1.
       (k \<noteq> 0 \<longrightarrow> record_gives P (ms ! k) (vals k)) \<and> length (vals k) = nat (get_n_points yyyy mm dd hh) \<and>
       hour_output P TOTAL_PRECIPITATION (total_precipitation_settings yyyy mm dd hh (6 * int k))
         yyyy mm dd hh em (6 * int k)
         (hour_field precipitation_point vals (nat (get_n_points yyyy mm dd hh)) k) (outs k)))"

lemma records_ok_ready:
  assumes "records_ok P v settings point yyyy mm dd hh em ms outs" "length ms = FORECAST_HOURS div 6 + 1"
    and "v \<noteq> TEST_VARIABLE_TI" "holds (vid v) s (Some (map Block ms)) ms"
  shows "\<exists>vals. hours_ready P v settings point yyyy mm dd hh em (Some (map Block ms)) ms vals outs s"
  using assms valid_vid by (auto simp: records_ok_def hours_ready_def resource_ready_def simp del: vid.simps)

lemma precipitation_ok_ready:
  assumes "precipitation_ok P yyyy mm dd hh em ms outs" "length ms = FORECAST_HOURS div 6 + 1"
    and "holds (vid TOTAL_PRECIPITATION) s (Some (map Block ms)) ms"
  shows "\<exists>vals. precipitation_ready P yyyy mm dd hh em (Some (map Block ms)) ms vals outs s"
  using assms valid_vid by (auto simp: precipitation_ok_def precipitation_ready_def resource_ready_def simp del: vid.simps)

subsection \<open>Loading\<close>

lemma fresh_simps [simp]:
  "file_items (fresh xs) = xs" "file_pos (fresh xs) = 0" "\<not> file_eof (fresh xs)"
  by (simp_all add: fresh_def)

lemma rewound_fresh [simp]: "rewound (fresh xs) = fresh xs"
  by (simp add: rewound_def fresh_def)

lemma loadFlux_contract:
  assumes inp: "flux_input P d c n l n_lat n_lon (ignoreMissingInput s) as bs (length ms) m"
    and files: "aFile s = Some (fresh as)" "bFile s = Some (fresh bs)" and room: "room (vid v) s a ms"
  shows "\<exists>t. loadFlux P v d c n l a n_lat n_lon s = (Ok (Some (map Block (ms @ [m]))), t) \<and> saved_as (vid v) a m s t"
proof -
  from inp obtain g where mem: "allocs_succeed P" and sv: "saves P g m" and
    c: "first_hit (says4 (grib P) (wanted_record d c n l)) False True (ab_records (fresh as) (fresh bs)) g \<or>
      ignoreMissingInput s \<noteq> 0 \<and> all_readable as \<and> all_readable bs \<and>
      no_hit (says4 (grib P) (wanted_record d c n l)) False (ab_records (fresh as) (fresh bs)) \<and>
      blank_record P d c n l n_lat n_lon g \<and> says4 (grib P) (wanted_record d c n l) g True"
    by (auto simp: flux_input_def)
  from c show ?thesis
  proof
    assume "first_hit (says4 (grib P) (wanted_record d c n l)) False True (ab_records (fresh as) (fresh bs)) g"
    from loadFlux_run [OF files mem room this sv, of n_lat n_lon] show ?thesis
      by (auto simp: saved_as_def kept_def same_outside_def saved_state_def files simp del: vid.simps)
  next
    assume b: "ignoreMissingInput s \<noteq> 0 \<and> all_readable as \<and> all_readable bs \<and>
      no_hit (says4 (grib P) (wanted_record d c n l)) False (ab_records (fresh as) (fresh bs)) \<and>
      blank_record P d c n l n_lat n_lon g \<and> says4 (grib P) (wanted_record d c n l) g True"
    then have "loadFlux P v d c n l a n_lat n_lon s = (Ok (Some (map Block (ms @ [m]))),
      saved_state (vid v) a m (s\<lparr>aFile := Some (rewound (fresh as)), bFile := Some (rewound (fresh bs)),
        allocations := allocations s + 1\<rparr>))"
      by (intro loadFlux_blank [OF files mem room, where g = g]) (simp_all add: sv)
    then show ?thesis by (auto simp: saved_as_def kept_def same_outside_def saved_state_def files simp del: vid.simps)
  qed
qed

lemma loadNetRadiation_contract:
  assumes inp: "radiation_input P category n_lat n_lon (ignoreMissingInput s) as bs (length ms) m"
    and files: "aFile s = Some (fresh as)" "bFile s = Some (fresh bs)" and room: "room (vid v) s a ms"
  shows "\<exists>t. loadNetRadiation P v category a n_lat n_lon s = (Ok (Some (map Block (ms @ [m]))), t) \<and>
    saved_as (vid v) a m s t"
proof -
  from inp obtain g1 v1 g2 v2 down up us vs where mem: "allocs_succeed P" and
    h: "first_two (says4 (grib P) (is_radiation category)) (ab_records (fresh as) (fresh bs)) g1 v1 g2 v2"
     "net_pair v1 v2 g1 g2 down up"
     "api_get_doubles (grib P) down ''values'' = Inr us" "api_get_doubles (grib P) up ''values'' = Inr vs"
     "int (length us) = n_lat * n_lon" "int (length vs) = n_lat * n_lon"
     "temporary_record P (net_radiation_base n_lat n_lon) (map2 dsub us vs) m"
    unfolding radiation_input_def by blast
  from loadNetRadiation_run [OF files mem room h] show ?thesis
    by (auto simp: saved_as_def kept_def same_outside_def saved_state_def files simp del: vid.simps)
qed

lemma loadDataForTotalPrecipitation_contract:
  assumes inp: "precipitation_input P n_lat n_lon (ignoreMissingInput s) as bs (length ms) m"
    and files: "aFile s = Some (fresh as)" and room: "room (vid TOTAL_PRECIPITATION) s a ms"
  shows "\<exists>t. loadDataForTotalPrecipitation P a n_lat n_lon s = (Ok (Some (map Block (ms @ [m]))), t) \<and>
    saved_as (vid TOTAL_PRECIPITATION) a m s t"
proof (cases "ms = []")
  case True
  with inp room loadDataForTotalPrecipitation_first [OF files, of P a n_lat n_lon] show ?thesis
    by (auto simp: precipitation_input_def saved_as_def kept_def same_outside_def saved_state_def files simp del: vid.simps)
next
  case False
  with inp obtain g where g: "allocs_succeed P"
    "first_hit (says4 (grib P) is_precipitation) False True (readable as) g" "saves P g m"
    by (auto simp: precipitation_input_def)
  with loadDataForTotalPrecipitation_later [OF files g(1) room False, of g m n_lat n_lon] show ?thesis
    by (auto simp: saved_as_def kept_def same_outside_def saved_state_def files simp del: vid.simps)
qed

lemma loadSnow_contract:
  assumes inp: "snow_input P n_lat n_lon (ignoreMissingInput s) as bs (length ms) m"
    and files: "aFile s = Some (fresh as)" "bFile s = Some (fresh bs)"
    and room: "room (vid TIME_INTEGRATED_SNOW_FALL_WATER_EQUIVALENT) s a ms"
  shows "\<exists>t. loadDataForTimeIntegratedSnowFallWaterEquivalent P a n_lat n_lon s =
      (Ok (Some (map Block (ms @ [m]))), t) \<and> saved_as (vid TIME_INTEGRATED_SNOW_FALL_WATER_EQUIVALENT) a m s t"
proof -
  from inp obtain xs r q n b where mem: "allocs_succeed P" and k: "list_all (is_precip_kind P) xs"
    and sc: "snow_scan (None, None, nat (n_lat * n_lon), 0) xs = (r, q, n, b)"
    and c: "case (r, q) of
        (Some rs, Some qs) \<Rightarrow> readable as = map fst xs \<and> n = length rs \<and> length qs = length rs \<and>
          temporary_record P (snow_base n_lat n_lon) (map2 snow_where_snowing qs rs) m
      | _ \<Rightarrow> as = map (Inr \<circ> fst) xs \<and> xs \<noteq> [] \<and>
          temporary_record P (snow_base n_lat n_lon) (replicate n (Fin 0)) m"
    unfolding snow_input_def by blast
  have "\<exists>x. loadDataForTimeIntegratedSnowFallWaterEquivalent P a n_lat n_lon s = (Ok (Some (map Block (ms @ [m]))),
    saved_state (vid TIME_INTEGRATED_SNOW_FALL_WATER_EQUIVALENT) a m
      (s\<lparr>aFile := Some (rewound (fresh as)), bFile := Some (rewound (fresh bs)),
        allocations := allocations s + fst x, live_blocks := live_blocks s + snd x\<rparr>))"
  proof (cases "r \<noteq> None \<and> q \<noteq> None")
    case True
    then obtain rs qs where "r = Some rs" "q = Some qs" by auto
    with loadSnow_run [OF files mem room k, of n_lat n_lon rs qs b m] sc c show ?thesis
      by (intro exI [of _ "(b + 1, int b - 2)"]) (simp add: add_ac add_diff_eq)
  next
    case False
    then have "as = map (Inr \<circ> fst) xs" "xs \<noteq> []"
      "temporary_record P (snow_base n_lat n_lon) (replicate n (Fin 0)) m"
      using c by (auto split: option.splits)
    with loadSnow_missing [OF files mem room k _ _ sc] False show ?thesis
      by (intro exI [of _ "(b + 3, int b)"]) (simp add: add_ac)
  qed
  then show ?thesis by (auto simp: saved_as_def kept_def same_outside_def saved_state_def files simp del: vid.simps)
qed

subsection \<open>The seven variables\<close>

interpretation sensible_heat: integrated_variable P TIME_INTEGRATED_SURFACE_SENSIBLE_HEAT_FLUX "flux_input P 0 0 11 1"
    "records_ok P TIME_INTEGRATED_SURFACE_SENSIBLE_HEAT_FLUX (flux_settings 0 11 1) (flux_point (dlit (- 21600)))"
  for P :: "'g platform"
proof (unfold_locales, goal_cases)
  case (2 n_lat n_lon s as bs ms m a)
  from loadFlux_contract [OF 2] show ?case by (simp add: loader_of_def loadDataForTimeIntegratedSurfaceSensibleHeatFlux_def del: vid.simps)
next
  case (3 yyyy mm dd hh em ms outs s)
  then obtain vals where "hours_ready P TIME_INTEGRATED_SURFACE_SENSIBLE_HEAT_FLUX (flux_settings 0 11 1)
      (flux_point (dlit (- 21600))) yyyy mm dd hh em (Some (map Block ms)) ms vals outs s"
    using records_ok_ready by blast
  from flux.integrate_run [OF this] 3 show ?case
    by (auto simp: generator_of_def generateTimeIntegratedSurfaceSensibleHeatFlux_def records_ok_def)
qed (simp add: integrated_def)

interpretation latent_heat: integrated_variable P TIME_INTEGRATED_SURFACE_LATENT_HEAT_FLUX "flux_input P 0 0 10 1"
    "records_ok P TIME_INTEGRATED_SURFACE_LATENT_HEAT_FLUX (flux_settings 0 10 1) (flux_point (dlit (- 21600)))"
  for P :: "'g platform"
proof (unfold_locales, goal_cases)
  case (2 n_lat n_lon s as bs ms m a)
  from loadFlux_contract [OF 2] show ?case by (simp add: loader_of_def loadDataForTimeIntegratedSurfaceLatentHeatFlux_def del: vid.simps)
next
  case (3 yyyy mm dd hh em ms outs s)
  then obtain vals where "hours_ready P TIME_INTEGRATED_SURFACE_LATENT_HEAT_FLUX (flux_settings 0 10 1)
      (flux_point (dlit (- 21600))) yyyy mm dd hh em (Some (map Block ms)) ms vals outs s"
    using records_ok_ready by blast
  from flux.integrate_run [OF this] 3 show ?case
    by (auto simp: generator_of_def generateTimeIntegratedSurfaceLatentHeatFlux_def records_ok_def)
qed (simp add: integrated_def)

interpretation outgoing_radiation: integrated_variable P TIME_INTEGRATED_OUTGOING_LONG_WAVE_RADIATION
    "flux_input P 0 5 193 8"
    "records_ok P TIME_INTEGRATED_OUTGOING_LONG_WAVE_RADIATION (flux_settings 5 5 8) (flux_point (dlit (- 21600)))"
  for P :: "'g platform"
proof (unfold_locales, goal_cases)
  case (2 n_lat n_lon s as bs ms m a)
  from loadFlux_contract [OF 2] show ?case by (simp add: loader_of_def loadDataForTimeIntegratedOutgoingLongWaveRadiation_def del: vid.simps)
next
  case (3 yyyy mm dd hh em ms outs s)
  then obtain vals where "hours_ready P TIME_INTEGRATED_OUTGOING_LONG_WAVE_RADIATION (flux_settings 5 5 8)
      (flux_point (dlit (- 21600))) yyyy mm dd hh em (Some (map Block ms)) ms vals outs s"
    using records_ok_ready by blast
  from outgoing.integrate_run [OF this] 3 show ?case
    by (auto simp: generator_of_def generateTimeIntegratedOutgoingLongWaveRadiation_def records_ok_def)
qed (simp add: integrated_def)

interpretation net_solar: integrated_variable P TIME_INTEGRATED_SURFACE_NET_SOLAR_RADIATION "radiation_input P 4"
    "records_ok P TIME_INTEGRATED_SURFACE_NET_SOLAR_RADIATION (flux_settings 4 9 1) (flux_point (dlit 21600))"
  for P :: "'g platform"
proof (unfold_locales, goal_cases)
  case (2 n_lat n_lon s as bs ms m a)
  from loadNetRadiation_contract [OF 2] show ?case by (simp add: loader_of_def loadDataForTimeIntegratedSurfaceNetSolarRadiation_def del: vid.simps)
next
  case (3 yyyy mm dd hh em ms outs s)
  then obtain vals where "hours_ready P TIME_INTEGRATED_SURFACE_NET_SOLAR_RADIATION (flux_settings 4 9 1)
      (flux_point (dlit 21600)) yyyy mm dd hh em (Some (map Block ms)) ms vals outs s"
    using records_ok_ready by blast
  from flux.integrate_run [OF this] 3 show ?case
    by (auto simp: generator_of_def generateTimeIntegratedSurfaceNetSolarRadiation_def records_ok_def)
qed (simp add: integrated_def)

interpretation net_thermal: integrated_variable P TIME_INTEGRATED_SURFACE_NET_THERMAL_RADIATION "radiation_input P 5"
    "records_ok P TIME_INTEGRATED_SURFACE_NET_THERMAL_RADIATION (flux_settings 5 5 1) thermal_point"
  for P :: "'g platform"
proof (unfold_locales, goal_cases)
  case (2 n_lat n_lon s as bs ms m a)
  from loadNetRadiation_contract [OF 2] show ?case by (simp add: loader_of_def loadDataForTimeIntegratedSurfaceNetThermalRadiation_def del: vid.simps)
next
  case (3 yyyy mm dd hh em ms outs s)
  then obtain vals where "hours_ready P TIME_INTEGRATED_SURFACE_NET_THERMAL_RADIATION (flux_settings 5 5 1)
      thermal_point yyyy mm dd hh em (Some (map Block ms)) ms vals outs s"
    using records_ok_ready by blast
  from flux.integrate_run [OF this] 3 show ?case
    by (auto simp: generator_of_def generateTimeIntegratedSurfaceNetThermalRadiation_def records_ok_def)
qed (simp add: integrated_def)

interpretation snow_fall: integrated_variable P TIME_INTEGRATED_SNOW_FALL_WATER_EQUIVALENT "snow_input P"
    "records_ok P TIME_INTEGRATED_SNOW_FALL_WATER_EQUIVALENT snow_fall_integral_settings snow_fall_point"
  for P :: "'g platform"
proof (unfold_locales, goal_cases)
  case (2 n_lat n_lon s as bs ms m a)
  from loadSnow_contract [OF 2] show ?case by (simp add: loader_of_def del: vid.simps)
next
  case (3 yyyy mm dd hh em ms outs s)
  then obtain vals where "hours_ready P TIME_INTEGRATED_SNOW_FALL_WATER_EQUIVALENT snow_fall_integral_settings
      snow_fall_point yyyy mm dd hh em (Some (map Block ms)) ms vals outs s"
    using records_ok_ready by blast
  from snow.integrate_run [OF this] 3 show ?case
    by (auto simp: generator_of_def generateTimeIntegratedSnowFallWaterEquivalent_def records_ok_def)
qed (simp add: integrated_def)

interpretation total_precipitation: integrated_variable P TOTAL_PRECIPITATION "precipitation_input P"
    "precipitation_ok P"
  for P :: "'g platform"
proof (unfold_locales, goal_cases)
  case (2 n_lat n_lon s as bs ms m a)
  from loadDataForTotalPrecipitation_contract [OF 2(1,2,4)] show ?case by (simp add: loader_of_def del: vid.simps)
next
  case (3 yyyy mm dd hh em ms outs s)
  then obtain vals where "precipitation_ready P yyyy mm dd hh em (Some (map Block ms)) ms vals outs s"
    using precipitation_ok_ready by blast
  from precipitation.integrate_run [OF this] 3 show ?case
    by (auto simp: generator_of_def generateTotalPrecipitation_def precipitation_ok_def)
qed (simp add: integrated_def)

subsection \<open>The five variables of one hour\<close>

text \<open>What a procedure needs of the two files of an hour when both have just been opened.\<close>

definition at_start :: "('g gfile \<Rightarrow> 'g gfile \<Rightarrow> string \<times> byte list \<Rightarrow> bool)
    \<Rightarrow> (int + 'g) list \<Rightarrow> (int + 'g) list \<Rightarrow> string \<times> byte list \<Rightarrow> bool" where
  "at_start input as bs out \<longleftrightarrow> input (fresh as) (fresh bs) out"

interpretation snow_hour: instant_variable P SNOW_FALL_WATER_EQUIVALENT
    "\<lambda>yyyy mm dd hh fff em. at_start (snow_fall_input P yyyy mm dd hh fff em)" for P :: "'g platform"
proof (unfold_locales, goal_cases)
  case (2 yyyy mm dd hh fff em as bs out s)
  from snow_fall_written [OF 2(2) 2(1) [unfolded at_start_def]] 2(2,3) show ?case
    by (auto simp: instant_generator_def emitted_def intro!: exI [of _ "if fff = 0 then 1 else 3"])
qed simp

interpretation column_water: instant_variable P TOTAL_COLUMN_WATER
    "\<lambda>yyyy mm dd hh fff em. at_start (total_column_water_input P yyyy mm dd hh fff em)" for P :: "'g platform"
proof (unfold_locales, goal_cases)
  case (2 yyyy mm dd hh fff em as bs out s)
  from total_column_water_written [OF 2(2,3) 2(1) [unfolded at_start_def]] 2(2,3) show ?case
    by (auto simp: instant_generator_def emitted_def intro!: exI [of _ "3"])
qed simp

interpretation potential: instant_variable P POTENTIAL_TEMPERATURE
    "\<lambda>yyyy mm dd hh fff em. at_start (potential_temperature_input P yyyy mm dd hh fff em)" for P :: "'g platform"
proof (unfold_locales, goal_cases)
  case (2 yyyy mm dd hh fff em as bs out s)
  from potential_temperature_written [OF 2(2,3) 2(1) [unfolded at_start_def]] 2(2,3) show ?case
    by (auto simp: instant_generator_def emitted_def intro!: exI [of _ "5"])
qed simp

interpretation moisture: instant_variable P SOIL_MOISTURE
    "\<lambda>yyyy mm dd hh fff em. at_start (soil_moisture_input P yyyy mm dd hh fff em)" for P :: "'g platform"
proof (unfold_locales, goal_cases)
  case (2 yyyy mm dd hh fff em as bs out s)
  from soil_moisture_written [OF 2(2,3) 2(1) [unfolded at_start_def]] 2(2,3) show ?case
    by (auto simp: instant_generator_def emitted_def intro!: exI [of _ "3"])
qed simp

interpretation soil_heat: instant_variable P SOIL_TEMPERATURE
    "\<lambda>yyyy mm dd hh fff em. at_start (soil_temperature_input P yyyy mm dd hh fff em)" for P :: "'g platform"
proof (unfold_locales, goal_cases)
  case (2 yyyy mm dd hh fff em as bs out s)
  from soil_temperature_written [OF 2(2,3) 2(1) [unfolded at_start_def]] 2(2,3) show ?case
    by (auto simp: instant_generator_def emitted_def intro!: exI [of _ "3"])
qed simp

end
