(* ===== verification/Arguments.thy ===== *)
theory Arguments
  imports Members
begin

text \<open>
  The command line: which arguments are accepted, what the queue is then, and what the program
  does with the others.
\<close>

subsection \<open>The queue of the arguments\<close>

text \<open>The names are known, and none is there twice.\<close>

definition acceptable :: "int list \<Rightarrow> string list \<Rightarrow> bool" where
  "acceptable ids names \<longleftrightarrow> (\<forall>n \<in> set names. variableIdFromShortName n \<noteq> -1) \<and>
     distinct (map variableIdFromShortName names) \<and> set (map variableIdFromShortName names) \<inter> set ids = {}"

lemma id_known: "variableIdFromShortName n \<noteq> -1 \<Longrightarrow> known_id (variableIdFromShortName n)"
  using shortName_of_id [of n] variableShortName_known by blast

lemma add_variables_run:
  assumes "filled k (variablesToProcess s)" "k + length names \<le> NUMBER_OF_VARIABLES" "''all'' \<notin> set names"
  shows "\<exists>q. add_variables k names s = (Ok (acceptable (take k (variablesToProcess s)) names), s\<lparr>variablesToProcess := q\<rparr>) \<and>
    (acceptable (take k (variablesToProcess s)) names \<longrightarrow> filled (k + length names) q \<and>
      take (k + length names) q = take k (variablesToProcess s) @ map variableIdFromShortName names)"
  using assms
proof (induction names arbitrary: k s)
  case Nil
  then show ?case by (intro exI [of _ "variablesToProcess s"]) (simp add: run_simps acceptable_def)
next
  case (Cons n ns)
  let ?q = "variablesToProcess s" and ?i = "variableIdFromShortName n"
  have k: "k < NUMBER_OF_VARIABLES" and n: "n \<noteq> ''all''" using Cons.prems by auto
  note add = addVariable_filled [OF Cons.prems(1) k n]
  show ?case
  proof (cases "?i \<noteq> -1 \<and> ?i \<notin> set (take k ?q)")
    case True
    let ?s = "s\<lparr>variablesToProcess := ?q[k := ?i]\<rparr>"
    have f: "filled (Suc k) (?q[k := ?i])" using True by (intro filled_add [OF Cons.prems(1) k]) (simp_all add: id_known)
    have t: "take (Suc k) (?q[k := ?i]) = take k ?q @ [?i]"
      using Cons.prems(1) k by (simp add: filled_def take_Suc_conv_app_nth)
    have acc: "acceptable (take k ?q) (n # ns) = acceptable (take (Suc k) (?q[k := ?i])) ns"
      unfolding t using True by (auto simp: acceptable_def)
    have "add_variables k (n # ns) s = add_variables (Suc k) ns ?s"
      using True add by (simp add: run_simps)
    moreover obtain q where "add_variables (Suc k) ns ?s =
        (Ok (acceptable (take (Suc k) (?q[k := ?i])) ns), ?s\<lparr>variablesToProcess := q\<rparr>)"
      "acceptable (take (Suc k) (?q[k := ?i])) ns \<longrightarrow> filled (Suc k + length ns) q \<and>
        take (Suc k + length ns) q = take (Suc k) (?q[k := ?i]) @ map variableIdFromShortName ns"
      using Cons.IH [of "Suc k" ?s] f Cons.prems(2,3) by auto
    ultimately show ?thesis unfolding acc using t by auto
  next
    case False
    then have "\<not> acceptable (take k ?q) (n # ns)" by (auto simp: acceptable_def)
    moreover have "addVariableToProcessList ?q k n = Some (-1, ?q)" using add False by auto
    ultimately show ?thesis by (intro exI [of _ ?q]) (simp add: run_simps)
  qed
qed

lemma parse_run:
  assumes "length date = 10" "names \<noteq> []" "length names \<le> NUMBER_OF_VARIABLES" "''all'' \<notin> set names"
    and "length (variablesToProcess s) = NUMBER_OF_VARIABLES"
  shows "\<exists>q. parse_arguments (date # names) s =
      (Ok (if acceptable [] names then Some (parse_date date) else None), s\<lparr>variablesToProcess := q\<rparr>) \<and>
    (acceptable [] names \<longrightarrow> filled (length names) q \<and> take (length names) q = map variableIdFromShortName names)"
proof -
  let ?s = "s\<lparr>variablesToProcess := fillQueueWithBogusData (variablesToProcess s)\<rparr>"
  have "filled 0 (variablesToProcess ?s)" using filled_bogus [OF assms(5)] by simp
  from add_variables_run [OF this, of names] assms(3,4) obtain q where
    "add_variables 0 names ?s = (Ok (acceptable [] names), ?s\<lparr>variablesToProcess := q\<rparr>)"
    "acceptable [] names \<longrightarrow> filled (length names) q \<and> take (length names) q = map variableIdFromShortName names"
    by auto
  with assms(1-3) show ?thesis by (intro exI [of _ q]) (simp add: parse_arguments_def run_simps)
qed

lemma default_variables: "vid v \<in> set default_queue \<longleftrightarrow> v \<noteq> SNOW_FALL_WATER_EQUIVALENT"
  by (cases v) (simp_all add: default_queue_def)

lemma parse_default:
  assumes "length date = 10" "length (variablesToProcess s) = NUMBER_OF_VARIABLES" "names = [] \<or> names = [''all'']"
  shows "parse_arguments (date # names) s = (Ok (Some (parse_date date)), s\<lparr>variablesToProcess := default_queue\<rparr>)"
proof -
  have l: "length (fillQueueWithBogusData q) = length q" for q by (simp add: fillQueueWithBogusData_def)
  have d: "fillQueueWithDefault (fillQueueWithBogusData (variablesToProcess s)) = default_queue"
    using assms(2) by (intro fillQueueWithDefault_eq) (simp add: l)
  have n: "Suc 0 \<le> NUMBER_OF_VARIABLES" by (simp add: NUMBER_OF_VARIABLES_def)
  show ?thesis
    using assms(1,3) d n by (auto simp: parse_arguments_def run_simps addVariableToProcessList_def)
qed

text \<open>The variables a list of names asks for, and the lists of names that are understood.\<close>

definition requested :: "string list \<Rightarrow> tiggeVariableNames set" where
  "requested names = (if names = [] \<or> names = [''all''] then {v. v \<noteq> SNOW_FALL_WATER_EQUIVALENT}
     else {v. \<exists>n \<in> set names. variableShortName (vid v) = Some n})"

definition valid_names :: "string list \<Rightarrow> bool" where
  "valid_names names \<longleftrightarrow> names = [] \<or> names = [''all''] \<or>
     length names \<le> NUMBER_OF_VARIABLES \<and> ''all'' \<notin> set names \<and> acceptable [] names"

lemma id_is_vid: "known_id i \<Longrightarrow> \<exists>v. i = vid v"
  by (erule known_id_cases) (metis vid.simps)+

lemma requested_ids:
  assumes "acceptable [] names" "names \<noteq> []" "''all'' \<notin> set names"
  shows "vid ` requested names = variableIdFromShortName ` set names"
proof -
  have "vid v \<in> variableIdFromShortName ` set names" if n: "n \<in> set names" "variableShortName (vid v) = Some n" for n v
    using n id_of_shortName [OF n(2)] by force
  moreover have "\<exists>v. variableIdFromShortName n = vid v \<and> variableShortName (vid v) = Some n" if n: "n \<in> set names" for n
  proof -
    have k: "variableIdFromShortName n \<noteq> -1" using assms(1) n by (simp add: acceptable_def)
    with shortName_of_id [OF refl k] id_is_vid [OF id_known [OF k]] show ?thesis by metis
  qed
  moreover have r: "requested names = {v. \<exists>n \<in> set names. variableShortName (vid v) = Some n}"
    using assms by (auto simp: requested_def)
  ultimately show ?thesis unfolding r by (intro equalityI subsetI; elim imageE; simp only: mem_Collect_eq; blast)
qed

lemma parse_requested:
  assumes "length date = 10" "valid_names names" "length (variablesToProcess s) = NUMBER_OF_VARIABLES"
  shows "\<exists>q. parse_arguments (date # names) s = (Ok (Some (parse_date date)), s\<lparr>variablesToProcess := q\<rparr>) \<and>
    queued (requested names) (s\<lparr>variablesToProcess := q\<rparr>)"
proof (cases "names = [] \<or> names = [''all'']")
  case True
  have "set default_queue \<subseteq> range vid" by (auto simp: default_queue_def simp del: vid.simps)
  then have "set default_queue = vid ` requested names" using True default_variables
    by (auto simp: requested_def image_iff simp del: vid.simps)
  moreover have "take NUMBER_OF_VARIABLES default_queue = default_queue" using filled_default by (simp add: filled_def)
  ultimately have "queued (requested names) (s\<lparr>variablesToProcess := default_queue\<rparr>)"
    using filled_default by (auto simp: queued_def intro!: exI [of _ NUMBER_OF_VARIABLES])
  with parse_default [OF assms(1,3) True] show ?thesis by blast
next
  case False
  then have n: "names \<noteq> []" "length names \<le> NUMBER_OF_VARIABLES" "''all'' \<notin> set names" "acceptable [] names"
    using assms(2) by (auto simp: valid_names_def)
  from parse_run [OF assms(1) n(1-3) assms(3)] n(4) obtain q where
    "parse_arguments (date # names) s = (Ok (Some (parse_date date)), s\<lparr>variablesToProcess := q\<rparr>)"
    "filled (length names) q" "take (length names) q = map variableIdFromShortName names" by auto
  then show ?thesis using requested_ids [OF n(4,1,3)]
    by (intro exI [of _ q]) (auto simp: queued_def intro!: exI [of _ "length names"])
qed

text \<open>C20. The argument parser accepts a date of ten characters followed by up to 13 variable names
  exactly when all names are known and none is given twice; the queue then holds the identifiers of
  these names, in their order, and nothing else. A list with an unknown or repeated name makes the
  program stop.\<close>

theorem parse_arguments_queue:
  assumes "length date = 10" "names \<noteq> []" "length names \<le> NUMBER_OF_VARIABLES" "''all'' \<notin> set names"
    and "length (variablesToProcess s) = NUMBER_OF_VARIABLES"
  shows "\<exists>q. parse_arguments (date # names) s =
      (Ok (if acceptable [] names then Some (parse_date date) else None), s\<lparr>variablesToProcess := q\<rparr>) \<and>
    (acceptable [] names \<longrightarrow> filled (length names) q \<and> take (length names) q = map variableIdFromShortName names)"
  by (rule parse_run [OF assms])

text \<open>Without variable names, or with \<open>all\<close>, the default queue is used: every variable once,
  except the instantaneous snow fall, although the comment on \<open>fillQueueWithDefault\<close> says everything.\<close>

theorem parse_arguments_default:
  assumes "length date = 10" "length (variablesToProcess s) = NUMBER_OF_VARIABLES" "args = [date] \<or> args = [date, ''all'']"
  shows "parse_arguments args s = (Ok (Some (parse_date date)), s\<lparr>variablesToProcess := default_queue\<rparr>) \<and>
    distinct default_queue \<and> (\<forall>v. vid v \<in> set default_queue \<longleftrightarrow> v \<noteq> SNOW_FALL_WATER_EQUIVALENT)"
proof -
  obtain names where "args = date # names" "names = [] \<or> names = [''all'']" using assms(3) by auto
  with parse_default [OF assms(1,2)] default_variables filled_default show ?thesis
    by (auto simp: filled_def default_queue_def)
qed

subsection \<open>Arguments the program cannot use\<close>

text \<open>Without a date of ten characters, or with a name that is unknown or given twice, the program
  returns 1, and no file has been read or written.\<close>

theorem main_bad_arguments:
  assumes "args = [] \<or> length (hd args) \<noteq> 10 \<or>
      tl args \<noteq> [] \<and> length (tl args) \<le> NUMBER_OF_VARIABLES \<and> ''all'' \<notin> set (tl args) \<and> \<not> acceptable [] (tl args)"
    and "length (variablesToProcess s) = NUMBER_OF_VARIABLES"
  shows "\<exists>q. main P args s = (Ok 1, s\<lparr>ignoreMissingInput := 0, variablesToProcess := q\<rparr>)"
proof (cases "args = [] \<or> length (hd args) \<noteq> 10")
  case True
  then show ?thesis
    by (intro exI [of _ "variablesToProcess s"]) (cases args; simp add: main_def parse_arguments_def run_simps)
next
  case False
  then obtain date names where a: "args = date # names" "length date = 10" by (cases args) auto
  have "length (variablesToProcess (s\<lparr>ignoreMissingInput := 0\<rparr>)) = NUMBER_OF_VARIABLES" using assms(2) by simp
  from parse_run [OF a(2) _ _ _ this, of names] False assms(1) a obtain q where
    "parse_arguments args (s\<lparr>ignoreMissingInput := 0\<rparr>) = (Ok None, s\<lparr>ignoreMissingInput := 0, variablesToProcess := q\<rparr>)"
    by auto
  then show ?thesis by (intro exI [of _ q]) (simp add: main_def run_simps)
qed

text \<open>C39. With more than 13 names the queue stays empty: the arguments are accepted, but no variable is
  processed, whatever its name.\<close>

theorem too_many_variables:
  assumes "length date = 10" "NUMBER_OF_VARIABLES < length names"
    and "length (variablesToProcess s) = NUMBER_OF_VARIABLES"
  shows "\<exists>q. parse_arguments (date # names) s = (Ok (Some (parse_date date)), s\<lparr>variablesToProcess := q\<rparr>) \<and>
    (\<forall>v n. variableShortName v = Some n \<longrightarrow> processQueueContains q n = Some 0)"
proof -
  have f: "filled 0 (fillQueueWithBogusData (variablesToProcess s))" using filled_bogus [OF assms(3)] .
  have "names \<noteq> []" using assms(2) by auto
  with assms have "parse_arguments (date # names) s =
      (Ok (Some (parse_date date)), s\<lparr>variablesToProcess := fillQueueWithBogusData (variablesToProcess s)\<rparr>)"
    by (simp add: parse_arguments_def run_simps)
  with processQueueContains_filled [OF f] show ?thesis by auto
qed


subsection \<open>Reading a date\<close>

lemma fold_digits:
  "digit_string cs \<Longrightarrow> fold (\<lambda>c a. 10 * a + ((of_char c :: int) - 48)) cs a = a * 10 ^ length cs + int (dval_of cs)"
proof (induction cs arbitrary: a)
  case (Cons c cs)
  then obtain x where x: "(of_char c :: nat) = 48 + x"
    by (auto simp: digit_string_def isdigit_def dest: le_Suc_ex)
  then have "int (of_char c) = 48 + int x" by simp
  then have "(of_char c :: int) = 48 + int x" by (simp only: of_nat_of_char)
  with x Cons show ?case by (simp add: digit_string_def algebra_simps)
qed simp

lemma atoi_digits:
  assumes "digit_string cs" "cs \<noteq> []" shows "atoi cs = int (dval_of cs)"
proof -
  obtain c r where c: "cs = c # r" using assms(2) by (cases cs) auto
  have d: "isdigit c" using assms(1) c by (simp add: digit_string_def)
  then have "\<not> isspace c" "c \<noteq> CHR ''-''" "c \<noteq> CHR ''+''" by (auto simp: isdigit_def isspace_def)
  moreover have "takeWhile isdigit cs = cs" using assms(1) by (simp add: digit_string_def takeWhile_eq_all_conv)
  ultimately show ?thesis using assms(1) fold_digits [of cs 0] c by (simp add: atoi_def digits_value_def)
qed

lemma atoi_fmt0:
  assumes "0 \<le> i" "i < 10 ^ w" "0 < w" shows "atoi (fmt0 w i) = i"
proof -
  have "fmt0 w i \<noteq> []" using fmt0_length [OF assms] assms(3) by auto
  with atoi_digits [OF digit_string_fmt0 [OF assms(1)]] dval_of_fmt0 [OF assms(1)] assms(1) show ?thesis by simp
qed

text \<open>Reading back the ten characters that \<open>sprintf\<close> makes of a date gives the date.\<close>

theorem parse_date_of_date_string:
  assumes "four_digit_date yyyy mm dd hh"
  shows "parse_date (date_string yyyy mm dd hh) = (yyyy, mm, dd, hh)"
  using assms by (simp add: parse_date_def date_string_def four_digit_date_def fmt0_length atoi_fmt0 Let_def)

end
