(* ===== verification/Program.thy ===== *)
theory Program
  imports MemberInstances Arguments
begin

text \<open>
  The program as a whole, for a date and any variables: the contracts of the twelve variables,
  put together.
\<close>

text \<open>What hour \<open>k\<close> of a member needs, and what the records of a member must be.\<close>

definition variable_input :: "'g platform \<Rightarrow> tiggeVariableNames \<Rightarrow> int \<Rightarrow> int \<Rightarrow> int
    \<Rightarrow> (int + 'g) list \<Rightarrow> (int + 'g) list \<Rightarrow> nat \<Rightarrow> byte list \<Rightarrow> bool" where
  "variable_input P v = (case v of
       TIME_INTEGRATED_OUTGOING_LONG_WAVE_RADIATION \<Rightarrow> flux_input P 0 5 193 8
     | TIME_INTEGRATED_SURFACE_LATENT_HEAT_FLUX \<Rightarrow> flux_input P 0 0 10 1
     | TIME_INTEGRATED_SURFACE_SENSIBLE_HEAT_FLUX \<Rightarrow> flux_input P 0 0 11 1
     | TIME_INTEGRATED_SURFACE_NET_SOLAR_RADIATION \<Rightarrow> radiation_input P 4
     | TIME_INTEGRATED_SURFACE_NET_THERMAL_RADIATION \<Rightarrow> radiation_input P 5
     | TIME_INTEGRATED_SNOW_FALL_WATER_EQUIVALENT \<Rightarrow> snow_input P
     | TOTAL_PRECIPITATION \<Rightarrow> precipitation_input P
     | _ \<Rightarrow> (\<lambda>_ _ _ _ _ _ _. False))"

definition variable_output :: "'g platform \<Rightarrow> tiggeVariableNames \<Rightarrow> int \<Rightarrow> int \<Rightarrow> int \<Rightarrow> int \<Rightarrow> int
    \<Rightarrow> byte list list \<Rightarrow> (nat \<Rightarrow> string \<times> byte list) \<Rightarrow> bool" where
  "variable_output P v = (case v of
       TIME_INTEGRATED_OUTGOING_LONG_WAVE_RADIATION \<Rightarrow> records_ok P v (flux_settings 5 5 8) (flux_point (dlit (- 21600)))
     | TIME_INTEGRATED_SURFACE_LATENT_HEAT_FLUX \<Rightarrow> records_ok P v (flux_settings 0 10 1) (flux_point (dlit (- 21600)))
     | TIME_INTEGRATED_SURFACE_SENSIBLE_HEAT_FLUX \<Rightarrow> records_ok P v (flux_settings 0 11 1) (flux_point (dlit (- 21600)))
     | TIME_INTEGRATED_SURFACE_NET_SOLAR_RADIATION \<Rightarrow> records_ok P v (flux_settings 4 9 1) (flux_point (dlit 21600))
     | TIME_INTEGRATED_SURFACE_NET_THERMAL_RADIATION \<Rightarrow> records_ok P v (flux_settings 5 5 1) thermal_point
     | TIME_INTEGRATED_SNOW_FALL_WATER_EQUIVALENT \<Rightarrow> records_ok P v snow_fall_integral_settings snow_fall_point
     | TOTAL_PRECIPITATION \<Rightarrow> precipitation_ok P
     | _ \<Rightarrow> (\<lambda>_ _ _ _ _ _ _. False))"

definition variable_now :: "'g platform \<Rightarrow> tiggeVariableNames \<Rightarrow> int \<Rightarrow> int \<Rightarrow> int \<Rightarrow> int \<Rightarrow> int \<Rightarrow> int
    \<Rightarrow> (int + 'g) list \<Rightarrow> (int + 'g) list \<Rightarrow> string \<times> byte list \<Rightarrow> bool" where
  "variable_now P v = (case v of
       SNOW_FALL_WATER_EQUIVALENT \<Rightarrow> (\<lambda>yyyy mm dd hh fff em. at_start (snow_fall_input P yyyy mm dd hh fff em))
     | TOTAL_COLUMN_WATER \<Rightarrow> (\<lambda>yyyy mm dd hh fff em. at_start (total_column_water_input P yyyy mm dd hh fff em))
     | POTENTIAL_TEMPERATURE \<Rightarrow> (\<lambda>yyyy mm dd hh fff em. at_start (potential_temperature_input P yyyy mm dd hh fff em))
     | SOIL_MOISTURE \<Rightarrow> (\<lambda>yyyy mm dd hh fff em. at_start (soil_moisture_input P yyyy mm dd hh fff em))
     | SOIL_TEMPERATURE \<Rightarrow> (\<lambda>yyyy mm dd hh fff em. at_start (soil_temperature_input P yyyy mm dd hh fff em))
     | _ \<Rightarrow> (\<lambda>_ _ _ _ _ _ _ _ _. False))"

interpretation tigge: tigge_variables P "variable_input P" "variable_output P" "variable_now P" for P :: "'g platform"
proof (rule tigge_variables.intro)
  show "integrated_variable P v (variable_input P v) (variable_output P v)" if "integrated v" for v
    using that
    by (auto simp: integrated_def variable_input_def variable_output_def intro: sensible_heat.integrated_variable_axioms
        latent_heat.integrated_variable_axioms outgoing_radiation.integrated_variable_axioms
        net_solar.integrated_variable_axioms net_thermal.integrated_variable_axioms
        snow_fall.integrated_variable_axioms total_precipitation.integrated_variable_axioms)
  show "instant_variable P v (variable_now P v)" if "is_instant v" for v
    using that snow_hour.instant_variable_axioms [of P] column_water.instant_variable_axioms [of P]
      potential.instant_variable_axioms [of P] moisture.instant_variable_axioms [of P] soil_heat.instant_variable_axioms [of P]
    by (auto simp: variable_now_def)
qed

text \<open>
  The input of a member for the variables of a set: its 65 hours have what every variable needs,
  and the records of the time-integrated variables can be integrated.
\<close>

definition member_input :: "'g platform \<Rightarrow> tiggeVariableNames set \<Rightarrow> int \<Rightarrow> int \<Rightarrow> int \<Rightarrow> int \<Rightarrow> int
    \<Rightarrow> (tiggeVariableNames \<Rightarrow> nat \<Rightarrow> string \<times> byte list) \<Rightarrow> bool" where
  "member_input P Q yyyy mm dd hh em outs \<longleftrightarrow> (\<exists>ms.
     (\<forall>v. v \<in> Q \<longrightarrow> integrated v \<longrightarrow>
        length (ms v) = FORECAST_HOURS div 6 + 1 \<and> variable_output P v yyyy mm dd hh em (ms v) (outs v)) \<and>
     (\<forall>k < FORECAST_HOURS div 6 + 1.
        hour_ready P (variable_input P) (variable_now P) Q yyyy mm dd hh em ms outs k))"


end
