(* ===== verification/Loading.thy ===== *)
theory Loading
  imports Program
begin

text \<open>
  What the loaders append to the array of their variable, for each of the cases of the input, and
  what the generators make of these arrays.
\<close>

definition flux_keys :: "(tiggeVariableNames \<times> int \<times> int \<times> int \<times> int) list" where
  "flux_keys = [(TIME_INTEGRATED_OUTGOING_LONG_WAVE_RADIATION, 0, 5, 193, 8),
     (TIME_INTEGRATED_SURFACE_LATENT_HEAT_FLUX, 0, 0, 10, 1),
     (TIME_INTEGRATED_SURFACE_SENSIBLE_HEAT_FLUX, 0, 0, 11, 1)]"

lemma flux_loader: "(v, d, c, n, l) \<in> set flux_keys \<Longrightarrow> loader_of P v = loadFlux P v d c n l"
  by (auto simp: flux_keys_def loader_of_def loadDataForTimeIntegratedOutgoingLongWaveRadiation_def
      loadDataForTimeIntegratedSurfaceLatentHeatFlux_def loadDataForTimeIntegratedSurfaceSensibleHeatFlux_def)

lemma flux_valid: "(v, d, c, n, l) \<in> set flux_keys \<Longrightarrow> valid_index (vid v)"
  by (rule valid_vid) (auto simp: flux_keys_def)

text \<open>C8. The loaders of outgoing long-wave radiation, latent and sensible heat flux append the message of the
  first record, in the a file continued by the b file, that carries the discipline, category, number and
  level type of the variable. They rewind both files and keep no handle.\<close>

theorem flux_loader_found:
  assumes "(v, d, c, n, l) \<in> set flux_keys"
    and "aFile s = Some fa" "bFile s = Some fb" "allocs_succeed P" "room (vid v) s a ms"
    and "first_hit (says4 (grib P) (wanted_record d c n l)) False True (ab_records fa fb) g" "saves P g m"
  shows "loader_of P v a n_lat n_lon s = (Ok (Some (map Block (ms @ [m]))),
    saved_state (vid v) a m (s\<lparr>aFile := Some (rewound fa), bFile := Some (rewound fb)\<rparr>))"
  using loadFlux_run [OF assms(2-7)] by (simp add: flux_loader [OF assms(1)])

text \<open>When neither file has the record and missing input is ignored, as at the initial hour, the same loaders
  append the message of a blank record of the wanted kind, with all values 0.\<close>

theorem flux_loader_blank:
  assumes "(v, d, c, n, l) \<in> set flux_keys"
    and "aFile s = Some fa" "bFile s = Some fb" "allocs_succeed P" "room (vid v) s a ms"
    and "all_readable (drop (file_pos fa) (file_items fa))" "all_readable (drop (file_pos fb) (file_items fb))"
    and "no_hit (says4 (grib P) (wanted_record d c n l)) False (ab_records fa fb)" "ignoreMissingInput s \<noteq> 0"
    and "blank_record P d c n l n_lat n_lon g" "says4 (grib P) (wanted_record d c n l) g True" "saves P g m"
  shows "loader_of P v a n_lat n_lon s = (Ok (Some (map Block (ms @ [m]))),
    saved_state (vid v) a m (s\<lparr>aFile := Some (rewound fa), bFile := Some (rewound fb),
      allocations := allocations s + 1\<rparr>))"
  using loadFlux_blank [OF assms(2-12)] by (simp add: flux_loader [OF assms(1)])

text \<open>When the record is missing at a later hour, the same loaders return NULL: nothing is stored, both
  files stay at their ends, and the records of the earlier hours, still counted in
  \<open>numberOfSavedRecords\<close>, are lost to the caller, who overwrites the array with the NULL.\<close>

theorem flux_loader_missing:
  assumes "(v, d, c, n, l) \<in> set flux_keys"
    and "aFile s = Some fa" "bFile s = Some fb"
    and "all_readable (drop (file_pos fa) (file_items fa))" "all_readable (drop (file_pos fb) (file_items fb))"
    and "no_hit (says4 (grib P) (wanted_record d c n l)) False (ab_records fa fb)" "ignoreMissingInput s = 0"
  shows "\<exists>fa' fb'. loader_of P v a n_lat n_lon s = (Ok None, s\<lparr>aFile := Some fa', bFile := Some fb'\<rparr>)"
  using loadFlux_none [OF assms(2,3) flux_valid [OF assms(1)] assms(4-7), where a = a and n_lat = n_lat and n_lon = n_lon]
  by (auto simp: flux_loader [OF assms(1)])

text \<open>C9. The loaders of net solar and net thermal radiation append the record of the downward minus the upward
  radiation at the surface (parameters 192 and 193), point by point, in whichever order the files have the
  two.\<close>

theorem net_radiation_loader:
  assumes "(v, category) \<in> {(TIME_INTEGRATED_SURFACE_NET_SOLAR_RADIATION, 4), (TIME_INTEGRATED_SURFACE_NET_THERMAL_RADIATION, 5)}"
    and "aFile s = Some fa" "bFile s = Some fb" "allocs_succeed P" "room (vid v) s a ms"
    and "first_two (says4 (grib P) (is_radiation category)) (ab_records fa fb) g1 v1 g2 v2" "net_pair v1 v2 g1 g2 down up"
    and "api_get_doubles (grib P) down ''values'' = Inr us" "api_get_doubles (grib P) up ''values'' = Inr vs"
    and "int (length us) = n_lat * n_lon" "int (length vs) = n_lat * n_lon"
    and "temporary_record P (net_radiation_base n_lat n_lon) (map2 dsub us vs) m"
  shows "loader_of P v a n_lat n_lon s = (Ok (Some (map Block (ms @ [m]))),
    saved_state (vid v) a m (s\<lparr>aFile := Some (rewound fa), bFile := Some (rewound fb),
      allocations := allocations s + 3\<rparr>))"
proof -
  have "loader_of P v = loadNetRadiation P v category"
    using assms(1) by (auto simp: loader_of_def loadDataForTimeIntegratedSurfaceNetSolarRadiation_def
        loadDataForTimeIntegratedSurfaceNetThermalRadiation_def)
  with loadNetRadiation_run [OF assms(2-12)] show ?thesis by simp
qed

text \<open>C11. The first record of total precipitation is an array of zero bytes, one for each point of the grid, made
  whatever the input file holds; its buffer is not freed. The later ones are the messages of the
  precipitation records of the a file.\<close>

theorem precipitation_loader:
  assumes "aFile s = Some fa" "allocs_succeed P" "room (vid TOTAL_PRECIPITATION) s a ms"
    and "ms \<noteq> [] \<Longrightarrow> first_hit (says4 (grib P) is_precipitation) False True (readable (drop (file_pos fa) (file_items fa))) g"
      "ms \<noteq> [] \<Longrightarrow> saves P g m"
  shows "loadDataForTotalPrecipitation P a n_lat n_lon s =
    (if ms = [] then (Ok (Some [Block (replicate (nat (n_lat * n_lon)) 0)]),
       saved_state (vid TOTAL_PRECIPITATION) a (replicate (nat (n_lat * n_lon)) 0)
         (s\<lparr>aFile := Some (rewound fa), allocations := allocations s + 1, live_blocks := live_blocks s + 1\<rparr>))
     else (Ok (Some (map Block (ms @ [m]))),
       saved_state (vid TOTAL_PRECIPITATION) a m (s\<lparr>aFile := Some (rewound fa)\<rparr>)))"
proof (cases "ms = []")
  case True
  then show ?thesis using loadDataForTotalPrecipitation_first [OF assms(1,2), of a n_lat n_lon] assms(3) by simp
next
  case False
  then show ?thesis
    using loadDataForTotalPrecipitation_later [OF assms(1-3) False assms(4,5), of n_lat n_lon] by simp
qed

text \<open>C10. The loader of the time-integrated snow fall appends a record with the rain where the snow mask is 1 and 0
  elsewhere, of the last rain and the last mask before both are there.\<close>

theorem snow_loader_found:
  assumes "aFile s = Some fa" "bFile s = Some fb" "allocs_succeed P"
    and "room (vid TIME_INTEGRATED_SNOW_FALL_WATER_EQUIVALENT) s a ms"
    and "list_all (is_precip_kind P) xs" "readable (file_items fa) = map fst xs"
      "snow_scan (None, None, nat (n_lat * n_lon), 0) xs = (Some rs, Some qs, length rs, b)"
    and "length qs = length rs" "temporary_record P (snow_base n_lat n_lon) (map2 snow_where_snowing qs rs) m"
  shows "fst (loadDataForTimeIntegratedSnowFallWaterEquivalent P a n_lat n_lon s) = Ok (Some (map Block (ms @ [m]))) \<and>
    live_handles (snd (loadDataForTimeIntegratedSnowFallWaterEquivalent P a n_lat n_lon s)) = live_handles s"
  using loadSnow_run [OF assms] by (simp add: saved_state_def)

text \<open>When the a file lacks the rain or the snow mask, the loader of the time-integrated snow fall appends a
  record of zeros instead and keeps no handle, but a field that was already read is not freed: with its
  two dummies it leaves as many blocks behind as it had read fields.\<close>

theorem snow_loader_missing:
  assumes "aFile s = Some fa" "bFile s = Some fb" "allocs_succeed P"
    and "room (vid TIME_INTEGRATED_SNOW_FALL_WATER_EQUIVALENT) s a ms"
    and "list_all (is_precip_kind P) xs" "file_items fa = map (Inr \<circ> fst) xs" "xs \<noteq> []"
      "snow_scan (None, None, nat (n_lat * n_lon), 0) xs = (r, q, n, b)" "r = None \<or> q = None"
    and "temporary_record P (snow_base n_lat n_lon) (replicate n (Fin 0)) m"
  shows "\<exists>t. loadDataForTimeIntegratedSnowFallWaterEquivalent P a n_lat n_lon s = (Ok (Some (map Block (ms @ [m]))), t) \<and>
    live_handles t = live_handles s \<and>
    live_blocks t = live_blocks s + int b + (if a = None then 2 else 1)"
  using loadSnow_missing [OF assms] by (auto simp: saved_state_def)

text \<open>C6. Each of the seven generators of time-integrated variables, given an array of 65 records that can be
  integrated, writes the 65 files of the forecast hours in order, frees and closes what it took, and
  leaves the records as they are.\<close>

theorem generators_write_hours:
  assumes "is_flux v \<or> is_amount v" "variable_output P v yyyy mm dd hh em ms outs"
    and "length ms = FORECAST_HOURS div 6 + 1" "holds (vid v) s (Some (map Block ms)) ms"
  shows "\<exists>c. generator_of P v yyyy mm dd hh em (Some (map Block ms)) s =
    (Ok (), s\<lparr>output_files := output_files s @ map outs [0..<FORECAST_HOURS div 6 + 1], allocations := allocations s + c\<rparr>)"
  using integrated_variable.generate_run [OF tigge.integrated_contract [unfolded integrated_def, OF assms(1)] assms(2-4)]
  by (simp add: emitted_def)

text \<open>A variable that is not in the queue is neither loaded nor generated, whatever the state of the program;
  neither is an identifier outside the enumeration.\<close>

theorem unqueued_untouched:
  assumes "filled k (variablesToProcess s)" "i \<notin> set (take k (variablesToProcess s))"
  shows "loadDataForVariable P i buf n_lat n_lon s = (Ok None, s) \<and>
    generateVariable P i yyyy mm dd hh fff em resource s = (Ok 0, s)"
  using loadDataForVariable_skip [OF assms] generateVariable_skip [OF assms] by simp

end
