(* ===== verification/Termination.thy ===== *)
theory Termination
  imports Members
begin

text \<open>
  The generators always come back: every record search consumes the input, so the fuel of the
  searches is never used up. \<open>never_stuck\<close> is proved of the building blocks and put together
  along the text of the procedures.
\<close>

named_theorems terminates "procedures that come back"

definition never_stuck :: "('s, 'a) prog \<Rightarrow> bool" where
  "never_stuck m \<longleftrightarrow> (\<forall>s. fst (m s) \<noteq> Stuck)"

subsection \<open>Sequencing and loops\<close>

lemma fst_continue: "fst r \<noteq> Stuck \<Longrightarrow> (\<And>x s. fst (f x s) \<noteq> Stuck) \<Longrightarrow> fst (continue r f) \<noteq> Stuck"
  by (cases "(r, f)" rule: continue.cases) auto

lemma never_stuck_basic [terminates]:
  "never_stuck (ret x)" "never_stuck (exit_with c)" "never_stuck crash" "never_stuck (rd f)" "never_stuck (upd g)"
  by (simp_all add: never_stuck_def run_simps)

lemma never_stuck_bnd [terminates]:
  "never_stuck m \<Longrightarrow> (\<And>x. never_stuck (f x)) \<Longrightarrow> never_stuck (bnd m f)"
  by (simp add: never_stuck_def bnd_def fst_continue)

lemma never_stuck_seq [terminates]: "never_stuck m \<Longrightarrow> never_stuck n \<Longrightarrow> never_stuck (seq m n)"
  by (simp add: never_stuck_def seq_def fst_continue)

lemma never_stuck_only_if [terminates]: "never_stuck m \<Longrightarrow> never_stuck (only_if c m)"
  by (simp add: only_if_def terminates)

lemma never_stuck_if [terminates]: "never_stuck m \<Longrightarrow> never_stuck n \<Longrightarrow> never_stuck (if c then m else n)"
  by simp

lemma never_stuck_option [terminates]:
  "never_stuck m \<Longrightarrow> (\<And>x. never_stuck (f x)) \<Longrightarrow> never_stuck (case o' of None \<Rightarrow> m | Some x \<Rightarrow> f x)"
  by (cases o') simp_all

lemma never_stuck_prod [terminates]: "(\<And>x y. never_stuck (f x y)) \<Longrightarrow> never_stuck (case p of (x, y) \<Rightarrow> f x y)"
  by (cases p) simp

lemma never_stuck_sum [terminates]:
  "(\<And>x. never_stuck (f x)) \<Longrightarrow> (\<And>x. never_stuck (g x)) \<Longrightarrow> never_stuck (case r of Inl x \<Rightarrow> f x | Inr x \<Rightarrow> g x)"
  by (cases r) simp_all

lemma never_stuck_saved [terminates]:
  "never_stuck m \<Longrightarrow> never_stuck n \<Longrightarrow> (\<And>x. never_stuck (f x)) \<Longrightarrow>
     never_stuck (case c of Indet \<Rightarrow> m | NullPtr \<Rightarrow> n | Block x \<Rightarrow> f x)"
  by (cases c) simp_all

lemma never_stuck_for_each [terminates]: "(\<And>x a. never_stuck (body x a)) \<Longrightarrow> never_stuck (for_each xs body a)"
  by (induction xs arbitrary: a) (simp_all add: terminates)

lemma never_stuck_collect: "(\<And>i. never_stuck (body i)) \<Longrightarrow> never_stuck (collect js body)"
  by (induction js) (simp_all add: terminates)

lemma never_stuck_cells [terminates]: "(\<And>i. never_stuck (body i)) \<Longrightarrow> never_stuck (cells n body)"
  by (simp add: cells_def never_stuck_collect)

subsection \<open>The GRIB library, memory and output\<close>

lemma never_stuck_cell [terminates]: "never_stuck (cell xs i)"
  by (simp add: cell_def terminates)

lemma never_stuck_grib [terminates]:
  "never_stuck (grib_check r)" "never_stuck (count_handle h)" "never_stuck (grib_handle_delete h)"
  by (cases r; cases h; simp add: grib_check_def count_handle_def grib_handle_delete_def terminates)+

lemma never_stuck_with_handle [terminates]: "(\<And>g. never_stuck (f g)) \<Longrightarrow> never_stuck (with_handle h f)"
  by (simp add: with_handle_def terminates)

lemma never_stuck_grib_calls [terminates]:
  "never_stuck (grib_handle_new_from_template P name)" "never_stuck (grib_handle_new_from_message P bytes)"
  "never_stuck (grib_set P h xs)" "never_stuck (grib_get_long P h k)" "never_stuck (grib_get_double P h k)"
  "never_stuck (grib_get_size P h k)" "never_stuck (grib_get_message P h)" "never_stuck (grib_set_double_array P h k vs)"
  "never_stuck (grib_get_double_array P h k array cap)"
  unfolding grib_handle_new_from_template_def grib_handle_new_from_message_def grib_set_def grib_get_long_def
    grib_get_double_def grib_get_size_def grib_get_message_def grib_set_double_array_def grib_get_double_array_def
  by (intro terminates)+

lemma never_stuck_new_from_file [terminates]: "never_stuck (grib_handle_new_from_file w)"
  unfolding never_stuck_def grib_handle_new_from_file_def
  by (auto simp: count_handle_def run_simps split: option.split sum.split)

lemma never_stuck_rewind [terminates]: "never_stuck (rewind w)"
  unfolding never_stuck_def rewind_def by (auto split: option.split)

lemma never_stuck_memory [terminates]:
  "never_stuck (alloc_block P)" "never_stuck (free p)" "never_stuck (or_exit1 p)"
  by (simp add: never_stuck_def alloc_block_def)
     (simp_all add: free_def or_exit1_def terminates split: option.split)

lemma never_stuck_arrays [terminates]:
  "never_stuck (calloc_doubles P n)" "never_stuck (cell_of q i)" "never_stuck (path_into_256 prefix name)"
  unfolding calloc_doubles_def cell_of_def path_into_256_def by (intro terminates)+

lemma never_stuck_write [terminates]: "never_stuck (writeGribToFile P gh filename)"
  unfolding writeGribToFile_def by (intro terminates)

lemma never_stuck_new_records [terminates]:
  "never_stuck (newGribRecord P yyyy mm dd hh fff em n_lat n_lon)"
  "never_stuck (newBlankGribRecord P d c n l n_lat n_lon)"
  unfolding newGribRecord_def newBlankGribRecord_def by (intro terminates)+

lemma never_stuck_extract [terminates]: "never_stuck (extract_values P h)"
  unfolding extract_values_def by (intro terminates)

lemma never_stuck_output_name [terminates]: "never_stuck (output_name v yyyy mm dd hh fff em)"
  unfolding output_name_def by (intro terminates)

subsection \<open>The searches\<close>

text \<open>A test of a record reads keys; it does not change the state.\<close>

definition pure_test :: "('g option \<Rightarrow> ('g world, 'x) prog) \<Rightarrow> bool" where
  "pure_test test \<longleftrightarrow> (\<forall>h s. fst (test h s) \<noteq> Stuck \<and> snd (test h s) = s)"

lemma pure_grib_get_long:
  "fst (grib_get_long P h k s) \<noteq> Stuck" "snd (grib_get_long P h k s) = s"
  by (cases h; cases "api_get_long (grib P) (the h) k"; simp add: grib_get_long_def run_simps)+

lemma pure_bnd:
  assumes "fst (m s) \<noteq> Stuck \<and> snd (m s) = s" "\<And>x. fst (f x s) \<noteq> Stuck \<and> snd (f x s) = s"
  shows "fst (bnd m f s) \<noteq> Stuck \<and> snd (bnd m f s) = s"
  using assms by (cases "m s"; cases "fst (m s)") (auto simp: bnd_def)

lemma pure_read [simp]: "pure_test (read3 P f3)" "pure_test (read4 P f4)" "pure_test (read5 P f5)"
  unfolding pure_test_def read3_def read4_def read5_def
  by (intro allI pure_bnd; simp add: pure_grib_get_long run_simps)+

text \<open>A source of records that gets used up: \<open>left s\<close> records at most are still to come.\<close>

locale draining_source =
  fixes src :: "('g world, 'g option) prog" and left :: "'g world \<Rightarrow> nat" and inv :: "'g world \<Rightarrow> bool"
  assumes src_terminates: "inv s \<Longrightarrow> fst (src s) \<noteq> Stuck"
    and src_drains: "inv s \<Longrightarrow> src s = (Ok (Some g), t) \<Longrightarrow> left t < left s \<and> inv t"
    and left_frame: "left (s\<lparr>live_handles := n\<rparr>) = left s"
    and inv_frame: "inv (s\<lparr>live_handles := n\<rparr>) = inv s"
begin

lemma delete_frame:
  "\<exists>t. grib_handle_delete h s = (Ok (), t) \<and> left t = left s \<and> inv t = inv s"
  by (cases h) (auto simp: run_simps left_frame inv_frame)

text \<open>One read: an end of the procedure, NULL, or a record and fewer records left.\<close>

lemma src_cases:
  assumes "inv s"
  obtains c t where "src s = (Exit c, t)" | t where "src s = (Crash, t)" | t where "src s = (Ok None, t)"
    | g t where "src s = (Ok (Some g), t)" "left t < left s" "inv t"
proof -
  obtain r t where r: "src s = (r, t)" by (cases "src s")
  then show ?thesis using that src_terminates [OF assms] src_drains [OF assms]
    by (cases r; cases "case r of Ok x \<Rightarrow> x | _ \<Rightarrow> None") auto
qed

lemma seek_terminates:
  assumes "pure_test test" "inv s" "left s < n"
  shows "fst (seek n src test h s) \<noteq> Stuck"
  using assms(2,3)
proof (induction n arbitrary: h s)
  case (Suc n)
  obtain s1 where s1: "grib_handle_delete h s = (Ok (), s1)" "left s1 = left s" "inv s1"
    using delete_frame [of h s] Suc.prems(1) by auto
  show ?case
  proof (cases rule: src_cases [OF s1(3)])
    case (4 g t)
    obtain r where r: "test (Some g) t = (r, t)" "r \<noteq> Stuck"
      using assms(1) unfolding pure_test_def by (metis prod.collapse)
    have "fst (seek n src test (Some g) t) \<noteq> Stuck" using Suc.IH [of t] Suc.prems s1 4 by simp
    then show ?thesis using s1 4 r by (cases r) (simp_all add: run_simps)
  qed (use s1 in \<open>simp_all add: run_simps\<close>)
qed simp

end

text \<open>Two such sources that draw from the same records.\<close>

locale draining_pair = one: draining_source src1 left inv + two: draining_source src2 left inv
  for src1 :: "('g world, 'g option) prog" and src2 :: "('g world, 'g option) prog"
    and left :: "'g world \<Rightarrow> nat" and inv :: "'g world \<Rightarrow> bool"
begin

lemma pair_terminates:
  assumes "pure_test test" "inv s" "left s < n" "found2 \<longrightarrow> found1"
  shows "fst (pair_loop n src1 src2 test (h1, found1, v1) (h2, found2, v2) s) \<noteq> Stuck"
  using assms(2-4)
proof (induction n arbitrary: h1 found1 v1 h2 found2 v2 s)
  case (Suc n)
  have del: "\<exists>t. only_if c (grib_handle_delete h) s = (Ok (), t) \<and> left t = left s \<and> inv t = inv s" for c h s
    using one.delete_frame [of h s] by (cases c) (simp_all add: run_simps)
  obtain s1 where s1: "only_if (h1 \<noteq> None \<and> \<not> found1) (grib_handle_delete h1) s = (Ok (), s1)"
    "left s1 = left s" "inv s1" using del [of _ h1 s] Suc.prems(1) by metis
  obtain s2 where s2: "only_if (h2 \<noteq> None \<and> \<not> found2) (grib_handle_delete h2) s1 = (Ok (), s2)"
    "left s2 = left s" "inv s2" using del [of _ h2 s1] s1 by metis
  have test: "\<exists>r. test (Some g) t = (r, t) \<and> r \<noteq> Stuck" for g t
    using assms(1) unfolding pure_test_def by (metis prod.collapse)
  consider "found1 \<and> found2" | "\<not> found1 \<and> \<not> found2" | "found1 \<and> \<not> found2" using Suc.prems(3) by blast
  then show ?case
  proof cases
    case 2
    show ?thesis
    proof (cases rule: one.src_cases [OF s2(3)])
      case (4 g t)
      obtain r where "test (Some g) t = (r, t)" "r \<noteq> Stuck" using test by blast
      with 2 4 s1 s2 Suc.IH [of t] Suc.prems show ?thesis
        by (cases r) (auto simp: run_simps split: option.split)
    qed (use 2 s1 s2 in \<open>simp_all add: run_simps\<close>)
  next
    case 3
    show ?thesis
    proof (cases rule: two.src_cases [OF s2(3)])
      case (4 g t)
      obtain r where "test (Some g) t = (r, t)" "r \<noteq> Stuck" using test by blast
      with 3 4 s1 s2 Suc.IH [of t] Suc.prems show ?thesis
        by (cases r) (auto simp: run_simps split: option.split)
    qed (use 3 s1 s2 in \<open>simp_all add: run_simps\<close>)
  qed (simp add: run_simps)
qed simp

end

definition all_left :: "'g world \<Rightarrow> nat" where
  "all_left s = records_left AFile s + records_left BFile s"

lemma new_from_file_drains:
  assumes "grib_handle_new_from_file w s = (Ok (Some g), t)"
  shows "all_left t < all_left s \<and> ignoreMissingInput t = ignoreMissingInput s"
proof -
  obtain f where f: "stream_of w s = Some f" "file_pos f < length (file_items f)"
    "t = (set_stream w (f\<lparr>file_pos := Suc (file_pos f)\<rparr>) s)\<lparr>live_handles := live_handles s + 1\<rparr>"
    using assms by (cases w) (auto simp: grib_handle_new_from_file_def run_simps split: option.splits if_splits sum.splits)
  then show ?thesis by (cases w) (simp_all add: all_left_def records_left_def)
qed

lemma all_left_frame [simp]: "all_left (s\<lparr>live_handles := n\<rparr>) = all_left s"
proof -
  have "records_left w (s\<lparr>live_handles := n\<rparr>) = records_left w s" for w by (cases w) (simp_all add: records_left_def)
  then show ?thesis by (simp add: all_left_def)
qed

lemma new_from_file_None:
  assumes "grib_handle_new_from_file w s = (Ok None, t)"
  shows "all_left t \<le> all_left s \<and> ignoreMissingInput t = ignoreMissingInput s"
  using assms
  by (cases w) (auto simp: grib_handle_new_from_file_def run_simps all_left_def records_left_def
      split: option.splits if_splits sum.splits)

interpretation file_drains: draining_source "grib_handle_new_from_file w" all_left "\<lambda>s. True" for w
  using never_stuck_new_from_file by unfold_locales (auto simp: never_stuck_def dest: new_from_file_drains)

lemma next_a_then_b_drains:
  assumes "next_a_then_b s = (Ok (Some g), t)"
  shows "all_left t < all_left s \<and> ignoreMissingInput t = ignoreMissingInput s"
proof -
  from assms obtain h s1 where 1: "grib_handle_new_from_file AFile s = (Ok h, s1)"
    "(if h = None then grib_handle_new_from_file BFile else ret h) s1 = (Ok (Some g), t)"
    unfolding next_a_then_b_def by (rule bnd_OkE)
  then show ?thesis using new_from_file_drains new_from_file_None [of AFile s s1]
    by (cases h) (force simp: run_simps)+
qed

lemma never_stuck_next_a_then_b [terminates]: "never_stuck next_a_then_b"
  unfolding next_a_then_b_def by (intro terminates)

lemma never_stuck_next_or_blank [terminates]: "never_stuck (next_or_blank P d c n l n_lat n_lon)"
  unfolding next_or_blank_def by (intro terminates)

interpretation ab_drains: draining_source next_a_then_b all_left "\<lambda>s. True"
  using never_stuck_next_a_then_b by unfold_locales (auto simp: never_stuck_def dest: next_a_then_b_drains)

text \<open>The source with blanks is used up as long as missing input is not ignored.\<close>

lemma next_or_blank_drains:
  assumes "next_or_blank P d c n l n_lat n_lon s = (Ok (Some g), t)" "ignoreMissingInput s = 0"
  shows "all_left t < all_left s \<and> ignoreMissingInput t = 0"
proof -
  from assms(1) obtain h s1 where 1: "grib_handle_new_from_file AFile s = (Ok h, s1)"
    "bnd (if h = None then grib_handle_new_from_file BFile else ret h) (\<lambda>h.
       bnd (rd ignoreMissingInput) (\<lambda>ignore.
       if h = None \<and> ignore \<noteq> 0 then newBlankGribRecord P d c n l n_lat n_lon else ret h)) s1 = (Ok (Some g), t)"
    unfolding next_or_blank_def by (rule bnd_OkE)
  from 1(2) obtain h' s2 where 2: "(if h = None then grib_handle_new_from_file BFile else ret h) s1 = (Ok h', s2)"
    "bnd (rd ignoreMissingInput) (\<lambda>ignore.
       if h' = None \<and> ignore \<noteq> 0 then newBlankGribRecord P d c n l n_lat n_lon else ret h') s2 = (Ok (Some g), t)"
    by (rule bnd_OkE)
  have h1: "if h = None then all_left s1 \<le> all_left s else all_left s1 < all_left s"
    "ignoreMissingInput s1 = 0"
    using new_from_file_None [of AFile s] new_from_file_drains [of AFile s] 1(1) assms(2) by (cases h; force)+
  have "ignoreMissingInput s2 = 0 \<and> (h' = None \<or> all_left s2 < all_left s)"
    using 2(1) h1 new_from_file_None [of BFile s1 s2] new_from_file_drains [of BFile s1 _ s2]
    by (cases h; cases h') (force simp: run_simps)+
  with 2(2) show ?thesis by (cases h') (auto simp: run_simps)
qed

interpretation blank_drains: draining_source "next_or_blank P d c n l n_lat n_lon" all_left
    "\<lambda>s. ignoreMissingInput s = 0" for P d c n l n_lat n_lon
  using never_stuck_next_or_blank [of P d c n l n_lat n_lon]
  by unfold_locales (auto simp: never_stuck_def dest: next_or_blank_drains)

interpretation soil_moisture_drains: draining_pair "grib_handle_new_from_file BFile" "grib_handle_new_from_file AFile"
    all_left "\<lambda>s. True" ..

interpretation soil_temperature_drains: draining_pair next_a_then_b next_a_then_b all_left "\<lambda>s. True" ..

interpretation radiation_drains: draining_pair "next_or_blank P 0 category 192 1 n_lat n_lon"
    "next_or_blank P 0 category 193 1 n_lat n_lon" all_left "\<lambda>s. ignoreMissingInput s = 0" for P category n_lat n_lon ..

lemma all_left_fuel: "all_left s < search_fuel s"
  by (simp add: all_left_def search_fuel_def)

lemma never_stuck_search [terminates]: "pure_test test \<Longrightarrow> never_stuck (search w test)"
  unfolding never_stuck_def search_def
  by (simp add: run_simps file_drains.seek_terminates all_left_fuel)

lemma never_stuck_soil_search [terminates]:
  "pure_test test \<Longrightarrow> never_stuck (pair_search (grib_handle_new_from_file BFile) (grib_handle_new_from_file AFile) test)"
  "pure_test test \<Longrightarrow> never_stuck (pair_search next_a_then_b next_a_then_b test)"
  unfolding never_stuck_def pair_search_def
  by (simp_all add: run_simps soil_moisture_drains.pair_terminates soil_temperature_drains.pair_terminates all_left_fuel)

lemma pv_loop_terminates: "all_left s < n \<Longrightarrow> fst (pv_loop n P temp skip sl s) \<noteq> Stuck"
proof (induction n arbitrary: s temp skip sl)
  case (Suc n)
  obtain s1 where s1: "only_if (temp \<noteq> None \<and> \<not> skip) (grib_handle_delete temp) s = (Ok (), s1)" "all_left s1 = all_left s"
    using file_drains.delete_frame [of temp s] by (cases "temp \<noteq> None \<and> \<not> skip") (auto simp: run_simps)
  have keys: "fst (continue (grib_get_long P h k t) f) \<noteq> Stuck" if "\<And>x. fst (f x t) \<noteq> Stuck" for h k t
      and f :: "int \<Rightarrow> ('a world, 'a pv_slots option) prog"
    using that pure_grib_get_long [of P h k t] by (cases "grib_get_long P h k t"; cases "fst (grib_get_long P h k t)") (auto simp: bnd_def)
  have dbl: "fst (continue (grib_get_double P h k t) f) \<noteq> Stuck" if "\<And>x. fst (f x t) \<noteq> Stuck" for h k t
      and f :: "cdouble \<Rightarrow> ('a world, 'a pv_slots option) prog"
    using that by (cases h; cases "api_get_double (grib P) (the h) k") (simp_all add: grib_get_double_def run_simps)
  show ?case
  proof (cases rule: file_drains.src_cases [OF TrueI, of BFile s1])
    case (4 g t)
    then have "all_left t < n" using Suc.prems s1(2) by simp
    then have "fst (pv_loop n P h x y t) \<noteq> Stuck" for h x y using Suc.IH by blast
    then show ?thesis using s1 4 by (simp add: run_simps keys dbl split: option.split)
  qed (use s1 in \<open>simp_all add: run_simps\<close>)
qed simp

lemma never_stuck_pv_search: "never_stuck (bnd (rd search_fuel) (\<lambda>fuel. pv_loop fuel P None False no_slots))"
  by (simp add: never_stuck_def run_simps pv_loop_terminates all_left_fuel)

subsection \<open>The generators\<close>

lemma never_stuck_average_layers [terminates]: "never_stuck (average_layers P f n fileName gh upper lower)"
  unfolding average_layers_def by (intro terminates)

lemma never_stuck_instant [terminates]:
  "never_stuck (generateTotalColumnWater P yyyy mm dd hh fff em)"
  "never_stuck (generateSnowFallWaterEquivalent P yyyy mm dd hh fff em)"
  "never_stuck (generateSoilMoisture P yyyy mm dd hh fff em)"
  "never_stuck (generateSoilTemperature P yyyy mm dd hh fff em)"
  unfolding generateTotalColumnWater_def generateSnowFallWaterEquivalent_def generateSoilMoisture_def
    generateSoilTemperature_def read_snow_inputs_def sum_column_water_def snow_fall_values_def Let_def
  by (intro terminates pure_read)+

lemma never_stuck_potential_temperature [terminates]:
  "never_stuck (generatePotentialTemperature P yyyy mm dd hh fff em)"
  unfolding generatePotentialTemperature_def potential_temperature_values_def Let_def
  by (subst bnd_assoc [symmetric, of "rd search_fuel"]) (intro terminates never_stuck_pv_search)

lemma never_stuck_hours [terminates]:
  "(\<And>fff acc. never_stuck (hour fff acc)) \<Longrightarrow> never_stuck (integrate_hours P n hour)"
  unfolding integrate_hours_def by (intro terminates)

lemma never_stuck_hour_steps [terminates]:
  "never_stuck (end_of_interval yyyy mm dd hh fff)" "never_stuck (resource_cell resource i)"
  "never_stuck (record_bytes v i)" "never_stuck (integrate_points n f run vs out)"
  "never_stuck (write_hour P settings yyyy mm dd hh fff em fileName values n)"
  unfolding end_of_interval_def resource_cell_def record_bytes_def integrate_points_def write_hour_def
  by (intro terminates)+

lemma never_stuck_open_saved [terminates]: "never_stuck (open_saved P v resource i)"
  unfolding open_saved_def saved_message_def by (intro terminates)

lemma never_stuck_hour_bodies [terminates]:
  "never_stuck (flux_hour P v settings point yyyy mm dd hh em resource fff acc)"
  "never_stuck (outgoing_hour P yyyy mm dd hh em resource fff acc)"
  "never_stuck (snow_hour P yyyy mm dd hh em resource fff acc)"
  "never_stuck (precipitation_hour P yyyy mm dd hh em resource fff acc)"
  unfolding flux_hour_def outgoing_hour_def snow_hour_def precipitation_hour_def Let_def
  by (intro terminates)+

lemma never_stuck_integrated [terminates]:
  "never_stuck (generateTimeIntegratedOutgoingLongWaveRadiation P yyyy mm dd hh em resource)"
  "never_stuck (generateTimeIntegratedSurfaceLatentHeatFlux P yyyy mm dd hh em resource)"
  "never_stuck (generateTimeIntegratedSurfaceSensibleHeatFlux P yyyy mm dd hh em resource)"
  "never_stuck (generateTimeIntegratedSurfaceNetSolarRadiation P yyyy mm dd hh em resource)"
  "never_stuck (generateTimeIntegratedSurfaceNetThermalRadiation P yyyy mm dd hh em resource)"
  "never_stuck (generateTimeIntegratedSnowFallWaterEquivalent P yyyy mm dd hh fff em resource)"
  "never_stuck (generateTotalPrecipitation P yyyy mm dd hh em resource)"
  unfolding generateTimeIntegratedOutgoingLongWaveRadiation_def generateTimeIntegratedSurfaceLatentHeatFlux_def
    generateTimeIntegratedSurfaceSensibleHeatFlux_def generateTimeIntegratedSurfaceNetSolarRadiation_def
    generateTimeIntegratedSurfaceNetThermalRadiation_def generateTimeIntegratedSnowFallWaterEquivalent_def
    generateTotalPrecipitation_def
  by (intro terminates)+

lemma never_stuck_queue_contains [terminates]: "never_stuck (queue_contains name)"
  unfolding queue_contains_def by (intro terminates)

text \<open>C17. Every generator comes back, in every state and for every input: the loops that look for records end
  when a file is used up at the latest, and the other loops are counted.\<close>

theorem generators_terminate:
  "fst (generateVariable P varName yyyy mm dd hh fff em resource s) \<noteq> Stuck"
proof -
  have "never_stuck (generateVariable P varName yyyy mm dd hh fff em resource)"
    unfolding generateVariable_def by (intro terminates)
  then show ?thesis by (simp add: never_stuck_def)
qed

subsection \<open>The loaders of the fluxes\<close>

lemma reset_first:
  assumes "fst (n s) \<noteq> Stuck" shows "fst (seq (reset_if_zero v) n s) \<noteq> Stuck"
proof (cases "valid_index v")
  case True
  then show ?thesis using assms by (simp add: run_simps)
qed (simp add: reset_if_zero_def run_simps)

lemma then_never_stuck:
  assumes "fst (m s) \<noteq> Stuck" "\<And>x. never_stuck (f x)" shows "fst (bnd m f s) \<noteq> Stuck"
  unfolding bnd_def by (rule fst_continue) (use assms in \<open>simp_all add: never_stuck_def\<close>)

lemma never_stuck_save_record [terminates]: "never_stuck (save_record P v a h)"
  unfolding save_record_def addGribRecordToArray_def realloc_cells_def Let_def by (intro terminates)

lemma never_stuck_arithmetic [terminates]:
  "never_stuck (radiation_operands P n h1 v1 h2 v2 old1 old2)" "never_stuck (subtract_arrays n new old1 old2)"
  unfolding radiation_operands_def subtract_arrays_def by (intro terminates)+

text \<open>C18. When missing input is not ignored (every hour but the first), the loaders of the five fluxes come back
  whatever the input files hold.\<close>

theorem flux_loaders_terminate:
  assumes "is_flux v" "ignoreMissingInput s = 0"
  shows "fst (loader_of P v a n_lat n_lon s) \<noteq> Stuck"
proof -
  have one: "fst (loadFlux P v d c n l a n_lat n_lon s) \<noteq> Stuck" for v d c n l
    unfolding loadFlux_def
  proof (rule reset_first)
    have "fst (seek (search_fuel s) (next_or_blank P d c n l n_lat n_lon) (read4 P (wanted_record d c n l)) None s) \<noteq> Stuck"
      using assms(2) all_left_fuel by (intro blank_drains.seek_terminates pure_read)
    then show "fst (bnd (rd search_fuel) (\<lambda>fuel. bnd (seek fuel (next_or_blank P d c n l n_lat n_lon)
        (read4 P (wanted_record d c n l)) None) (\<lambda>h. if h = None then ret None else
        bnd (save_record P (vid v) a h) (\<lambda>retBuffer. seq (grib_handle_delete h) (
        seq (rewind AFile) (seq (rewind BFile) (ret retBuffer)))))) s) \<noteq> Stuck"
      unfolding bnd_run [of "rd search_fuel"] rd_run continue.simps
      by (rule then_never_stuck) (intro terminates)
  qed
  have two: "fst (loadNetRadiation P v category a n_lat n_lon s) \<noteq> Stuck" for v category
    unfolding loadNetRadiation_def Let_def
  proof (rule reset_first, rule then_never_stuck)
    show "fst (pair_search (next_or_blank P 0 category 192 1 n_lat n_lon) (next_or_blank P 0 category 193 1 n_lat n_lon)
        (read4 P (is_radiation category)) s) \<noteq> Stuck"
      unfolding pair_search_def bnd_run rd_run continue.simps
      using assms(2) all_left_fuel by (intro radiation_drains.pair_terminates pure_read) simp_all
  qed (intro terminates)
  show ?thesis using assms(1) one two
    by (auto simp: loader_of_def loadDataForTimeIntegratedOutgoingLongWaveRadiation_def
        loadDataForTimeIntegratedSurfaceLatentHeatFlux_def loadDataForTimeIntegratedSurfaceSensibleHeatFlux_def
        loadDataForTimeIntegratedSurfaceNetSolarRadiation_def loadDataForTimeIntegratedSurfaceNetThermalRadiation_def)
qed

end
