(* ===== verification/SamplePlatform.thy ===== *)
theory SamplePlatform
  imports Driver
begin

text \<open>
  A concrete GRIB library and environment, on which the hypotheses of the properties can be
  checked: a handle is an association list of integer keys with the list of its values, every
  setting succeeds, and the message of a record is the list of its values as bytes. It only
  serves to show that the hypotheses can hold.
\<close>

type_synonym sample_handle = "(string \<times> int) list \<times> cdouble list"

definition to_byte :: "cdouble \<Rightarrow> byte" where
  "to_byte x = (case x of Fin r \<Rightarrow> word_of_int \<lfloor>r\<rfloor> | _ \<Rightarrow> 0)"

definition of_byte :: "byte \<Rightarrow> cdouble" where
  "of_byte b = Fin (of_int (uint b))"

definition sample_get_long :: "sample_handle \<Rightarrow> string \<Rightarrow> int + int" where
  "sample_get_long h k = (case map_of (fst h) k of None \<Rightarrow> Inl (-10) | Some v \<Rightarrow> Inr v)"

definition sample_grib :: "sample_handle grib_api" where
  "sample_grib = \<lparr>
     handle_from_template = (\<lambda>name. if name = ''GRIB2'' then Some ([(''totalLength'', 1)], []) else None),
     handle_from_message = (\<lambda>bytes. Some ([(''parameterNumber'', 0)], map of_byte bytes)),
     api_set_long = (\<lambda>h k v. Inr ((k, v) # fst h, snd h)),
     api_set_missing = (\<lambda>h k. Inr (fst h, snd h)),
     api_set_doubles = (\<lambda>h k vs. Inr (fst h, vs)),
     api_get_long = sample_get_long,
     api_get_double = (\<lambda>h k. case sample_get_long h k of Inl e \<Rightarrow> Inl e | Inr v \<Rightarrow> Inr (Fin (of_int v))),
     api_get_size = (\<lambda>h k. Inr (length (snd h))),
     api_get_doubles = (\<lambda>h k. Inr (snd h)),
     api_message = (\<lambda>h. Inr (map to_byte (snd h)))\<rparr>"

definition sample :: "(string \<Rightarrow> (int + sample_handle) list option) \<Rightarrow> sample_handle platform" where
  "sample files = \<lparr>
     grib = sample_grib,
     libm_pow = (\<lambda>x y. x),
     alloc_ok = (\<lambda>n. True),
     clock_minute = 30,
     env_TIGGE_INPUT = Some ''in'',
     env_TIGGE_OUTPUT = Some ''out'',
     input_files = files,
     out_opens = (\<lambda>name. True),
     out_writes = (\<lambda>name. True)\<rparr>"

definition no_files :: "string \<Rightarrow> (int + sample_handle) list option" where
  "no_files name = None"

definition start_world :: "sample_handle world" where
  "start_world = \<lparr>variablesToProcess = replicate NUMBER_OF_VARIABLES 0, numberOfSavedRecords = (\<lambda>v. 0),
     bytesPerRecord = (\<lambda>v i. 0), ignoreMissingInput = 0, aFile = None, bFile = None, output_files = [],
     live_handles = 0, live_blocks = 0, open_outputs = 0, allocations = 0\<rparr>"

definition opened :: "'g list \<Rightarrow> 'g gfile" where
  "opened gs = \<lparr>file_items = map Inr gs, file_pos = 0, file_eof = False\<rparr>"

text \<open>A world in which the input files are open with these records.\<close>

definition world_with :: "sample_handle list \<Rightarrow> sample_handle list \<Rightarrow> sample_handle world" where
  "world_with as bs = start_world\<lparr>aFile := Some (opened as), bFile := Some (opened bs)\<rparr>"

text \<open>A record with the keys the searches read.\<close>

definition field :: "int \<Rightarrow> int \<Rightarrow> int \<Rightarrow> int \<Rightarrow> int \<Rightarrow> cdouble list \<Rightarrow> sample_handle" where
  "field d c n l v vs = ([(''discipline'', d), (''parameterCategory'', c), (''parameterNumber'', n),
     (''typeOfFirstFixedSurface'', l), (''scaledValueOfFirstFixedSurface'', v), (''totalLength'', 100)], vs)"

definition path_of :: "tiggeVariableNames \<Rightarrow> int \<Rightarrow> int \<Rightarrow> int \<Rightarrow> int \<Rightarrow> int \<Rightarrow> int \<Rightarrow> string" where
  "path_of v yyyy mm dd hh fff em = ''out/'' @ the (generateFileName (vid v) yyyy mm dd hh fff em)"

lemma allocs_sample [simp]: "allocs_succeed (sample files)"
  by (simp add: allocs_succeed_def sample_def)

lemma sample_simps [simp]:
  "grib (sample files) = sample_grib" "libm_pow (sample files) x y = x" "clock_minute (sample files) = 30"
  "env_TIGGE_INPUT (sample files) = Some ''in''" "env_TIGGE_OUTPUT (sample files) = Some ''out''"
  "input_files (sample files) = files" "out_opens (sample files) p" "out_writes (sample files) p"
  by (simp_all add: sample_def)

lemma sample_grib_simps [simp]:
  "handle_from_template sample_grib ''GRIB2'' = Some ([(''totalLength'', 1)], [])"
  "handle_from_message sample_grib bytes = Some ([(''parameterNumber'', 0)], map of_byte bytes)"
  "api_set_long sample_grib h k v = Inr ((k, v) # fst h, snd h)"
  "api_set_missing sample_grib h k = Inr (fst h, snd h)"
  "api_set_doubles sample_grib h k vs = Inr (fst h, vs)"
  "api_get_long sample_grib h k = sample_get_long h k"
  "api_get_size sample_grib h k = Inr (length (snd h))"
  "api_get_doubles sample_grib h k = Inr (snd h)"
  "api_message sample_grib h = Inr (map to_byte (snd h))"
  by (simp_all add: sample_grib_def)

lemma sample_settings: "\<exists>ks. apply_settings sample_grib (keys, vs) xs = Inr (ks @ keys, vs)"
proof (induction xs arbitrary: keys)
  case (Cons x xs)
  show ?case
  proof (cases x)
    case (SetLong k v)
    then show ?thesis using Cons.IH [of "(k, v) # keys"] by (auto intro: exI [of _ "_ @ [(k, v)]"])
  next
    case (SetMissing k)
    then show ?thesis using Cons.IH [of keys] by auto
  qed
qed (simp add: exI [of _ "[]"])

lemma sample_produces [simp]: "produces (sample files) base meta vs (map to_byte vs)"
proof -
  obtain ks ls where "apply_settings sample_grib ([(''totalLength'', 1)], []) base = Inr (ks @ [(''totalLength'', 1)], [])"
    "apply_settings sample_grib (ks @ [(''totalLength'', 1)], []) meta = Inr (ls @ ks @ [(''totalLength'', 1)], [])"
    using sample_settings by metis
  then show ?thesis by (auto simp: produces_def base_record_def)
qed

lemma sample_temporary [simp]: "temporary_record (sample files) base vs (map to_byte vs)"
proof -
  obtain ks where "apply_settings sample_grib ([(''totalLength'', 1)], []) base = Inr (ks @ [(''totalLength'', 1)], [])"
    using sample_settings by metis
  moreover have "\<exists>k. sample_get_long (ks @ [(''totalLength'', 1)], vs) ''totalLength'' = Inr k"
    by (auto simp: sample_get_long_def map_add_def split: option.split)
  ultimately show ?thesis by (auto simp: temporary_record_def base_record_def saves_def)
qed

lemma sample_destination:
  assumes "name_fields yyyy mm dd hh fff em"
  shows "destination (sample files) v yyyy mm dd hh fff em (path_of v yyyy mm dd hh fff em)"
proof -
  have "known_id (vid v)" by (cases v) (simp_all add: known_id_def)
  then obtain p where "variableShortName (vid v) = Some p" using variableShortName_Some_iff by blast
  then obtain n where n: "generateFileName (vid v) yyyy mm dd hh fff em = Some n"
    by (simp add: generateFileName_def Let_def)
  have "length n \<le> 70"
    by (rule generateFileName_length [OF _ _ _ _ _ n]) (use assms in \<open>simp_all add: name_fields_def\<close>)
  with n show ?thesis by (simp add: destination_def writable_def path_of_def)
qed

lemma sample_saves [simp]: "saves (sample files) (field d c n l v vs) (map to_byte vs)"
  by (simp add: saves_def field_def sample_get_long_def)

lemma sample_values [simp]: "has_values (sample files) (field d c n l v vs) vs"
  by (simp add: has_values_def field_def)

lemma sample_doubles [simp]: "api_get_doubles sample_grib (field d c n l v vs) k = Inr vs"
  by (simp add: field_def)

lemma sample_keys [simp]:
  "keys3 sample_grib (field d c n l v vs) d' c' n' \<longleftrightarrow> d = d' \<and> c = c' \<and> n = n'"
  "keys4 sample_grib (field d c n l v vs) d' c' n' l' \<longleftrightarrow> d = d' \<and> c = c' \<and> n = n' \<and> l = l'"
  "keys5 sample_grib (field d c n l v vs) d' c' n' l' v' \<longleftrightarrow> d = d' \<and> c = c' \<and> n = n' \<and> l = l' \<and> v = v'"
  by (auto simp: keys3_def keys4_def keys5_def field_def sample_get_long_def)

lemma sample_says [simp]:
  "says3 sample_grib f3 (field d c n l v vs) x \<longleftrightarrow> f3 d c n = x"
  "says4 sample_grib f4 (field d c n l v vs) x \<longleftrightarrow> f4 d c n l = x"
  "says5 sample_grib f5 (field d c n l v vs) x \<longleftrightarrow> f5 d c n l v = x"
  by (auto simp: says3_def says4_def says5_def)

lemma world_with_simps [simp]:
  "aFile (world_with as bs) = Some (opened as)" "bFile (world_with as bs) = Some (opened bs)"
  "file_items (opened gs) = map Inr gs" "file_pos (opened gs) = 0" "\<not> file_eof (opened gs)"
  by (simp_all add: world_with_def opened_def)

end
