(* ===== verification/SampleRuns.thy ===== *)
theory SampleRuns
  imports Loading Termination SamplePlatform
begin

text \<open>
  The properties of the program and of its generators at concrete inputs, on the platform of
  \<open>SamplePlatform\<close>: their hypotheses can hold.
\<close>

subsection \<open>The program\<close>

definition early_points :: nat where
  "early_points = 65160"

definition ones :: "cdouble list" where
  "ones = replicate early_points (Fin 1)"

definition one_field :: "int \<Rightarrow> int \<Rightarrow> int \<Rightarrow> sample_handle" where
  "one_field c n l = field 0 c n l 0 ones"

definition same_everywhere :: "sample_handle list \<Rightarrow> string \<Rightarrow> (int + sample_handle) list option" where
  "same_everywhere gs name = Some (map Inr gs)"

lemma early_grid [simp]:
  "get_n_lat 2020 1 2 0 = 181" "get_n_lon 2020 1 2 0 = 360" "get_n_points 2020 1 2 0 = int early_points"
  "get_n_members 2020 1 2 0 = 21"
  using before_change_iff [of 2020 1 2 0]
  by (simp_all add: four_digit_date_def get_n_lat_def get_n_lon_def get_n_points_def get_n_members_def
      early_points_def)

lemma ones_simps [simp]: "length ones = early_points" "map of_byte (map to_byte ones) = ones"
  by (simp_all add: ones_def of_byte_def to_byte_def)

lemma ones_bytes [simp]: "map to_byte ones \<noteq> []" "map (of_byte \<circ> to_byte) ones = ones"
  using ones_simps by (simp_all add: ones_def early_points_def)

lemma start_simps [simp]:
  "length (variablesToProcess start_world) = NUMBER_OF_VARIABLES" "numberOfSavedRecords start_world v = 0"
  "output_files start_world = []"
  by (simp_all add: start_world_def)

lemma early_hours:
  "k < FORECAST_HOURS div 6 + 1 \<Longrightarrow> name_fields 2020 1 2 0 (6 * int k) (int em) \<longleftrightarrow> em \<le> 999"
  by (simp add: name_fields_def four_digit_date_def FORECAST_HOURS_def)

lemma same_input_hour:
  assumes "k < FORECAST_HOURS div 6 + 1" "em \<le> 99"
  shows "input_hour (sample (same_everywhere gs)) 2020 1 2 0 (int em) (6 * int k) (map Inr gs) (map Inr gs)"
proof -
  have "length (generateInputFilename ''in'' n 2020 1 2 0 (6 * int k) (int em)) < 256" for n
    using assms input_name_lengths [of 2020 1 2 0 "int em" "6 * int k" "''in''" n]
    by (simp add: four_digit_date_def FORECAST_HOURS_def)
  then show ?thesis by (simp add: input_hour_def same_everywhere_def)
qed

lemma flux_input_first:
  assumes "allocs_succeed P" "saves P g m" "says4 (grib P) (wanted_record d c n l) g True"
  shows "flux_input P d c n l n_lat n_lon i (Inr g # as) bs k m"
proof -
  have "first_hit (says4 (grib P) (wanted_record d c n l)) False True (ab_records (fresh (Inr g # as)) (fresh bs)) g"
    unfolding first_hit_def by (rule exI [of _ "[]"]) (simp add: ab_records_def Let_def assms(3))
  with assms(1,2) show ?thesis by (auto simp: flux_input_def)
qed

definition sample_outs :: "tiggeVariableNames \<Rightarrow> (int \<Rightarrow> cdouble \<Rightarrow> cdouble \<Rightarrow> cdouble \<times> cdouble) \<Rightarrow> nat \<Rightarrow> nat
    \<Rightarrow> string \<times> byte list" where
  "sample_outs v point em k = (path_of v 2020 1 2 0 (6 * int k) (int em),
     map to_byte (hour_field point (\<lambda>_. ones) early_points k))"

lemma sample_record_gives [simp]: "record_gives (sample files) (map to_byte ones) ones"
  by (simp add: record_gives_def sample_get_long_def)

lemma sample_hour_output:
  assumes "k < FORECAST_HOURS div 6 + 1" "em \<le> 99"
  shows "hour_output (sample files) v settings 2020 1 2 0 (int em) (6 * int k)
    (hour_field point (\<lambda>_. ones) early_points k) (sample_outs v point em k)"
  using sample_destination [of 2020 1 2 0 "6 * int k" "int em"] early_hours [OF assms(1), of em] assms(2)
  by (simp add: hour_output_def sample_outs_def)

lemma early_end:
  "\<exists>tmEnd. timeAdd \<lparr>yr = 2020, mo = 1, dy = 2, hr = 0, mn = 0\<rparr> (hours_offset (6 * int k)) = Some tmEnd"
proof -
  have "valid_date \<lparr>yr = 2020, mo = 1, dy = 2, hr = 0, mn = 0\<rparr>"
    by (simp add: valid_date_def month_len_def mosiz_def)
  from timeAdd_hours [OF this, of "6 * int k"] show ?thesis by auto
qed

lemma sample_records_ok:
  assumes "em \<le> 99"
  shows "records_ok (sample files) v settings point 2020 1 2 0 (int em)
    (replicate (FORECAST_HOURS div 6 + 1) (map to_byte ones)) (sample_outs v point em)"
  unfolding records_ok_def
proof (intro conjI exI allI impI)
  fix k assume k: "k < FORECAST_HOURS div 6 + 1"
  then show "replicate (FORECAST_HOURS div 6 + 1) (map to_byte ones) ! k \<noteq> []"
    "record_gives (sample files) (replicate (FORECAST_HOURS div 6 + 1) (map to_byte ones) ! k) ((\<lambda>_. ones) k)"
    by (simp_all only: nth_replicate ones_bytes sample_record_gives not_False_eq_True)
  obtain e where "timeAdd \<lparr>yr = 2020, mo = 1, dy = 2, hr = 0, mn = 0\<rparr> (hours_offset (6 * int k)) = Some e"
    using early_end by blast
  then show "timeAdd \<lparr>yr = 2020, mo = 1, dy = 2, hr = 0, mn = 0\<rparr> (hours_offset (6 * int k)) =
      Some (the (timeAdd \<lparr>yr = 2020, mo = 1, dy = 2, hr = 0, mn = 0\<rparr> (hours_offset (6 * int k))))" by simp
  show "hour_output (sample files) v (settings (the (timeAdd \<lparr>yr = 2020, mo = 1, dy = 2, hr = 0, mn = 0\<rparr>
      (hours_offset (6 * int k)))) (6 * int k)) 2020 1 2 0 (int em) (6 * int k)
      (hour_field point (\<lambda>_. ones) (nat (get_n_points 2020 1 2 0)) k) (sample_outs v point em k)"
    using sample_hour_output [OF k assms] by simp
qed (simp_all add: allocs_sample)

text \<open>A run for total column water and sensible heat, with the same three records in every file.\<close>

definition three_records :: "sample_handle list" where
  "three_records = [one_field 0 11 1, field 0 1 3 200 0 ones, field 0 6 6 200 0 ones]"

definition column_outs :: "nat \<Rightarrow> nat \<Rightarrow> string \<times> byte list" where
  "column_outs em k = (path_of TOTAL_COLUMN_WATER 2020 1 2 0 (6 * int k) (int em), map to_byte (map2 dadd ones ones))"

definition both_outs :: "nat \<Rightarrow> tiggeVariableNames \<Rightarrow> nat \<Rightarrow> string \<times> byte list" where
  "both_outs em v = (if v = TOTAL_COLUMN_WATER then column_outs em else sample_outs v (flux_point (dlit (- 21600))) em)"

lemma column_now:
  assumes "k < FORECAST_HOURS div 6 + 1" "em \<le> 99"
  shows "variable_now (sample files) TOTAL_COLUMN_WATER 2020 1 2 0 (6 * int k) (int em)
    (map Inr three_records) (map Inr three_records) (column_outs em k)"
proof -
  have "destination (sample files) TOTAL_COLUMN_WATER 2020 1 2 0 (6 * int k) (int em) (fst (column_outs em k))"
    using sample_destination [of 2020 1 2 0 "6 * int k" "int em"] early_hours [OF assms(1), of em] assms(2)
    by (simp add: column_outs_def)
  moreover have "first_hit (says4 sample_grib is_precipitable_water) False True three_records (field 0 1 3 200 0 ones)"
    unfolding three_records_def one_field_def by (intro first_hit_Cons) (simp_all add: is_precipitable_water_def)
  moreover have "first_hit (says4 sample_grib is_cloud_water) False True three_records (field 0 6 6 200 0 ones)"
    unfolding three_records_def one_field_def by (intro first_hit_Cons) (simp_all add: is_cloud_water_def)
  moreover have "produces (sample files) (base_settings 2020 1 2 0 (6 * int k) (int em))
      (total_column_water_settings (6 * int k)) (map2 dadd ones ones) (snd (column_outs em k))"
    unfolding column_outs_def snd_conv by (rule sample_produces)
  ultimately show ?thesis
    unfolding variable_now_def tiggeVariableNames.case at_start_def total_column_water_input_def
    by (intro conjI exI [of _ ones] exI [of _ "field 0 1 3 200 0 ones"] exI [of _ "field 0 6 6 200 0 ones"])
      (simp_all del: zip_map1 zip_map2)
qed

lemma both_requested: "requested [''tcw'', ''sshf''] = {TOTAL_COLUMN_WATER, TIME_INTEGRATED_SURFACE_SENSIBLE_HEAT_FLUX}"
proof -
  have "v \<in> requested [''tcw'', ''sshf''] \<longleftrightarrow> v \<in> {TOTAL_COLUMN_WATER, TIME_INTEGRATED_SURFACE_SENSIBLE_HEAT_FLUX}" for v
    by (cases v) (simp_all add: requested_def shortName_table)
  then show ?thesis by blast
qed

lemma both_ready:
  assumes "em < 21"
  shows "member_input (sample (same_everywhere three_records))
    {TOTAL_COLUMN_WATER, TIME_INTEGRATED_SURFACE_SENSIBLE_HEAT_FLUX} 2020 1 2 0 (int em) (both_outs em)"
proof -
  let ?v = TIME_INTEGRATED_SURFACE_SENSIBLE_HEAT_FLUX and ?P = "sample (same_everywhere three_records)"
  let ?ms = "\<lambda>_. replicate (FORECAST_HOURS div 6 + 1) (map to_byte ones)"
  have i: "variable_input ?P ?v a b i (map Inr three_records) (map Inr three_records) k (map to_byte ones)" for a b i k
    unfolding variable_input_def tiggeVariableNames.case three_records_def one_field_def list.map
    by (rule flux_input_first) (simp_all add: wanted_record_def)
  have o: "variable_output ?P ?v 2020 1 2 0 (int em) (?ms ?v) (both_outs em ?v)"
    using sample_records_ok [of em] assms by (simp add: variable_output_def both_outs_def)
  have h: "hour_ready ?P (variable_input ?P) (variable_now ?P) {TOTAL_COLUMN_WATER, ?v} 2020 1 2 0 (int em) ?ms (both_outs em) k"
    if k: "k < FORECAST_HOURS div 6 + 1" for k
    unfolding hour_ready_def
  proof (intro exI conjI)
    show "input_hour ?P 2020 1 2 0 (int em) (6 * int k) (map Inr three_records) (map Inr three_records)"
      using same_input_hour [OF k, of em] assms by simp
    show "\<forall>v. v \<in> {TOTAL_COLUMN_WATER, ?v} \<longrightarrow> integrated v \<longrightarrow>
        variable_input ?P v (get_n_lat 2020 1 2 0) (get_n_lon 2020 1 2 0) (ignored v k)
          (map Inr three_records) (map Inr three_records) k (?ms v ! k)"
      using i k by (auto simp: integrated_def simp del: replicate_Suc)
    show "\<forall>v. v \<in> {TOTAL_COLUMN_WATER, ?v} \<longrightarrow> is_instant v \<longrightarrow>
        variable_now ?P v 2020 1 2 0 (6 * int k) (int em) (map Inr three_records) (map Inr three_records) (both_outs em v k)"
      using column_now [OF k, of em] assms by (auto simp: both_outs_def)
  qed
  show ?thesis unfolding member_input_def
    by (intro exI [of _ ?ms] conjI allI impI h)
      (use o in \<open>auto simp: integrated_def simp del: replicate_Suc\<close>)
qed


subsection \<open>The generators of one hour\<close>

lemma early_destination [simp]:
  "destination (sample files) v 2020 1 2 0 6 1 (path_of v 2020 1 2 0 6 1)"
  "destination (sample files) v 2020 1 2 0 0 1 (path_of v 2020 1 2 0 0 1)"
  by (rule sample_destination; simp add: name_fields_def four_digit_date_def)+

lemma first_record [simp]: "says g yes \<Longrightarrow> first_hit says no yes (g # gs) g"
  by (rule first_hit_Cons)

lemma world_with_output [simp]:
  "output_files (world_with as bs) = []" "live_handles (world_with as bs) = 0" "live_blocks (world_with as bs) = 0"
  "numberOfSavedRecords (world_with as bs) v = 0" "ignoreMissingInput (world_with as bs) = 0"
  by (simp_all add: world_with_def start_world_def)

lemma snd_field [simp]: "snd (field d c n l v vs) = vs"
  by (simp add: field_def)

lemma sample_messages [simp]:
  "ms = map to_byte vs \<Longrightarrow> produces (sample files) base meta vs ms"
  "ms = map to_byte vs \<Longrightarrow> temporary_record (sample files) base vs ms"
  "ms = map to_byte vs \<Longrightarrow> saves (sample files) (field d c n l v vs) ms"
  by simp_all

theorem generateTotalColumnWater_run_witness:
  "output_files (snd (generateTotalColumnWater (sample no_files) 2020 1 2 0 6 1
      (world_with [field 0 1 3 200 0 [Fin 1, Fin 2]] [field 0 6 22 200 0 [], field 0 6 6 200 0 [Fin 3, Fin 4]]))) =
    [(path_of TOTAL_COLUMN_WATER 2020 1 2 0 6 1, map to_byte [dadd (Fin 1) (Fin 3), dadd (Fin 2) (Fin 4)])]"
  using generateTotalColumnWater_run [where P = "sample no_files" and fa = "opened [field 0 1 3 200 0 [Fin 1, Fin 2]]"
      and fb = "opened [field 0 6 22 200 0 [], field 0 6 6 200 0 [Fin 3, Fin 4]]"
      and s = "world_with [field 0 1 3 200 0 [Fin 1, Fin 2]] [field 0 6 22 200 0 [], field 0 6 6 200 0 [Fin 3, Fin 4]]"
      and g = "field 0 1 3 200 0 [Fin 1, Fin 2]" and h = "field 0 6 6 200 0 [Fin 3, Fin 4]"
      and xs = "[Fin 1, Fin 2]" and ys = "[Fin 3, Fin 4]" and yyyy = 2020 and mm = 1 and dd = 2 and hh = 0
      and fff = 6 and em = 1 and path = "path_of TOTAL_COLUMN_WATER 2020 1 2 0 6 1"
      and m = "map to_byte [dadd (Fin 1) (Fin 3), dadd (Fin 2) (Fin 4)]"]
  by (simp add: is_precipitable_water_def is_cloud_water_def first_hit_Cons(2) del: dadd.simps)

theorem generateSnowFall_run_witness:
  "output_files (snd (generateSnowFallWaterEquivalent (sample no_files) 2020 1 2 0 6 1
      (world_with [field 0 1 8 1 0 [Fin 3, Fin 4], field 0 1 195 1 0 [Fin 0, Fin 1]] []))) =
    [(path_of SNOW_FALL_WATER_EQUIVALENT 2020 1 2 0 6 1,
      map to_byte [snow_where_snowing (Fin 0) (Fin 3), snow_where_snowing (Fin 1) (Fin 4)])]"
  using generateSnowFall_run [where P = "sample no_files"
      and fa = "opened [field 0 1 8 1 0 [Fin 3, Fin 4], field 0 1 195 1 0 [Fin 0, Fin 1]]"
      and s = "world_with [field 0 1 8 1 0 [Fin 3, Fin 4], field 0 1 195 1 0 [Fin 0, Fin 1]] []"
      and g = "field 0 1 195 1 0 [Fin 0, Fin 1]" and h = "field 0 1 8 1 0 [Fin 3, Fin 4]"
      and xs = "[Fin 0, Fin 1]" and ys = "[Fin 3, Fin 4]" and yyyy = 2020 and mm = 1 and dd = 2 and hh = 0
      and fff = 6 and em = 1 and path = "path_of SNOW_FALL_WATER_EQUIVALENT 2020 1 2 0 6 1"
      and m = "map to_byte [snow_where_snowing (Fin 0) (Fin 3), snow_where_snowing (Fin 1) (Fin 4)]"]
  by (simp add: is_categorical_snow_def is_total_rainfall_def first_hit_Cons(2))

theorem generateSoilMoisture_run_witness:
  "output_files (snd (generateSoilMoisture (sample no_files) 2020 1 2 0 6 1
      (world_with [field 2 0 192 106 10 [Fin 1]] [field 2 0 192 106 0 [Fin 3]]))) =
    [(path_of SOIL_MOISTURE 2020 1 2 0 6 1, map to_byte [soil_moisture_value (Fin 3) (Fin 1)])]"
  using generateSoilMoisture_run [where P = "sample no_files" and fa = "opened [field 2 0 192 106 10 [Fin 1]]"
      and fb = "opened [field 2 0 192 106 0 [Fin 3]]"
      and s = "world_with [field 2 0 192 106 10 [Fin 1]] [field 2 0 192 106 0 [Fin 3]]"
      and g = "field 2 0 192 106 0 [Fin 3]" and h = "field 2 0 192 106 10 [Fin 1]" and ?v1.0 = 192 and ?v2.0 = 192
      and xs = "[Fin 3]" and ys = "[Fin 1]" and yyyy = 2020 and mm = 1 and dd = 2 and hh = 0
      and fff = 6 and em = 1 and path = "path_of SOIL_MOISTURE 2020 1 2 0 6 1"
      and m = "map to_byte [soil_moisture_value (Fin 3) (Fin 1)]"]
  by (simp add: is_soil_moisture_def first_some_def early_points_def)

text \<open>The four fields of the potential temperature: at the northern level, at another one, and the temperatures.\<close>

definition pv_records :: "(sample_handle \<times> pv_kind) list" where
  "pv_records = [(field 0 3 0 109 2000 [Fin 50000], PressureNorth), (field 0 3 0 109 7 [Fin 9999], PressureOther),
     (field 0 0 0 109 2000 [Fin 300], TemperatureNorth), (field 0 0 0 109 7 [Fin 9999], TemperatureOther)]"

lemma north_levels [simp]: "north_level (Fin 2000)" "\<not> north_level (Fin 7)"
  by (simp_all add: north_level_def dlit_def rnd_numeral)

lemma sample_pv_kind:
  assumes "pv_kind_of d c n l (Fin (of_int v)) = k"
  shows "is_pv_kind sample_grib (field d c n l v vs, k)"
proof -
  have "keys4 sample_grib (field d c n l v vs) d c n l" by simp
  moreover have "api_get_double sample_grib (field d c n l v vs) ''scaledValueOfFirstFixedSurface'' = Inr (Fin (of_int v))"
    by (simp add: sample_grib_def field_def sample_get_long_def)
  ultimately show ?thesis using assms unfolding is_pv_kind_def by auto
qed

lemma pv_records_kinds: "list_all (is_pv_kind sample_grib) pv_records"
  by (simp add: pv_records_def sample_pv_kind pv_kind_of_def)

lemma sample_pow [simp]: "libm_pow (sample files) = (\<lambda>x y. x)"
  by (simp add: sample_def)

theorem generatePotentialTemperature_run_witness:
  "output_files (snd (generatePotentialTemperature (sample no_files) 2020 1 2 0 6 1
      (world_with [] (map fst pv_records)))) =
    [(path_of POTENTIAL_TEMPERATURE 2020 1 2 0 6 1,
      map to_byte (potential_temperature_field (\<lambda>x y. x) [Fin 50000] [Fin 9999] [Fin 300] [Fin 9999]))]"
  using generatePotentialTemperature_run [where P = "sample no_files" and fa = "opened []"
      and fb = "opened (map fst pv_records)" and s = "world_with [] (map fst pv_records)" and xs = pv_records
      and gpN = "field 0 3 0 109 2000 [Fin 50000]" and gpS = "field 0 3 0 109 7 [Fin 9999]"
      and gtN = "field 0 0 0 109 2000 [Fin 300]" and gtS = "field 0 0 0 109 7 [Fin 9999]"
      and pN = "[Fin 50000]" and pS = "[Fin 9999]" and tN = "[Fin 300]" and tS = "[Fin 9999]"
      and yyyy = 2020 and mm = 1 and dd = 2 and hh = 0 and fff = 6 and em = 1
      and path = "path_of POTENTIAL_TEMPERATURE 2020 1 2 0 6 1"
      and m = "map to_byte (potential_temperature_field (\<lambda>x y. x) [Fin 50000] [Fin 9999] [Fin 300] [Fin 9999])"]
    pv_records_kinds
  by (simp add: pv_records_def no_slots_def all_found_def)


theorem merge_both_present_witness:
  "potential_temperature_value (\<lambda>x y. x) (Fin 1) (Fin 2) (Fin 300) (Fin 302) = dlit 9999"
  by (rule merge_both_present) (simp_all add: dlit_def rnd_numeral)

subsection \<open>Running sums\<close>

definition halves :: "nat \<Rightarrow> cdouble list" where
  "halves j = [Fin (1 / 2)]"

lemma halves_exact: "exact_inputs (-1) 1 1 65 halves"
proof -
  have "short (- 1) 1 (1 / 2)" unfolding short_def by (rule exI [of _ 1]) (simp add: power_int_minus)
  then have "finite_short (- 1) 1 (Fin (1 / 2))" unfolding finite_short_def by blast
  then show ?thesis by (simp add: exact_inputs_def halves_def)
qed

theorem flux_field_exact_witness:
  "represents (hour_field (flux_point (Fin (of_int (- 21600)))) halves 1 64 ! 0) (- 691200)"
  using flux_field_exact [OF halves_exact, of "- 21600" 64 0] by (simp add: halves_def)

theorem amount_fields_exact_witness:
  "represents (hour_field snow_fall_point (halves(0 := [Fin 0])) 1 64 ! 0) 32"
proof -
  have "exact_inputs (-1) 1 1 65 (halves(0 := [Fin 0]))" using halves_exact by (simp add: exact_inputs_def)
  from amount_fields_exact [OF this, of 64 0] show ?thesis by (simp add: halves_def)
qed

theorem generators_write_hours_witness:
  "\<exists>t. generator_of (sample no_files) TIME_INTEGRATED_SNOW_FALL_WATER_EQUIVALENT 2020 1 2 0 1
      (Some (map Block (replicate (FORECAST_HOURS div 6 + 1) (map to_byte ones))))
      (start_world\<lparr>numberOfSavedRecords := (\<lambda>v. FORECAST_HOURS div 6 + 1), bytesPerRecord := (\<lambda>v i. int early_points)\<rparr>) =
      (Ok (), t) \<and> length (output_files t) = 65"
proof -
  let ?v = TIME_INTEGRATED_SNOW_FALL_WATER_EQUIVALENT
  let ?s = "start_world\<lparr>numberOfSavedRecords := (\<lambda>v. FORECAST_HOURS div 6 + 1), bytesPerRecord := (\<lambda>v i. int early_points)\<rparr>"
  let ?ms = "replicate (FORECAST_HOURS div 6 + 1) (map to_byte ones)"
  have out: "variable_output (sample no_files) ?v 2020 1 2 0 1 ?ms (sample_outs ?v snow_fall_point 1)"
    using sample_records_ok [of 1 no_files ?v snow_fall_integral_settings snow_fall_point] by (simp add: variable_output_def)
  have "holds (vid ?v) ?s (Some (map Block ?ms)) ?ms" unfolding holds_def by (simp del: replicate_Suc vid.simps)
  from generators_write_hours [OF _ out _ this] show ?thesis
    by (auto simp: FORECAST_HOURS_def start_world_def simp del: upt_Suc replicate_Suc)
qed

end
