(* ===== verification/SampleLoads.thy ===== *)
theory SampleLoads
  imports SampleRuns
begin

text \<open>
  The properties of the loaders, the store and the arguments at concrete inputs, on the platform
  of \<open>SamplePlatform\<close>.
\<close>

subsection \<open>The loaders\<close>

lemma sample_room [simp]:
  "v \<noteq> TEST_VARIABLE_TI \<Longrightarrow> room (vid v) (world_with as bs) None []"
  by (simp add: room_def valid_vid holds_def SAVED_COLUMNS_def del: vid.simps)

theorem flux_loader_found_witness:
  "fst (loader_of (sample no_files) TIME_INTEGRATED_SURFACE_LATENT_HEAT_FLUX None 181 360
      (world_with [field 0 0 11 1 0 [Fin 7]] [field 0 0 10 1 0 [Fin 5]])) = Ok (Some [Block [to_byte (Fin 5)]])"
  using flux_loader_found [where P = "sample no_files" and v = TIME_INTEGRATED_SURFACE_LATENT_HEAT_FLUX and d = 0 and c = 0
      and n = 10 and l = 1 and fa = "opened [field 0 0 11 1 0 [Fin 7]]" and fb = "opened [field 0 0 10 1 0 [Fin 5]]"
      and s = "world_with [field 0 0 11 1 0 [Fin 7]] [field 0 0 10 1 0 [Fin 5]]" and a = None and ms = "[]"
      and g = "field 0 0 10 1 0 [Fin 5]" and m = "[to_byte (Fin 5)]" and n_lat = 181 and n_lon = 360]
  by (simp add: flux_keys_def ab_records_def Let_def first_hit_Cons(2) wanted_record_def del: vid.simps)

lemma sample_blank:
  "\<exists>g. blank_record (sample files) d c n l n_lat n_lon g \<and>
    says4 sample_grib (wanted_record d c n l) g True \<and> saves (sample files) g (map to_byte (replicate (nat (n_lat * n_lon)) (Fin 0)))"
proof -
  let ?vs = "replicate (nat (n_lat * n_lon)) (Fin 0)"
  obtain ks where b: "base_record (sample files) (newGribRecord_settings 0 0 0 0 0 0 n_lat n_lon) (ks @ [(''totalLength'', 1)], [])"
  proof -
    obtain ks where "apply_settings sample_grib ([(''totalLength'', 1)], []) (newGribRecord_settings 0 0 0 0 0 0 n_lat n_lon) =
        Inr (ks @ [(''totalLength'', 1)], [])" using sample_settings by metis
    then show ?thesis using that by (simp add: base_record_def)
  qed
  obtain ls where ls: "apply_settings sample_grib (ks @ [(''totalLength'', 1)], []) (blank_settings d c n l) =
      Inr (ls @ ks @ [(''totalLength'', 1)], [])" using sample_settings by metis
  let ?g = "(ls @ ks @ [(''totalLength'', 1)], ?vs)"
  have "blank_record (sample files) d c n l n_lat n_lon ?g" using b ls by (auto simp: blank_record_def)
  moreover have "map_of (ls @ ks @ [(''totalLength'', 1)]) ''discipline'' = Some d \<and>
      map_of (ls @ ks @ [(''totalLength'', 1)]) ''parameterCategory'' = Some c \<and>
      map_of (ls @ ks @ [(''totalLength'', 1)]) ''parameterNumber'' = Some n \<and>
      map_of (ls @ ks @ [(''totalLength'', 1)]) ''typeOfFirstFixedSurface'' = Some l"
    using ls unfolding blank_settings_def by auto
  then have "says4 sample_grib (wanted_record d c n l) ?g True"
    by (auto simp: says4_def keys4_def keys3_def sample_get_long_def wanted_record_def simp del: map_of_append)
  moreover have "saves (sample files) ?g (map to_byte ?vs)"
    by (auto simp: saves_def sample_get_long_def map_add_def split: option.split)
  ultimately show ?thesis by blast
qed

theorem net_radiation_loader_witness:
  "fst (loader_of (sample no_files) TIME_INTEGRATED_SURFACE_NET_SOLAR_RADIATION None 1 1
      (world_with [field 0 4 193 1 0 [Fin 2]] [field 0 4 192 1 0 [Fin 5]])) = Ok (Some [Block [to_byte (dsub (Fin 5) (Fin 2))]])"
proof -
  let ?g = "field 0 4 193 1 0 [Fin 2]" and ?h = "field 0 4 192 1 0 [Fin 5]"
  have "first_two (says4 sample_grib (is_radiation 4)) [?g, ?h] ?g 193 ?h 192"
    unfolding first_two_def by (intro exI [of _ "[]"]) (simp add: is_radiation_def)
  then show ?thesis
    using net_radiation_loader [where P = "sample no_files" and v = TIME_INTEGRATED_SURFACE_NET_SOLAR_RADIATION and category = 4
      and fa = "opened [?g]" and fb = "opened [?h]" and s = "world_with [?g] [?h]" and a = None and ms = "[]"
      and ?g1.0 = ?g and ?v1.0 = 193 and ?g2.0 = ?h and ?v2.0 = 192 and down = ?h and up = ?g and us = "[Fin 5]" and vs = "[Fin 2]"
      and m = "[to_byte (dsub (Fin 5) (Fin 2))]" and n_lat = 1 and n_lon = 1]
    by (simp add: ab_records_def Let_def net_pair_def del: vid.simps)
qed

theorem precipitation_loader_witness:
  "fst (loadDataForTotalPrecipitation (sample no_files) None 1 2 (world_with [field 0 1 8 1 0 [Fin 4]] [])) =
    Ok (Some [Block [0, 0]])"
  using precipitation_loader [where P = "sample no_files" and fa = "opened [field 0 1 8 1 0 [Fin 4]]" and a = None
      and ms = "[]" and s = "world_with [field 0 1 8 1 0 [Fin 4]] []" and n_lat = 1 and n_lon = 2]
  by (simp add: numeral_2_eq_2 del: vid.simps)

lemma sample_precip_kind:
  "is_precip_kind (sample files) (field d c n l v vs, Rain vs) \<longleftrightarrow> (d, c, n) = (0, 1, 8)"
  "is_precip_kind (sample files) (field d c n l v vs, CatSnow vs) \<longleftrightarrow> (d, c, n) = (0, 1, 195)"
  by (auto simp: is_precip_kind_def)

theorem snow_loader_found_witness:
  "fst (loadDataForTimeIntegratedSnowFallWaterEquivalent (sample no_files) None 1 1
      (world_with [field 0 1 8 1 0 [Fin 4], field 0 1 195 1 0 [Fin 1]] [])) =
    Ok (Some [Block [to_byte (snow_where_snowing (Fin 1) (Fin 4))]])"
  using snow_loader_found [where P = "sample no_files" and fa = "opened [field 0 1 8 1 0 [Fin 4], field 0 1 195 1 0 [Fin 1]]"
      and fb = "opened []" and s = "world_with [field 0 1 8 1 0 [Fin 4], field 0 1 195 1 0 [Fin 1]] []" and a = None and ms = "[]"
      and xs = "[(field 0 1 8 1 0 [Fin 4], Rain [Fin 4]), (field 0 1 195 1 0 [Fin 1], CatSnow [Fin 1])]"
      and rs = "[Fin 4]" and qs = "[Fin 1]" and b = 2 and n_lat = 1 and n_lon = 1
      and m = "[to_byte (snow_where_snowing (Fin 1) (Fin 4))]"]
  by (simp add: sample_precip_kind del: vid.simps)

theorem flux_loaders_terminate_witness:
  "fst (loader_of (sample no_files) TIME_INTEGRATED_SURFACE_NET_THERMAL_RADIATION None 1 1
      (world_with [field 0 5 192 1 0 [Fin 2]] [])) \<noteq> Stuck"
  by (rule flux_loaders_terminate) simp_all

subsection \<open>The store\<close>

theorem records_of_next_member_witness:
  "\<exists>array' s'. bnd (freeDataForVariable 6 None) (for_each [[1], [2, 3]] (\<lambda>m a. addGribRecordToArray (sample no_files) 6 a m))
      start_world = (Ok array', s') \<and> holds 6 s' array' [[1], [2, 3]]"
  by (rule records_of_next_member [where ms = "[]"])
     (simp_all add: holds_def valid_index_def NUMBER_OF_VARIABLES_def SAVED_COLUMNS_def FORECAST_HOURS_def)

theorem lost_records_witness:
  "\<exists>s'. addGribRecordToArray (sample no_files) 6 None [9] (start_world\<lparr>numberOfSavedRecords := (\<lambda>v. 2)\<rparr>) =
      (Ok (Some (replicate 2 Indet @ [Block [9]])), s') \<and>
    fst (freeDataForVariable 6 (Some (replicate 2 Indet @ [Block [9]])) s') = Crash"
  by (rule lost_records) (simp_all add: valid_index_def NUMBER_OF_VARIABLES_def SAVED_COLUMNS_def FORECAST_HOURS_def)

subsection \<open>The arguments\<close>

theorem parse_arguments_queue_witness:
  "\<exists>q. parse_arguments [''2020010200'', ''tp'', ''ssr''] start_world =
      (Ok (Some (parse_date ''2020010200'')), start_world\<lparr>variablesToProcess := q\<rparr>) \<and> take 2 q = [11, 7]"
  using parse_arguments_queue [of "''2020010200''" "[''tp'', ''ssr'']" start_world]
  by (auto simp: acceptable_def id_table NUMBER_OF_VARIABLES_def numeral_2_eq_2)

theorem too_many_variables_witness:
  "\<exists>q. parse_arguments (''2020010200'' # replicate 14 ''tp'') start_world =
      (Ok (Some (parse_date ''2020010200'')), start_world\<lparr>variablesToProcess := q\<rparr>) \<and> processQueueContains q ''tp'' = Some 0"
  using too_many_variables [of "''2020010200''" "replicate 14 ''tp''" start_world] shortName_table
  by (auto simp: NUMBER_OF_VARIABLES_def simp del: replicate_Suc)


theorem queue_refines_set_witness:
  "\<exists>q'. addVariableToProcessList (replicate 13 (-1)) 0 ''tp'' = Some (0, q') \<and> queue_set q' = {11}"
  using queue_refines_set [of 0 "replicate 13 (-1)" "''tp''"]
  by (auto simp: filled_def NUMBER_OF_VARIABLES_def id_table queue_set_def)

end
