(* ===== verification/TiggeTable.thy ===== *)
theory TiggeTable
  imports CDouble
begin

text \<open>
  The table of \<open>src/grib-api/tigge/tigge_check.h\<close>: for every parameter of the TIGGE archive its
  name, the bounds of its smallest and largest value, the keys a record of it has, and the
  checks it must pass. The rows are in the order of the file; the terminating empty pair and
  the NULL after the checks are the ends of the lists.
\<close>

datatype key_type = TypeLong | TypeString

record pair =
  key :: string
  key_kind :: key_type
  value_long :: int
  value_string :: string

text \<open>The check procedures; the table has pointers to them.\<close>

datatype check_proc = PointInTime | StatisticalProcess | SixHourly | ThreeHourly | FromStart | GivenLevel
  | PredefinedLevel | PredefinedThickness | GivenThickness | HasBitmap | PressureLevel
  | PotentialTemperatureLevel | PotentialVorticityLevel

record parameter =
  param_name :: string
  min1 :: cdouble
  min2 :: cdouble
  max1 :: cdouble
  max2 :: cdouble
  pairs :: "pair list"
  checks :: "check_proc list"

text \<open>The initializers of a pair and of a row.\<close>

definition long_key :: "string \<Rightarrow> int \<Rightarrow> pair" where
  "long_key k v = \<lparr>key = k, key_kind = TypeLong, value_long = v, value_string = []\<rparr>"

definition string_key :: "string \<Rightarrow> int \<Rightarrow> string \<Rightarrow> pair" where
  "string_key k v t = \<lparr>key = k, key_kind = TypeString, value_long = v, value_string = t\<rparr>"

definition row :: "string \<Rightarrow> rat \<Rightarrow> rat \<Rightarrow> rat \<Rightarrow> rat \<Rightarrow> pair list \<Rightarrow> check_proc list \<Rightarrow> parameter" where
  "row n a b c d ps cs =
     \<lparr>param_name = n, min1 = dlit a, min2 = dlit b, max1 = dlit c, max2 = dlit d, pairs = ps, checks = cs\<rparr>"

definition parameters_1 :: "parameter list" where
  "parameters_1 = [
    row ''10_meter_u_velocity_sfc.glob'' (- 100) (- 1) 1 100
      [string_key ''model'' 0 ''glob'',
       long_key ''discipline'' 0,
       long_key ''parameterCategory'' 2,
       long_key ''parameterNumber'' 2,
       long_key ''scaleFactorOfFirstFixedSurface'' 0,
       long_key ''scaledValueOfFirstFixedSurface'' 10,
       long_key ''typeOfFirstFixedSurface'' 103]
      [PointInTime, GivenLevel],
    row ''10_meter_u_velocity_sfc.lam'' (- 100) (- 1) 1 100
      [string_key ''model'' 0 ''lam'',
       long_key ''paramId'' 165,
       long_key ''discipline'' 0,
       long_key ''parameterCategory'' 2,
       long_key ''parameterNumber'' 2,
       long_key ''typeOfFirstFixedSurface'' 103,
       long_key ''scaleFactorOfFirstFixedSurface'' 0,
       long_key ''scaledValueOfFirstFixedSurface'' 10,
       long_key ''typeOfSecondFixedSurface'' 255,
       string_key ''scaleFactorOfSecondFixedSurface'' 0 ''missing'',
       string_key ''scaledValueOfSecondFixedSurface'' 0 ''missing'']
      [PointInTime, GivenLevel],
    row ''10_meter_u_velocity_sfc.lam.mogreps-mo-eua'' (- 100) 5 1 100
      [string_key ''model'' 0 ''lam'',
       string_key ''suiteName'' 1 ''mogreps-mo-eua'',
       long_key ''paramId'' 165,
       long_key ''discipline'' 0,
       long_key ''parameterCategory'' 2,
       long_key ''parameterNumber'' 2,
       long_key ''scaleFactorOfFirstFixedSurface'' 0,
       long_key ''scaledValueOfFirstFixedSurface'' 10,
       long_key ''typeOfFirstFixedSurface'' 103,
       long_key ''typeOfSecondFixedSurface'' 255,
       string_key ''scaleFactorOfSecondFixedSurface'' 0 ''missing'',
       string_key ''scaledValueOfSecondFixedSurface'' 0 ''missing'']
      [PointInTime, GivenLevel],
    row ''10_meter_v_velocity_sfc.glob'' (- 100) (- 1) 1 100
      [string_key ''model'' 0 ''glob'',
       long_key ''discipline'' 0,
       long_key ''parameterCategory'' 2,
       long_key ''parameterNumber'' 3,
       long_key ''typeOfFirstFixedSurface'' 103,
       long_key ''scaleFactorOfFirstFixedSurface'' 0,
       long_key ''scaledValueOfFirstFixedSurface'' 10]
      [PointInTime, GivenLevel],
    row ''10_meter_v_velocity_sfc.lam'' (- 100) (- 1) 1 100
      [string_key ''model'' 0 ''lam'',
       long_key ''paramId'' 166,
       long_key ''discipline'' 0,
       long_key ''parameterCategory'' 2,
       long_key ''parameterNumber'' 3,
       long_key ''typeOfFirstFixedSurface'' 103,
       long_key ''scaleFactorOfFirstFixedSurface'' 0,
       long_key ''scaledValueOfFirstFixedSurface'' 10,
       long_key ''typeOfSecondFixedSurface'' 255,
       string_key ''scaleFactorOfSecondFixedSurface'' 0 ''missing'',
       string_key ''scaledValueOfSecondFixedSurface'' 0 ''missing'']
      [PointInTime, GivenLevel]]"

definition parameters_2 :: "parameter list" where
  "parameters_2 = [
    row ''10_meter_v_velocity_sfc.lam.mogreps-mo-eua'' (- 100) 10 1 100
      [string_key ''model'' 0 ''lam'',
       string_key ''suiteName'' 1 ''mogreps-mo-eua'',
       long_key ''paramId'' 166,
       long_key ''discipline'' 0,
       long_key ''parameterCategory'' 2,
       long_key ''parameterNumber'' 3,
       long_key ''typeOfFirstFixedSurface'' 103,
       long_key ''scaleFactorOfFirstFixedSurface'' 0,
       long_key ''scaledValueOfFirstFixedSurface'' 10,
       long_key ''typeOfSecondFixedSurface'' 255,
       string_key ''scaleFactorOfSecondFixedSurface'' 0 ''missing'',
       string_key ''scaledValueOfSecondFixedSurface'' 0 ''missing'']
      [PointInTime, GivenLevel],
    row ''convective_available_potential_energy_sfc.glob'' 0 10 0 17000
      [string_key ''model'' 0 ''glob'',
       long_key ''discipline'' 0,
       long_key ''parameterCategory'' 7,
       long_key ''parameterNumber'' 6,
       long_key ''typeOfFirstFixedSurface'' 1,
       long_key ''typeOfSecondFixedSurface'' 8]
      [PointInTime, PredefinedThickness],
    row ''convective_available_potential_energy_sfc.lam'' 0 10 0 17000
      [string_key ''model'' 0 ''lam'',
       long_key ''paramId'' 59,
       long_key ''discipline'' 0,
       long_key ''parameterCategory'' 7,
       long_key ''parameterNumber'' 6,
       long_key ''typeOfFirstFixedSurface'' 1,
       string_key ''scaleFactorOfFirstFixedSurface'' 0 ''missing'',
       string_key ''scaledValueOfFirstFixedSurface'' 0 ''missing'',
       long_key ''typeOfSecondFixedSurface'' 8,
       string_key ''scaleFactorOfSecondFixedSurface'' 0 ''missing'',
       string_key ''scaledValueOfSecondFixedSurface'' 0 ''missing'']
      [PointInTime, PredefinedThickness],
    row ''convective_inhibition_sfc.glob'' (- 60000) 0 (- 10) 5
      [string_key ''model'' 0 ''glob'',
       long_key ''discipline'' 0,
       long_key ''parameterCategory'' 7,
       long_key ''parameterNumber'' 7,
       long_key ''typeOfFirstFixedSurface'' 1,
       long_key ''typeOfSecondFixedSurface'' 8]
      [PointInTime, PredefinedThickness],
    row ''convective_inhibition_sfc.lam'' (- 60000) 0 (- 10) 5
      [string_key ''model'' 0 ''lam'',
       long_key ''paramId'' 228001,
       long_key ''discipline'' 0,
       long_key ''parameterCategory'' 7,
       long_key ''parameterNumber'' 7,
       long_key ''typeOfFirstFixedSurface'' 1,
       string_key ''scaleFactorOfFirstFixedSurface'' 0 ''missing'',
       string_key ''scaledValueOfFirstFixedSurface'' 0 ''missing'',
       long_key ''typeOfSecondFixedSurface'' 8,
       string_key ''scaleFactorOfSecondFixedSurface'' 0 ''missing'',
       string_key ''scaledValueOfSecondFixedSurface'' 0 ''missing'']
      [PointInTime, PredefinedThickness]]"

definition parameters_3 :: "parameter list" where
  "parameters_3 = [
    row ''convective_inhibition_sfc.lam.cosmodeeps-dwd-eu'' 0 10 0 2000
      [string_key ''model'' 0 ''lam'',
       string_key ''suiteName'' 7 ''cosmodeeps-dwd-eu'',
       long_key ''paramId'' 228001,
       long_key ''discipline'' 0,
       long_key ''parameterCategory'' 7,
       long_key ''parameterNumber'' 7,
       long_key ''typeOfFirstFixedSurface'' 1,
       string_key ''scaleFactorOfFirstFixedSurface'' 0 ''missing'',
       string_key ''scaledValueOfFirstFixedSurface'' 0 ''missing'',
       long_key ''typeOfSecondFixedSurface'' 8,
       string_key ''scaleFactorOfSecondFixedSurface'' 0 ''missing'',
       string_key ''scaledValueOfSecondFixedSurface'' 0 ''missing'']
      [PointInTime, PredefinedThickness],
    row ''convective_inhibition_sfc.lam.cosmoleps-arpasimc-eu'' ((- 1) / 2) 10 0 2000
      [string_key ''model'' 0 ''lam'',
       string_key ''suiteName'' 4 ''cosmoleps-arpasimc-eu'',
       long_key ''paramId'' 228001,
       long_key ''discipline'' 0,
       long_key ''parameterCategory'' 7,
       long_key ''parameterNumber'' 7,
       long_key ''typeOfFirstFixedSurface'' 1,
       string_key ''scaleFactorOfFirstFixedSurface'' 0 ''missing'',
       string_key ''scaledValueOfFirstFixedSurface'' 0 ''missing'',
       long_key ''typeOfSecondFixedSurface'' 8,
       string_key ''scaleFactorOfSecondFixedSurface'' 0 ''missing'',
       string_key ''scaledValueOfSecondFixedSurface'' 0 ''missing'']
      [PointInTime, PredefinedThickness],
    row ''field_capacity_sfc'' (10 ^ 99) (- (10 ^ 99)) 99 (- 99)
      [string_key ''model'' 0 ''glob'',
       long_key ''discipline'' 2,
       long_key ''parameterCategory'' 3,
       long_key ''parameterNumber'' 12,
       long_key ''scaleFactorOfFirstFixedSurface'' 0,
       long_key ''scaleFactorOfSecondFixedSurface'' 1,
       long_key ''scaledValueOfFirstFixedSurface'' 0,
       long_key ''scaledValueOfSecondFixedSurface'' 2,
       long_key ''typeOfFirstFixedSurface'' 106,
       long_key ''typeOfSecondFixedSurface'' 106]
      [PointInTime, GivenThickness, HasBitmap],
    row ''geopotential_height_pl'' (- 810) 20000 320 22000
      [string_key ''model'' 0 ''glob'',
       long_key ''discipline'' 0,
       long_key ''parameterCategory'' 3,
       long_key ''parameterNumber'' 5,
       long_key ''typeOfFirstFixedSurface'' 100]
      [PointInTime, GivenLevel, PressureLevel],
    row ''land_sea_mask_sfc.glob'' 0 0 1 1
      [string_key ''model'' 0 ''glob'',
       long_key ''discipline'' 2,
       long_key ''parameterCategory'' 0,
       long_key ''parameterNumber'' 0,
       long_key ''typeOfFirstFixedSurface'' 1]
      [PointInTime, PredefinedLevel],
    row ''land_sea_mask_sfc.lam'' 0 0 1 1
      [string_key ''model'' 0 ''lam'',
       long_key ''paramId'' 172,
       long_key ''discipline'' 2,
       long_key ''parameterCategory'' 0,
       long_key ''parameterNumber'' 0,
       long_key ''typeOfFirstFixedSurface'' 1,
       string_key ''scaleFactorOfFirstFixedSurface'' 0 ''missing'',
       string_key ''scaledValueOfFirstFixedSurface'' 0 ''missing'',
       long_key ''typeOfSecondFixedSurface'' 255,
       string_key ''scaleFactorOfSecondFixedSurface'' 0 ''missing'',
       string_key ''scaledValueOfSecondFixedSurface'' 0 ''missing'']
      [PointInTime, PredefinedLevel]]"

definition parameters_4 :: "parameter list" where
  "parameters_4 = [
    row ''land_sea_mask_sfc.lam.hirlam-dmi-eu'' ((- 1) / 1000) 0 1 1
      [string_key ''model'' 0 ''lam'',
       string_key ''suiteName'' 11 ''hirlam-dmi-eu'',
       long_key ''paramId'' 172,
       long_key ''discipline'' 2,
       long_key ''parameterCategory'' 0,
       long_key ''parameterNumber'' 0,
       long_key ''typeOfFirstFixedSurface'' 1,
       string_key ''scaleFactorOfFirstFixedSurface'' 0 ''missing'',
       string_key ''scaledValueOfFirstFixedSurface'' 0 ''missing'',
       long_key ''typeOfSecondFixedSurface'' 255,
       string_key ''scaleFactorOfSecondFixedSurface'' 0 ''missing'',
       string_key ''scaledValueOfSecondFixedSurface'' 0 ''missing'']
      [PointInTime, PredefinedLevel],
    row ''mean_sea_level_pressure_sfc.glob'' 91000 103000 99000 107000
      [string_key ''model'' 0 ''glob'',
       long_key ''discipline'' 0,
       long_key ''parameterCategory'' 3,
       long_key ''parameterNumber'' 0,
       long_key ''typeOfFirstFixedSurface'' 101]
      [PointInTime, PredefinedLevel],
    row ''mean_sea_level_pressure_sfc.lam'' 91000 103000 99000 107000
      [string_key ''model'' 0 ''lam'',
       long_key ''paramId'' 151,
       long_key ''discipline'' 0,
       long_key ''parameterCategory'' 3,
       long_key ''parameterNumber'' 0,
       long_key ''typeOfFirstFixedSurface'' 101,
       string_key ''scaleFactorOfFirstFixedSurface'' 0 ''missing'',
       string_key ''scaledValueOfFirstFixedSurface'' 0 ''missing'',
       long_key ''typeOfSecondFixedSurface'' 255,
       string_key ''scaleFactorOfSecondFixedSurface'' 0 ''missing'',
       string_key ''scaledValueOfSecondFixedSurface'' 0 ''missing'']
      [PointInTime, PredefinedLevel],
    row ''mean_sea_level_pressure_sfc.lam.mogreps-mo-eua'' 91000 103000 98000 107000
      [string_key ''model'' 0 ''lam'',
       string_key ''suiteName'' 1 ''mogreps-mo-eua'',
       long_key ''paramId'' 151,
       long_key ''discipline'' 0,
       long_key ''parameterCategory'' 3,
       long_key ''parameterNumber'' 0,
       long_key ''typeOfFirstFixedSurface'' 101,
       string_key ''scaleFactorOfFirstFixedSurface'' 0 ''missing'',
       string_key ''scaledValueOfFirstFixedSurface'' 0 ''missing'',
       long_key ''typeOfSecondFixedSurface'' 255,
       string_key ''scaleFactorOfSecondFixedSurface'' 0 ''missing'',
       string_key ''scaledValueOfSecondFixedSurface'' 0 ''missing'']
      [PointInTime, PredefinedLevel],
    row ''orography_sfc.glob'' (- 1300) 0 2000 8888
      [string_key ''model'' 0 ''glob'',
       long_key ''discipline'' 0,
       long_key ''parameterCategory'' 3,
       long_key ''parameterNumber'' 5,
       long_key ''typeOfFirstFixedSurface'' 1]
      [PointInTime, PredefinedLevel]]"

definition parameters_5 :: "parameter list" where
  "parameters_5 = [
    row ''orography_sfc.lam'' (- 1300) 0 2000 8888
      [string_key ''model'' 0 ''lam'',
       long_key ''paramId'' 228002,
       long_key ''discipline'' 0,
       long_key ''parameterCategory'' 3,
       long_key ''parameterNumber'' 5,
       long_key ''typeOfFirstFixedSurface'' 1,
       string_key ''scaleFactorOfFirstFixedSurface'' 0 ''missing'',
       string_key ''scaledValueOfFirstFixedSurface'' 0 ''missing'',
       long_key ''typeOfSecondFixedSurface'' 255,
       string_key ''scaleFactorOfSecondFixedSurface'' 0 ''missing'',
       string_key ''scaledValueOfSecondFixedSurface'' 0 ''missing'']
      [PointInTime, PredefinedLevel],
    row ''orography_sfc.lam.mogreps-mo-eua'' (- 1300) 0 1000 8888
      [string_key ''model'' 0 ''lam'',
       string_key ''suiteName'' 1 ''mogreps-mo-eua'',
       long_key ''paramId'' 228002,
       long_key ''discipline'' 0,
       long_key ''parameterCategory'' 3,
       long_key ''parameterNumber'' 5,
       long_key ''typeOfFirstFixedSurface'' 1,
       string_key ''scaleFactorOfFirstFixedSurface'' 0 ''missing'',
       string_key ''scaledValueOfFirstFixedSurface'' 0 ''missing'',
       long_key ''typeOfSecondFixedSurface'' 255,
       string_key ''scaleFactorOfSecondFixedSurface'' 0 ''missing'',
       string_key ''scaledValueOfSecondFixedSurface'' 0 ''missing'']
      [PointInTime, PredefinedLevel],
    row ''orography_sfc.lam.hirlam-dmi-eu'' (- 1300) 0 1800 2500
      [string_key ''model'' 0 ''lam'',
       string_key ''suiteName'' 11 ''hirlam-dmi-eu'',
       long_key ''paramId'' 228002,
       long_key ''discipline'' 0,
       long_key ''parameterCategory'' 3,
       long_key ''parameterNumber'' 5,
       long_key ''typeOfFirstFixedSurface'' 1,
       string_key ''scaleFactorOfFirstFixedSurface'' 0 ''missing'',
       string_key ''scaledValueOfFirstFixedSurface'' 0 ''missing'',
       long_key ''typeOfSecondFixedSurface'' 255,
       string_key ''scaleFactorOfSecondFixedSurface'' 0 ''missing'',
       string_key ''scaledValueOfSecondFixedSurface'' 0 ''missing'']
      [PointInTime, PredefinedLevel],
    row ''potential_temperature_pv'' 220 265 380 1200
      [string_key ''model'' 0 ''glob'',
       long_key ''discipline'' 0,
       long_key ''parameterCategory'' 0,
       long_key ''parameterNumber'' 2,
       long_key ''typeOfFirstFixedSurface'' 109]
      [PointInTime, GivenLevel, PotentialVorticityLevel],
    row ''potential_vorticity_pt'' ((- 1) / 200) ((- 1) / 1000000) (1 / 1000000) (1 / 500)
      [string_key ''model'' 0 ''glob'',
       long_key ''discipline'' 0,
       long_key ''parameterCategory'' 2,
       long_key ''parameterNumber'' 14,
       long_key ''scaleFactorOfFirstFixedSurface'' 0,
       long_key ''scaledValueOfFirstFixedSurface'' 320,
       long_key ''typeOfFirstFixedSurface'' 107]
      [PointInTime, GivenLevel, PotentialTemperatureLevel],
    row ''skin_temperature_sfc'' 180 210 320 355
      [string_key ''model'' 0 ''glob'',
       long_key ''discipline'' 0,
       long_key ''parameterCategory'' 0,
       long_key ''parameterNumber'' 17,
       long_key ''typeOfFirstFixedSurface'' 1]
      [PointInTime, PredefinedLevel]]"

definition parameters_6 :: "parameter list" where
  "parameters_6 = [
    row ''snow_depth_water_equivalent_sfc'' ((- 1) / 2500000000000000000) 0 12000 15000
      [string_key ''model'' 0 ''glob'',
       long_key ''discipline'' 0,
       long_key ''parameterCategory'' 1,
       long_key ''parameterNumber'' 60,
       long_key ''typeOfFirstFixedSurface'' 1]
      [PointInTime, PredefinedLevel],
    row ''snow_fall_water_equivalent_sfc'' ((- 1) / 1000000000) ((- 1) / 1000000000) (7 / 2) (7 / 2)
      [string_key ''model'' 0 ''glob'',
       long_key ''discipline'' 0,
       long_key ''parameterCategory'' 1,
       long_key ''parameterNumber'' 53,
       long_key ''typeOfFirstFixedSurface'' 1,
       long_key ''typeOfStatisticalProcessing'' 1]
      [FromStart, PredefinedLevel],
    row ''soil_moisture_sfc'' ((- 1) / 1000000000000000000) 0 450 500
      [string_key ''model'' 0 ''glob'',
       long_key ''discipline'' 2,
       long_key ''parameterCategory'' 0,
       long_key ''parameterNumber'' 22,
       long_key ''scaleFactorOfFirstFixedSurface'' 0,
       long_key ''scaleFactorOfSecondFixedSurface'' 1,
       long_key ''scaledValueOfFirstFixedSurface'' 0,
       long_key ''scaledValueOfSecondFixedSurface'' 2,
       long_key ''typeOfFirstFixedSurface'' 106,
       long_key ''typeOfSecondFixedSurface'' 106]
      [PointInTime, GivenThickness, HasBitmap],
    row ''soil_temperature_sfc'' 200 230 310 350
      [string_key ''model'' 0 ''glob'',
       long_key ''discipline'' 2,
       long_key ''parameterCategory'' 0,
       long_key ''parameterNumber'' 2,
       long_key ''scaleFactorOfFirstFixedSurface'' 0,
       long_key ''scaleFactorOfSecondFixedSurface'' 1,
       long_key ''scaledValueOfFirstFixedSurface'' 0,
       long_key ''scaledValueOfSecondFixedSurface'' 2,
       long_key ''typeOfFirstFixedSurface'' 106,
       long_key ''typeOfSecondFixedSurface'' 106]
      [PointInTime, GivenThickness],
    row ''specific_humidity_pl'' ((- 1) / 100) (1 / 10000) (1 / 10000) (1 / 20)
      [string_key ''model'' 0 ''glob'',
       long_key ''discipline'' 0,
       long_key ''parameterCategory'' 1,
       long_key ''parameterNumber'' 0,
       long_key ''typeOfFirstFixedSurface'' 100]
      [PointInTime, GivenLevel, PressureLevel],
    row ''sunshine_duration_sfc'' 0 0 (360000000001 / 100000000) (360000000001 / 100000000)
      [string_key ''model'' 0 ''glob'',
       long_key ''discipline'' 0,
       long_key ''parameterCategory'' 6,
       long_key ''parameterNumber'' 24,
       long_key ''typeOfFirstFixedSurface'' 1,
       long_key ''typeOfStatisticalProcessing'' 1]
      [FromStart, PredefinedLevel],
    row ''surface_air_temperature_sfc.glob'' 180 290 270 350
      [string_key ''model'' 0 ''glob'',
       long_key ''discipline'' 0,
       long_key ''parameterCategory'' 0,
       long_key ''parameterNumber'' 0,
       long_key ''typeOfFirstFixedSurface'' 103]
      [PointInTime, GivenLevel]]"

definition parameters_7 :: "parameter list" where
  "parameters_7 = [
    row ''surface_air_temperature_sfc.lam'' 180 290 270 350
      [string_key ''model'' 0 ''lam'',
       long_key ''paramId'' 167,
       long_key ''discipline'' 0,
       long_key ''parameterCategory'' 0,
       long_key ''parameterNumber'' 0,
       long_key ''typeOfFirstFixedSurface'' 103,
       long_key ''scaleFactorOfFirstFixedSurface'' 0,
       long_key ''scaledValueOfFirstFixedSurface'' 2,
       long_key ''typeOfSecondFixedSurface'' 255,
       string_key ''scaleFactorOfSecondFixedSurface'' 0 ''missing'',
       string_key ''scaledValueOfSecondFixedSurface'' 0 ''missing'']
      [PointInTime, GivenLevel],
    row ''surface_air_temperature_sfc.lam.mogreps-mo-eua'' 180 290 270 350
      [string_key ''model'' 0 ''lam'',
       string_key ''suiteName'' 1 ''mogreps-mo-eua'',
       long_key ''paramId'' 167,
       long_key ''discipline'' 0,
       long_key ''parameterCategory'' 0,
       long_key ''parameterNumber'' 0,
       long_key ''typeOfFirstFixedSurface'' 103,
       long_key ''scaleFactorOfFirstFixedSurface'' 1,
       long_key ''scaledValueOfFirstFixedSurface'' 15,
       long_key ''typeOfSecondFixedSurface'' 255,
       string_key ''scaleFactorOfSecondFixedSurface'' 0 ''missing'',
       string_key ''scaledValueOfSecondFixedSurface'' 0 ''missing'']
      [PointInTime, GivenLevel],
    row ''surface_air_temperature_sfc.lam.cosmodeeps-dwd-eu'' 140 290 270 350
      [string_key ''model'' 0 ''lam'',
       string_key ''suiteName'' 7 ''cosmodeeps-dwd-eu'',
       long_key ''paramId'' 167,
       long_key ''discipline'' 0,
       long_key ''parameterCategory'' 0,
       long_key ''parameterNumber'' 0,
       long_key ''typeOfFirstFixedSurface'' 103,
       long_key ''scaleFactorOfFirstFixedSurface'' 0,
       long_key ''scaledValueOfFirstFixedSurface'' 2,
       long_key ''typeOfSecondFixedSurface'' 255,
       string_key ''scaleFactorOfSecondFixedSurface'' 0 ''missing'',
       string_key ''scaledValueOfSecondFixedSurface'' 0 ''missing'']
      [PointInTime, GivenLevel],
    row ''surface_air_dew_point_temperature_sfc.glob'' 175 290 270 350
      [string_key ''model'' 0 ''glob'',
       long_key ''discipline'' 0,
       long_key ''parameterCategory'' 0,
       long_key ''parameterNumber'' 6,
       long_key ''typeOfFirstFixedSurface'' 103]
      [PointInTime, GivenLevel],
    row ''surface_air_dew_point_temperature_sfc.lam'' 175 290 270 350
      [string_key ''model'' 0 ''lam'',
       long_key ''paramId'' 168,
       long_key ''discipline'' 0,
       long_key ''parameterCategory'' 0,
       long_key ''parameterNumber'' 6,
       long_key ''typeOfFirstFixedSurface'' 103,
       long_key ''scaleFactorOfFirstFixedSurface'' 0,
       long_key ''scaledValueOfFirstFixedSurface'' 2,
       long_key ''typeOfSecondFixedSurface'' 255,
       string_key ''scaleFactorOfSecondFixedSurface'' 0 ''missing'',
       string_key ''scaledValueOfSecondFixedSurface'' 0 ''missing'']
      [PointInTime, GivenLevel]]"

definition parameters_8 :: "parameter list" where
  "parameters_8 = [
    row ''surface_air_dew_point_temperature_sfc.lam.mogreps-mo-eua'' 175 290 270 350
      [string_key ''model'' 0 ''lam'',
       string_key ''suiteName'' 1 ''mogreps-mo-eua'',
       long_key ''paramId'' 168,
       long_key ''discipline'' 0,
       long_key ''parameterCategory'' 0,
       long_key ''parameterNumber'' 6,
       long_key ''typeOfFirstFixedSurface'' 103,
       long_key ''scaleFactorOfFirstFixedSurface'' 1,
       long_key ''scaledValueOfFirstFixedSurface'' 15,
       long_key ''typeOfSecondFixedSurface'' 255,
       string_key ''scaleFactorOfSecondFixedSurface'' 0 ''missing'',
       string_key ''scaledValueOfSecondFixedSurface'' 0 ''missing'']
      [PointInTime, GivenLevel],
    row ''surface_air_dew_point_temperature_sfc.lam.cosmodeeps-dwd-eu'' 160 290 270 350
      [string_key ''model'' 0 ''lam'',
       string_key ''suiteName'' 7 ''cosmodeeps-dwd-eu'',
       long_key ''paramId'' 168,
       long_key ''discipline'' 0,
       long_key ''parameterCategory'' 0,
       long_key ''parameterNumber'' 6,
       long_key ''typeOfFirstFixedSurface'' 103,
       long_key ''scaleFactorOfFirstFixedSurface'' 0,
       long_key ''scaledValueOfFirstFixedSurface'' 2,
       long_key ''typeOfSecondFixedSurface'' 255,
       string_key ''scaleFactorOfSecondFixedSurface'' 0 ''missing'',
       string_key ''scaledValueOfSecondFixedSurface'' 0 ''missing'']
      [PointInTime, GivenLevel],
    row ''surface_air_maximum_temperature_sfc'' 190 230 310 330
      [string_key ''model'' 0 ''glob'',
       long_key ''discipline'' 0,
       long_key ''parameterCategory'' 0,
       long_key ''parameterNumber'' 0,
       long_key ''typeOfFirstFixedSurface'' 103,
       long_key ''typeOfStatisticalProcessing'' 2]
      [SixHourly, GivenLevel],
    row ''surface_air_minimum_temperature_sfc'' 190 230 310 320
      [string_key ''model'' 0 ''glob'',
       long_key ''discipline'' 0,
       long_key ''parameterCategory'' 0,
       long_key ''parameterNumber'' 0,
       long_key ''typeOfFirstFixedSurface'' 103,
       long_key ''typeOfStatisticalProcessing'' 3]
      [SixHourly, GivenLevel],
    row ''surface_pressure_sfc'' 48000 50500 103000 110000
      [string_key ''model'' 0 ''glob'',
       long_key ''discipline'' 0,
       long_key ''parameterCategory'' 3,
       long_key ''parameterNumber'' 0,
       long_key ''typeOfFirstFixedSurface'' 1]
      [PointInTime, PredefinedLevel],
    row ''temperature_pl'' 185 250 230 330
      [string_key ''model'' 0 ''glob'',
       long_key ''discipline'' 0,
       long_key ''parameterCategory'' 0,
       long_key ''parameterNumber'' 0,
       long_key ''typeOfFirstFixedSurface'' 100]
      [PointInTime, GivenLevel, PressureLevel],
    row ''time_integrated_outgoing_long_wave_radiation_sfc'' (- 1500000) (- 1500000) (- 300000) (- 300000)
      [string_key ''model'' 0 ''glob'',
       long_key ''discipline'' 0,
       long_key ''parameterCategory'' 5,
       long_key ''parameterNumber'' 5,
       long_key ''typeOfFirstFixedSurface'' 8,
       long_key ''typeOfStatisticalProcessing'' 1]
      [FromStart, PredefinedLevel]]"

definition parameters_9 :: "parameter list" where
  "parameters_9 = [
    row ''time_integrated_surface_latent_heat_flux_sfc'' (- 4000000) (- 4000000) 700000 700000
      [string_key ''model'' 0 ''glob'',
       long_key ''discipline'' 0,
       long_key ''parameterCategory'' 0,
       long_key ''parameterNumber'' 10,
       long_key ''typeOfFirstFixedSurface'' 1,
       long_key ''typeOfStatisticalProcessing'' 1]
      [FromStart, PredefinedLevel],
    row ''time_integrated_surface_net_solar_radiation_sfc'' 0 0 4000000 4000000
      [string_key ''model'' 0 ''glob'',
       long_key ''discipline'' 0,
       long_key ''parameterCategory'' 4,
       long_key ''parameterNumber'' 9,
       long_key ''typeOfFirstFixedSurface'' 1,
       long_key ''typeOfStatisticalProcessing'' 1]
      [FromStart, PredefinedLevel],
    row ''time_integrated_surface_net_thermal_radiation_sfc'' (- 1100000) (- 1100000) 700000 700000
      [string_key ''model'' 0 ''glob'',
       long_key ''discipline'' 0,
       long_key ''parameterCategory'' 5,
       long_key ''parameterNumber'' 5,
       long_key ''typeOfFirstFixedSurface'' 1,
       long_key ''typeOfStatisticalProcessing'' 1]
      [FromStart, PredefinedLevel],
    row ''time_integrated_surface_sensible_heat_flux_sfc'' (- 3000000) (- 3000000) 1500000 1500000
      [string_key ''model'' 0 ''glob'',
       long_key ''discipline'' 0,
       long_key ''parameterCategory'' 0,
       long_key ''parameterNumber'' 11,
       long_key ''typeOfFirstFixedSurface'' 1,
       long_key ''typeOfStatisticalProcessing'' 1]
      [FromStart, PredefinedLevel],
    row ''total_cloud_cover_sfc'' 0 (1 / 10000000000) 100 (10000001 / 100000)
      [string_key ''model'' 0 ''glob'',
       long_key ''discipline'' 0,
       long_key ''parameterCategory'' 6,
       long_key ''parameterNumber'' 1,
       long_key ''typeOfFirstFixedSurface'' 1,
       long_key ''typeOfSecondFixedSurface'' 8]
      [PointInTime, PredefinedThickness],
    row ''total_column_water_sfc'' (1 / 10) (21 / 100) 75 150
      [string_key ''model'' 0 ''glob'',
       long_key ''discipline'' 0,
       long_key ''parameterCategory'' 1,
       long_key ''parameterNumber'' 51,
       long_key ''typeOfFirstFixedSurface'' 1,
       long_key ''typeOfSecondFixedSurface'' 8]
      [PointInTime, PredefinedThickness],
    row ''total_precipitation_sfc.glob'' ((- 1) / 20) (1 / 10) 0 100
      [string_key ''model'' 0 ''glob'',
       long_key ''discipline'' 0,
       long_key ''parameterCategory'' 1,
       long_key ''parameterNumber'' 52,
       long_key ''typeOfStatisticalProcessing'' 1,
       long_key ''typeOfFirstFixedSurface'' 1]
      [FromStart, PredefinedLevel]]"

definition parameters_10 :: "parameter list" where
  "parameters_10 = [
    row ''total_precipitation_sfc.lam'' ((- 1) / 20) (1 / 10) 0 100
      [string_key ''model'' 0 ''lam'',
       long_key ''paramId'' 228228,
       long_key ''discipline'' 0,
       long_key ''parameterCategory'' 1,
       long_key ''parameterNumber'' 52,
       long_key ''typeOfStatisticalProcessing'' 1,
       long_key ''typeOfFirstFixedSurface'' 1,
       string_key ''scaleFactorOfFirstFixedSurface'' 0 ''missing'',
       string_key ''scaledValueOfFirstFixedSurface'' 0 ''missing'',
       long_key ''typeOfSecondFixedSurface'' 255,
       string_key ''scaleFactorOfSecondFixedSurface'' 0 ''missing'',
       string_key ''scaledValueOfSecondFixedSurface'' 0 ''missing'']
      [FromStart, PredefinedLevel],
    row ''total_precipitation_sfc.lam.cosmodeeps-dwd-eu'' ((- 1) / 20) (1 / 10) 0 133
      [string_key ''model'' 0 ''lam'',
       string_key ''suiteName'' 7 ''cosmodeeps-dwd-eu'',
       long_key ''paramId'' 228228,
       long_key ''discipline'' 0,
       long_key ''parameterCategory'' 1,
       long_key ''parameterNumber'' 52,
       long_key ''typeOfStatisticalProcessing'' 1,
       long_key ''typeOfFirstFixedSurface'' 1,
       string_key ''scaleFactorOfFirstFixedSurface'' 0 ''missing'',
       string_key ''scaledValueOfFirstFixedSurface'' 0 ''missing'',
       long_key ''typeOfSecondFixedSurface'' 255,
       string_key ''scaleFactorOfSecondFixedSurface'' 0 ''missing'',
       string_key ''scaledValueOfSecondFixedSurface'' 0 ''missing'']
      [FromStart, PredefinedLevel],
    row ''large_scale_precipitation_sfc.glob'' ((- 1) / 20) (1 / 10) 0 100
      [string_key ''model'' 0 ''glob'',
       long_key ''discipline'' 0,
       long_key ''parameterCategory'' 1,
       long_key ''parameterNumber'' 54,
       long_key ''typeOfStatisticalProcessing'' 1,
       long_key ''typeOfFirstFixedSurface'' 1,
       long_key ''typeOfSecondFixedSurface'' 255]
      [FromStart, PredefinedLevel],
    row ''large_scale_precipitation_sfc.lam'' ((- 1) / 20) (1 / 10) 0 100
      [string_key ''model'' 0 ''lam'',
       long_key ''paramId'' 3062,
       long_key ''discipline'' 0,
       long_key ''parameterCategory'' 1,
       long_key ''parameterNumber'' 54,
       long_key ''typeOfStatisticalProcessing'' 1,
       long_key ''typeOfFirstFixedSurface'' 1,
       string_key ''scaleFactorOfFirstFixedSurface'' 0 ''missing'',
       string_key ''scaledValueOfFirstFixedSurface'' 0 ''missing'',
       long_key ''typeOfSecondFixedSurface'' 255,
       string_key ''scaleFactorOfSecondFixedSurface'' 0 ''missing'',
       string_key ''scaledValueOfSecondFixedSurface'' 0 ''missing'']
      [FromStart, PredefinedLevel],
    row ''u_velocity_pl'' (- 120) (- 20) 20 120
      [string_key ''model'' 0 ''glob'',
       long_key ''discipline'' 0,
       long_key ''parameterCategory'' 2,
       long_key ''parameterNumber'' 2,
       long_key ''typeOfFirstFixedSurface'' 100]
      [PointInTime, GivenLevel, PressureLevel],
    row ''u_velocity_pv'' (- 120) (- 30) 70 120
      [string_key ''model'' 0 ''glob'',
       long_key ''discipline'' 0,
       long_key ''parameterCategory'' 2,
       long_key ''parameterNumber'' 2,
       long_key ''typeOfFirstFixedSurface'' 109]
      [PointInTime, GivenLevel, PotentialVorticityLevel]]"

definition parameters_11 :: "parameter list" where
  "parameters_11 = [
    row ''v_velocity_pl'' (- 120) (- 20) 20 120
      [string_key ''model'' 0 ''glob'',
       long_key ''discipline'' 0,
       long_key ''parameterCategory'' 2,
       long_key ''parameterNumber'' 3,
       long_key ''typeOfFirstFixedSurface'' 100]
      [PointInTime, GivenLevel, PressureLevel],
    row ''v_velocity_pv'' (- 120) (- 50) 55 120
      [string_key ''model'' 0 ''glob'',
       long_key ''discipline'' 0,
       long_key ''parameterCategory'' 2,
       long_key ''parameterNumber'' 3,
       long_key ''typeOfFirstFixedSurface'' 109]
      [PointInTime, GivenLevel, PotentialVorticityLevel],
    row ''wilting_point_sfc'' (10 ^ 99) (- (10 ^ 99)) 99 (- 99)
      [string_key ''model'' 0 ''glob'',
       long_key ''discipline'' 2,
       long_key ''parameterCategory'' 0,
       long_key ''parameterNumber'' 26,
       long_key ''scaleFactorOfFirstFixedSurface'' 0,
       long_key ''scaleFactorOfSecondFixedSurface'' 1,
       long_key ''scaledValueOfFirstFixedSurface'' 0,
       long_key ''scaledValueOfSecondFixedSurface'' 2,
       long_key ''typeOfFirstFixedSurface'' 106,
       long_key ''typeOfSecondFixedSurface'' 106]
      [PointInTime, GivenThickness, HasBitmap],
    row ''maximum_wind_gust.glob'' 0 10 0 100
      [string_key ''model'' 0 ''glob'',
       long_key ''discipline'' 0,
       long_key ''parameterCategory'' 2,
       long_key ''parameterNumber'' 22,
       long_key ''typeOfStatisticalProcessing'' 2,
       long_key ''typeOfFirstFixedSurface'' 103,
       long_key ''scaleFactorOfFirstFixedSurface'' 0,
       long_key ''scaledValueOfFirstFixedSurface'' 10,
       long_key ''typeOfSecondFixedSurface'' 255]
      [ThreeHourly, GivenLevel],
    row ''maximum_wind_gust.lam'' 0 10 0 100
      [string_key ''model'' 0 ''lam'',
       long_key ''paramId'' 228028,
       long_key ''discipline'' 0,
       long_key ''parameterCategory'' 2,
       long_key ''parameterNumber'' 22,
       long_key ''typeOfStatisticalProcessing'' 2,
       long_key ''typeOfFirstFixedSurface'' 103,
       long_key ''scaleFactorOfFirstFixedSurface'' 0,
       long_key ''scaledValueOfFirstFixedSurface'' 10,
       long_key ''typeOfSecondFixedSurface'' 255,
       string_key ''scaleFactorOfSecondFixedSurface'' 0 ''missing'',
       string_key ''scaledValueOfSecondFixedSurface'' 0 ''missing'']
      [ThreeHourly, GivenLevel],
    row ''maximum_wind_gust.lam'' 0 10 0 100
      [string_key ''model'' 0 ''lam'',
       long_key ''paramId'' 228028,
       long_key ''discipline'' 0,
       long_key ''parameterCategory'' 2,
       long_key ''parameterNumber'' 22,
       long_key ''typeOfStatisticalProcessing'' 2,
       long_key ''typeOfFirstFixedSurface'' 103,
       long_key ''scaleFactorOfFirstFixedSurface'' 0,
       long_key ''scaledValueOfFirstFixedSurface'' 10,
       long_key ''typeOfSecondFixedSurface'' 255,
       string_key ''scaleFactorOfSecondFixedSurface'' 0 ''missing'',
       string_key ''scaledValueOfSecondFixedSurface'' 0 ''missing'']
      [ThreeHourly, GivenLevel]]"

definition parameters_12 :: "parameter list" where
  "parameters_12 = [
    row ''maximum_wind_gust.lam.mogreps-mo-eua'' 0 15 0 500
      [string_key ''model'' 0 ''lam'',
       string_key ''suiteName'' 1 ''mogreps-mo-eua'',
       long_key ''paramId'' 228028,
       long_key ''discipline'' 0,
       long_key ''parameterCategory'' 2,
       long_key ''parameterNumber'' 22,
       long_key ''typeOfStatisticalProcessing'' 2,
       long_key ''typeOfFirstFixedSurface'' 103,
       long_key ''scaleFactorOfFirstFixedSurface'' 0,
       long_key ''scaledValueOfFirstFixedSurface'' 10,
       long_key ''typeOfSecondFixedSurface'' 255,
       string_key ''scaleFactorOfSecondFixedSurface'' 0 ''missing'',
       string_key ''scaledValueOfSecondFixedSurface'' 0 ''missing'']
      [ThreeHourly, GivenLevel]]"

definition parameters :: "parameter list" where
  "parameters = parameters_1 @ parameters_2 @ parameters_3 @ parameters_4 @ parameters_5 @ parameters_6 @
     parameters_7 @ parameters_8 @ parameters_9 @ parameters_10 @ parameters_11 @ parameters_12"

end
