(* ===== verification/TiggeCheck.thy ===== *)
theory TiggeCheck
  imports TiggeTable
begin

text \<open>
  The acceptance checker of the TIGGE archive, \<open>src/grib-api/tigge/tigge_check.c\<close>. The calls of
  the GRIB library and of the file system are the record \<open>'h checker\<close>; what is printed, and the
  variables that are only printed (\<open>file\<close>, \<open>field\<close>, \<open>param\<close>), are left out.
\<close>

subsection \<open>The library and the state\<close>

text \<open>
  The tree of files below a name: \<open>Records\<close> are the records the library reads from a file and
  the error code of the call that read no more, \<open>Unreadable\<close> a file that cannot be opened.
\<close>

datatype 'h node = Directory "(string \<times> 'h node) list" | Records "'h list" int | Unreadable

record 'h checker =
  get_long :: "'h \<Rightarrow> string \<Rightarrow> int + int"
  get_double :: "'h \<Rightarrow> string \<Rightarrow> int + cdouble"
  get_string :: "'h \<Rightarrow> string \<Rightarrow> int + string"
  is_missing :: "'h \<Rightarrow> string \<Rightarrow> bool \<times> int"
  get_size :: "'h \<Rightarrow> string \<Rightarrow> int + nat"
  get_doubles :: "'h \<Rightarrow> string \<Rightarrow> nat \<Rightarrow> int + cdouble list"
  get_message :: "'h \<Rightarrow> int + byte list"
  gaussian_latitudes :: "int \<Rightarrow> int + cdouble list"
  request_ok :: "nat \<Rightarrow> bool"
  opens_write :: "string \<Rightarrow> bool"
  writes_whole :: "string \<Rightarrow> bool"
  closes_well :: "string \<Rightarrow> bool"
  named :: "string \<Rightarrow> 'h node"

text \<open>The static array of the latitudes in \<open>gaussian_grid\<close>; \<open>Dangling\<close> after it was freed.\<close>

datatype latitudes = NoLatitudes | Latitudes "cdouble list" | Dangling

record check_state =
  error :: int
  warning :: int
  valueflg :: int
  warnflg :: int
  zeroflg :: int
  is_lam :: int
  good :: "string option"
  bad :: "string option"
  good_saved :: "byte list list"
  bad_saved :: "byte list list"
  lat_values :: latitudes
  last_n :: int
  requests :: nat

type_synonym 'a check_prog = "(check_state, 'a) prog"

text \<open>Integer division by a variable; by zero it is undefined.\<close>

definition quotient :: "int \<Rightarrow> int \<Rightarrow> int check_prog" where
  "quotient a b = (if b = 0 then crash else ret (cdiv a b))"

subsection \<open>Checks and keys\<close>

definition check :: "bool \<Rightarrow> unit check_prog" where
  "check a = only_if (\<not> a) (upd (\<lambda>s. s\<lparr>error := error s + 1\<rparr>))"

definition fail :: "unit check_prog" where
  "fail = upd (\<lambda>s. s\<lparr>error := error s + 1\<rparr>)"

definition get :: "'h checker \<Rightarrow> 'h \<Rightarrow> string \<Rightarrow> int check_prog" where
  "get C h what = (case get_long C h what of
       Inl e \<Rightarrow> seq (upd (\<lambda>s. s\<lparr>error := error s + 1\<rparr>)) (ret (- 1))
     | Inr val \<Rightarrow> ret val)"

definition dget :: "'h checker \<Rightarrow> 'h \<Rightarrow> string \<Rightarrow> cdouble check_prog" where
  "dget C h what = (case get_double C h what of
       Inl e \<Rightarrow> seq (upd (\<lambda>s. s\<lparr>error := error s + 1\<rparr>)) (ret (Fin (- 1)))
     | Inr val \<Rightarrow> ret val)"

definition missing :: "'h checker \<Rightarrow> 'h \<Rightarrow> string \<Rightarrow> bool" where
  "missing C h what = fst (is_missing C h what)"

definition eq :: "'h checker \<Rightarrow> 'h \<Rightarrow> string \<Rightarrow> int \<Rightarrow> bool check_prog" where
  "eq C h what value = bnd (get C h what) (\<lambda>v. ret (v = value))"

definition ne :: "'h checker \<Rightarrow> 'h \<Rightarrow> string \<Rightarrow> int \<Rightarrow> bool check_prog" where
  "ne C h what value = bnd (get C h what) (\<lambda>v. ret (v \<noteq> value))"

definition ge :: "'h checker \<Rightarrow> 'h \<Rightarrow> string \<Rightarrow> int \<Rightarrow> bool check_prog" where
  "ge C h what value = bnd (get C h what) (\<lambda>v. ret (value \<le> v))"

definition le :: "'h checker \<Rightarrow> 'h \<Rightarrow> string \<Rightarrow> int \<Rightarrow> bool check_prog" where
  "le C h what value = bnd (get C h what) (\<lambda>v. ret (v \<le> value))"

text \<open>\<open>CHECK\<close> of a condition that reads keys, C's \<open>||\<close>, and a sequence of statements.\<close>

definition check_that :: "bool check_prog \<Rightarrow> unit check_prog" where
  "check_that m = bnd m check"

definition or_that :: "bool check_prog \<Rightarrow> bool check_prog \<Rightarrow> bool check_prog" where
  "or_that m n = bnd m (\<lambda>a. if a then ret True else n)"

primrec steps :: "unit check_prog list \<Rightarrow> unit check_prog" where
  "steps [] = ret ()"
| "steps (m # ms) = seq m (steps ms)"

text \<open>A request for memory.\<close>

definition request :: "'h checker \<Rightarrow> bool check_prog" where
  "request C = bnd (rd requests) (\<lambda>n. seq (upd (\<lambda>s. s\<lparr>requests := n + 1\<rparr>)) (ret (request_ok C n)))"

definition unless_lam :: "unit check_prog \<Rightarrow> unit check_prog" where
  "unless_lam m = bnd (rd is_lam) (\<lambda>lam. only_if (lam = 0) m)"

subsection \<open>The checks of a parameter\<close>

definition check_range :: "parameter \<Rightarrow> cdouble \<Rightarrow> cdouble \<Rightarrow> unit check_prog" where
  "check_range p mini maxi = bnd (rd valueflg) (\<lambda>flag.
     if flag = 0 then ret () else steps [
       only_if (dless mini (min1 p) \<or> dless (min2 p) mini) (upd (\<lambda>s. s\<lparr>warning := warning s + 1\<rparr>)),
       only_if (dless maxi (max1 p) \<or> dless (max2 p) maxi) (upd (\<lambda>s. s\<lparr>warning := warning s + 1\<rparr>))])"

definition point_in_time :: "'h checker \<Rightarrow> 'h \<Rightarrow> parameter \<Rightarrow> cdouble \<Rightarrow> cdouble \<Rightarrow> unit check_prog" where
  "point_in_time C h p mini maxi = steps [
     bnd (get C h ''typeOfProcessedData'') (\<lambda>t.
       if t = 2 then check_that (eq C h ''productDefinitionTemplateNumber'' 0)
       else if t = 3 then steps [
         check_that (eq C h ''productDefinitionTemplateNumber'' 1),
         check_that (eq C h ''perturbationNumber'' 0),
         check_that (ne C h ''numberOfForecastsInEnsemble'' 0)]
       else if t = 4 then steps [
         check_that (ne C h ''perturbationNumber'' 0),
         check_that (ne C h ''numberOfForecastsInEnsemble'' 0),
         check_that (eq C h ''productDefinitionTemplateNumber'' 1),
         bnd (rd is_lam) (\<lambda>lam. bnd (get C h ''numberOfForecastsInEnsemble'') (\<lambda>n.
           check_that (le C h ''perturbationNumber'' (if lam \<noteq> 0 then n else n - 1))))]
       else seq (bnd (get C h ''typeOfProcessedData'') (\<lambda>_. ret ())) (check False)),
     bnd (get C h ''indicatorOfUnitOfTimeRange'') (\<lambda>u. bnd (rd is_lam) (\<lambda>lam.
       only_if (\<not> (u = 11 \<or> lam \<noteq> 0)) (steps [
         check_that (eq C h ''indicatorOfUnitOfTimeRange'' 1),
         bnd (get C h ''forecastTime'') (\<lambda>f. check (cmod f 6 = 0))]))),
     check_range p mini maxi]"

definition pressure_level :: "'h checker \<Rightarrow> 'h \<Rightarrow> unit check_prog" where
  "pressure_level C h = bnd (get C h ''level'') (\<lambda>level.
     only_if (\<not> level \<in> {1000, 200, 250, 300, 500, 700, 850, 925, 50}) fail)"

definition potential_vorticity_level :: "'h checker \<Rightarrow> 'h \<Rightarrow> unit check_prog" where
  "potential_vorticity_level C h = bnd (get C h ''level'') (\<lambda>level. only_if (level \<noteq> 2) fail)"

definition potential_temperature_level :: "'h checker \<Rightarrow> 'h \<Rightarrow> unit check_prog" where
  "potential_temperature_level C h = bnd (get C h ''level'') (\<lambda>level. only_if (level \<noteq> 320) fail)"

text \<open>The length of the time range in hours, from the first to the last step.\<close>

definition step_sum :: "'h checker \<Rightarrow> 'h \<Rightarrow> int \<Rightarrow> unit check_prog" where
  "step_sum C h hours = bnd (get C h ''lengthOfTimeRange'') (\<lambda>n. bnd (get C h ''startStep'') (\<lambda>a.
     bnd (get C h ''endStep'') (\<lambda>b. check (n * hours + a = b))))"

definition statistical_process :: "'h checker \<Rightarrow> 'h \<Rightarrow> unit check_prog" where
  "statistical_process C h = bnd (get C h ''typeOfProcessedData'') (\<lambda>t.
     if \<not> t \<in> {2, 3, 4} then seq (bnd (get C h ''typeOfProcessedData'') (\<lambda>_. ret ())) fail
     else steps [
       check_that (eq C h ''productDefinitionTemplateNumber'' (if t = 2 then 8 else 11)),
       bnd (rd is_lam) (\<lambda>lam.
         bnd (get C h ''indicatorOfUnitOfTimeRange'') (\<lambda>u.
         only_if (u \<noteq> (if lam = 0 then 11 else 10)) (steps [
           check_that (eq C h ''indicatorOfUnitOfTimeRange'' 1),
           bnd (get C h ''forecastTime'') (\<lambda>f. check (cmod f (if lam = 0 then 6 else 3) = 0))]))),
       check_that (eq C h ''numberOfTimeRange'' 1),
       check_that (eq C h ''numberOfMissingInStatisticalProcess'' 0),
       check_that (eq C h ''typeOfTimeIncrement'' 2),
       check_that (eq C h ''timeIncrementBetweenSuccessiveFields'' 0),
       check_that (eq C h ''minuteOfEndOfOverallTimeInterval'' 0),
       check_that (eq C h ''secondOfEndOfOverallTimeInterval'' 0),
       bnd (rd is_lam) (\<lambda>lam.
         bnd (get C h ''endStep'') (\<lambda>e. check (cmod e (if lam = 0 then 6 else 3) = 0))),
       bnd (get C h ''endStep'') (\<lambda>e. check (e \<le> 24 * 30)),
       bnd (get C h ''indicatorOfUnitForTimeRange'') (\<lambda>u.
         if u = 11 then step_sum C h 6
         else bnd (get C h ''indicatorOfUnitForTimeRange'') (\<lambda>u.
           if u = 10 then step_sum C h 3
           else seq (check_that (eq C h ''indicatorOfUnitForTimeRange'' 1)) (step_sum C h 1)))])"

definition has_bitmap :: "'h checker \<Rightarrow> 'h \<Rightarrow> unit check_prog" where
  "has_bitmap C h = check_that (eq C h ''bitMapIndicator'' 0)"

text \<open>\<open>six_hourly\<close> and \<open>three_hourly\<close> differ in the number of hours only.\<close>

definition hourly :: "int \<Rightarrow> 'h checker \<Rightarrow> 'h \<Rightarrow> parameter \<Rightarrow> cdouble \<Rightarrow> cdouble \<Rightarrow> unit check_prog" where
  "hourly hours C h p mini maxi = steps [
     statistical_process C h,
     bnd (get C h ''indicatorOfUnitForTimeRange'') (\<lambda>u.
       check_that (eq C h ''lengthOfTimeRange'' (if u = 11 then 1 else hours))),
     bnd (get C h ''endStep'') (\<lambda>b. bnd (get C h ''startStep'') (\<lambda>a. check (b = a + hours))),
     check_range p mini maxi]"

definition six_hourly :: "'h checker \<Rightarrow> 'h \<Rightarrow> parameter \<Rightarrow> cdouble \<Rightarrow> cdouble \<Rightarrow> unit check_prog" where
  "six_hourly = hourly 6"

definition three_hourly :: "'h checker \<Rightarrow> 'h \<Rightarrow> parameter \<Rightarrow> cdouble \<Rightarrow> cdouble \<Rightarrow> unit check_prog" where
  "three_hourly = hourly 3"

definition from_start :: "'h checker \<Rightarrow> 'h \<Rightarrow> parameter \<Rightarrow> cdouble \<Rightarrow> cdouble \<Rightarrow> unit check_prog" where
  "from_start C h p mini maxi = bnd (get C h ''endStep'') (\<lambda>step. steps [
     statistical_process C h,
     check_that (eq C h ''startStep'' 0),
     (if step = 0 then check (deq mini (Fin 0) \<and> deq maxi (Fin 0))
      else check_range p (ddiv mini (rnd (of_int step))) (ddiv maxi (rnd (of_int step))))])"

text \<open>The two surfaces: which of their scale factors and values are there.\<close>

definition surfaces :: "bool \<Rightarrow> bool check_prog \<Rightarrow> bool \<Rightarrow> 'h checker \<Rightarrow> 'h \<Rightarrow> unit check_prog" where
  "surfaces first second_type second C h = steps [
     check_that (ne C h ''typeOfFirstFixedSurface'' 255),
     check (missing C h ''scaleFactorOfFirstFixedSurface'' \<noteq> first),
     check (missing C h ''scaledValueOfFirstFixedSurface'' \<noteq> first),
     check_that second_type,
     check (missing C h ''scaleFactorOfSecondFixedSurface'' \<noteq> second),
     check (missing C h ''scaledValueOfSecondFixedSurface'' \<noteq> second)]"

definition given_level :: "'h checker \<Rightarrow> 'h \<Rightarrow> unit check_prog" where
  "given_level C h = surfaces True (eq C h ''typeOfSecondFixedSurface'' 255) False C h"

definition predefined_level :: "'h checker \<Rightarrow> 'h \<Rightarrow> unit check_prog" where
  "predefined_level C h = surfaces False (eq C h ''typeOfSecondFixedSurface'' 255) False C h"

definition predefined_thickness :: "'h checker \<Rightarrow> 'h \<Rightarrow> unit check_prog" where
  "predefined_thickness C h = surfaces False (ne C h ''typeOfSecondFixedSurface'' 255) False C h"

definition given_thickness :: "'h checker \<Rightarrow> 'h \<Rightarrow> unit check_prog" where
  "given_thickness C h = surfaces True (ne C h ''typeOfSecondFixedSurface'' 255) True C h"

definition run_check :: "'h checker \<Rightarrow> 'h \<Rightarrow> parameter \<Rightarrow> cdouble \<Rightarrow> cdouble \<Rightarrow> check_proc \<Rightarrow> unit check_prog" where
  "run_check C h p mini maxi proc = (case proc of
       PointInTime \<Rightarrow> point_in_time C h p mini maxi
     | StatisticalProcess \<Rightarrow> statistical_process C h
     | SixHourly \<Rightarrow> six_hourly C h p mini maxi
     | ThreeHourly \<Rightarrow> three_hourly C h p mini maxi
     | FromStart \<Rightarrow> from_start C h p mini maxi
     | GivenLevel \<Rightarrow> given_level C h
     | PredefinedLevel \<Rightarrow> predefined_level C h
     | PredefinedThickness \<Rightarrow> predefined_thickness C h
     | GivenThickness \<Rightarrow> given_thickness C h
     | HasBitmap \<Rightarrow> has_bitmap C h
     | PressureLevel \<Rightarrow> pressure_level C h
     | PotentialTemperatureLevel \<Rightarrow> potential_temperature_level C h
     | PotentialVorticityLevel \<Rightarrow> potential_vorticity_level C h)"

subsection \<open>The grids\<close>

text \<open>The flags both grids must have.\<close>

definition flags_zero :: "'h checker \<Rightarrow> 'h \<Rightarrow> unit check_prog" where
  "flags_zero C h = steps [
     check_that (eq C h ''resolutionAndComponentFlags1'' 0),
     check_that (eq C h ''resolutionAndComponentFlags2'' 0),
     check_that (eq C h ''resolutionAndComponentFlags6'' 0),
     check_that (eq C h ''resolutionAndComponentFlags7'' 0),
     check_that (eq C h ''resolutionAndComponentFlags8'' 0)]"

text \<open>\<open>fabs((last-first)/increment + 1 - count) < 1e-10\<close>\<close>

definition evenly_spaced :: "cdouble \<Rightarrow> cdouble \<Rightarrow> cdouble \<Rightarrow> int \<Rightarrow> bool" where
  "evenly_spaced xn x0 increment count \<longleftrightarrow>
     dless (dabs (dsub (dadd (ddiv (dsub xn x0) increment) (Fin 1)) (rnd (of_int count)))) (dlit (1 / 10 ^ 10))"

definition latlon_grid :: "'h checker \<Rightarrow> 'h \<Rightarrow> unit check_prog" where
  "latlon_grid C h =
     bnd (get C h ''numberOfDataPoints'') (\<lambda>data_points.
     bnd (get C h ''numberOfPointsAlongAMeridian'') (\<lambda>meridian.
     bnd (get C h ''numberOfPointsAlongAParallel'') (\<lambda>parallel.
     bnd (get C h ''latitudeOfFirstGridPoint'') (\<lambda>north.
     bnd (get C h ''latitudeOfLastGridPoint'') (\<lambda>south.
     bnd (get C h ''longitudeOfFirstGridPoint'') (\<lambda>west.
     bnd (get C h ''longitudeOfLastGridPoint'') (\<lambda>east.
     bnd (get C h ''jDirectionIncrement'') (\<lambda>ns.
     bnd (get C h ''iDirectionIncrement'') (\<lambda>we.
     bnd (dget C h ''latitudeOfFirstGridPointInDegrees'') (\<lambda>dnorth.
     bnd (dget C h ''latitudeOfLastGridPointInDegrees'') (\<lambda>dsouth.
     bnd (dget C h ''longitudeOfFirstGridPointInDegrees'') (\<lambda>dwest.
     bnd (dget C h ''longitudeOfLastGridPointInDegrees'') (\<lambda>deast.
     bnd (dget C h ''jDirectionIncrementInDegrees'') (\<lambda>dns.
     bnd (dget C h ''iDirectionIncrementInDegrees'') (\<lambda>dwe.
     seq (steps [
       bnd (eq C h ''basicAngleOfTheInitialProductionDomain'' 0) (\<lambda>basic.
         if basic then check (missing C h ''subdivisionsOfBasicAngle'')
         else steps [
           check (\<not> missing C h ''subdivisionsOfBasicAngle''),
           check_that (ne C h ''subdivisionsOfBasicAngle'' 0)]),
       only_if (missing C h ''subdivisionsOfBasicAngle'')
         (check_that (eq C h ''basicAngleOfTheInitialProductionDomain'' 0)),
       check (meridian * parallel = data_points),
       flags_zero C h,
       check_that (eq C h ''iDirectionIncrementGiven'' 1),
       check_that (eq C h ''jDirectionIncrementGiven'' 1),
       check_that (eq C h ''numberOfOctectsForNumberOfPoints'' 0),
       check_that (eq C h ''interpretationOfNumberOfPoints'' 0)]) (
     bnd (get C h ''iScansNegatively'') (\<lambda>negatively.
     let (east, west, deast, dwest) = (if negatively \<noteq> 0 then (west, east, dwest, deast) else (east, west, deast, dwest)) in
     bnd (get C h ''jScansPositively'') (\<lambda>positively.
     let (north, south, dnorth, dsouth) =
       (if positively \<noteq> 0 then (south, north, dsouth, dnorth) else (north, south, dnorth, dsouth)) in
     steps [
       unless_lam (check (south < north)),
       unless_lam (check (west < east)),
       check (0 \<le> east),
       check (0 \<le> west),
       unless_lam (check (north = - south)),
       unless_lam (check (deq dnorth (dneg dsouth))),
       unless_lam (bnd (quotient (east - west) we) (\<lambda>q. check (parallel = q + 1))),
       unless_lam (check (evenly_spaced deast dwest dwe parallel)),
       unless_lam (bnd (quotient (north - south) ns) (\<lambda>q. check (meridian = q + 1))),
       unless_lam (check (evenly_spaced dnorth dsouth dns meridian)),
       unless_lam (let area = dmul (dsub dnorth dsouth) (dsub deast dwest); globe = dmul (dlit 360) (dlit 180) in
         seq (check (dleq area globe)) (check (dleq (dmul globe (dlit (95 / 100))) area)))]))))))))))))))))))"

text \<open>
  The Gaussian latitudes are kept from one record to the next in a static array. When the
  library has none for a number, the array is freed, but the pointer to it stays.
\<close>

definition gaussian_values :: "'h checker \<Rightarrow> int \<Rightarrow> bool check_prog" where
  "gaussian_values C n = bnd (rd last_n) (\<lambda>last. if n = last then ret True else
     bnd (rd lat_values) (\<lambda>values.
     seq (case values of Dangling \<Rightarrow> crash | _ \<Rightarrow> ret ()) (
     bnd (request C) (\<lambda>ok.
     if \<not> ok then seq (upd (\<lambda>s. s\<lparr>lat_values := NoLatitudes\<rparr>)) (seq fail (ret False))
     else case gaussian_latitudes C n of
         Inl e \<Rightarrow> seq fail (seq (upd (\<lambda>s. s\<lparr>lat_values := Dangling, last_n := 0\<rparr>)) (ret False))
       | Inr xs \<Rightarrow> seq (upd (\<lambda>s. s\<lparr>lat_values := Latitudes xs, last_n := n\<rparr>)) (ret True)))))"

text \<open>\<open>values[0] = rint(values[0]*1e6)/1e6\<close>\<close>

definition first_latitude :: "cdouble check_prog" where
  "first_latitude = bnd (rd lat_values) (\<lambda>values. case values of
       Latitudes (x # xs) \<Rightarrow> let y = ddiv (rint (dmul x (dlit 1000000))) (dlit 1000000) in
         seq (upd (\<lambda>s. s\<lparr>lat_values := Latitudes (y # xs)\<rparr>)) (ret y)
     | _ \<Rightarrow> crash)"

text \<open>The sum of \<open>pl\<close>, as a \<open>long\<close> to which doubles are added.\<close>

primrec pl_total :: "cdouble list \<Rightarrow> int \<Rightarrow> int check_prog" where
  "pl_total [] n = ret n"
| "pl_total (x # xs) n = bnd (to_long (dadd (rnd (of_int n)) x)) (pl_total xs)"

definition reduced_points :: "'h checker \<Rightarrow> 'h \<Rightarrow> int \<Rightarrow> bool check_prog" where
  "reduced_points C h n =
     (let e = get_size C h ''pl'' in
      bnd (get C h ''numberOfValues'') (\<lambda>numberOfValues.
      bnd (get C h ''numberOfDataPoints'') (\<lambda>numberOfDataPoints.
      case e of Inl _ \<Rightarrow> seq fail (ret False) | Inr count \<Rightarrow>
      bnd (request C) (\<lambda>ok.
      seq (check ok) (
      case get_doubles C h ''pl'' count of Inl _ \<Rightarrow> seq fail (ret False) | Inr pl \<Rightarrow>
      if \<not> ok \<and> pl \<noteq> [] then crash else
      seq (steps [check (count = length pl), check (int count = 2 * n)]) (
      bnd (pl_total pl 0) (\<lambda>total.
      seq (steps [
        check (numberOfDataPoints = total),
        check (missing C h ''iDirectionIncrement''),
        check (missing C h ''iDirectionIncrementInDegrees''),
        check_that (eq C h ''iDirectionIncrementGiven'' 0),
        check_that (eq C h ''jDirectionIncrementGiven'' 1)]) (ret True))))))))"

definition gaussian_grid :: "'h checker \<Rightarrow> 'h \<Rightarrow> unit check_prog" where
  "gaussian_grid C h =
     bnd (get C h ''numberOfParallelsBetweenAPoleAndTheEquator'') (\<lambda>n.
     bnd (dget C h ''latitudeOfFirstGridPointInDegrees'') (\<lambda>north.
     bnd (dget C h ''latitudeOfLastGridPointInDegrees'') (\<lambda>south.
     bnd (dget C h ''longitudeOfFirstGridPointInDegrees'') (\<lambda>west.
     bnd (dget C h ''longitudeOfLastGridPointInDegrees'') (\<lambda>east.
     bnd (gaussian_values C n) (\<lambda>ok. if \<not> ok then ret () else
     bnd first_latitude (\<lambda>value.
     seq (check (deq north value)) (
     seq (check (deq south (dneg value))) (
     seq (if missing C h ''numberOfPointsAlongAParallel'' then
            let ee = dsub (dlit 360) (ddiv (dlit 360) (dmul (dlit 4) (rnd (of_int n)))) in
            steps [check (deq west (Fin 0)), check (deq east ee), check (dless (dabs (dsub east ee)) (dlit (1 / 10 ^ 10)))]
          else
            bnd (get C h ''longitudeOfFirstGridPoint'') (\<lambda>west.
            bnd (get C h ''longitudeOfLastGridPoint'') (\<lambda>east.
            bnd (get C h ''numberOfPointsAlongAParallel'') (\<lambda>parallel.
            bnd (get C h ''iDirectionIncrement'') (\<lambda>we.
            bnd (dget C h ''longitudeOfFirstGridPointInDegrees'') (\<lambda>dwest.
            bnd (dget C h ''longitudeOfLastGridPointInDegrees'') (\<lambda>deast.
            bnd (dget C h ''iDirectionIncrementInDegrees'') (\<lambda>dwe.
            steps [
              bnd (quotient (east - west) we) (\<lambda>q. check (parallel = q + 1)),
              check (evenly_spaced deast dwest dwe parallel),
              bnd (get C h ''PLPresent'') (\<lambda>pl. check (pl = 0))])))))))) (
     seq (check_that (ne C h ''Nj'' 0)) (
     bnd (get C h ''PLPresent'') (\<lambda>pl.
     bnd (if pl \<noteq> 0 then reduced_points C h n else ret True) (\<lambda>go_on.
     only_if go_on (flags_zero C h))))))))))))))"

subsection \<open>The parameter of a record\<close>

definition tolower :: "char \<Rightarrow> char" where
  "tolower c = (if 65 \<le> (of_char c :: nat) \<and> (of_char c :: nat) \<le> 90 then char_of ((of_char c :: nat) + 32) else c)"

definition strcasecmp :: "string \<Rightarrow> string \<Rightarrow> bool" where
  "strcasecmp s t \<longleftrightarrow> map tolower s = map tolower t"

definition pair_matches :: "'h checker \<Rightarrow> 'h \<Rightarrow> pair \<Rightarrow> bool" where
  "pair_matches C h p = (case key_kind p of
       TypeLong \<Rightarrow> (case get_long C h (key p) of Inl e \<Rightarrow> False | Inr val \<Rightarrow> value_long p = val)
     | TypeString \<Rightarrow>
         if strcasecmp (value_string p) ''MISSING'' then
           (case is_missing C h (key p) of (is_miss, err) \<Rightarrow> err = 0 \<and> is_miss)
         else (case get_string C h (key p) of Inl e \<Rightarrow> False | Inr val \<Rightarrow> value_string p = val))"

primrec count_matches :: "'h checker \<Rightarrow> 'h \<Rightarrow> pair list \<Rightarrow> int" where
  "count_matches C h [] = 0"
| "count_matches C h (p # ps) = (if pair_matches C h p then 1 else 0) + count_matches C h ps"

text \<open>The loop over the table, with \<open>best\<close> and the row of \<open>match\<close>.\<close>

primrec best_match :: "'h checker \<Rightarrow> 'h \<Rightarrow> parameter list \<Rightarrow> int \<Rightarrow> parameter option \<Rightarrow> parameter option" where
  "best_match C h [] best match = match"
| "best_match C h (p # ps) best match =
     (let matches = count_matches C h (pairs p) in
      if matches = int (length (pairs p)) \<and> best < matches then best_match C h ps matches (Some p)
      else best_match C h ps best match)"

definition check_parameter :: "'h checker \<Rightarrow> 'h \<Rightarrow> cdouble \<Rightarrow> cdouble \<Rightarrow> unit check_prog" where
  "check_parameter C h mini maxi = (case best_match C h parameters (- 1) None of
       Some p \<Rightarrow> steps (map (run_check C h p mini maxi) (checks p))
     | None \<Rightarrow> seq (steps (map (\<lambda>k. bnd (get C h k) (\<lambda>_. ret ()))
         [''origin'', ''discipline'', ''parameterCategory'', ''parameterNumber'',
          ''scaleFactorOfFirstFixedSurface'', ''scaleFactorOfSecondFixedSurface'',
          ''scaledValueOfFirstFixedSurface'', ''scaledValueOfSecondFixedSurface'',
          ''typeOfFirstFixedSurface'', ''typeOfSecondFixedSurface''])) fail)"

subsection \<open>A record\<close>

text \<open>The smallest and the largest value, with and without missing values.\<close>

definition narrow :: "cdouble \<Rightarrow> cdouble \<times> cdouble \<Rightarrow> cdouble \<Rightarrow> cdouble \<times> cdouble" where
  "narrow miss mm x = (case mm of (mini, maxi) \<Rightarrow>
     (if deq mini miss \<or> (\<not> deq x miss \<and> dless x mini) then x else mini,
      if deq maxi miss \<or> (\<not> deq x miss \<and> dless maxi x) then x else maxi))"

definition widen :: "cdouble \<times> cdouble \<Rightarrow> cdouble \<Rightarrow> cdouble \<times> cdouble" where
  "widen mm x = (case mm of (mini, maxi) \<Rightarrow> (if dless x mini then x else mini, if dless maxi x then x else maxi))"

text \<open>The part under \<open>if (valueflg)\<close>; \<open>None\<close> is the early return.\<close>

definition value_range :: "'h checker \<Rightarrow> 'h \<Rightarrow> (cdouble \<times> cdouble) option check_prog" where
  "value_range C h =
     (let e = get_size C h ''values'' in
      bnd (eq C h ''bitMapIndicator'' 255) (\<lambda>no_bitmap.
      case e of Inl _ \<Rightarrow> seq fail (ret None) | Inr count \<Rightarrow>
      bnd (request C) (\<lambda>ok.
      if \<not> ok then seq fail (ret None) else
      seq (check_that (eq C h ''numberOfDataPoints'' (int count))) (
      case get_doubles C h ''values'' count of Inl _ \<Rightarrow> seq fail (ret None) | Inr values \<Rightarrow>
      if length values \<noteq> count then seq fail (ret None)
      else if \<not> no_bitmap then
        bnd (dget C h ''missingValue'') (\<lambda>miss. ret (Some (foldl (narrow miss) (miss, miss) values)))
      else case values of [] \<Rightarrow> crash | x # xs \<Rightarrow> ret (Some (foldl widen (x, x) xs))))))"

definition verify :: "'h checker \<Rightarrow> 'h \<Rightarrow> unit check_prog" where
  "verify C h = seq (steps [
     check_that (eq C h ''editionNumber'' 2),
     check_that (or_that (ret (missing C h ''reserved'')) (eq C h ''reserved'' 0))]) (
   bnd (rd valueflg) (\<lambda>flag.
   bnd (if flag \<noteq> 0 then value_range C h else ret (Some (Fin 0, Fin 0))) (\<lambda>mm.
   case mm of None \<Rightarrow> ret () | Some (mini, maxi) \<Rightarrow>
   seq (steps [
     check_parameter C h mini maxi,
     check_that (ge C h ''gribMasterTablesVersionNumber'' 4),
     check_that (eq C h ''versionNumberOfGribLocalTables'' 0),
     check_that (eq C h ''significanceOfReferenceTime'' 1),
     bnd (get C h ''date'') (\<lambda>date. steps [
       check_that (eq C h ''year'' (cdiv date 10000)),
       check_that (eq C h ''month'' (cdiv (cmod date 10000) 100)),
       check_that (eq C h ''day'' (cmod date 100))]),
     bnd (rd is_lam) (\<lambda>lam. check_that (foldr (\<lambda>hour. or_that (eq C h ''hour'' hour))
       (if lam = 0 then [0, 6, 12] else [0, 3, 6, 9, 12, 15, 18])
       (eq C h ''hour'' (if lam = 0 then 18 else 21)))),
     check_that (eq C h ''minute'' 0),
     check_that (eq C h ''second'' 0),
     check_that (or_that (eq C h ''productionStatusOfProcessedData'' 4) (eq C h ''productionStatusOfProcessedData'' 5)),
     bnd (rd is_lam) (\<lambda>lam.
       bnd (get C h ''step'') (\<lambda>step. check (cmod step (if lam = 0 then 6 else 3) = 0))),
     check_that (ge C h ''startStep'' 0),
     check_that (le C h ''endStep'' (30 * 24)),
     check_that (or_that (eq C h ''typeOfProcessedData'' 2) (or_that (eq C h ''typeOfProcessedData'' 3)
       (eq C h ''typeOfProcessedData'' 4))),
     check_that (eq C h ''sourceOfGridDefinition'' 0)]) (
   bnd (get C h ''gridDefinitionTemplateNumber'') (\<lambda>t.
   if t \<noteq> 0 \<and> t \<noteq> 1 \<and> t \<noteq> 40 then
     seq (bnd (get C h ''gridDefinitionTemplateNumber'') (\<lambda>_. ret ())) fail
   else steps [
     (if t = 40 then gaussian_grid C h else latlon_grid C h),
     bnd (eq C h ''bitMapIndicator'' 255) (\<lambda>no_bitmap.
       bnd (get C h ''numberOfValues'') (\<lambda>n. bnd (get C h ''numberOfDataPoints'') (\<lambda>points.
         check (if no_bitmap then n = points else n \<le> points)))),
     check_that (eq C h ''typeOfOriginalFieldValues'' 0)])))))"

subsection \<open>Files\<close>

text \<open>\<open>save\<close>, for one of the two streams: its name if it is open, and how a message is kept.\<close>

definition save :: "'h checker \<Rightarrow> 'h \<Rightarrow> string option \<Rightarrow> (byte list \<Rightarrow> check_state \<Rightarrow> check_state) \<Rightarrow> unit check_prog" where
  "save C h f keep = (case f of None \<Rightarrow> ret () | Some n \<Rightarrow>
     (case get_message C h of Inl e \<Rightarrow> exit_with 1 | Inr buffer \<Rightarrow>
      if writes_whole C n then upd (keep buffer) else exit_with 1))"

definition keep_good :: "byte list \<Rightarrow> check_state \<Rightarrow> check_state" where
  "keep_good m s = s\<lparr>good_saved := good_saved s @ [m]\<rparr>"

definition keep_bad :: "byte list \<Rightarrow> check_state \<Rightarrow> check_state" where
  "keep_bad m s = s\<lparr>bad_saved := bad_saved s @ [m]\<rparr>"

text \<open>One turn of the loop of \<open>validate\<close>.\<close>

definition sort_record :: "'h checker \<Rightarrow> 'h \<Rightarrow> unit check_prog" where
  "sort_record C h =
     bnd (rd error) (\<lambda>last_error.
     bnd (rd warning) (\<lambda>last_warning.
     seq (verify C h) (
     bnd (rd (\<lambda>s. last_error \<noteq> error s \<or> warnflg s \<noteq> 0 \<and> last_warning \<noteq> warning s)) (\<lambda>is_bad.
     if is_bad then bnd (rd bad) (\<lambda>f. save C h f keep_bad)
     else bnd (rd good) (\<lambda>f. save C h f keep_good)))))"

definition validate :: "'h checker \<Rightarrow> 'h node \<Rightarrow> unit check_prog" where
  "validate C n = (case n of
       Records hs err \<Rightarrow> seq (steps (map (sort_record C) hs)) (
         if err \<noteq> 0 then fail else only_if (length hs = 0) fail)
     | _ \<Rightarrow> fail)"

text \<open>\<open>sprintf\<close> into 1024 bytes for every name of a directory but those with a leading dot.\<close>

fun scan :: "'h checker \<Rightarrow> string \<Rightarrow> 'h node \<Rightarrow> unit check_prog"
  and scan_names :: "'h checker \<Rightarrow> string \<Rightarrow> (string \<times> 'h node) list \<Rightarrow> unit check_prog" where
  "scan C path (Directory entries) = scan_names C path entries"
| "scan C path (Records hs err) = validate C (Records hs err)"
| "scan C path Unreadable = validate C Unreadable"
| "scan_names C path [] = ret ()"
| "scan_names C path ((d, n) # entries) =
     seq (if take 1 d = ''.'' then ret ()
          else if 1024 \<le> length path + 1 + length d then crash
          else scan C (path @ ''/'' @ d) n) (scan_names C path entries)"

definition usage :: "'a check_prog" where
  "usage = exit_with 1"

text \<open>The options; the rest of the arguments is returned.\<close>

fun options :: "'h checker \<Rightarrow> string list \<Rightarrow> string list check_prog" where
  "options C [] = ret []"
| "options C (a # args) =
     (if take 1 a \<noteq> ''-'' then ret (a # args)
      else if take 1 (drop 1 a) = ''w'' then seq (upd (\<lambda>s. s\<lparr>warnflg := warnflg s + 1\<rparr>)) (options C args)
      else if take 1 (drop 1 a) = ''z'' then seq (upd (\<lambda>s. s\<lparr>zeroflg := zeroflg s + 1\<rparr>)) (options C args)
      else if take 1 (drop 1 a) = ''v'' then seq (upd (\<lambda>s. s\<lparr>valueflg := valueflg s + 1\<rparr>)) (options C args)
      else if take 1 (drop 1 a) = ''l'' then seq (upd (\<lambda>s. s\<lparr>is_lam := 1\<rparr>)) (options C args)
      else if take 1 (drop 1 a) = ''g'' then
        (case args of [] \<Rightarrow> usage | n # args \<Rightarrow>
           if opens_write C n then seq (upd (\<lambda>s. s\<lparr>good := Some n, good_saved := []\<rparr>)) (options C args)
           else exit_with 1)
      else if take 1 (drop 1 a) = ''b'' then
        (case args of [] \<Rightarrow> usage | n # args \<Rightarrow>
           if opens_write C n then seq (upd (\<lambda>s. s\<lparr>bad := Some n, bad_saved := []\<rparr>)) (options C args)
           else exit_with 1)
      else usage)"

text \<open>The loop over the files, with \<open>err\<close>.\<close>

primrec check_files :: "'h checker \<Rightarrow> string list \<Rightarrow> int \<Rightarrow> int check_prog" where
  "check_files C [] err = ret err"
| "check_files C (a # args) err =
     seq (upd (\<lambda>s. s\<lparr>error := 0\<rparr>)) (
     seq (scan C a (named C a)) (
     bnd (rd error) (\<lambda>e.
     bnd (rd (\<lambda>s. warning s \<noteq> 0 \<and> warnflg s \<noteq> 0)) (\<lambda>w.
     check_files C args (if e \<noteq> 0 \<or> w then 1 else err)))))"

definition close_stream :: "'h checker \<Rightarrow> string option \<Rightarrow> unit check_prog" where
  "close_stream C f = (case f of None \<Rightarrow> ret () | Some n \<Rightarrow> if closes_well C n then ret () else exit_with 1)"

definition check_main :: "'h checker \<Rightarrow> string list \<Rightarrow> int check_prog" where
  "check_main C args =
     bnd (options C args) (\<lambda>files.
     if files = [] then usage else
     bnd (check_files C files 0) (\<lambda>err.
     seq (bnd (rd good) (close_stream C)) (
     seq (bnd (rd bad) (close_stream C)) (
     bnd (rd zeroflg) (\<lambda>z. ret (if z \<noteq> 0 then 0 else err))))))"

text \<open>The global variables before \<open>main\<close>.\<close>

definition checker_start :: check_state where
  "checker_start = \<lparr>error = 0, warning = 0, valueflg = 0, warnflg = 0, zeroflg = 0, is_lam = 0, good = None, bad = None,
     good_saved = [], bad_saved = [], lat_values = NoLatitudes, last_n = 0, requests = 0\<rparr>"

end
