(* ===== verification/DerivedKeys.thy ===== *)
theory DerivedKeys
  imports TiggeCheck
begin

text \<open>
  Keys of a GRIB 2 record that the library computes from others: \<open>level\<close>, from the type, the
  scale factor and the scaled value of a surface
  (\<open>src/grib-api/src/grib_accessor_class_g2level.c\<close>), and \<open>date\<close>, from year, month and day
  (\<open>grib_accessor_class_g2date.c\<close>). The keys they read are arguments here, and the keys they
  set are results; the returns with the error of a key that cannot be read or set are left out.
\<close>

subsection \<open>The level\<close>

definition GRIB_MISSING_LONG :: int where
  "GRIB_MISSING_LONG = 4294967295"

text \<open>The two loops that multiply and divide by 10 until the scale factor, or the value, is 0.\<close>

function rescale :: "int \<Rightarrow> cdouble \<Rightarrow> cdouble \<times> int" where
  "rescale scale v =
     (if deq v (Fin 0) \<or> scale = 0 then (v, scale)
      else if scale < 0 then rescale (scale + 1) (dmul v (dlit 10))
      else rescale (scale - 1) (ddiv v (dlit 10)))"
  by pat_completeness auto
termination by (relation "measure (\<lambda>(scale, v). nat \<bar>scale\<bar>)") auto

declare rescale.simps [simp del]

text \<open>\<open>unpack_double\<close>: the level, and the pressure units after the call.\<close>

definition level_unpack_double :: "int \<Rightarrow> int \<Rightarrow> int \<Rightarrow> string \<Rightarrow> (cdouble \<times> string) check_prog" where
  "level_unpack_double type_first scale_first value_first units =
     (if value_first = GRIB_MISSING_LONG then ret (Fin 0, units)
      else
        let (v, scale) =
          (if scale_first \<noteq> GRIB_MISSING_LONG
           then rescale (if type_first = 109 then scale_first - 6 else scale_first) (rnd (of_int value_first))
           else (rnd (of_int value_first), scale_first)) in
        if type_first = 100 \<and> units = ''hPa'' then
          bnd (to_long (ddiv v (dlit 100))) (\<lambda>x.
          if scale = 0 \<and> x = 0 then ret (v, ''Pa'') else ret (rnd (of_int x), units))
        else ret (v, units))"

definition level_unpack_long :: "int \<Rightarrow> int \<Rightarrow> int \<Rightarrow> string \<Rightarrow> int check_prog" where
  "level_unpack_long type_first scale_first value_first units =
     bnd (level_unpack_double type_first scale_first value_first units) (\<lambda>(d, units).
     to_long (dadd d (dlit (1 / 2))))"

text \<open>\<open>pack_long\<close>: the scale factor and the scaled value it sets, if it sets them.\<close>

definition level_pack_long :: "int \<Rightarrow> string \<Rightarrow> int \<Rightarrow> (int \<times> int) option" where
  "level_pack_long type_first units val =
     (let value_first = (if type_first = 100 \<and> units = ''hPa'' then val * 100 else val) in
      if 9 < type_first then Some (0, value_first) else None)"

lemma rnd_half: "0 \<le> n \<Longrightarrow> n < 2 ^ 51 \<Longrightarrow> rnd (of_int n + 1 / 2) = Fin (of_int n + 1 / 2)"
proof (rule rnd_short [of "- 1" "2 * n + 1"])
  assume n: "0 \<le> n" "n < 2 ^ 51"
  have "of_int n + 1 / 2 = of_int (2 * n + 1) * (2 :: rat) powi (- 1)" by (simp add: power_int_def field_simps)
  then show "short (- 1) (2 * n + 1) (of_int n + 1 / 2)" using n unfolding short_def by (intro exI [of _ "2 * n + 1"]) simp
qed auto

lemma to_long_half:
  assumes "0 \<le> n" "n < 2 ^ 51"
  shows "to_long (dadd (Fin (of_int n)) (dlit (1 / 2))) s = (Ok n, s)"
proof -
  have h: "dlit (1 / 2) = Fin (1 / 2)" using rnd_half [of 0] by (simp add: dlit_def)
  have "\<lfloor>of_int n + 1 / (2::rat)\<rfloor> = n" by linarith
  with assms rnd_half [OF assms] h show ?thesis
    by (simp add: to_long_def Let_def run_simps add_nonneg_nonneg not_less)
qed

text \<open>Setting the level and reading it.\<close>



text \<open>Exact steps of the two loops.\<close>

lemma rescale_down: "0 < m \<Longrightarrow> m < 2 ^ 52 \<Longrightarrow> 0 < k \<Longrightarrow> rescale k (Fin (of_int (10 * m))) = rescale (k - 1) (Fin (of_int m))"
  using rnd_of_int [of m] by (subst rescale.simps) (simp add: ddiv_def Let_def dlit_def rnd_numeral)

lemma rescale_up: "0 < m \<Longrightarrow> 10 * m < 2 ^ 53 \<Longrightarrow> k < 0 \<Longrightarrow> rescale k (Fin (of_int m)) = rescale (k + 1) (Fin (of_int (10 * m)))"
  using rnd_of_int [of "10 * m"] by (subst rescale.simps) (simp add: dmul_def Let_def dlit_def rnd_numeral mult.commute)

lemma rescale_zero: "rescale 0 v = (v, 0)"
  by (subst rescale.simps) simp

text \<open>The level of the records of potential temperature.\<close>

lemma level_two: "level_unpack_long 109 9 2000 units s = (Ok 2, s)"
proof -
  have "rescale 3 (Fin 2000) = (Fin 2, 0)"
    using rescale_down [of 200 3] rescale_down [of 20 2] rescale_down [of 2 1] by (simp add: rescale_zero)
  then show ?thesis using to_long_half [of 2 s]
    by (simp add: level_unpack_long_def level_unpack_double_def GRIB_MISSING_LONG_def rnd_numeral run_simps)
qed

text \<open>On a potential vorticity surface a level that was set does not read back.\<close>

text \<open>On a potential vorticity surface the level 2 that was set reads back as 2000000: setting does not
  undo the 6 decimals that reading takes off the scale factor.\<close>

lemma level_of_potential_vorticity:
  "level_pack_long 109 units 2 = Some (0, 2) \<and> level_unpack_long 109 0 2 units s = (Ok 2000000, s)"
proof -
  have "rescale (- 6) (Fin 2) = (Fin 2000000, 0)"
    using rescale_up [of 2 "- 6"] rescale_up [of 20 "- 5"] rescale_up [of 200 "- 4"] rescale_up [of 2000 "- 3"]
      rescale_up [of 20000 "- 2"] rescale_up [of 200000 "- 1"] by (simp add: rescale_zero)
  then show ?thesis using to_long_half [of 2000000 s]
    by (simp add: level_pack_long_def Let_def level_unpack_long_def level_unpack_double_def GRIB_MISSING_LONG_def rnd_numeral run_simps)
qed

subsection \<open>The date\<close>

definition date_unpack :: "int \<Rightarrow> int \<Rightarrow> int \<Rightarrow> int" where
  "date_unpack year month day = year * 10000 + month * 100 + day"

definition date_pack :: "int \<Rightarrow> int \<times> int \<times> int" where
  "date_pack v = (let year = cdiv v 10000; v = cmod v 10000; month = cdiv v 100; v = cmod v 100; day = v
     in (year, month, day))"

lemma date_round_trip:
  assumes "0 \<le> year" "0 \<le> month" "month < 100" "0 \<le> day" "day < 100"
  shows "date_pack (date_unpack year month day) = (year, month, day)"
proof -
  let ?v = "date_unpack year month day"
  have md: "0 \<le> month * 100 + day" "month * 100 + day < 10000" using assms by auto
  have v: "?v = month * 100 + day + year * 10000" "0 \<le> ?v" using assms by (simp_all add: date_unpack_def)
  have "?v div 10000 = year" "?v mod 10000 = month * 100 + day" unfolding v(1) using md by (simp_all add: div_mult_self1)
  moreover have "(month * 100 + day) div 100 = month" "(month * 100 + day) mod 100 = day" using assms by simp_all
  ultimately show ?thesis using v(2) md by (simp add: date_pack_def Let_def cmod_pos)
qed

end
