(* ===== verification/JulianDates.thy ===== *)
theory JulianDates
  imports DerivedKeys Calendar
begin

text \<open>
  The conversions between dates and days of \<open>src/grib-api/src/grib_date.c\<close>: two on whole days,
  which are inverse to each other, and two with the time of the day, in doubles.
\<close>

subsection \<open>Whole days\<close>

definition grib_julian_to_date :: "int \<Rightarrow> int" where
  "grib_julian_to_date jdate =
     (let x = 4 * jdate - 6884477;
          y = cdiv x 146097 * 100;
          e = cmod x 146097;
          d = cdiv e 4;
          x = 4 * d + 3;
          y = cdiv x 1461 + y;
          e = cmod x 1461;
          d = cdiv e 4 + 1;
          x = 5 * d - 3;
          m = cdiv x 153 + 1;
          e = cmod x 153;
          d = cdiv e 5 + 1;
          month = (if m < 11 then m + 2 else m - 10);
          day = d;
          year = y + cdiv m 11
      in year * 10000 + month * 100 + day)"

definition grib_date_to_julian :: "int \<Rightarrow> int" where
  "grib_date_to_julian ddate =
     (let year = cdiv ddate 10000;
          ddate = cmod ddate 10000;
          month = cdiv ddate 100;
          ddate = cmod ddate 100;
          day = ddate;
          (m1, y1) = (if 2 < month then (month - 3, year) else (month + 9, year - 1));
          a = cdiv (146097 * cdiv y1 100) 4;
          d = cmod y1 100;
          b = cdiv (1461 * d) 4;
          c = cdiv (153 * m1 + 2) 5 + day + 1721119;
          j1 = a + b + c
      in j1)"

subsection \<open>Days and times\<close>

definition dint :: "int \<Rightarrow> cdouble" where
  "dint n = rnd (of_int n)"

text \<open>\<open>ROUND(a)\<close>\<close>

definition round_half_up :: "cdouble \<Rightarrow> ('s, int) prog" where
  "round_half_up a = (if dleq (Fin 0) a then to_long (dadd a (dlit (1 / 2))) else to_long (dsub a (dlit (1 / 2))))"

record date_time =
  dt_year :: int
  dt_month :: int
  dt_day :: int
  dt_hour :: int
  dt_minute :: int
  dt_second :: int

definition grib_julian_to_datetime :: "cdouble \<Rightarrow> ('s, date_time) prog" where
  "grib_julian_to_datetime jd =
     (let jd = dadd jd (dlit (1 / 2)) in
      bnd (to_long jd) (\<lambda>z.
      let f = dsub jd (dint z) in
      bnd (if z < 2299161 then ret z
           else bnd (to_long (ddiv (dsub (dint z) (dlit (186721625 / 100))) (dlit (3652425 / 100)))) (\<lambda>alpha.
                bnd (to_long (ddiv (dint alpha) (dlit 4))) (\<lambda>q. ret (z + 1 + alpha - q)))) (\<lambda>a.
      let b = a + 1524 in
      bnd (to_long (ddiv (dsub (dint b) (dlit (1221 / 10))) (dlit (36525 / 100)))) (\<lambda>c.
      bnd (to_long (dmul (dlit (36525 / 100)) (dint c))) (\<lambda>d.
      bnd (to_long (ddiv (dint (b - d)) (dlit (306001 / 10000)))) (\<lambda>e.
      bnd (to_long (dmul (dlit (306001 / 10000)) (dint e))) (\<lambda>g.
      let dday = dadd (dint (b - d - g)) f in
      bnd (to_long dday) (\<lambda>day.
      let dday = dsub dday (dint day) in
      bnd (round_half_up (dmul dday (dlit 86400))) (\<lambda>s.
      let month = (if e < 14 then e - 1 else e - 13) in
      ret \<lparr>dt_year = (if 2 < month then c - 4716 else c - 4715), dt_month = month, dt_day = day,
           dt_hour = cdiv s 3600, dt_minute = cdiv (cmod s 3600) 60, dt_second = cmod s 60\<rparr>)))))))))"

definition grib_datetime_to_julian :: "int \<Rightarrow> int \<Rightarrow> int \<Rightarrow> int \<Rightarrow> int \<Rightarrow> int \<Rightarrow> ('s, cdouble) prog" where
  "grib_datetime_to_julian year month day hour minute second =
     (let dday = dadd (ddiv (dint (hour * 3600 + minute * 60 + second)) (dlit 86400)) (dint day);
          (y, m) = (if month < 3 then (year - 1, month + 12) else (year, month)) in
      bnd (to_long (ddiv (dint y) (dlit 100))) (\<lambda>a.
      bnd (if y > 1582 \<or> (y = 1582 \<and> (m > 10 \<or> (m = 10 \<and> day > 14)))
           then bnd (to_long (ddiv (dint a) (dlit 4))) (\<lambda>q. ret (dadd (dsub (dlit 2) (dint a)) (dint q)))
           else ret (Fin 0)) (\<lambda>b.
      bnd (to_long (dmul (dlit (36525 / 100)) (dint (y + 4716)))) (\<lambda>years.
      bnd (to_long (dmul (dlit (306001 / 10000)) (dint (m + 1)))) (\<lambda>months.
      ret (dsub (dadd (dadd (dint (years + months)) dday) b) (dlit (15245 / 10))))))))"

subsection \<open>Julian days count the days of the calendar\<close>

text \<open>Years that begin in March: their number, and the days before it and before one of its months.\<close>

definition march_days :: "int \<Rightarrow> int" where
  "march_days y = 365 * y + y div 4 - y div 100 + y div 400"

lemma march_days_century:
  assumes "0 \<le> y"
  shows "146097 * (y div 100) div 4 + 1461 * (y mod 100) div 4 = march_days y"
proof -
  define C D where "C = y div 100" and "D = y mod 100"
  have y: "y = 100 * C + D" "0 \<le> D" "D < 100" by (simp_all add: C_def D_def)
  have e: "146097 * C = C + 36524 * C * 4" "1461 * D = D + 365 * D * 4" "y = D + 25 * C * 4" using y(1) by simp_all
  have "146097 * C div 4 = 36524 * C + C div 4" unfolding e(1) by (subst div_mult_self1) simp_all
  moreover have "1461 * D div 4 = 365 * D + D div 4" unfolding e(2) by (subst div_mult_self1) simp_all
  moreover have "y div 4 = 25 * C + D div 4" unfolding e(3) by (subst div_mult_self1) simp_all
  moreover have "y div 100 = C" "y div 400 = C div 4"
    using zdiv_zmult2_eq [of 4 y 100] by (simp_all add: C_def)
  moreover have "36524 * C + c + (365 * D + x) = 365 * y + (25 * C + x) - C + c" for c x using y(1) by simp
  ultimately show ?thesis by (simp only: march_days_def C_def [symmetric] D_def [symmetric])
qed

lemma days_to_year_march: "days_to_year (y + 1) = march_days y + 366"
proof -
  have "(y + 4) div 4 = y div 4 + 1" "(y + 100) div 100 = y div 100 + 1" "(y + 400) div 400 = y div 400 + 1"
    using div_add_self2 [of 4 y] div_add_self2 [of 100 y] div_add_self2 [of 400 y] by simp_all
  then show ?thesis by (simp add: days_to_year_def march_days_def)
qed

definition march_month :: "int \<Rightarrow> int" where
  "march_month m = (if 2 < m then m - 3 else m + 9)"

definition march_year :: "int \<Rightarrow> int \<Rightarrow> int" where
  "march_year y m = (if 2 < m then y else y - 1)"

lemma days_to_month_march:
  assumes "1 \<le> m" "m \<le> 12"
  shows "days_to_month y m = (if 2 < m then 59 + (if leap y then 1 else 0) + (153 * (m - 3) + 2) div 5
    else (153 * (m + 9) + 2) div 5 - 306)"
proof -
  have u: "[1..1] = [1::int]" "[1..2] = [1,2::int]" "[1..3] = [1,2,3::int]" "[1..4] = [1,2,3,4::int]"
    "[1..5] = [1,2,3,4,5::int]" "[1..6] = [1,2,3,4,5,6::int]" "[1..7] = [1,2,3,4,5,6,7::int]"
    "[1..8] = [1,2,3,4,5,6,7,8::int]" "[1..9] = [1,2,3,4,5,6,7,8,9::int]" "[1..10] = [1,2,3,4,5,6,7,8,9,10::int]"
    "[1..11] = [1,2,3,4,5,6,7,8,9,10,11::int]"
    by (simp_all add: upto_rec1)
  show ?thesis using one_of_twelve [of 1 m, simplified, OF assms]
    by (auto simp: days_to_month_def month_len_def u mosiz_all [simplified])
qed

lemma day_number_march:
  assumes "1 \<le> mo d" "mo d \<le> 12"
  shows "day_number d + 1721059 =
    march_days (march_year (yr d) (mo d)) + (153 * march_month (mo d) + 2) div 5 + dy d + 1721119"
  using assms leap_year_length [of "yr d"] days_to_year_march [of "yr d"] days_to_year_march [of "yr d - 1"]
  by (auto simp: day_number_def days_to_month_march march_month_def march_year_def)

lemma date_fields:
  assumes "0 \<le> y" "0 \<le> m" "m < 100" "0 \<le> d" "d < 100"
  shows "cdiv (date_unpack y m d) 10000 = y" "cmod (date_unpack y m d) 10000 = m * 100 + d"
    "cdiv (m * 100 + d) 100 = m" "cmod (m * 100 + d) 100 = d"
proof -
  have v: "date_unpack y m d = m * 100 + d + y * 10000" by (simp add: date_unpack_def)
  have md: "0 \<le> m * 100 + d" "m * 100 + d < 10000" using assms by auto
  show "cdiv (date_unpack y m d) 10000 = y" "cmod (date_unpack y m d) 10000 = m * 100 + d"
    using assms md by (simp_all add: v cmod_pos)
  show "cdiv (m * 100 + d) 100 = m" "cmod (m * 100 + d) 100 = d" using assms by (simp_all add: cmod_pos)
qed

text \<open>\<open>grib_date_to_julian\<close> is the number of the day, up to the origin.\<close>

lemma julian_of_day:
  assumes "valid_date d" "1 \<le> yr d"
  shows "grib_date_to_julian (date_unpack (yr d) (mo d) (dy d)) = day_number d + 1721059"
proof -
  have m: "1 \<le> mo d" "mo d \<le> 12" "1 \<le> dy d" "dy d < 100"
    using assms(1) month_len_bounds [of "mo d" "yr d"] by (auto simp: valid_date_def)
  let ?Y = "march_year (yr d) (mo d)" and ?M = "march_month (mo d)"
  have Y: "0 \<le> ?Y" "0 \<le> ?M" using assms(2) m by (auto simp: march_year_def march_month_def)
  note f = date_fields [of "yr d" "mo d" "dy d"]
  have "grib_date_to_julian (date_unpack (yr d) (mo d) (dy d)) =
      146097 * (?Y div 100) div 4 + 1461 * (?Y mod 100) div 4 + ((153 * ?M + 2) div 5 + dy d + 1721119)"
    using f assms(2) m Y
    by (auto simp: grib_date_to_julian_def Let_def march_year_def march_month_def cmod_pos)
  also have "\<dots> = day_number d + 1721059"
    using day_number_march [OF m(1,2)] march_days_century [OF Y(1)] by simp
  finally show ?thesis .
qed

text \<open>The steps of \<open>grib_julian_to_date\<close>: the century, the year in it, the month, the day.\<close>

lemma mod_bounds: "0 < b \<Longrightarrow> 0 \<le> (a::int) mod b \<and> a mod b \<le> b - 1"
  using pos_mod_bound [of b a] by simp

lemma div_4_below: "0 \<le> r \<Longrightarrow> r \<le> 3 \<Longrightarrow> (4 * k + 3 - r) div 4 = (k::int)"
  using div_mult_self1 [of 4 "3 - r" k] by (simp add: algebra_simps)

lemma split_century:
  assumes "0 \<le> (C::int)" "0 \<le> k" "k \<le> 36523 \<or> C mod 4 = 3 \<and> k \<le> 36524"
  shows "(4 * (146097 * C div 4 + k) + 3) div 146097 = C" "(4 * (146097 * C div 4 + k) + 3) mod 146097 div 4 = k"
proof -
  define r where "r = C mod 4"
  have r: "0 \<le> r" "r \<le> 3" using mod_bounds [of 4 C] by (simp_all add: r_def)
  have e: "146097 * C = C + 36524 * C * 4" by simp
  have "146097 * C mod 4 = C mod 4" unfolding e by (rule mod_mult_self1)
  then have "4 * (146097 * C div 4) = 146097 * C - r"
    by (simp add: r_def minus_mod_eq_mult_div [symmetric])
  then have x: "4 * (146097 * C div 4 + k) + 3 = (4 * k + 3 - r) + C * 146097" by simp
  have b: "0 \<le> 4 * k + 3 - r" "4 * k + 3 - r < 146097" using assms r by (auto simp: r_def)
  show "(4 * (146097 * C div 4 + k) + 3) div 146097 = C" unfolding x using b by (simp only: div_mult_self1)
  show "(4 * (146097 * C div 4 + k) + 3) mod 146097 div 4 = k"
    unfolding x mod_mult_self1 using b div_4_below [OF r] by (simp only: mod_pos_pos_trivial)
qed

lemma split_year:
  assumes "0 \<le> (D::int)" "0 \<le> n" "n \<le> 364 \<or> D mod 4 = 3 \<and> n \<le> 365"
  shows "(4 * (1461 * D div 4 + n) + 3) div 1461 = D" "(4 * (1461 * D div 4 + n) + 3) mod 1461 div 4 = n"
proof -
  define q where "q = D mod 4"
  have q: "0 \<le> q" "q \<le> 3" using mod_bounds [of 4 D] by (simp_all add: q_def)
  have e: "1461 * D = D + 365 * D * 4" by simp
  have "1461 * D mod 4 = D mod 4" unfolding e by (rule mod_mult_self1)
  then have "4 * (1461 * D div 4) = 1461 * D - q"
    by (simp add: q_def minus_mod_eq_mult_div [symmetric])
  then have x: "4 * (1461 * D div 4 + n) + 3 = (4 * n + 3 - q) + D * 1461" by simp
  have b: "0 \<le> 4 * n + 3 - q" "4 * n + 3 - q < 1461" using assms q by (auto simp: q_def)
  show "(4 * (1461 * D div 4 + n) + 3) div 1461 = D" unfolding x using b by (simp only: div_mult_self1)
  show "(4 * (1461 * D div 4 + n) + 3) mod 1461 div 4 = n"
    unfolding x mod_mult_self1 using b div_4_below [OF q] by (simp only: mod_pos_pos_trivial)
qed

lemma split_month:
  assumes "1 \<le> (d::int)" "(153 * M + 2) div 5 + d \<le> (153 * (M + 1) + 2) div 5"
  shows "(5 * ((153 * M + 2) div 5 + d) - 3) div 153 = M" "(5 * ((153 * M + 2) div 5 + d) - 3) mod 153 div 5 + 1 = d"
proof -
  define r where "r = (153 * M + 2) mod 5"
  have r: "0 \<le> r" "r \<le> 4" using mod_bounds [of 5 "153 * M + 2"] by (simp_all add: r_def)
  have f: "5 * ((153 * M + 2) div 5) = 153 * M + 2 - r" by (simp add: r_def minus_mod_eq_mult_div [symmetric])
  have "5 * ((153 * (M + 1) + 2) div 5) \<le> 153 * M + 155" by (simp add: minus_mod_eq_mult_div [symmetric])
  with f assms(2) have b: "0 \<le> 5 * d - 1 - r" "5 * d - 1 - r < 153" using assms(1) r by linarith+
  have x: "5 * ((153 * M + 2) div 5 + d) - 3 = (5 * d - 1 - r) + M * 153" using f by simp
  have e: "5 * d - 1 - r = (4 - r) + (d - 1) * 5" by simp
  have "(5 * d - 1 - r) div 5 = d - 1" unfolding e using r by (simp add: div_pos_pos_trivial del: diff_add_eq)
  show "(5 * ((153 * M + 2) div 5 + d) - 3) div 153 = M" unfolding x using b by (subst div_mult_self1) simp_all
  show "(5 * ((153 * M + 2) div 5 + d) - 3) mod 153 div 5 + 1 = d"
    unfolding x mod_mult_self1 using b \<open>(5 * d - 1 - r) div 5 = d - 1\<close> by (simp only: mod_pos_pos_trivial)
qed

text \<open>A date in terms of the century, the year in it, the month and the day of the year that begins in March.\<close>

definition march_day :: "dt \<Rightarrow> int" where
  "march_day d = (153 * march_month (mo d) + 2) div 5 + dy d - 1"

lemma march_bounds:
  assumes "valid_date d" "Y = march_year (yr d) (mo d)" "M = march_month (mo d)"
  shows "(153 * M + 2) div 5 + dy d \<le> (153 * (M + 1) + 2) div 5" "0 \<le> march_day d" "0 \<le> M" "M \<le> 11"
    "march_day d \<le> 364 \<or> Y mod 100 mod 4 = 3 \<and> (Y mod 100 \<le> 98 \<or> Y div 100 mod 4 = 3) \<and> march_day d \<le> 365"
proof -
  have m: "1 \<le> mo d" "mo d \<le> 12" "1 \<le> dy d" "dy d \<le> month_len (yr d) (mo d)"
    using assms(1) by (simp_all add: valid_date_def)
  have x: "((153 * M + 2) div 5 + dy d \<le> (153 * (M + 1) + 2) div 5) \<and> 0 \<le> march_day d \<and> 0 \<le> M \<and> M \<le> 11 \<and>
      (march_day d \<le> 364 \<or> leap (Y + 1) \<and> march_day d \<le> 365)"
    using m(3,4) one_of_twelve [of 1 "mo d", simplified, OF m(1,2)] by (elim disjE; simp add: assms(2,3) march_day_def march_month_def march_year_def
        month_len_def mosiz_all [simplified] split: if_splits)
  have "Y mod 100 mod 4 = 3 \<and> (Y mod 100 \<le> 98 \<or> Y div 100 mod 4 = 3)" if l: "leap (Y + 1)"
  proof -
    define C D where "C = Y div 100" and "D = Y mod 100"
    have D: "0 \<le> D" "D \<le> 99" using mod_bounds [of 100 Y] by (simp_all add: D_def)
    have y: "Y + 1 = (D + 1) + 25 * C * 4" by (simp add: C_def D_def)
    have "4 dvd (D + 1) + 25 * C * 4" using l unfolding leap_def y by blast
    then have "4 dvd D + 1" by (simp add: dvd_add_left_iff)
    moreover have "4 dvd C + 1" if "D = 99"
    proof -
      have e: "Y + 1 = 100 * (C + 1)" using y that by simp
      with l have "100 * 4 dvd 100 * (C + 1)" unfolding leap_def by auto
      then show ?thesis by (simp only: dvd_mult_cancel_left) simp
    qed
    ultimately have "D mod 4 = 3 \<and> (D \<le> 98 \<or> C mod 4 = 3)" using D by presburger
    then show ?thesis by (simp add: C_def D_def)
  qed
  with x show "(153 * M + 2) div 5 + dy d \<le> (153 * (M + 1) + 2) div 5" "0 \<le> march_day d" "0 \<le> M" "M \<le> 11"
    "march_day d \<le> 364 \<or> Y mod 100 mod 4 = 3 \<and> (Y mod 100 \<le> 98 \<or> Y div 100 mod 4 = 3) \<and> march_day d \<le> 365"
    by blast+
qed

lemma march_back:
  assumes "1 \<le> m" "m \<le> 12"
  shows "(if march_month m + 1 < 11 then march_month m + 1 + 2 else march_month m + 1 - 10) = m"
    "march_year y m + (march_month m + 1) div 11 = y"
  using assms by (auto simp: march_month_def march_year_def)

text \<open>The date of a day is found again.\<close>

text \<open>Every date of the Gregorian calendar from year 1 on comes back from its day number.\<close>

lemma date_of_julian:
  assumes "valid_date d" "1 \<le> yr d"
  shows "grib_julian_to_date (grib_date_to_julian (date_unpack (yr d) (mo d) (dy d))) = date_unpack (yr d) (mo d) (dy d)"
proof -
  define Y M where "Y = march_year (yr d) (mo d)" and "M = march_month (mo d)"
  define C D n where "C = Y div 100" and "D = Y mod 100" and "n = march_day d"
  have m: "1 \<le> mo d" "mo d \<le> 12" "1 \<le> dy d" using assms(1) by (simp_all add: valid_date_def)
  have Y: "0 \<le> Y" "0 \<le> C" "0 \<le> D" "D \<le> 99"
    using assms(2) m mod_bounds [of 100 Y] by (auto simp: Y_def C_def D_def march_year_def)
  note b = march_bounds [OF assms(1) Y_def M_def, folded C_def D_def n_def]
  have j: "grib_date_to_julian (date_unpack (yr d) (mo d) (dy d)) = 146097 * C div 4 + 1461 * D div 4 + n + 1721120"
    using julian_of_day [OF assms] day_number_march [OF m(1,2)] march_days_century [OF Y(1)]
    by (simp add: Y_def C_def D_def n_def march_day_def)
  have "1461 * D div 4 \<le> 36159" "D \<le> 98 \<Longrightarrow> 1461 * D div 4 \<le> 35794" "0 \<le> 1461 * D div 4"
    using Y zdiv_mono1 [of "1461 * D" "1461 * 99" 4] zdiv_mono1 [of "1461 * D" "1461 * 98" 4] by simp_all
  moreover have "x \<le> 36159 \<Longrightarrow> (D \<le> 98 \<longrightarrow> x \<le> 35794) \<Longrightarrow> 0 \<le> x \<Longrightarrow>
      0 \<le> x + n \<and> (x + n \<le> 36523 \<or> C mod 4 = 3 \<and> x + n \<le> 36524)" for x using b(2,5) by (cases "n \<le> 364"; cases "D \<le> 98"; simp)
  ultimately have k: "0 \<le> 1461 * D div 4 + n" "1461 * D div 4 + n \<le> 36523 \<or> C mod 4 = 3 \<and> 1461 * D div 4 + n \<le> 36524" by blast+
  have x: "4 * (146097 * C div 4 + 1461 * D div 4 + n + 1721120) - 6884477 = 4 * (146097 * C div 4 + (1461 * D div 4 + n)) + 3" by simp
  have n': "n \<le> 364 \<or> D mod 4 = 3 \<and> n \<le> 365" using b(5) by auto
  note c = split_century [OF Y(2) k] and y = split_year [OF Y(3) b(2) n'] and mm = split_month [OF m(3) b(1)]
  have f: "5 * (n + 1) - 3 = 5 * ((153 * M + 2) div 5 + dy d) - 3" by (simp add: n_def march_day_def M_def)
  have nn: "0 \<le> 146097 * C div 4" using Y by (simp add: pos_imp_zdiv_nonneg_iff)
  have p: "0 \<le> 4 * (146097 * C div 4 + (1461 * D div 4 + n)) + 3" "0 \<le> 4 * (1461 * D div 4 + n) + 3"
    "0 \<le> 5 * ((153 * M + 2) div 5 + dy d) - 3"
    using Y k(1) nn m(3) b(3) by (simp_all add: pos_imp_zdiv_nonneg_iff)
  have mo: "(if M + 1 < 11 then M + 1 + 2 else M + 1 - 10) = mo d" "C * 100 + D + (M + 1) div 11 = yr d"
    using march_back(1) [OF m(1,2)] march_back(2) [OF m(1,2), of "yr d"] by (simp_all only: M_def Y_def C_def D_def div_mult_mod_eq)
  let ?k = "1461 * D div 4 + n" and ?c = "146097 * C div 4"
  have 1: "cdiv (4 * (?c + ?k) + 3) 146097 = C" "cdiv (cmod (4 * (?c + ?k) + 3) 146097) 4 = ?k"
    using c p(1) by (simp_all only: cdiv_pos cmod_pos mod_bounds zero_less_numeral)
  have 2: "cdiv (4 * ?k + 3) 1461 = D" "cdiv (cmod (4 * ?k + 3) 1461) 4 = n"
    using y p(2) by (simp_all only: cdiv_pos cmod_pos mod_bounds zero_less_numeral)
  have 3: "cdiv (5 * (n + 1) - 3) 153 = M" "cdiv (cmod (5 * (n + 1) - 3) 153) 5 + 1 = dy d" unfolding f
    using mm p(3) by (simp_all only: cdiv_pos cmod_pos mod_bounds zero_less_numeral)
  have 4: "cdiv (M + 1) 11 = (M + 1) div 11" using b(3) by simp
  have "grib_julian_to_date (?c + 1461 * D div 4 + n + 1721120) = (D + C * 100 + (M + 1) div 11) * 10000 + mo d * 100 + dy d"
    unfolding grib_julian_to_date_def Let_def x 1 2 3 4 mo(1) by simp
  with j mo(2) show ?thesis by (simp add: date_unpack_def add.commute)
qed

subsection \<open>Truncation of rounded quotients\<close>

lemma to_long_Fin: "0 \<le> r \<Longrightarrow> r < 2 ^ 62 \<Longrightarrow> to_long (Fin r) s = (Ok \<lfloor>r\<rfloor>, s)"
proof -
  assume r: "0 \<le> r" "r < 2 ^ 62"
  have "of_int \<lfloor>r\<rfloor> \<le> r" by simp
  then have "(of_int \<lfloor>r\<rfloor> :: rat) < of_int (2 ^ 63)" using r by simp
  then have "\<lfloor>r\<rfloor> < 2 ^ 63" by (simp only: of_int_less_iff)
  moreover have "0 \<le> \<lfloor>r\<rfloor>" using r by simp
  ultimately show ?thesis using r by (simp add: to_long_def Let_def run_simps)
qed

lemma rnd_quarter: "\<bar>n\<bar> < 2 ^ 53 \<Longrightarrow> rnd (of_int n / 4) = Fin (of_int n / 4)"
  by (rule rnd_short [of "- 2" "\<bar>n\<bar>"]) (auto simp: short_def power_int_def power_divide intro!: exI [of _ n])

text \<open>
  A quotient that is an integer or stays away from the next ones is truncated as in exact
  arithmetic.
\<close>

lemma to_long_rnd:
  assumes "of_int n = x \<or> of_int n + 1 / 2 ^ 24 \<le> x" "x + 1 / 2 ^ 24 < of_int n + 1" "1 \<le> n" "n < 2 ^ 27"
  shows "to_long (rnd x) s = (Ok n, s)"
  using assms(1)
proof
  assume "of_int n = x"
  moreover have "rnd (of_int n) = Fin (of_int n)" using assms by (intro rnd_of_int) simp
  ultimately show ?thesis using assms to_long_Fin [of "of_int n" s] by auto
next
  assume lo: "of_int n + 1 / 2 ^ 24 \<le> x"
  have n: "(1::rat) \<le> of_int n" "(of_int n :: rat) < 2 ^ 27" using assms(3,4) by (simp, metis of_int_less_iff of_int_numeral of_int_power)
  have p: "(2::rat) powi (- 1022) \<le> 1" by (simp add: power_int_def field_simps)
  have q: "(2::rat) ^ 28 \<le> 2 ^ 1023" by (intro power_increasing) auto
  have "x < 2 ^ 28" using n assms(2) by simp
  then have b: "(2::rat) powi (- 1022) \<le> \<bar>x\<bar>" "\<bar>x\<bar> < 2 ^ 1023" "x < 2 ^ 28" "0 < x" using n lo p q by (simp_all)
  from rnd_error [OF b(1,2)] obtain y where y: "rnd x = Fin y" "\<bar>y - x\<bar> \<le> \<bar>x\<bar> / 2 ^ 52" by blast
  have "\<bar>x\<bar> / 2 ^ 52 \<le> 1 / 2 ^ 24" using b(3,4) by (simp add: field_simps)
  with y(2) lo assms(2) have "of_int n \<le> y" "y < of_int n + 1" by linarith+
  then have "\<lfloor>y\<rfloor> = n" "0 \<le> y" "y < 2 ^ 62" using n by (auto simp: floor_eq_iff)
  with y(1) to_long_Fin [of y s] show ?thesis by simp
qed

text \<open>The literals of the code.\<close>

lemma literal_error:
  assumes "1 \<le> x" "x \<le> 2 ^ 10"
  shows "\<exists>r. dlit x = Fin r \<and> \<bar>r - x\<bar> \<le> 1 / 2 ^ 42"
proof -
  have p: "(2::rat) powi (- 1022) \<le> 1" by (simp add: power_int_def field_simps)
  have q: "(2::rat) ^ 11 \<le> 2 ^ 1023" by (intro power_increasing) auto
  have "(2::rat) powi (- 1022) \<le> \<bar>x\<bar>" "\<bar>x\<bar> < 2 ^ 1023" using assms p q by simp_all
  from rnd_error [OF this] obtain y where y: "rnd x = Fin y" "\<bar>y - x\<bar> \<le> \<bar>x\<bar> / 2 ^ 52" by blast
  have "\<bar>x\<bar> / 2 ^ 52 \<le> 1 / 2 ^ 42" using assms by (simp add: field_simps)
  with y show ?thesis unfolding dlit_def by force
qed

lemma literals:
  "dlit (1461 / 4) = Fin (1461 / 4)" "dlit (7468865 / 4) = Fin (7468865 / 4)" "dlit (146097 / 4) = Fin (146097 / 4)"
  "dlit (3049 / 2) = Fin (3049 / 2)" "dlit (1 / 2) = Fin (1 / 2)" "dlit 86400 = Fin 86400" "dlit 4 = Fin 4" "dlit 2 = Fin 2" "dlit 100 = Fin 100"
  using rnd_quarter [of 1461] rnd_quarter [of 7468865] rnd_quarter [of 146097] rnd_half_int [of 3049] rnd_half_int [of 1]
  by (simp_all add: dlit_def rnd_numeral)

lemma dint_Fin: "\<bar>n\<bar> < 2 ^ 53 \<Longrightarrow> dint n = Fin (of_int n)"
  by (simp add: dint_def rnd_of_int)

text \<open>\<open>(long)(365.25*n)\<close>, \<open>(long)(30.6001*n)\<close> and the quotients by a quarter number.\<close>

lemma years_to_days: "1 \<le> n \<Longrightarrow> n < 2 ^ 20 \<Longrightarrow> to_long (dmul (dlit (36525 / 100)) (dint n)) s = (Ok (1461 * n div 4), s)"
proof -
  assume n: "1 \<le> n" "n < 2 ^ 20"
  have "rnd (1461 / 4 * of_int n) = Fin (of_int (1461 * n) / 4)" using rnd_quarter [of "1461 * n"] n by simp
  then have "dmul (dlit (36525 / 100)) (dint n) = Fin (of_int (1461 * n) / 4)"
    using n by (simp add: literals dint_Fin dmul_def Let_def)
  moreover have "(of_int (1461 * n) / 4 :: rat) < 2 ^ 62"
  proof -
    have "(of_int n :: rat) < of_int (2 ^ 20)" using n by (simp only: of_int_less_iff)
    then show ?thesis by simp
  qed
  moreover have "\<lfloor>of_int (1461 * n) / (4::rat)\<rfloor> = 1461 * n div 4"
    using floor_divide_of_int_eq [of "1461 * n" 4, where ?'a = rat] by simp
  ultimately show ?thesis using to_long_Fin [of "of_int (1461 * n) / 4" s] n by simp
qed

lemma months_to_days:
  assumes "4 \<le> n" "n \<le> 15"
  shows "to_long (dmul (dlit (306001 / 10000)) (dint n)) s = (Ok ((153 * (n - 4) + 2) div 5 + 122), s)"
proof -
  from literal_error [of "306001 / 10000"] obtain r where r: "dlit (306001 / 10000) = Fin r" "\<bar>r - 306001 / 10000\<bar> \<le> 1 / 2 ^ 42" by auto
  then have "- 1 / 2 ^ 42 \<le> r - 306001 / 10000" "r - 306001 / 10000 \<le> 1 / 2 ^ 42" by (simp_all only: abs_le_iff) linarith+
  then have b: "306001 / 10000 - 1 / 2 ^ 42 \<le> r" "r \<le> 306001 / 10000 + 1 / 2 ^ 42" by simp_all
  then have "0 < r" by simp
  then have d: "dmul (dlit (306001 / 10000)) (dint n) = rnd (r * of_int n)" using assms by (simp add: r(1) dint_Fin dmul_def Let_def)
  show ?thesis unfolding d using one_of_twelve [of 4 n, simplified, OF assms]
    by (elim disjE; intro to_long_rnd; use b in \<open>simp add: field_simps\<close>)
qed

subsection \<open>Dates and times\<close>

text \<open>The number of quarters of a day, shifted by half a day, is what both functions compute with.\<close>

lemma century_of_year: "0 < Y \<Longrightarrow> 100 \<le> Y \<Longrightarrow> Y < 2 ^ 20 \<Longrightarrow> to_long (ddiv (dint Y) (dlit 100)) s = (Ok (Y div 100), s)"
proof -
  assume Y: "0 < Y" "100 \<le> Y" "Y < 2 ^ 20"
  have e: "ddiv (dint Y) (dlit 100) = rnd (of_int Y / 100)" using Y by (simp add: dint_Fin literals ddiv_def Let_def)
  define C D where "C = Y div 100" and "D = Y mod 100"
  have D: "0 \<le> D" "D \<le> 99" using mod_bounds [of 100 Y] by (simp_all add: D_def)
  have "Y = C * 100 + D" by (simp add: C_def D_def)
  then have x: "of_int Y / 100 = (of_int C + of_int D / 100 :: rat)" by simp
  have C: "1 \<le> C" "C < 2 ^ 27" using Y zdiv_mono1 [of 100 Y 100] zdiv_mono1 [of Y "2 ^ 20" 100] by (simp_all add: C_def)
  have d: "(of_int D :: rat) \<le> 99" "D = 0 \<or> (1 :: rat) \<le> of_int D" using D by linarith+
  show ?thesis unfolding e x C_def [symmetric] by (rule to_long_rnd) (use C d in auto)
qed

lemma quarter_of: "1 \<le> C \<Longrightarrow> C < 2 ^ 20 \<Longrightarrow> to_long (ddiv (dint C) (dlit 4)) s = (Ok (C div 4), s)"
proof -
  assume C: "1 \<le> C" "C < 2 ^ 20"
  then have "(of_int C :: rat) < of_int (2 ^ 20)" by (simp only: of_int_less_iff)
  moreover have "ddiv (dint C) (dlit 4) = Fin (of_int C / 4)" using C rnd_quarter [of C] by (simp add: dint_Fin literals ddiv_def Let_def)
  moreover have "\<lfloor>of_int C / (4::rat)\<rfloor> = C div 4" using floor_divide_of_int_eq [of C 4, where ?'a = rat] by simp
  ultimately show ?thesis using C to_long_Fin [of "of_int C / 4" s] by simp
qed

definition quarter_days :: "dt \<Rightarrow> int \<Rightarrow> int" where
  "quarter_days d q = 4 * (day_number d + 1721059) - 2 + q"

lemma march_days_bounds:
  assumes "1582 \<le> Y" "Y \<le> 9999"
  shows "march_days Y = 36524 * (Y div 100) + Y div 100 div 4 + 365 * (Y mod 100) + Y mod 100 div 4"
proof -
  have e: "146097 * (Y div 100) = Y div 100 + 36524 * (Y div 100) * 4" "1461 * (Y mod 100) = Y mod 100 + 365 * (Y mod 100) * 4" by simp_all
  have "146097 * (Y div 100) div 4 = 36524 * (Y div 100) + Y div 100 div 4" unfolding e(1) by (subst div_mult_self1) simp_all
  moreover have "1461 * (Y mod 100) div 4 = 365 * (Y mod 100) + Y mod 100 div 4" unfolding e(2) by (subst div_mult_self1) simp_all
  ultimately show ?thesis using march_days_century [of Y] assms by simp
qed

lemma datetime_to_julian_run:
  assumes "valid_date d" "1583 \<le> yr d" "yr d \<le> 9999" "hr d = 6 * q"
  shows "grib_datetime_to_julian (yr d) (mo d) (dy d) (hr d) 0 0 s = (Ok (Fin (of_int (quarter_days d q) / 4)), s)"
proof -
  define Y M where "Y = march_year (yr d) (mo d)" and "M = march_month (mo d)"
  define C D where "C = Y div 100" and "D = Y mod 100"
  have m: "1 \<le> mo d" "mo d \<le> 12" "1 \<le> dy d" "dy d \<le> 31" "0 \<le> q" "q \<le> 3"
    using assms(1,4) month_len_bounds [of "mo d" "yr d"] by (auto simp: valid_date_def)
  have Y: "1582 \<le> Y" "Y \<le> 9999" "15 \<le> C" "C \<le> 99" "0 \<le> D" "D \<le> 99" "Y = C * 100 + D"
    using assms(2,3) mod_bounds [of 100 Y] zdiv_mono1 [of 1500 Y 100] zdiv_mono1 [of Y 9999 100]
    by (auto simp: Y_def C_def D_def march_year_def)
  note b = march_bounds [OF assms(1) Y_def M_def, folded C_def D_def]
  have ym: "(if mo d < 3 then (yr d - 1, mo d + 12) else (yr d, mo d)) = (Y, M + 3)"
    by (auto simp: Y_def M_def march_year_def march_month_def)
  have g: "Y > 1582 \<or> Y = 1582 \<and> (M + 3 > 10 \<or> M + 3 = 10 \<and> dy d > 14)"
    using assms(2) m by (auto simp: Y_def M_def march_year_def march_month_def)
  have hour: "dadd (ddiv (dint (hr d * 3600 + 0 * 60 + 0)) (dlit 86400)) (dint (dy d)) = Fin (of_int (4 * dy d + q) / 4)"
  proof -
    have "ddiv (dint (hr d * 3600)) (dlit 86400) = (if q = 0 then Fin 0 else rnd (of_int q / 4))"
      using m assms(4) by (simp add: dint_Fin literals ddiv_def Let_def dzero_def)
    also have "\<dots> = Fin (of_int q / 4)" using rnd_quarter [of q] m by simp
    finally show ?thesis using m rnd_quarter [of "4 * dy d + q"] by (simp add: dint_Fin add_divide_distrib add.commute)
  qed
  have cent: "dadd (dsub (dlit 2) (dint C)) (dint (C div 4)) = Fin (of_int (2 - C + C div 4))"
  proof -
    have "0 \<le> C div 4" "C div 4 \<le> C" using Y by simp_all
    then show ?thesis using Y rnd_of_int [of "2 - C"] rnd_of_int [of "2 - C + C div 4"]
      by (simp add: literals dint_Fin dsub_def)
  qed
  have years: "1461 * (Y + 4716) div 4 = 36525 * C + 365 * D + D div 4 + 1722519"
  proof -
    have "1461 * (Y + 4716) = D + (36525 * C + 365 * D + 1722519) * 4" using Y(7) by simp
    then show ?thesis by (simp only: div_mult_self1)
  qed
  define F where "F = (153 * M + 2) div 5"
  have F: "0 \<le> F" "F \<le> 400" using b(3,4) by (simp_all add: F_def pos_imp_zdiv_nonneg_iff) 
  have dn: "day_number d + 1721059 = 36524 * C + C div 4 + 365 * D + D div 4 + F + dy d + 1721119"
    using day_number_march [OF m(1,2)] march_days_bounds [OF Y(1,2)] by (simp add: C_def D_def F_def Y_def M_def)
  define A where "A = 36525 * C + 365 * D + D div 4 + 1722519 + (F + 122)"
  have D4: "0 \<le> D div 4" "D div 4 \<le> D" "0 \<le> C div 4" "C div 4 \<le> C" using Y by simp_all
  have A: "0 < A" "A < 2 ^ 40" using Y F D4 by (simp_all add: A_def)
  have sum: "dsub (dadd (dadd (dint A) (Fin (of_int (4 * dy d + q) / 4))) (Fin (of_int (2 - C + C div 4)))) (dlit (15245 / 10)) =
      Fin (of_int (quarter_days d q) / 4)"
  proof -
    have "rnd (of_int A + of_int (4 * dy d + q) / 4) = Fin (of_int (4 * A + 4 * dy d + q) / 4)"
      using rnd_quarter [of "4 * A + 4 * dy d + q"] A m by (simp add: add_divide_distrib add.assoc)
    moreover have "rnd (of_int (4 * A + 4 * dy d + q) / 4 + of_int (2 - C + C div 4)) =
        Fin (of_int (4 * A + 4 * dy d + q + 4 * (2 - C + C div 4)) / 4)"
      using rnd_quarter [of "4 * A + 4 * dy d + q + 4 * (2 - C + C div 4)"] A m Y D4 by (simp add: add_divide_distrib diff_divide_distrib)
    moreover have "rnd (of_int (4 * A + 4 * dy d + q + 4 * (2 - C + C div 4)) / 4 + - (3049 / 2)) =
        Fin (of_int (4 * A + 4 * dy d + q + 4 * (2 - C + C div 4) - 6098) / 4)"
      using rnd_quarter [of "4 * A + 4 * dy d + q + 4 * (2 - C + C div 4) - 6098"] A m Y D4 by (simp add: add_divide_distrib diff_divide_distrib)
    moreover have "4 * A + 4 * dy d + q + 4 * (2 - C + C div 4) - 6098 = quarter_days d q"
      using dn by (simp add: quarter_days_def A_def)
    ultimately show ?thesis using A by (simp only: dsub_def literals dint_Fin dadd_Fin) (simp add: literals dint_Fin)
  qed
  have 1: "to_long (ddiv (dint Y) (dlit 100)) s = (Ok C, s)" using century_of_year [of Y s] Y(1,2) by (simp add: C_def)
  have 2: "to_long (ddiv (dint C) (dlit 4)) s = (Ok (C div 4), s)" using quarter_of [of C s] Y by simp
  have 3: "to_long (dmul (dlit (36525 / 100)) (dint (Y + 4716))) s = (Ok (36525 * C + 365 * D + D div 4 + 1722519), s)"
    using years_to_days [of "Y + 4716" s, unfolded years] Y(1,2) by auto
  have 4: "to_long (dmul (dlit (306001 / 10000)) (dint (M + 3 + 1))) s = (Ok (F + 122), s)"
    using months_to_days [of "M + 4" s] b(3,4) by (simp add: F_def add.commute)
  show ?thesis unfolding grib_datetime_to_julian_def ym Let_def hour prod.case
    by (simp only: bnd_run ret_run continue.simps 1 2 3 4 g if_True cent A_def [symmetric] sum)
qed

text \<open>The four quotients of \<open>grib_julian_to_datetime\<close>.\<close>

lemma alpha_run:
  assumes "0 \<le> g" "g \<le> 146096" "1 \<le> C" "C < 2 ^ 20" "4 * z = 146097 * C + g + 7468865"
  shows "to_long (ddiv (dsub (dint z) (dlit (186721625 / 100))) (dlit (3652425 / 100))) s = (Ok C, s)"
proof -
  have z: "\<bar>z\<bar> < 2 ^ 53" "0 < 146097 * C + g" using assms by auto
  have e: "of_int z + - (7468865 / 4) = (of_int (146097 * C + g) / 4 :: rat)"
  proof -
    have "of_int (4 * z) = (of_int (146097 * C + g + 7468865) :: rat)" using assms(5) by simp
    then show ?thesis by simp
  qed
  have "rnd (of_int z + - (7468865 / 4)) = Fin (of_int (146097 * C + g) / 4)" unfolding e using assms by (intro rnd_quarter) simp
  then have s: "dsub (dint z) (dlit (186721625 / 100)) = Fin (of_int (146097 * C + g) / 4)"
    using z by (simp add: dsub_def dint_Fin literals del: of_int_add of_int_mult)
  have d: "ddiv (Fin (of_int (146097 * C + g) / 4)) (dlit (3652425 / 100)) = rnd (of_int C + of_int g / 146097)"
    using z(2) by (simp add: ddiv_def Let_def literals add_divide_distrib)
  have g: "g = 0 \<or> (1::rat) \<le> of_int g" "(of_int g :: rat) \<le> 146096" using assms(1,2) by linarith+
  show ?thesis unfolding s d by (rule to_long_rnd) (use assms g in \<open>auto simp: field_simps\<close>)
qed

lemma year_run:
  assumes "3 \<le> k" "k \<le> 7303" "1 \<le> c" "c < 2 ^ 18" "20 * b = 7305 * c + k + 2442"
  shows "to_long (ddiv (dsub (dint b) (dlit (1221 / 10))) (dlit (36525 / 100))) s = (Ok c, s)"
proof -
  from literal_error [of "1221 / 10"] obtain r where r: "dlit (1221 / 10) = Fin r" "\<bar>r - 1221 / 10\<bar> \<le> 1 / 2 ^ 42" by auto
  then have rb: "1221 / 10 - 1 / 2 ^ 42 \<le> r" "r \<le> 1221 / 10 + 1 / 2 ^ 42" unfolding abs_le_iff by linarith+
  have b: "488 \<le> b" "b < 2 ^ 27" "\<bar>b\<bar> < 2 ^ 53" using assms by auto
  then have bq: "(488::rat) \<le> of_int b" "(of_int b :: rat) < 2 ^ 27" by (simp, metis of_int_less_iff of_int_numeral of_int_power)
  have p: "(2::rat) powi (- 1022) \<le> 1" by (simp add: power_int_def field_simps)
  have q: "(2::rat) ^ 28 \<le> 2 ^ 1023" by (intro power_increasing) auto
  have v: "(2::rat) powi (- 1022) \<le> \<bar>of_int b - r\<bar>" "\<bar>of_int b - r\<bar> < 2 ^ 1023" "0 < of_int b - r" "of_int b - r < 2 ^ 28"
    using bq rb p q by simp_all
  from rnd_error [OF v(1,2)] obtain y where y: "rnd (of_int b - r) = Fin y" "\<bar>y - (of_int b - r)\<bar> \<le> \<bar>of_int b - r\<bar> / 2 ^ 52" by blast
  have "\<bar>of_int b - r\<bar> / 2 ^ 52 \<le> 1 / 2 ^ 24" using v(3,4) by (simp add: field_simps)
  then have yb: "of_int b - 1221 / 10 - 1 / 2 ^ 23 \<le> y" "y \<le> of_int b - 1221 / 10 + 1 / 2 ^ 23"
    using y(2) rb unfolding abs_le_iff by simp_all
  have "of_int (20 * b) = (of_int (7305 * c + k + 2442) :: rat)" using assms(5) by simp
  then have ck: "of_int b - 1221 / 10 = (1461 / 4 * of_int c + of_int k / 20 :: rat)" by simp
  have k: "(3::rat) \<le> of_int k" "(of_int k :: rat) \<le> 7303" using assms by linarith+
  have "r \<noteq> 0" using rb(1) by auto
  then have s: "dsub (dint b) (dlit (1221 / 10)) = Fin y" using y(1) b by (simp add: dsub_def dint_Fin r(1))
  have "0 < y" using yb(1) bq by simp
  then have d: "ddiv (Fin y) (dlit (36525 / 100)) = rnd (y / (1461 / 4))" by (simp add: ddiv_def Let_def literals)
  show ?thesis unfolding s d by (rule to_long_rnd) (use assms(3,4) k yb ck in \<open>auto simp: field_simps\<close>)
qed

lemma month_run:
  assumes "1 \<le> k" "k \<le> 306000" "4 \<le> e" "e \<le> 15" "10000 * n = 306001 * e + k"
  shows "to_long (ddiv (dint n) (dlit (306001 / 10000))) s = (Ok e, s)"
proof -
  from literal_error [of "306001 / 10000"] obtain r where r: "dlit (306001 / 10000) = Fin r" "\<bar>r - 306001 / 10000\<bar> \<le> 1 / 2 ^ 42" by auto
  then have b: "306001 / 10000 - 1 / 2 ^ 42 \<le> r" "r \<le> 306001 / 10000 + 1 / 2 ^ 42" unfolding abs_le_iff by linarith+
  then have "0 < r" by simp
  have n: "0 < n" "\<bar>n\<bar> < 2 ^ 53" using assms by auto
  then have d: "ddiv (dint n) (dlit (306001 / 10000)) = rnd (of_int n / r)" using \<open>0 < r\<close> by (simp add: r(1) dint_Fin ddiv_def Let_def)
  have "of_int (10000 * n) = (of_int (306001 * e + k) :: rat)" using assms(5) by simp
  then have nq: "of_int n = (306001 / 10000 * of_int e + of_int k / 10000 :: rat)" by simp
  have k: "(1::rat) \<le> of_int k" "(of_int k :: rat) \<le> 306000" using assms by linarith+
  have "e \<le> 15" using assms(4) by simp
  from one_of_twelve [of 4 e, simplified, OF assms(3) this] have "of_int e + 1 / 2 ^ 24 \<le> of_int n / r" "of_int n / r + 1 / 2 ^ 24 < of_int e + 1"
    unfolding nq using b \<open>0 < r\<close> k by (elim disjE; simp add: field_simps)+
  then show ?thesis unfolding d using assms(3,4) by (intro to_long_rnd) auto
qed

text \<open>A day in terms of the century, the year in it and the day of the year.\<close>

lemma days_of_century:
  assumes "valid_date d" "1583 \<le> yr d" "yr d \<le> 9999"
    and "C = march_year (yr d) (mo d) div 100" "D = march_year (yr d) (mo d) mod 100" "n = march_day d"
  shows "day_number d + 1721059 = 36524 * C + C div 4 + 365 * D + D div 4 + n + 1721120"
    "2299161 \<le> day_number d + 1721059" "15 \<le> C" "C \<le> 99" "0 \<le> D" "D \<le> 99" "march_year (yr d) (mo d) = C * 100 + D"
proof -
  let ?Y = "march_year (yr d) (mo d)" and ?M = "march_month (mo d)"
  have m: "1 \<le> mo d" "mo d \<le> 12" "1 \<le> dy d" using assms(1) by (simp_all add: valid_date_def)
  have Y: "1582 \<le> ?Y" "?Y \<le> 9999" using assms(2,3) by (simp_all add: march_year_def)
  show y: "15 \<le> C" "C \<le> 99" "0 \<le> D" "D \<le> 99" "?Y = C * 100 + D"
    using Y mod_bounds [of 100 ?Y] zdiv_mono1 [of 1500 ?Y 100] zdiv_mono1 [of ?Y 9999 100] by (simp_all add: assms(4,5))
  have b: "0 \<le> n" using march_bounds(2) [OF assms(1) refl refl] by (simp add: assms(6))
  show dn: "day_number d + 1721059 = 36524 * C + C div 4 + 365 * D + D div 4 + n + 1721120"
    using day_number_march [OF m(1,2)] march_days_bounds [OF Y] by (simp add: assms(4-6) march_day_def)
  show "2299161 \<le> day_number d + 1721059"
  proof (cases "?Y = 1582")
    case True
    then have M: "10 \<le> ?M" "C = 15" "D = 82" using assms(2,4,5) m by (auto simp: march_year_def march_month_def split: if_splits)
    have "306 \<le> (153 * ?M + 2) div 5" using zdiv_mono1 [of "153 * 10 + 2" "153 * ?M + 2" 5] M(1) by simp
    then show ?thesis using m dn M(2,3) by (simp add: assms(6) march_day_def)
  next
    case False
    then have "1583 \<le> C * 100 + D" using Y y(5) by simp
    then have "C = 15 \<and> 83 \<le> D \<or> 16 \<le> C" using y by arith
    then show ?thesis
    proof
      assume "C = 15 \<and> 83 \<le> D"
      then show ?thesis using dn b zdiv_mono1 [of 83 D 4] by simp
    next
      assume "16 \<le> C"
      then show ?thesis using dn b y zdiv_mono1 [of 16 C 4] by (simp add: pos_imp_zdiv_nonneg_iff)
    qed
  qed
qed

lemma month_days_scaled:
  assumes "0 \<le> (M::int)" "M \<le> 11" "1 \<le> d" "(153 * M + 2) div 5 + d \<le> (153 * (M + 1) + 2) div 5"
  shows "1 \<le> 10000 * ((153 * M + 2) div 5 + d + 122) - 306001 * (M + 4)"
    "10000 * ((153 * M + 2) div 5 + d + 122) - 306001 * (M + 4) \<le> 306000"
proof -
  from one_of_twelve [of 0 M, simplified, OF assms(1,2)] show "1 \<le> 10000 * ((153 * M + 2) div 5 + d + 122) - 306001 * (M + 4)"
    "10000 * ((153 * M + 2) div 5 + d + 122) - 306001 * (M + 4) \<le> 306000"
    using assms(3,4) by (elim disjE; simp)+
qed

lemma day_fraction:
  assumes "0 \<le> q" "q \<le> 3" "1 \<le> (n::int)" "n < 2 ^ 40"
  shows "dadd (dint n) (Fin (of_int q / 4)) = Fin (of_int (4 * n + q) / 4)"
    "to_long (Fin (of_int (4 * n + q) / 4)) s = (Ok n, s)"
    "dsub (Fin (of_int (4 * n + q) / 4)) (dint n) = Fin (of_int q / 4)"
    "round_half_up (dmul (Fin (of_int q / 4)) (dlit 86400)) s = (Ok (21600 * q), s)"
proof -
  show "dadd (dint n) (Fin (of_int q / 4)) = Fin (of_int (4 * n + q) / 4)"
    using rnd_quarter [of "4 * n + q"] assms by (simp add: dint_Fin add_divide_distrib)
  have "(of_int n :: rat) < of_int (2 ^ 40)" using assms by (simp only: of_int_less_iff)
  then have b: "(0::rat) \<le> of_int (4 * n + q) / 4" "(of_int (4 * n + q) / 4 :: rat) < 2 ^ 62" using assms by auto
  have "\<lfloor>of_int (4 * n + q) / (4::rat)\<rfloor> = n" using floor_divide_of_int_eq [of "4 * n + q" 4, where ?'a = rat] assms by simp
  then show "to_long (Fin (of_int (4 * n + q) / 4)) s = (Ok n, s)" using to_long_Fin [OF b] by simp
  have e: "of_int (4 * n + q) / 4 + - of_int n = (of_int q / 4 :: rat)" by (simp add: add_divide_distrib)
  show "dsub (Fin (of_int (4 * n + q) / 4)) (dint n) = Fin (of_int q / 4)"
    using rnd_quarter [of q] assms e by (simp add: dint_Fin dsub_def add_divide_distrib)
  have "q = 0 \<or> q = 1 \<or> q = 2 \<or> q = 3" using assms(1,2) by arith
  then have m: "dmul (Fin (of_int q / 4)) (dlit 86400) = Fin (of_int (21600 * q))"
    using rnd_of_int [of "21600 * q"] by (elim disjE; simp add: dmul_def Let_def literals dzero_def)
  have h: "rnd (of_int (21600 * q) + 1 / 2) = Fin (of_int (43200 * q + 1) / 2)"
    using rnd_half_int [of "43200 * q + 1"] assms by (simp add: add_divide_distrib)
  have f: "\<lfloor>of_int (43200 * q + 1) / (2::rat)\<rfloor> = 21600 * q" using floor_divide_of_int_eq [of "43200 * q + 1" 2, where ?'a = rat] by simp
  have "(of_int q :: rat) \<le> 3" "(0 :: rat) \<le> of_int q" using assms by simp_all
  then show "round_half_up (dmul (Fin (of_int q / 4)) (dlit 86400)) s = (Ok (21600 * q), s)"
    using to_long_Fin [of "of_int (43200 * q + 1) / 2" s] h f assms unfolding m by (simp add: round_half_up_def dleq_def literals)
qed

lemma julian_to_datetime_run:
  assumes "valid_date d" "1583 \<le> yr d" "yr d \<le> 9999" "hr d = 6 * q"
  shows "grib_julian_to_datetime (Fin (of_int (quarter_days d q) / 4)) s =
    (Ok \<lparr>dt_year = yr d, dt_month = mo d, dt_day = dy d, dt_hour = hr d, dt_minute = 0, dt_second = 0\<rparr>, s)"
proof -
  define Y M where "Y = march_year (yr d) (mo d)" and "M = march_month (mo d)"
  define C D n where "C = Y div 100" and "D = Y mod 100" and "n = march_day d"
  define F z where "F = (153 * M + 2) div 5" and "z = day_number d + 1721059"
  have m: "1 \<le> mo d" "mo d \<le> 12" "1 \<le> dy d" "0 \<le> q" "q \<le> 3"
    using assms(1,4) by (simp_all add: valid_date_def)
  note b = march_bounds [OF assms(1) Y_def M_def, folded C_def D_def n_def F_def]
  have n: "n = F + dy d - 1" by (simp add: n_def march_day_def F_def M_def)
  note c = days_of_century [OF assms(1-3) C_def [unfolded Y_def] D_def [unfolded Y_def] n_def, folded z_def Y_def]
  have D4: "0 \<le> D div 4" "D div 4 \<le> D" "0 \<le> C div 4" "C div 4 \<le> C" "D mod 4 \<le> 3" "C mod 4 \<le> 3" "0 \<le> D mod 4" "0 \<le> C mod 4"
    "D = D div 4 * 4 + D mod 4" "C = C div 4 * 4 + C mod 4" using c(3-6) mod_bounds [of 4 C] mod_bounds [of 4 D] by simp_all
  have nb: "0 \<le> n" "n \<le> 365" using b(2,5) by auto
  have "x \<le> C \<Longrightarrow> y \<le> D \<Longrightarrow> 36524 * C + x + 365 * D + y + n + 1721120 < 2 ^ 40" for x y using c(4,6) nb(2) by simp
  with c(1) D4(2,4) have zb: "1 \<le> z" "z < 2 ^ 40" "\<not> z < 2299161" using c(2) by simp_all
  have jd: "dadd (Fin (of_int (quarter_days d q) / 4)) (dlit (1 / 2)) = Fin (of_int (4 * z + q) / 4)"
    using rnd_quarter [of "4 * z + q"] zb m by (simp add: literals quarter_days_def z_def add_divide_distrib diff_divide_distrib add_ac)
  have 1: "to_long (ddiv (dsub (dint z) (dlit (186721625 / 100))) (dlit (3652425 / 100))) s = (Ok (C - 4), s)"
  proof (rule alpha_run)
    have "4 * (x + y) = C + D - cm - dm \<Longrightarrow> 4 * (36524 * C + x + 365 * D + y + n + 1721120) =
        146097 * (C - 4) + (1461 * D - dm - cm + 4 * n + 3) + 7468865" for x y cm dm by simp
    then show "4 * z = 146097 * (C - 4) + (1461 * D - D mod 4 - C mod 4 + 4 * n + 3) + 7468865"
      unfolding c(1) by (simp add: minus_mod_eq_mult_div [symmetric] distrib_left)
    show "0 \<le> 1461 * D - D mod 4 - C mod 4 + 4 * n + 3" using D4 c(5) nb by (cases "D = 0") auto
    show "1461 * D - D mod 4 - C mod 4 + 4 * n + 3 \<le> 146096"
    proof (cases "D = 99")
      case True
      then have "D mod 4 = 3" by simp
      then show ?thesis using True b(5) D4(8) nb by (cases "n \<le> 364") simp_all
    next
      case False
      then show ?thesis using c(6) nb D4(7,8) by simp
    qed
  qed (use c in auto)
  have 2: "to_long (ddiv (dint (C - 4)) (dlit 4)) s = (Ok (C div 4 - 1), s)"
    using quarter_of [of "C - 4" s] c(3,4) div_add_self2 [of 4 "C - 4"] by simp
  define B where "B = z + 1 + (C - 4) - (C div 4 - 1) + 1524"
  have B: "B = 36525 * C + 365 * D + D div 4 + n + 1722642" using c(1) by (simp add: B_def)
  have 3: "to_long (ddiv (dsub (dint B) (dlit (1221 / 10))) (dlit (36525 / 100))) s = (Ok (Y + 4716), s)"
  proof (rule year_run)
    show "20 * B = 7305 * (Y + 4716) + (20 * n + 18 - 5 * (D mod 4)) + 2442"
    proof -
      have "4 * x = D - dm \<Longrightarrow> 20 * (36525 * C + 365 * D + x + n + 1722642) = 7305 * (C * 100 + D + 4716) + (20 * n + 18 - 5 * dm) + 2442" for x dm
        by simp
      then show ?thesis unfolding B c(7) using minus_mod_eq_mult_div [of D 4] by metis
    qed
    show "3 \<le> 20 * n + 18 - 5 * (D mod 4)" "20 * n + 18 - 5 * (D mod 4) \<le> 7303" using D4(5,7) nb b(5) by auto
    show "1 \<le> Y + 4716" "Y + 4716 < 2 ^ 18" using c(3-7) by auto
  qed
  define d' where "d' = 1461 * (Y + 4716) div 4"
  have d': "d' = 36525 * C + 365 * D + D div 4 + 1722519"
  proof -
    have "1461 * (Y + 4716) = D + (36525 * C + 365 * D + 1722519) * 4" using c(7) by simp
    then show ?thesis unfolding d'_def by (simp only: div_mult_self1)
  qed
  have 4: "to_long (dmul (dlit (36525 / 100)) (dint (Y + 4716))) s = (Ok d', s)"
    unfolding d'_def using c(3-7) by (intro years_to_days) auto
  have bd: "B - d' = F + dy d + 122" using B d' n by simp
  have 5: "to_long (ddiv (dint (F + dy d + 122)) (dlit (306001 / 10000))) s = (Ok (M + 4), s)"
    using month_days_scaled [OF b(3,4) m(3) b(1) [unfolded F_def]] b(3,4)
    by (intro month_run [where k = "10000 * (F + dy d + 122) - 306001 * (M + 4)"]) (simp_all add: F_def)
  have 6: "to_long (dmul (dlit (306001 / 10000)) (dint (M + 4))) s = (Ok (F + 122), s)"
    using months_to_days [of "M + 4" s] b(3,4) by (simp add: F_def)
  have 7: "F + dy d + 122 - (F + 122) = dy d" by simp
  have dyb: "1 \<le> dy d" "dy d < 2 ^ 40" using assms(1) month_len_bounds [OF m(1,2), of "yr d"] by (auto simp: valid_date_def)
  have mo: "(if M + 4 < 14 then M + 4 - 1 else M + 4 - 13) = mo d" using m by (auto simp: M_def march_month_def)
  have yr: "(if 2 < mo d then Y + 4716 - 4716 else Y + 4716 - 4715) = yr d" by (simp add: Y_def march_year_def)
  have "q = 0 \<or> q = 1 \<or> q = 2 \<or> q = 3" using m(4,5) by arith
  then have hr: "cdiv (21600 * q) 3600 = hr d" "cdiv (cmod (21600 * q) 3600) 60 = 0" "cmod (21600 * q) 60 = 0"
    using assms(4) by (elim disjE; simp add: cmod_pos)+
  show ?thesis unfolding grib_julian_to_datetime_def jd Let_def
    by (simp only: bnd_run ret_run continue.simps if_False zb(3) 1 2 3 4 5 6 7 bd B_def [symmetric] mo yr hr
        day_fraction [OF m(4,5) zb(1,2)] day_fraction [OF m(4,5) dyb])
qed

end
