(* ===== verification/StepKeys.thy ===== *)
theory StepKeys
  imports JulianDates
begin

text \<open>
  The steps of a GRIB 2 record: \<open>startStep\<close>
  (\<open>src/grib-api/src/grib_accessor_class_step_in_units.c\<close>) and \<open>endStep\<close>
  (\<open>grib_accessor_class_g2end_step.c\<close>), which the library computes from the coded keys of the
  product definition, and which change these keys when they are set. The coded keys are the
  state. The returns with the error of a coded key that cannot be read or set are left out; the
  products of a coded key of at most four octets and a number of seconds are far from the bounds of
  \<open>long\<close>.
\<close>

subsection \<open>The coded keys\<close>

text \<open>One specification of a time range; \<open>interval\<close> is whether the template has any.\<close>

record time_range =
  typeOfTimeIncrement :: int
  indicatorOfUnitForTimeRange :: int
  lengthOfTimeRange :: int

record step_keys =
  forecastTime :: int
  indicatorOfUnitOfTimeRange :: int
  stepUnits :: int
  interval :: bool
  time_ranges :: "time_range list"
  reference_time :: date_time
  end_of_interval :: date_time

definition GRIB_DECODING_ERROR :: int where
  "GRIB_DECODING_ERROR = - 13"

definition GRIB_WRONG_STEP :: int where
  "GRIB_WRONG_STEP = - 25"

definition GRIB_WRONG_STEP_UNIT :: int where
  "GRIB_WRONG_STEP_UNIT = - 26"

definition u2s2 :: "int list" where
  "u2s2 = [60, 3600, 86400, 2592000, - 1, - 1, - 1, - 1, - 1, - 1, 10800, 21600, 43200, 1]"

definition u2s :: "int list" where
  "u2s = [60, 3600, 86400, 2592000, - 1, - 1, - 1, - 1, - 1, - 1, 10800, 21600, 43200, 1, 900, 1800]"

definition seconds_of :: "int list \<Rightarrow> int \<Rightarrow> ('s, int) prog" where
  "seconds_of table i = (if 0 \<le> i \<and> i < int (length table) then ret (table ! nat i) else crash)"

text \<open>The specifications of the time ranges; a key without a rank is of the first of them.\<close>

definition first_range :: "(step_keys, time_range) prog" where
  "first_range = bnd (rd time_ranges) (\<lambda>rs. case rs of [] \<Rightarrow> crash | r # _ \<Rightarrow> ret r)"

definition set_first_range :: "(time_range \<Rightarrow> time_range) \<Rightarrow> (step_keys, unit) prog" where
  "set_first_range f = bnd (rd time_ranges) (\<lambda>rs. case rs of [] \<Rightarrow> crash
     | r # rs \<Rightarrow> upd (\<lambda>s. s\<lparr>time_ranges := f r # rs\<rparr>))"

subsection \<open>The first step\<close>

text \<open>Error code and value of \<open>unpack_long\<close>; the value is written before the units are looked at.\<close>

definition step_unpack_long :: "(step_keys, int \<times> int) prog" where
  "step_unpack_long =
     bnd (rd indicatorOfUnitOfTimeRange) (\<lambda>codedUnits.
     bnd (rd stepUnits) (\<lambda>units.
     bnd (rd forecastTime) (\<lambda>codedStep.
     if units \<noteq> codedUnits then
       bnd (seconds_of u2s2 codedUnits) (\<lambda>coded_seconds.
       let val = codedStep * coded_seconds in
       if val < 0 \<and> cmod coded_seconds 60 \<noteq> 0 then ret (GRIB_DECODING_ERROR, val) else
       bnd (seconds_of u2s units) (\<lambda>step_seconds.
       if val < 0 \<and> cmod step_seconds 60 \<noteq> 0 then ret (GRIB_DECODING_ERROR, val) else
         let (val, u2sf_step_unit) = (if val < 0 then (codedStep * cdiv coded_seconds 60, cdiv step_seconds 60)
           else (val, step_seconds)) in
         if cmod val u2sf_step_unit \<noteq> 0 then seq (upd (\<lambda>s. s\<lparr>stepUnits := codedUnits\<rparr>)) (ret (0, codedStep))
         else ret (0, cdiv val u2sf_step_unit)))
     else ret (0, codedStep))))"

definition step_pack_long :: "int \<Rightarrow> (step_keys, int) prog" where
  "step_pack_long val =
     bnd (rd indicatorOfUnitOfTimeRange) (\<lambda>codedUnits.
     bnd (rd stepUnits) (\<lambda>units.
     bnd step_unpack_long (\<lambda>(_, oldStep).
     bnd (if units \<noteq> codedUnits then
            bnd (seconds_of u2s units) (\<lambda>step_seconds.
            bnd (seconds_of u2s2 codedUnits) (\<lambda>coded_seconds.
            if cmod (val * step_seconds) coded_seconds \<noteq> 0
            then seq (upd (\<lambda>s. s\<lparr>indicatorOfUnitOfTimeRange := units\<rparr>)) (ret (units, val))
            else ret (codedUnits, cdiv (val * step_seconds) coded_seconds)))
          else ret (codedUnits, val)) (\<lambda>(codedUnits, codedStep).
     bnd (rd interval) (\<lambda>ranged.
     seq (if ranged then
            bnd first_range (\<lambda>r.
            bnd (if codedUnits = indicatorOfUnitForTimeRange r then ret (lengthOfTimeRange r - (codedStep - oldStep))
                 else bnd (seconds_of u2s2 codedUnits) (\<lambda>coded_seconds.
                      bnd (seconds_of u2s2 (indicatorOfUnitForTimeRange r)) (\<lambda>range_seconds.
                      ret (lengthOfTimeRange r - cdiv (codedStep * coded_seconds) range_seconds)))) (\<lambda>n.
            set_first_range (\<lambda>r. r\<lparr>lengthOfTimeRange := (if 0 < n then n else 0)\<rparr>)))
          else ret ()) (
     seq (upd (\<lambda>s. s\<lparr>forecastTime := codedStep\<rparr>)) (ret 0)))))))"

subsection \<open>The last step\<close>

text \<open>The length of a time range in the units of the step, or an error.\<close>

definition convert_time_range :: "int \<Rightarrow> int \<Rightarrow> int \<Rightarrow> ('s, int + int) prog" where
  "convert_time_range units range_unit len =
     (if range_unit \<noteq> units then
        bnd (seconds_of u2s2 range_unit) (\<lambda>range_seconds.
        let coded = len * range_seconds in
        if coded < 0 \<and> cmod range_seconds 60 \<noteq> 0 then ret (Inl GRIB_DECODING_ERROR) else
        bnd (seconds_of u2s units) (\<lambda>step_seconds.
        if coded < 0 \<and> cmod step_seconds 60 \<noteq> 0 then ret (Inl GRIB_DECODING_ERROR) else
          let (coded, u2sf_step_unit) = (if coded < 0 then (len * cdiv range_seconds 60, cdiv step_seconds 60)
            else (coded, step_seconds)) in
          if cmod coded u2sf_step_unit \<noteq> 0 then ret (Inl GRIB_WRONG_STEP_UNIT)
          else ret (Inr (cdiv coded u2sf_step_unit))))
      else ret (Inr len))"

text \<open>\<open>special\<close> is \<open>is_special_expver\<close>, experiment version 1605.\<close>

definition unpack_one_time_range :: "bool \<Rightarrow> int \<Rightarrow> (step_keys, int + int) prog" where
  "unpack_one_time_range special start_step =
     bnd (rd stepUnits) (\<lambda>units.
     bnd first_range (\<lambda>r.
     bnd (convert_time_range units (indicatorOfUnitForTimeRange r) (lengthOfTimeRange r)) (\<lambda>n.
     case n of Inl e \<Rightarrow> ret (Inl e)
     | Inr n \<Rightarrow> ret (Inr (if typeOfTimeIncrement r \<noteq> 1 \<or> special then start_step + n else start_step)))))"

definition unpack_multiple_time_ranges :: "int \<Rightarrow> (step_keys, int + int) prog" where
  "unpack_multiple_time_ranges start_step =
     bnd (rd stepUnits) (\<lambda>units.
     bnd (rd time_ranges) (\<lambda>rs.
     if 16 < length rs then ret (Inl GRIB_DECODING_ERROR)
     else case find (\<lambda>r. typeOfTimeIncrement r = 2) rs of
       None \<Rightarrow> ret (Inl GRIB_DECODING_ERROR)
     | Some r \<Rightarrow> bnd (convert_time_range units (indicatorOfUnitForTimeRange r) (lengthOfTimeRange r)) (\<lambda>n.
         case n of Inl e \<Rightarrow> ret (Inl e) | Inr n \<Rightarrow> ret (Inr (start_step + n)))))"

text \<open>A failing \<open>Assert\<close> aborts the process.\<close>

definition end_unpack_long :: "bool \<Rightarrow> (step_keys, int + int) prog" where
  "end_unpack_long special =
     bnd step_unpack_long (\<lambda>(err, start_step).
     if err \<noteq> 0 then ret (Inl err) else
     bnd (rd interval) (\<lambda>ranged.
     if \<not> ranged then ret (Inr start_step) else
     bnd (rd (\<lambda>s. length (time_ranges s))) (\<lambda>n.
     if n = 1 then unpack_one_time_range special start_step
     else if n = 2 then unpack_multiple_time_ranges start_step
     else exit_with 134)))"

definition end_pack_long :: "int \<Rightarrow> (step_keys, int) prog" where
  "end_pack_long val =
     bnd (rd interval) (\<lambda>ranged.
     if \<not> ranged then step_pack_long val else
     bnd first_range (\<lambda>r.
     bnd (rd stepUnits) (\<lambda>units.
     bnd (rd reference_time) (\<lambda>t.
     bnd step_unpack_long (\<lambda>(err, start_step).
     if err \<noteq> 0 then ret err else
     let time_range = val - start_step in
     if time_range < 0 then ret GRIB_WRONG_STEP else
     bnd (grib_datetime_to_julian (dt_year t) (dt_month t) (dt_day t) (dt_hour t) (dt_minute t) (dt_second t)) (\<lambda>dend.
     bnd (seconds_of u2s units) (\<lambda>step_seconds.
     let dstep = ddiv (dmul (dint val) (dint step_seconds)) (dint (u2s ! 2)) in
     bnd (grib_julian_to_datetime (dadd dend dstep)) (\<lambda>t.
     seq (upd (\<lambda>s. s\<lparr>end_of_interval := t\<rparr>)) (
     bnd (seconds_of u2s2 (indicatorOfUnitForTimeRange r)) (\<lambda>range_seconds.
     bnd (if cmod (time_range * step_seconds) range_seconds \<noteq> 0
          then seq (set_first_range (\<lambda>r. r\<lparr>indicatorOfUnitForTimeRange := units\<rparr>)) (ret time_range)
          else ret (cdiv (time_range * step_seconds) range_seconds)) (\<lambda>coded_time_range.
     seq (only_if (typeOfTimeIncrement r \<noteq> 1) (set_first_range (\<lambda>r. r\<lparr>lengthOfTimeRange := coded_time_range\<rparr>)))
       (ret 0))))))))))))"

subsection \<open>Setting and reading the last step\<close>

text \<open>The conversions of dates only compute.\<close>

definition computes :: "('s, 'a) prog \<Rightarrow> bool" where
  "computes m \<longleftrightarrow> (\<forall>s. m s = (Crash, s) \<or> (\<exists>x. m s = (Ok x, s)))"

lemma computes_bnd: "computes m \<Longrightarrow> (\<And>x. computes (f x)) \<Longrightarrow> computes (bnd m f)"
  unfolding computes_def by (metis bnd_run continue.simps(1) continue.simps(3))

lemma computes_basic: "computes (ret x)" "computes (crash :: ('s, 'a) prog)" "computes (to_long d)"
  by (auto simp: computes_def run_simps to_long_def Let_def split: cdouble.split)

lemma computes_julian:
  "computes (grib_datetime_to_julian y m d h mi sec)" "computes (grib_julian_to_datetime jd)" "computes (round_half_up a)"
proof -
  show r: "computes (round_half_up a)" for a by (simp add: round_half_up_def computes_basic)
  show "computes (grib_datetime_to_julian y m d h mi sec)" "computes (grib_julian_to_datetime jd)"
    unfolding grib_datetime_to_julian_def grib_julian_to_datetime_def Let_def
    by (auto intro!: computes_bnd computes_basic r split: prod.split if_split)
qed

lemma computesD: "computes m \<Longrightarrow> m s = (Crash, s) \<or> (\<exists>x. m s = (Ok x, s))"
  by (simp add: computes_def)

lemma seconds_of_ret:
  "seconds_of table i = (ret u :: ('s, int) prog) \<longleftrightarrow> 0 \<le> i \<and> i < int (length table) \<and> table ! nat i = u"
proof
  assume "seconds_of table i = (ret u :: ('s, int) prog)"
  then have "seconds_of table i s = (Ok u, s)" for s :: 's by (simp add: run_simps)
  from this [of undefined] show "0 \<le> i \<and> i < int (length table) \<and> table ! nat i = u"
    by (simp add: seconds_of_def run_simps split: if_splits)
qed (simp add: seconds_of_def)

text \<open>The first step does not depend on the time range.\<close>

lemma step_unpack_frame:
  assumes "step_unpack_long s = (Ok x, s)" "forecastTime t = forecastTime s"
    "indicatorOfUnitOfTimeRange t = indicatorOfUnitOfTimeRange s" "stepUnits t = stepUnits s"
  shows "step_unpack_long t = (Ok x, t)"
proof -
  have c: "s\<lparr>stepUnits := indicatorOfUnitOfTimeRange s\<rparr> \<noteq> s" if "stepUnits s \<noteq> indicatorOfUnitOfTimeRange s"
    using that by (metis step_keys.select_convs(3) step_keys.surjective step_keys.update_convs(3))
  show ?thesis using assms c
    by (auto simp: step_unpack_long_def run_simps seconds_of_def Let_def split: if_splits prod.splits)
qed

text \<open>What setting the last step of an interval does.\<close>

definition coded_range :: "int \<Rightarrow> int \<Rightarrow> int \<Rightarrow> int \<Rightarrow> time_range \<Rightarrow> time_range" where
  "coded_range units n u c r =
     (let r' = (if cmod (n * u) c \<noteq> 0 then r\<lparr>indicatorOfUnitForTimeRange := units\<rparr> else r)
      in if typeOfTimeIncrement r \<noteq> 1 then r'\<lparr>lengthOfTimeRange := (if cmod (n * u) c \<noteq> 0 then n else cdiv (n * u) c)\<rparr> else r')"

lemma end_pack_run:
  assumes "interval s" "time_ranges s = [r]" "step_unpack_long s = (Ok (0, a), s)"
    and "seconds_of u2s (stepUnits s) = (ret u :: (step_keys, int) prog)"
    and "seconds_of u2s2 (indicatorOfUnitForTimeRange r) = (ret c :: (step_keys, int) prog)"
  shows "end_pack_long val s = (if val < a then (Ok GRIB_WRONG_STEP, s) else
    continue (grib_datetime_to_julian (dt_year (reference_time s)) (dt_month (reference_time s)) (dt_day (reference_time s))
      (dt_hour (reference_time s)) (dt_minute (reference_time s)) (dt_second (reference_time s)) s) (\<lambda>dend.
    bnd (grib_julian_to_datetime (dadd dend (ddiv (dmul (dint val) (dint u)) (dint 86400)))) (\<lambda>t.
    bnd (upd (\<lambda>s. s\<lparr>end_of_interval := t, time_ranges := [coded_range (stepUnits s) (val - a) u c r]\<rparr>)) (\<lambda>_.
    ret 0))))"
proof -
  have u: "u2s ! 2 = 86400" by (simp add: u2s_def)
  have e: "step_unpack_long (s\<lparr>end_of_interval := t\<rparr>) = (Ok (0, a), s\<lparr>end_of_interval := t\<rparr>)" for t
    by (rule step_unpack_frame [OF assms(3)]) simp_all
  let ?J = "grib_datetime_to_julian (dt_year (reference_time s)) (dt_month (reference_time s)) (dt_day (reference_time s))
      (dt_hour (reference_time s)) (dt_minute (reference_time s)) (dt_second (reference_time s))"
  have "?J s = (Crash, s) \<or> (\<exists>x. ?J s = (Ok x, s))" by (rule computesD [OF computes_julian(1)])
  then show ?thesis
  proof
    assume "?J s = (Crash, s)"
    then show ?thesis using assms by (simp add: end_pack_long_def run_simps first_range_def Let_def)
  next
    assume "\<exists>x. ?J s = (Ok x, s)"
    then obtain x where x: "?J s = (Ok x, s)" by blast
    let ?K = "grib_julian_to_datetime (dadd x (ddiv (dmul (dint val) (dint u)) (dint 86400)))"
    have "?K s = (Crash, s) \<or> (\<exists>z. ?K s = (Ok z, s))" by (rule computesD [OF computes_julian(2)])
    then show ?thesis using assms x
      by (auto simp: end_pack_long_def run_simps first_range_def set_first_range_def Let_def u coded_range_def)
  qed
qed

lemma coded_range_length:
  assumes "0 \<le> n" "seconds_of u2s units = (ret u :: ('s, int) prog)" "seconds_of u2s2 (indicatorOfUnitForTimeRange r) = (ret c :: ('s, int) prog)"
    and "0 < u" "0 < c" "typeOfTimeIncrement r \<noteq> 1" "r' = coded_range units n u c r"
  shows "convert_time_range units (indicatorOfUnitForTimeRange r') (lengthOfTimeRange r') = (ret (Inr n) :: ('s, int + int) prog)"
proof (cases "cmod (n * u) c = 0")
  case False
  then show ?thesis using assms(6,7) by (simp add: coded_range_def Let_def convert_time_range_def)
next
  case True
  then have d: "cdiv (n * u) c * c = n * u" by (simp add: cmod_def)
  have r': "indicatorOfUnitForTimeRange r' = indicatorOfUnitForTimeRange r" "lengthOfTimeRange r' = cdiv (n * u) c"
    using True assms(6,7) by (simp_all add: coded_range_def Let_def)
  have nu: "0 \<le> n * u" using assms(1,4) by simp
  show ?thesis
  proof (cases "indicatorOfUnitForTimeRange r = units")
    case True
    have "u2s2 ! k = u2s ! k" if "k < length u2s2" for k
      using that by (simp add: u2s2_def u2s_def nth_Cons split: nat.splits)
    then have "u = c" using True assms(2,3) by (auto simp: seconds_of_ret u2s2_def)
    then show ?thesis using True assms(1,4) r' by (simp add: convert_time_range_def)
  next
    case False
    show ?thesis using False r' d not_less [THEN iffD2, OF nu] assms(1,4)
      by (simp add: convert_time_range_def assms(2,3) ret_bnd Let_def cmod_pos)
  qed
qed


text \<open>In hours, the end of the interval is the date that many hours later.\<close>

definition hourly_steps :: "step_keys \<Rightarrow> bool" where
  "hourly_steps s \<longleftrightarrow> indicatorOfUnitOfTimeRange s = 1 \<and> stepUnits s = 1"

definition moment :: "dt \<Rightarrow> date_time" where
  "moment d = \<lparr>dt_year = yr d, dt_month = mo d, dt_day = dy d, dt_hour = hr d, dt_minute = 0, dt_second = 0\<rparr>"

lemma hourly_unpack [run_simps]: "hourly_steps s \<Longrightarrow> step_unpack_long s = (Ok (0, forecastTime s), s)"
  by (simp add: step_unpack_long_def hourly_steps_def run_simps)

lemma day_number_bounds:
  assumes "valid_date d" "1583 \<le> yr d" "yr d \<le> 9999"
  shows "2299161 \<le> day_number d + 1721059" "day_number d < 2 ^ 40"
proof -
  note c = days_of_century [OF assms refl refl refl]
  have n: "march_day d \<le> 365" using march_bounds(5) [OF assms(1) refl refl] by auto
  show "2299161 \<le> day_number d + 1721059" by (fact c(2))
  have "x \<le> C \<Longrightarrow> y \<le> D \<Longrightarrow> C \<le> 99 \<Longrightarrow> D \<le> 99 \<Longrightarrow> 36524 * C + x + 365 * D + y + march_day d + 1721120 < 2 ^ 40" for x y C D
    using n by simp
  from this [of _ _ _ _, OF _ _ c(4,6)] have "day_number d + 1721059 < 2 ^ 40" unfolding c(1) using c(3,5) by simp
  then show "day_number d < 2 ^ 40" by simp
qed

lemma interval_end:
  assumes "valid_date d" "1583 \<le> yr d" "yr d \<le> 9999" "hr d = 6 * q"
    and "valid_date e" "1583 \<le> yr e" "yr e \<le> 9999" "hour_number e = hour_number d + 6 * k" "0 \<le> k" "k < 2 ^ 20"
  shows "continue (grib_datetime_to_julian (yr d) (mo d) (dy d) (hr d) 0 0 s)
    (\<lambda>dend. grib_julian_to_datetime (dadd dend (ddiv (dmul (dint (6 * k)) (dint 3600)) (dint 86400)))) = (Ok (moment e), s)"
proof -
  have h: "0 \<le> hr d" "hr d \<le> 23" "0 \<le> hr e" "hr e \<le> 23" using assms(1,5) by (simp_all add: valid_date_def)
  have "(day_number e) * 24 + hr e = (day_number d) * 24 + 6 * q + 6 * k" using assms(4,8) by (simp add: hour_number_def)
  then have "hr e = 6 * (4 * (day_number d - day_number e) + q + k)" by simp
  then obtain q' where q': "hr e = 6 * q'" by blast
  have qd: "quarter_days e q' = quarter_days d q + k" using assms(4,8) q' by (simp add: quarter_days_def hour_number_def)
  have dint: "dint (6 * k) = Fin (of_int (6 * k))" "dint 3600 = Fin 3600" "dint 86400 = Fin 86400"
    using assms(9,10) dint_Fin [of "6 * k"] dint_Fin [of 3600] dint_Fin [of 86400] by simp_all
  have s: "ddiv (dmul (dint (6 * k)) (dint 3600)) (dint 86400) = (if k = 0 then dzero False else Fin (of_int k / 4))"
    using rnd_of_int [of "21600 * k"] rnd_quarter [of k] assms(9,10) by (auto simp: dint dmul_def ddiv_def Let_def dzero_def)
  have b: "0 \<le> quarter_days d q" "quarter_days d q < 2 ^ 50"
    using day_number_bounds [OF assms(1-3)] h assms(4) by (simp_all add: quarter_days_def)
  have a: "dadd (Fin (of_int (quarter_days d q) / 4)) (ddiv (dmul (dint (6 * k)) (dint 3600)) (dint 86400)) = Fin (of_int (quarter_days e q') / 4)"
    using rnd_quarter [of "quarter_days d q + k"] rnd_quarter [of "quarter_days d q"] b assms(9,10) by (simp add: s qd dzero_def add_divide_distrib)
  show ?thesis
    using datetime_to_julian_run [OF assms(1-4), of s] julian_to_datetime_run [OF assms(5-7) q', of s] a
    by (simp add: moment_def)
qed

text \<open>Setting the last step of an interval in hours.\<close>

lemma end_pack_hours:
  assumes "hourly_steps s" "interval s" "time_ranges s = [r]" "indicatorOfUnitForTimeRange r = 1" "typeOfTimeIncrement r \<noteq> 1"
    and "reference_time s = moment d" "valid_date d" "1583 \<le> yr d" "yr d \<le> 9999" "hr d = 6 * q"
    and "valid_date e" "1583 \<le> yr e" "yr e \<le> 9999" "hour_number e = hour_number d + 6 * k" "0 \<le> k" "k < 2 ^ 20"
    and "forecastTime s \<le> 6 * k"
  shows "end_pack_long (6 * k) s = (Ok 0, s\<lparr>end_of_interval := moment e,
    time_ranges := [r\<lparr>lengthOfTimeRange := 6 * k - forecastTime s\<rparr>]\<rparr>)"
proof -
  have u: "seconds_of u2s (stepUnits s) = (ret 3600 :: (step_keys, int) prog)"
    "seconds_of u2s2 (indicatorOfUnitForTimeRange r) = (ret 3600 :: (step_keys, int) prog)"
    using assms(1,4) by (simp_all add: seconds_of_ret hourly_steps_def u2s_def u2s2_def)
  have z: "cmod ((6 * k - forecastTime s) * 3600) 3600 = 0" "cdiv ((6 * k - forecastTime s) * 3600) 3600 = 6 * k - forecastTime s"
  proof -
    have "0 \<le> n \<Longrightarrow> cmod (n * 3600) 3600 = 0 \<and> cdiv (n * 3600) 3600 = n" for n by (simp add: cmod_pos)
    from this [of "6 * k - forecastTime s"] assms(17)
    show "cmod ((6 * k - forecastTime s) * 3600) 3600 = 0" "cdiv ((6 * k - forecastTime s) * 3600) 3600 = 6 * k - forecastTime s"
      by linarith+
  qed
  have m: "moment d = \<lparr>dt_year = yr d, dt_month = mo d, dt_day = dy d, dt_hour = hr d, dt_minute = 0, dt_second = 0\<rparr>"
    by (simp add: moment_def)
  define x where "x = Fin (of_int (quarter_days d q) / 4)"
  have x: "grib_datetime_to_julian (yr d) (mo d) (dy d) (hr d) 0 0 s = (Ok x, s)"
    unfolding x_def by (rule datetime_to_julian_run [OF assms(7-10)])
  have y: "grib_julian_to_datetime (dadd x (ddiv (dmul (dint (6 * k)) (dint 3600)) (dint 86400))) s = (Ok (moment e), s)"
    using interval_end [OF assms(7-16), of s] unfolding x continue.simps .
  show ?thesis
    unfolding end_pack_run [OF assms(2,3) hourly_unpack [OF assms(1)] u] assms(6) m date_time.select_convs x
    using y assms(5,17) by (simp add: run_simps coded_range_def Let_def z del: left_diff_distrib_numeral)
qed

text \<open>There and back.\<close>

text \<open>C26. From 1583 to 9999 a date with an hour that is a multiple of 6 comes back from the julian day,
  although its literals are rounded in binary64.\<close>

theorem date_time_round_trip:
  assumes "valid_date d" "1583 \<le> yr d" "yr d \<le> 9999" "hr d mod 6 = 0"
  shows "bnd (grib_datetime_to_julian (yr d) (mo d) (dy d) (hr d) 0 0) grib_julian_to_datetime s = (Ok (moment d), s)"
proof -
  have q: "hr d = 6 * (hr d div 6)" using assms(4) by auto
  show ?thesis using datetime_to_julian_run [OF assms(1-3) q, of s] julian_to_datetime_run [OF assms(1-3) q, of s]
    by (simp add: run_simps moment_def)
qed

theorem date_time_round_trip_witness:
  "bnd (grib_datetime_to_julian 2008 2 29 18 0 0) grib_julian_to_datetime (0::nat) =
    (Ok \<lparr>dt_year = 2008, dt_month = 2, dt_day = 29, dt_hour = 18, dt_minute = 0, dt_second = 0\<rparr>, 0)"
  using date_time_round_trip [of "\<lparr>yr = 2008, mo = 2, dy = 29, hr = 18, mn = 0\<rparr>" "0::nat"]
  by (simp add: valid_date_def month_len_def leap_def moment_def)

definition sample_range :: "date_time \<Rightarrow> int \<Rightarrow> step_keys" where
  "sample_range t n = \<lparr>forecastTime = 6, indicatorOfUnitOfTimeRange = 1, stepUnits = 1, interval = True,
     time_ranges = [\<lparr>typeOfTimeIncrement = 2, indicatorOfUnitForTimeRange = 1, lengthOfTimeRange = n\<rparr>],
     reference_time = \<lparr>dt_year = 2007, dt_month = 1, dt_day = 1, dt_hour = 0, dt_minute = 0, dt_second = 0\<rparr>,
     end_of_interval = t\<rparr>"


end
