(* ===== verification/GridKeys.thy ===== *)
theory GridKeys
  imports JulianDates
begin

text \<open>
  The corners and the increments of a latitude-longitude grid in degrees, which the library
  computes from the coded keys: \<open>src/grib-api/src/grib_accessor_class_g2grid.c\<close> (six doubles)
  and \<open>grib_accessor_class_g2latlon.c\<close> (one of them). The coded keys are arguments; the
  returns with the error of a key that cannot be read are left out.
\<close>

definition GRIB_MISSING_DOUBLE :: cdouble where
  "GRIB_MISSING_DOUBLE = dlit (- (10 ^ 100))"

text \<open>
  \<open>unpack_double\<close> of the grid: the coded values of the first and last latitude and longitude and
  the increments, in this order; a missing increment key is \<open>GRIB_MISSING_LONG\<close>.
\<close>

definition grid_unpack_double :: "int \<Rightarrow> int \<Rightarrow> int list \<Rightarrow> cdouble list" where
  "grid_unpack_double basic_angle sub_division vs =
     (let sub_division = (if sub_division = GRIB_MISSING_LONG \<or> sub_division = 0 then 1000000 else sub_division);
          basic_angle = (if basic_angle = 0 then 1 else basic_angle)
      in map (\<lambda>v. if v = GRIB_MISSING_LONG then GRIB_MISSING_DOUBLE
           else dmul (ddiv (dint v) (dint sub_division)) (dint basic_angle)) vs)"

text \<open>\<open>unpack_double\<close> of one of the six, and \<open>is_missing\<close>.\<close>

definition latlon_unpack_double :: "int \<Rightarrow> cdouble list \<Rightarrow> nat \<Rightarrow> cdouble" where
  "latlon_unpack_double given grid index = (if given = 0 then GRIB_MISSING_DOUBLE else grid ! index)"

definition latlon_is_missing :: "int \<Rightarrow> bool" where
  "latlon_is_missing given \<longleftrightarrow> given = 0"

text \<open>Coded in millionths, halves of a degree are exact.\<close>

lemma grid_degrees:
  assumes "\<bar>n\<bar> < 2 ^ 30"
  shows "grid_unpack_double 0 GRIB_MISSING_LONG [500000 * n] = [if n = 0 then Fin 0 else Fin (of_int n / 2)]"
proof -
  have d: "dint 1000000 = Fin 1000000" "dint 1 = Fin 1" "dint (500000 * n) = Fin (of_int (500000 * n))"
    using dint_Fin [of 1000000] dint_Fin [of 1] dint_Fin [of "500000 * n"] assms by simp_all
  have "500000 * n \<noteq> GRIB_MISSING_LONG"
  proof
    assume "500000 * n = GRIB_MISSING_LONG"
    then have "even GRIB_MISSING_LONG" by (metis even_mult_iff even_numeral)
    then show False by (simp add: GRIB_MISSING_LONG_def)
  qed
  then show ?thesis using rnd_half_int [of n] assms
    by (simp add: grid_unpack_double_def d ddiv_def dmul_def Let_def dzero_def)
qed

end
