(* ===== verification/RecordKeys.thy ===== *)
theory RecordKeys
  imports Program StepKeys GridKeys
begin

text \<open>
  A record as the program writes it, and what the GRIB library answers when its keys are read
  back. The coded keys keep what was set last. The keys of the steps depend on each other: their
  setters are those of \<open>StepKeys\<close>, run in the order of the settings. The other keys the checker
  asks for are aliases, bits of flags, or computed ones (\<open>DerivedKeys\<close>, \<open>GridKeys\<close>), as the
  definitions of the templates 3.0, 4.1 and 4.11 say (\<open>src/grib-api/definitions/grib2\<close>:
  \<open>section.1.def\<close>, \<open>section.3.def\<close>, \<open>template.3.grid.def\<close>, \<open>template.3.latlon.def\<close>,
  \<open>template.3.resolution_flags.def\<close>, \<open>template.3.scanning_mode.def\<close>,
  \<open>template.4.horizontal.def\<close>, \<open>template.4.eps.def\<close>, \<open>template.4.point_in_time.def\<close>,
  \<open>template.4.statistical.def\<close>).
\<close>

subsection \<open>A record and its coded keys\<close>

text \<open>
  A surface key with all bits set is missing: this is how total column water marks its surfaces.
\<close>

definition all_ones :: "string \<Rightarrow> int \<Rightarrow> bool" where
  "all_ones k v \<longleftrightarrow> k \<in> {''scaleFactorOfFirstFixedSurface'', ''scaleFactorOfSecondFixedSurface''} \<and> v = 255"

fun setting_entry :: "setting \<Rightarrow> string \<times> int" where
  "setting_entry (SetLong k v) = (k, if all_ones k v then GRIB_MISSING_LONG else v)"
| "setting_entry (SetMissing k) = (k, GRIB_MISSING_LONG)"

definition last_set :: "setting list \<Rightarrow> string \<Rightarrow> int option" where
  "last_set xs = map_of (rev (map setting_entry xs))"

text \<open>The keys of the steps; the product template of an interval has one time range at first.\<close>

definition default_range :: time_range where
  "default_range = \<lparr>typeOfTimeIncrement = 2, indicatorOfUnitForTimeRange = 1, lengthOfTimeRange = 0\<rparr>"

definition plain :: "(step_keys \<Rightarrow> step_keys) \<Rightarrow> (step_keys, int) prog" where
  "plain f = seq (upd f) (ret 0)"

definition step_setters :: "(string \<times> (int \<Rightarrow> (step_keys, int) prog)) list" where
  "step_setters =
     [(''productDefinitionTemplateNumber'', \<lambda>v. plain (\<lambda>s. if v = 11
        then (if interval s then s else s\<lparr>interval := True, time_ranges := [default_range]\<rparr>) else s\<lparr>interval := False\<rparr>)),
      (''forecastTime'', \<lambda>v. plain (\<lambda>s. s\<lparr>forecastTime := v\<rparr>)),
      (''indicatorOfUnitOfTimeRange'', \<lambda>v. plain (\<lambda>s. s\<lparr>indicatorOfUnitOfTimeRange := v\<rparr>)),
      (''startStep'', step_pack_long), (''marsStartStep'', step_pack_long), (''endStep'', end_pack_long),
      (''lengthOfTimeRange'', \<lambda>v. seq (set_first_range (\<lambda>r. r\<lparr>lengthOfTimeRange := v\<rparr>)) (ret 0)),
      (''typeOfTimeIncrementBetweenSuccessiveFieldsUsedInTheStatisticalProcessing'',
        \<lambda>v. seq (set_first_range (\<lambda>r. r\<lparr>typeOfTimeIncrement := v\<rparr>)) (ret 0)),
      (''year'', \<lambda>v. plain (\<lambda>s. s\<lparr>reference_time := (reference_time s)\<lparr>dt_year := v\<rparr>\<rparr>)),
      (''month'', \<lambda>v. plain (\<lambda>s. s\<lparr>reference_time := (reference_time s)\<lparr>dt_month := v\<rparr>\<rparr>)),
      (''day'', \<lambda>v. plain (\<lambda>s. s\<lparr>reference_time := (reference_time s)\<lparr>dt_day := v\<rparr>\<rparr>)),
      (''hour'', \<lambda>v. plain (\<lambda>s. s\<lparr>reference_time := (reference_time s)\<lparr>dt_hour := v\<rparr>\<rparr>)),
      (''minute'', \<lambda>v. plain (\<lambda>s. s\<lparr>reference_time := (reference_time s)\<lparr>dt_minute := v\<rparr>\<rparr>)),
      (''second'', \<lambda>v. plain (\<lambda>s. s\<lparr>reference_time := (reference_time s)\<lparr>dt_second := v\<rparr>\<rparr>)),
      (''yearOfEndOfOverallTimeInterval'', \<lambda>v. plain (\<lambda>s. s\<lparr>end_of_interval := (end_of_interval s)\<lparr>dt_year := v\<rparr>\<rparr>)),
      (''monthOfEndOfOverallTimeInterval'', \<lambda>v. plain (\<lambda>s. s\<lparr>end_of_interval := (end_of_interval s)\<lparr>dt_month := v\<rparr>\<rparr>)),
      (''dayOfEndOfOverallTimeInterval'', \<lambda>v. plain (\<lambda>s. s\<lparr>end_of_interval := (end_of_interval s)\<lparr>dt_day := v\<rparr>\<rparr>)),
      (''hourOfEndOfOverallTimeInterval'', \<lambda>v. plain (\<lambda>s. s\<lparr>end_of_interval := (end_of_interval s)\<lparr>dt_hour := v\<rparr>\<rparr>)),
      (''minuteOfEndOfOverallTimeInterval'', \<lambda>v. plain (\<lambda>s. s\<lparr>end_of_interval := (end_of_interval s)\<lparr>dt_minute := v\<rparr>\<rparr>)),
      (''secondOfEndOfOverallTimeInterval'', \<lambda>v. plain (\<lambda>s. s\<lparr>end_of_interval := (end_of_interval s)\<lparr>dt_second := v\<rparr>\<rparr>))]"

definition set_step :: "setting \<Rightarrow> (step_keys, int) prog" where
  "set_step x = (case x of SetMissing k \<Rightarrow> ret 0
     | SetLong k v \<Rightarrow> (case map_of step_setters k of None \<Rightarrow> ret 0 | Some f \<Rightarrow> f v))"

primrec set_steps :: "setting list \<Rightarrow> (step_keys, int) prog" where
  "set_steps [] = ret 0"
| "set_steps (x # xs) = bnd (set_step x) (\<lambda>e. if e \<noteq> 0 then ret e else set_steps xs)"

text \<open>The product template of the sample record and the hours of the key \<open>stepUnits\<close>.\<close>

definition steps_start :: step_keys where
  "steps_start = \<lparr>forecastTime = 0, indicatorOfUnitOfTimeRange = 1, stepUnits = 1, interval = False, time_ranges = [],
     reference_time = \<lparr>dt_year = 0, dt_month = 0, dt_day = 0, dt_hour = 0, dt_minute = 0, dt_second = 0\<rparr>,
     end_of_interval = \<lparr>dt_year = 0, dt_month = 0, dt_day = 0, dt_hour = 0, dt_minute = 0, dt_second = 0\<rparr>\<rparr>"

lemma set_steps_append: "set_steps (xs @ ys) = bnd (set_steps xs) (\<lambda>e. if e \<noteq> 0 then ret e else set_steps ys)"
proof (induction xs)
  case Nil
  then show ?case by (simp add: ret_bnd)
next
  case (Cons x xs)
  show ?case
  proof (rule ext)
    fix s show "set_steps ((x # xs) @ ys) s = bnd (set_steps (x # xs)) (\<lambda>e. if e \<noteq> 0 then ret e else set_steps ys) s"
      by (cases "set_step x s"; cases "fst (set_step x s)") (simp_all add: Cons run_simps)
  qed
qed

text \<open>Only the settings of the step keys count.\<close>

definition step_names :: "string list" where
  "step_names = [''productDefinitionTemplateNumber'', ''forecastTime'', ''indicatorOfUnitOfTimeRange'', ''startStep'',
     ''marsStartStep'', ''endStep'', ''lengthOfTimeRange'',
     ''typeOfTimeIncrementBetweenSuccessiveFieldsUsedInTheStatisticalProcessing'', ''year'', ''month'', ''day'', ''hour'',
     ''minute'', ''second'', ''yearOfEndOfOverallTimeInterval'', ''monthOfEndOfOverallTimeInterval'',
     ''dayOfEndOfOverallTimeInterval'', ''hourOfEndOfOverallTimeInterval'', ''minuteOfEndOfOverallTimeInterval'',
     ''secondOfEndOfOverallTimeInterval'']"

lemma step_names: "map fst step_setters = step_names"
  by (simp add: step_setters_def step_names_def)

fun is_step :: "setting \<Rightarrow> bool" where
  "is_step (SetLong k v) = (k \<in> set step_names)"
| "is_step (SetMissing k) = False"

lemma set_steps_filter: "set_steps xs = set_steps (filter is_step xs)"
proof (induction xs)
  case (Cons x xs)
  have "set_step x = ret 0" if "\<not> is_step x"
  proof (cases x)
    case (SetLong k v)
    then have "k \<notin> set (map fst step_setters)" using that unfolding step_names by simp
    then have "map_of step_setters k = None" by (simp add: map_of_eq_None_iff)
    then show ?thesis by (simp add: set_step_def SetLong)
  qed (simp add: set_step_def)
  then show ?case by (cases "is_step x") (simp_all add: Cons.IH ret_bnd cong: if_cong)
qed simp

text \<open>Which of the keys that the program sets are step keys.\<close>

lemma step_key:
  "is_step (SetLong ''productDefinitionTemplateNumber'' v)"
  "is_step (SetLong ''forecastTime'' v)"
  "is_step (SetLong ''indicatorOfUnitOfTimeRange'' v)"
  "is_step (SetLong ''startStep'' v)"
  "is_step (SetLong ''marsStartStep'' v)"
  "is_step (SetLong ''endStep'' v)"
  "is_step (SetLong ''lengthOfTimeRange'' v)"
  "is_step (SetLong ''typeOfTimeIncrementBetweenSuccessiveFieldsUsedInTheStatisticalProcessing'' v)"
  "is_step (SetLong ''year'' v)"
  "is_step (SetLong ''month'' v)"
  "is_step (SetLong ''day'' v)"
  "is_step (SetLong ''hour'' v)"
  "is_step (SetLong ''minute'' v)"
  "is_step (SetLong ''second'' v)"
  "is_step (SetLong ''yearOfEndOfOverallTimeInterval'' v)"
  "is_step (SetLong ''monthOfEndOfOverallTimeInterval'' v)"
  "is_step (SetLong ''dayOfEndOfOverallTimeInterval'' v)"
  "is_step (SetLong ''hourOfEndOfOverallTimeInterval'' v)"
  "is_step (SetLong ''minuteOfEndOfOverallTimeInterval'' v)"
  "is_step (SetLong ''secondOfEndOfOverallTimeInterval'' v)"
  by (simp_all add: step_names_def)

lemma other_key:
  "\<not> is_step (SetLong ''discipline'' v)"
  "\<not> is_step (SetLong ''editionNumber'' v)"
  "\<not> is_step (SetLong ''centre'' v)"
  "\<not> is_step (SetLong ''subCentre'' v)"
  "\<not> is_step (SetLong ''tablesVersion'' v)"
  "\<not> is_step (SetLong ''localTablesVersion'' v)"
  "\<not> is_step (SetLong ''significanceOfReferenceTime'' v)"
  "\<not> is_step (SetLong ''productionStatusOfProcessedData'' v)"
  "\<not> is_step (SetLong ''typeOfProcessedData'' v)"
  "\<not> is_step (SetLong ''sourceOfGridDefinition'' v)"
  "\<not> is_step (SetLong ''numberOfOctectsForNumberOfPoints'' v)"
  "\<not> is_step (SetLong ''interpretationOfNumberOfPoints'' v)"
  "\<not> is_step (SetLong ''gridDefinitionTemplateNumber'' v)"
  "\<not> is_step (SetLong ''shapeOfTheEarth'' v)"
  "\<not> is_step (SetLong ''scaleFactorOfRadiusOfSphericalEarth'' v)"
  "\<not> is_step (SetLong ''scaledValueOfRadiusOfSphericalEarth'' v)"
  "\<not> is_step (SetLong ''scaleFactorOfEarthMajorAxis'' v)"
  "\<not> is_step (SetLong ''scaledValueOfEarthMajorAxis'' v)"
  "\<not> is_step (SetLong ''scaleFactorOfEarthMinorAxis'' v)"
  "\<not> is_step (SetLong ''scaledValueOfEarthMinorAxis'' v)"
  "\<not> is_step (SetLong ''Ni'' v)"
  "\<not> is_step (SetLong ''Nj'' v)"
  "\<not> is_step (SetLong ''basicAngleOfTheInitialProductionDomain'' v)"
  "\<not> is_step (SetLong ''subdivisionsOfBasicAngle'' v)"
  "\<not> is_step (SetLong ''latitudeOfFirstGridPoint'' v)"
  "\<not> is_step (SetLong ''longitudeOfFirstGridPoint'' v)"
  "\<not> is_step (SetLong ''resolutionAndComponentFlags'' v)"
  "\<not> is_step (SetLong ''latitudeOfLastGridPoint'' v)"
  "\<not> is_step (SetLong ''longitudeOfLastGridPoint'' v)"
  "\<not> is_step (SetLong ''iDirectionIncrement'' v)"
  "\<not> is_step (SetLong ''jDirectionIncrement'' v)"
  "\<not> is_step (SetLong ''scanningMode'' v)"
  "\<not> is_step (SetLong ''numberOfCoordinatesValues'' v)"
  "\<not> is_step (SetLong ''typeOfGeneratingProcess'' v)"
  "\<not> is_step (SetLong ''backgroundProcess'' v)"
  "\<not> is_step (SetLong ''generatingProcessIdentifier'' v)"
  "\<not> is_step (SetLong ''hoursAfterDataCutoff'' v)"
  "\<not> is_step (SetLong ''minutesAfterDataCutoff'' v)"
  "\<not> is_step (SetLong ''typeOfEnsembleForecast'' v)"
  "\<not> is_step (SetLong ''perturbationNumber'' v)"
  "\<not> is_step (SetLong ''numberOfForecastsInEnsemble'' v)"
  "\<not> is_step (SetLong ''numberOfValues'' v)"
  "\<not> is_step (SetLong ''dataRepresentationTemplateNumber'' v)"
  "\<not> is_step (SetLong ''bitsPerValue'' v)"
  "\<not> is_step (SetLong ''typeOfOriginalFieldValues'' v)"
  "\<not> is_step (SetLong ''typeOfCompressionUsed'' v)"
  "\<not> is_step (SetLong ''targetCompressionRatio'' v)"
  "\<not> is_step (SetLong ''bitMapIndicator'' v)"
  "\<not> is_step (SetLong ''parameterCategory'' v)"
  "\<not> is_step (SetLong ''parameterNumber'' v)"
  "\<not> is_step (SetLong ''typeOfFirstFixedSurface'' v)"
  "\<not> is_step (SetLong ''scaleFactorOfFirstFixedSurface'' v)"
  "\<not> is_step (SetLong ''scaledValueOfFirstFixedSurface'' v)"
  "\<not> is_step (SetLong ''typeOfSecondFixedSurface'' v)"
  "\<not> is_step (SetLong ''scaleFactorOfSecondFixedSurface'' v)"
  "\<not> is_step (SetLong ''scaledValueOfSecondFixedSurface'' v)"
  "\<not> is_step (SetLong ''typeOfStatisticalProcessing'' v)"
  "\<not> is_step (SetLong ''numberOfMissingInStatisticalProcess'' v)"
  "\<not> is_step (SetLong ''indicatorOfUnitForTimeIncrement'' v)"
  "\<not> is_step (SetLong ''timeIncrement'' v)"
  "\<not> is_step (SetLong ''grib2LocalSectionPresent'' v)"
  by (simp_all add: step_names_def)

lemma step_choice: "is_step (if c then SetLong k v else SetLong k w) = is_step (SetLong k v)"
  by simp

lemma filter_one: "P x \<Longrightarrow> filter P (x # xs) = x # filter P xs" "\<not> P x \<Longrightarrow> filter P (x # xs) = filter P xs"
  by simp_all

lemmas step_filter = filter.simps(1) filter_one step_key other_key step_choice is_step.simps(2) append.simps filter_append simp_thms if_True if_False

lemma set_step_run [run_simps]:
  "set_step (SetLong ''forecastTime'' v) s = (Ok 0, s\<lparr>forecastTime := v\<rparr>)"
  "set_step (SetLong ''indicatorOfUnitOfTimeRange'' v) s = (Ok 0, s\<lparr>indicatorOfUnitOfTimeRange := v\<rparr>)"
  "set_step (SetLong ''startStep'' v) = step_pack_long v"
  "set_step (SetLong ''marsStartStep'' v) = step_pack_long v"
  "set_step (SetLong ''endStep'' v) = end_pack_long v"
  "set_step (SetLong ''lengthOfTimeRange'' v) = seq (set_first_range (\<lambda>r. r\<lparr>lengthOfTimeRange := v\<rparr>)) (ret 0)"
  "set_step (SetLong ''typeOfTimeIncrementBetweenSuccessiveFieldsUsedInTheStatisticalProcessing'' v) =
    seq (set_first_range (\<lambda>r. r\<lparr>typeOfTimeIncrement := v\<rparr>)) (ret 0)"
  by (simp_all add: set_step_def step_setters_def plain_def run_simps)

lemma set_template_run [run_simps]:
  "set_step (SetLong ''productDefinitionTemplateNumber'' v) s = (Ok 0, if v = 11
     then (if interval s then s else s\<lparr>interval := True, time_ranges := [default_range]\<rparr>) else s\<lparr>interval := False\<rparr>)"
  by (simp add: set_step_def step_setters_def plain_def run_simps)

lemma set_time_run [run_simps]:
  "set_step (SetLong ''year'' v) s = (Ok 0, s\<lparr>reference_time := (reference_time s)\<lparr>dt_year := v\<rparr>\<rparr>)"
  "set_step (SetLong ''month'' v) s = (Ok 0, s\<lparr>reference_time := (reference_time s)\<lparr>dt_month := v\<rparr>\<rparr>)"
  "set_step (SetLong ''day'' v) s = (Ok 0, s\<lparr>reference_time := (reference_time s)\<lparr>dt_day := v\<rparr>\<rparr>)"
  "set_step (SetLong ''hour'' v) s = (Ok 0, s\<lparr>reference_time := (reference_time s)\<lparr>dt_hour := v\<rparr>\<rparr>)"
  "set_step (SetLong ''minute'' v) s = (Ok 0, s\<lparr>reference_time := (reference_time s)\<lparr>dt_minute := v\<rparr>\<rparr>)"
  "set_step (SetLong ''second'' v) s = (Ok 0, s\<lparr>reference_time := (reference_time s)\<lparr>dt_second := v\<rparr>\<rparr>)"
  by (simp_all add: set_step_def step_setters_def plain_def run_simps)

lemma set_end_run [run_simps]:
  "set_step (SetLong ''yearOfEndOfOverallTimeInterval'' v) s = (Ok 0, s\<lparr>end_of_interval := (end_of_interval s)\<lparr>dt_year := v\<rparr>\<rparr>)"
  "set_step (SetLong ''monthOfEndOfOverallTimeInterval'' v) s = (Ok 0, s\<lparr>end_of_interval := (end_of_interval s)\<lparr>dt_month := v\<rparr>\<rparr>)"
  "set_step (SetLong ''dayOfEndOfOverallTimeInterval'' v) s = (Ok 0, s\<lparr>end_of_interval := (end_of_interval s)\<lparr>dt_day := v\<rparr>\<rparr>)"
  "set_step (SetLong ''hourOfEndOfOverallTimeInterval'' v) s = (Ok 0, s\<lparr>end_of_interval := (end_of_interval s)\<lparr>dt_hour := v\<rparr>\<rparr>)"
  "set_step (SetLong ''minuteOfEndOfOverallTimeInterval'' v) s = (Ok 0, s\<lparr>end_of_interval := (end_of_interval s)\<lparr>dt_minute := v\<rparr>\<rparr>)"
  "set_step (SetLong ''secondOfEndOfOverallTimeInterval'' v) s = (Ok 0, s\<lparr>end_of_interval := (end_of_interval s)\<lparr>dt_second := v\<rparr>\<rparr>)"
  by (simp_all add: set_step_def step_setters_def plain_def run_simps)

lemmas base_settings_defs = base_settings_def newGribRecord_settings_def section0_settings_def section1_settings_def
  section3_settings_def section4_settings_def section5_6_settings_def

lemma filter_base: "filter is_step (base_settings yyyy mm dd hh fff em) =
    [SetLong ''year'' yyyy, SetLong ''month'' mm, SetLong ''day'' dd, SetLong ''hour'' hh, SetLong ''minute'' 0, SetLong ''second'' 0,
     SetLong ''productDefinitionTemplateNumber'' 1, SetLong ''indicatorOfUnitOfTimeRange'' 1, SetLong ''forecastTime'' fff]"
  unfolding base_settings_defs by (simp only: step_filter)

definition steps_of_base :: "int \<Rightarrow> int \<Rightarrow> int \<Rightarrow> int \<Rightarrow> int \<Rightarrow> step_keys" where
  "steps_of_base yyyy mm dd hh fff = steps_start\<lparr>forecastTime := fff,
     reference_time := \<lparr>dt_year = yyyy, dt_month = mm, dt_day = dd, dt_hour = hh, dt_minute = 0, dt_second = 0\<rparr>\<rparr>"

lemma base_steps: "set_steps (base_settings yyyy mm dd hh fff em) steps_start = (Ok 0, steps_of_base yyyy mm dd hh fff)"
  unfolding set_steps_filter [of "base_settings yyyy mm dd hh fff em"] filter_base
  by (simp add: run_simps steps_of_base_def steps_start_def)

subsection \<open>The steps of the records\<close>

lemma step_pack_hours [run_simps]:
  assumes "hourly_steps s"
  shows "\<not> interval s \<Longrightarrow> step_pack_long v s = (Ok 0, s\<lparr>forecastTime := v\<rparr>)"
    "interval s \<Longrightarrow> time_ranges s = [r] \<Longrightarrow> indicatorOfUnitForTimeRange r = 1 \<Longrightarrow> step_pack_long v s = (Ok 0,
      s\<lparr>time_ranges := [r\<lparr>lengthOfTimeRange := max 0 (lengthOfTimeRange r - (v - forecastTime s))\<rparr>], forecastTime := v\<rparr>)"
  using assms hourly_unpack [OF assms]
  by (auto simp: step_pack_long_def run_simps hourly_steps_def first_range_def set_first_range_def max_def)

text \<open>A date, and the date \<open>fff\<close> hours later.\<close>

definition later :: "dt \<Rightarrow> int \<Rightarrow> dt \<Rightarrow> bool" where
  "later d fff e \<longleftrightarrow> valid_date d \<and> 1583 \<le> yr d \<and> yr d \<le> 9999 \<and> valid_date e \<and> 1583 \<le> yr e \<and> yr e \<le> 9999 \<and>
     hour_number e = hour_number d + fff \<and> hr d mod 6 = 0 \<and> fff mod 6 = 0 \<and> 0 \<le> fff \<and> fff \<le> 384"

lemma later_timeAdd:
  assumes "valid_date d" "1583 \<le> yr d" "yr d \<le> 9998" "hr d mod 6 = 0" "fff mod 6 = 0" "0 \<le> fff" "fff \<le> 384"
  shows "\<exists>e. timeAdd d (hours_offset fff) = Some e \<and> later d fff e"
proof -
  from timeAdd_hours [OF assms(1,6)] obtain e where e: "valid_date e" "hour_number e = hour_number d + fff"
    and t: "timeAdd d (hours_offset fff) = Some e" by blast
  have v: "1 \<le> mo d" "mo d \<le> 12" "1 \<le> dy d" "dy d \<le> month_len (yr d) (mo d)" "0 \<le> hr d" "hr d \<le> 23"
    "1 \<le> mo e" "mo e \<le> 12" "1 \<le> dy e" "dy e \<le> month_len (yr e) (mo e)" "0 \<le> hr e" "hr e \<le> 23"
    using assms(1) e(1) by (simp_all add: valid_date_def)
  have n: "day_number d \<le> day_number e" "day_number e \<le> day_number d + 17"
    using e(2) assms(6,7) v by (simp_all add: hour_number_def)
  have "yr d \<le> yr e"
  proof (rule ccontr)
    assume "\<not> yr d \<le> yr e"
    then have "days_to_year (yr e + 1) \<le> days_to_year (yr d)" by (intro days_to_year_mono) simp
    with day_number_in_year(2) [OF v(7-10)] day_number_in_year(1) [OF v(1-4)] n show False by simp
  qed
  moreover have "yr e \<le> yr d + 1"
  proof (rule ccontr)
    assume "\<not> yr e \<le> yr d + 1"
    then have "days_to_year (yr d + 1 + 1) \<le> days_to_year (yr e)" by (intro days_to_year_mono) simp
    with leap_year_length [of "yr d + 1"] day_number_in_year(1) [OF v(7-10)] day_number_in_year(2) [OF v(1-4)] n
    show False by (simp split: if_splits)
  qed
  ultimately show ?thesis using assms e t by (auto simp: later_def)
qed

definition range_of :: "int \<Rightarrow> time_range" where
  "range_of n = \<lparr>typeOfTimeIncrement = 2, indicatorOfUnitForTimeRange = 1, lengthOfTimeRange = n\<rparr>"

lemma range_of [simp]:
  "typeOfTimeIncrement (range_of n) = 2" "indicatorOfUnitForTimeRange (range_of n) = 1" "lengthOfTimeRange (range_of n) = n"
  "(range_of n)\<lparr>typeOfTimeIncrement := 2\<rparr> = range_of n" "(range_of n)\<lparr>lengthOfTimeRange := m\<rparr> = range_of m"
  "default_range = range_of 0"
  by (simp_all add: range_of_def default_range_def)

lemma moment_fold: "\<lparr>dt_year = yr d, dt_month = mo d, dt_day = dy d, dt_hour = hr d, dt_minute = 0, dt_second = 0\<rparr> = moment d"
  by (simp add: moment_def)

lemma moment_update:
  "(moment e)\<lparr>dt_year := yr t, dt_month := mo t, dt_day := dy t, dt_hour := hr t, dt_minute := 0, dt_second := 0\<rparr> = moment t"
  by (simp add: moment_def)

definition interval_steps :: "dt \<Rightarrow> dt \<Rightarrow> int \<Rightarrow> int \<Rightarrow> step_keys" where
  "interval_steps d e a n = \<lparr>forecastTime = a, indicatorOfUnitOfTimeRange = 1, stepUnits = 1, interval = True,
     time_ranges = [range_of n], reference_time = moment d, end_of_interval = moment e\<rparr>"

lemma end_pack_later:
  assumes "later d fff e" "hourly_steps s" "interval s" "time_ranges s = [range_of n]" "reference_time s = moment d" "forecastTime s \<le> fff"
  shows "end_pack_long fff s = (Ok 0, s\<lparr>end_of_interval := moment e, time_ranges := [range_of (fff - forecastTime s)]\<rparr>)"
proof -
  define k q where "k = fff div 6" and "q = hr d div 6"
  have f: "fff = 6 * k" "hr d = 6 * q" "0 \<le> k" "k < 2 ^ 20" using assms(1) by (auto simp: later_def k_def q_def)
  show ?thesis using assms end_pack_hours [of s "range_of n" d q e k] f
    by (auto simp: later_def)
qed

lemma later_nonneg: "later d fff e \<Longrightarrow> 0 \<le> fff"
  by (simp add: later_def)

lemmas step_runs = run_simps steps_of_base_def steps_start_def hourly_steps_def set_first_range_def moment_fold
  end_pack_later interval_steps_def later_nonneg moment_update

lemma flux_steps:
  assumes "later d fff e"
  shows "set_steps (base_settings (yr d) (mo d) (dy d) (hr d) fff em @ flux_settings c n t tmEnd fff) steps_start =
    (Ok 0, interval_steps d e 0 fff)"
proof -
  have f: "filter is_step (flux_settings c n t tmEnd fff) =
     [SetLong ''productDefinitionTemplateNumber'' 11, SetLong ''yearOfEndOfOverallTimeInterval'' (yr tmEnd),
      SetLong ''monthOfEndOfOverallTimeInterval'' (mo tmEnd), SetLong ''dayOfEndOfOverallTimeInterval'' (dy tmEnd),
      SetLong ''hourOfEndOfOverallTimeInterval'' (hr tmEnd), SetLong ''minuteOfEndOfOverallTimeInterval'' 0,
      SetLong ''secondOfEndOfOverallTimeInterval'' 0,
      SetLong ''typeOfTimeIncrementBetweenSuccessiveFieldsUsedInTheStatisticalProcessing'' 2,
      SetLong ''indicatorOfUnitOfTimeRange'' 1, SetLong ''lengthOfTimeRange'' fff, SetLong ''startStep'' 0, SetLong ''endStep'' fff]"
    unfolding flux_settings_def by (simp only: step_filter)
  show ?thesis unfolding set_steps_append bnd_run base_steps set_steps_filter [of "flux_settings c n t tmEnd fff"] f
    using assms
    by (simp add: step_runs)
qed

lemma snow_fall_integral_steps:
  assumes "later d fff e"
  shows "set_steps (base_settings (yr d) (mo d) (dy d) (hr d) fff em @ snow_fall_integral_settings tmEnd fff) steps_start =
    (Ok 0, interval_steps d e 0 fff)"
proof -
  have f: "filter is_step (snow_fall_integral_settings tmEnd fff) =
     [SetLong ''productDefinitionTemplateNumber'' 11, SetLong ''forecastTime'' 0,
      SetLong ''yearOfEndOfOverallTimeInterval'' (yr tmEnd), SetLong ''monthOfEndOfOverallTimeInterval'' (mo tmEnd),
      SetLong ''dayOfEndOfOverallTimeInterval'' (dy tmEnd), SetLong ''hourOfEndOfOverallTimeInterval'' (hr tmEnd),
      SetLong ''minuteOfEndOfOverallTimeInterval'' 0, SetLong ''secondOfEndOfOverallTimeInterval'' 0,
      SetLong ''typeOfTimeIncrementBetweenSuccessiveFieldsUsedInTheStatisticalProcessing'' 2,
      SetLong ''indicatorOfUnitOfTimeRange'' 1, SetLong ''lengthOfTimeRange'' fff, SetLong ''startStep'' 0, SetLong ''endStep'' fff,
      SetLong ''lengthOfTimeRange'' fff]"
    unfolding snow_fall_integral_settings_def by (simp only: step_filter)
  show ?thesis unfolding set_steps_append bnd_run base_steps set_steps_filter [of "snow_fall_integral_settings tmEnd fff"] f
    using assms by (simp add: step_runs)
qed

lemma total_precipitation_steps:
  assumes "later d fff e"
  shows "set_steps (base_settings (yr d) (mo d) (dy d) (hr d) fff em @
      total_precipitation_settings (yr d) (mo d) (dy d) (hr d) fff) steps_start = (Ok 0, interval_steps d e 0 fff)"
proof -
  have f: "filter is_step (total_precipitation_settings (yr d) (mo d) (dy d) (hr d) fff) =
     [SetLong ''productDefinitionTemplateNumber'' 11, SetLong ''yearOfEndOfOverallTimeInterval'' (yr d),
      SetLong ''monthOfEndOfOverallTimeInterval'' (mo d), SetLong ''dayOfEndOfOverallTimeInterval'' (dy d),
      SetLong ''hourOfEndOfOverallTimeInterval'' (hr d), SetLong ''minuteOfEndOfOverallTimeInterval'' 0,
      SetLong ''secondOfEndOfOverallTimeInterval'' 0,
      SetLong ''typeOfTimeIncrementBetweenSuccessiveFieldsUsedInTheStatisticalProcessing'' 2,
      SetLong ''indicatorOfUnitOfTimeRange'' 1, SetLong ''lengthOfTimeRange'' fff, SetLong ''startStep'' 0, SetLong ''endStep'' fff]"
    unfolding total_precipitation_settings_def by (simp only: step_filter)
  show ?thesis unfolding set_steps_append bnd_run base_steps
      set_steps_filter [of "total_precipitation_settings (yr d) (mo d) (dy d) (hr d) fff"] f
    using assms by (simp add: step_runs)
qed

lemma snow_fall_steps:
  assumes "later d fff e"
  shows "set_steps (base_settings (yr d) (mo d) (dy d) (hr d) fff em @ snow_fall_settings fff t) steps_start =
    (Ok 0, interval_steps d t fff 6)"
proof -
  have f: "filter is_step (snow_fall_settings fff t) =
     [SetLong ''productDefinitionTemplateNumber'' 11, SetLong ''forecastTime'' fff, SetLong ''startStep'' fff, SetLong ''endStep'' fff,
      SetLong ''yearOfEndOfOverallTimeInterval'' (yr t), SetLong ''monthOfEndOfOverallTimeInterval'' (mo t),
      SetLong ''dayOfEndOfOverallTimeInterval'' (dy t), SetLong ''hourOfEndOfOverallTimeInterval'' (hr t),
      SetLong ''minuteOfEndOfOverallTimeInterval'' 0, SetLong ''secondOfEndOfOverallTimeInterval'' 0,
      SetLong ''typeOfTimeIncrementBetweenSuccessiveFieldsUsedInTheStatisticalProcessing'' 2,
      SetLong ''indicatorOfUnitOfTimeRange'' 1, SetLong ''lengthOfTimeRange'' 6]"
    unfolding snow_fall_settings_def by (simp only: step_filter)
  show ?thesis unfolding set_steps_append bnd_run base_steps set_steps_filter [of "snow_fall_settings fff t"] f
    using assms by (simp add: step_runs)
qed

text \<open>The records of an hour.\<close>

lemma total_column_water_steps:
  "set_steps (base_settings yyyy mm dd hh fff em @ total_column_water_settings fff) steps_start = (Ok 0, steps_of_base yyyy mm dd hh fff)"
proof -
  have f: "filter is_step (total_column_water_settings fff) =
     [SetLong ''productDefinitionTemplateNumber'' 1, SetLong ''marsStartStep'' 0, SetLong ''forecastTime'' fff]"
    unfolding total_column_water_settings_def by (simp only: step_filter)
  show ?thesis unfolding set_steps_append bnd_run base_steps set_steps_filter [of "total_column_water_settings fff"] f
    by (simp add: step_runs)
qed

lemma soil_steps:
  "set_steps (base_settings yyyy mm dd hh fff em @ soil_settings n fff @ bitmap_settings) steps_start =
    (Ok 0, steps_of_base yyyy mm dd hh fff)"
proof -
  have f: "filter is_step (soil_settings n fff @ bitmap_settings) =
     [SetLong ''productDefinitionTemplateNumber'' 1, SetLong ''marsStartStep'' 0, SetLong ''forecastTime'' fff]"
    unfolding soil_settings_def bitmap_settings_def by (simp only: step_filter)
  show ?thesis unfolding set_steps_append [of "base_settings yyyy mm dd hh fff em"] bnd_run base_steps
      set_steps_filter [of "soil_settings n fff @ bitmap_settings"] f
    by (simp add: step_runs)
qed

lemma potential_temperature_steps:
  "set_steps (base_settings yyyy mm dd hh fff em @ potential_temperature_settings @ bitmap_settings) steps_start =
    (Ok 0, steps_of_base yyyy mm dd hh fff)"
proof -
  have f: "filter is_step (potential_temperature_settings @ bitmap_settings) = [SetLong ''productDefinitionTemplateNumber'' 1]"
    unfolding potential_temperature_settings_def bitmap_settings_def by (simp only: step_filter)
  show ?thesis unfolding set_steps_append [of "base_settings yyyy mm dd hh fff em"] bnd_run base_steps
      set_steps_filter [of "potential_temperature_settings @ bitmap_settings"] f
    by (simp add: step_runs)
qed

text \<open>C7. Setting the keys of a record in the order of the program leaves the end of the interval that
  \<open>timeAdd\<close> computes, by the julian days of the library in binary64: for the fluxes and
  the snow fall whatever end the procedure had set, and for total precipitation, which sets the
  initial date, the end is corrected. The first step is 0 and the range is the hour.\<close>

theorem library_end_of_interval:
  assumes "valid_date d" "1583 \<le> yr d" "yr d \<le> 9998" "hr d mod 6 = 0" "fff mod 6 = 0" "0 \<le> fff" "fff \<le> 384"
    and "timeAdd d (hours_offset fff) = Some e"
  shows "set_steps (base_settings (yr d) (mo d) (dy d) (hr d) fff em @ flux_settings c n t tmEnd fff) steps_start =
      (Ok 0, interval_steps d e 0 fff) \<and>
    set_steps (base_settings (yr d) (mo d) (dy d) (hr d) fff em @ snow_fall_integral_settings tmEnd fff) steps_start =
      (Ok 0, interval_steps d e 0 fff) \<and>
    set_steps (base_settings (yr d) (mo d) (dy d) (hr d) fff em @ total_precipitation_settings (yr d) (mo d) (dy d) (hr d) fff)
      steps_start = (Ok 0, interval_steps d e 0 fff)"
proof -
  obtain e' where e': "timeAdd d (hours_offset fff) = Some e'" "later d fff e'" using later_timeAdd [OF assms(1-7)] by blast
  with assms(8) have "e' = e" by simp
  with e'(2) show ?thesis by (simp only: flux_steps snow_fall_integral_steps total_precipitation_steps simp_thms)
qed

theorem library_end_of_interval_witness:
  "set_steps (base_settings 2007 12 31 18 12 0 @ total_precipitation_settings 2007 12 31 18 12) steps_start =
    (Ok 0, interval_steps \<lparr>yr = 2007, mo = 12, dy = 31, hr = 18, mn = 0\<rparr> \<lparr>yr = 2008, mo = 1, dy = 1, hr = 6, mn = 0\<rparr> 0 12)"
proof -
  have t: "timeAdd \<lparr>yr = 2007, mo = 12, dy = 31, hr = 18, mn = 0\<rparr> (hours_offset 12) = Some \<lparr>yr = 2008, mo = 1, dy = 1, hr = 6, mn = 0\<rparr>"
    by code_simp
  show ?thesis
    using library_end_of_interval [OF _ _ _ _ _ _ _ t, of 0]
    by (simp add: valid_date_def month_len_def mosiz_all del: set_steps.simps)
qed

subsection \<open>What the library answers\<close>

text \<open>
  A record as it was written: its settings, the keys of its steps, the number of its values, and
  of those that are not missing.
\<close>

record written =
  set_keys :: "setting list"
  steps_of :: step_keys
  points :: nat
  coded_points :: nat

definition step_values :: "step_keys \<Rightarrow> (string \<times> int) list" where
  "step_values s =
     [(''forecastTime'', forecastTime s), (''indicatorOfUnitOfTimeRange'', indicatorOfUnitOfTimeRange s)] @
     (if \<not> interval s then [] else
       (''numberOfTimeRange'', int (length (time_ranges s))) #
       (''minuteOfEndOfOverallTimeInterval'', dt_minute (end_of_interval s)) #
       (''secondOfEndOfOverallTimeInterval'', dt_second (end_of_interval s)) #
       (case time_ranges s of [] \<Rightarrow> [] | r # _ \<Rightarrow>
         [(''typeOfTimeIncrement'', typeOfTimeIncrement r),
          (''indicatorOfUnitForTimeRange'', indicatorOfUnitForTimeRange r), (''lengthOfTimeRange'', lengthOfTimeRange r)]))"

definition GRIB_NOT_FOUND :: int where
  "GRIB_NOT_FOUND = - 10"

definition key_aliases :: "(string \<times> string) list" where
  "key_aliases =
     [(''gribMasterTablesVersionNumber'', ''tablesVersion''), (''versionNumberOfGribLocalTables'', ''localTablesVersion''),
      (''numberOfPointsAlongAParallel'', ''Ni''), (''numberOfPointsAlongAMeridian'', ''Nj''),
      (''timeIncrementBetweenSuccessiveFields'', ''timeIncrement'')]"

text \<open>The bit of a flag; 6, 7 and 8 of the resolution flags are defined on the first two bits.\<close>

definition flag_keys :: "(string \<times> string \<times> nat) list" where
  "flag_keys =
     [(''resolutionAndComponentFlags1'', ''resolutionAndComponentFlags'', 7),
      (''resolutionAndComponentFlags2'', ''resolutionAndComponentFlags'', 6),
      (''iDirectionIncrementGiven'', ''resolutionAndComponentFlags'', 5),
      (''jDirectionIncrementGiven'', ''resolutionAndComponentFlags'', 4),
      (''resolutionAndComponentFlags6'', ''resolutionAndComponentFlags'', 7),
      (''resolutionAndComponentFlags7'', ''resolutionAndComponentFlags'', 6),
      (''resolutionAndComponentFlags8'', ''resolutionAndComponentFlags'', 6),
      (''iScansNegatively'', ''scanningMode'', 7), (''jScansPositively'', ''scanningMode'', 6)]"

definition coded :: "written \<Rightarrow> string \<Rightarrow> int option" where
  "coded r k = (case map_of (step_values (steps_of r)) k of Some v \<Rightarrow> Some v | None \<Rightarrow> last_set (set_keys r) k)"

definition answer :: "int option \<Rightarrow> int + int" where
  "answer v = (case v of None \<Rightarrow> Inl GRIB_NOT_FOUND | Some v \<Rightarrow> Inr v)"

definition result :: "(int + int) outcome \<times> 's \<Rightarrow> int + int" where
  "result r = (case fst r of Ok v \<Rightarrow> v | _ \<Rightarrow> Inl (- 2))"

definition start_step :: "written \<Rightarrow> int + int" where
  "start_step r = result (bnd step_unpack_long (\<lambda>(e, v). ret (if e \<noteq> 0 then Inl e else Inr v)) (steps_of r))"

definition end_step :: "written \<Rightarrow> int + int" where
  "end_step r = result (end_unpack_long False (steps_of r))"

definition value_of :: "written \<Rightarrow> string \<Rightarrow> int" where
  "value_of r k = (case coded r k of Some v \<Rightarrow> v | None \<Rightarrow> GRIB_MISSING_LONG)"

definition key_level :: "written \<Rightarrow> int + int" where
  "key_level r = result (bnd (level_unpack_long (value_of r ''typeOfFirstFixedSurface'')
     (value_of r ''scaleFactorOfFirstFixedSurface'') (value_of r ''scaledValueOfFirstFixedSurface'') ''hPa'') (\<lambda>v. ret (Inr v))
     checker_start)"

definition computed_keys :: "written \<Rightarrow> (string \<times> (int + int)) list" where
  "computed_keys r =
     [(''startStep'', start_step r), (''endStep'', end_step r),
      (''step'', if interval (steps_of r) then end_step r else start_step r),
      (''date'', Inr (date_unpack (value_of r ''year'') (value_of r ''month'') (value_of r ''day''))),
      (''level'', key_level r),
      (''numberOfDataPoints'', Inr (int (points r))),
      (''numberOfValues'', Inr (int (if value_of r ''bitMapIndicator'' = 255 then points r else coded_points r)))]"

definition key_long :: "written \<Rightarrow> string \<Rightarrow> int + int" where
  "key_long r k = (case map_of (computed_keys r) k of Some a \<Rightarrow> a
     | None \<Rightarrow> (case map_of flag_keys k of
         Some (f, b) \<Rightarrow> answer (map_option (\<lambda>v. v div 2 ^ b mod 2) (coded r f))
       | None \<Rightarrow> (case map_of key_aliases k of Some l \<Rightarrow> answer (coded r l) | None \<Rightarrow> answer (coded r k))))"

definition key_missing :: "written \<Rightarrow> string \<Rightarrow> bool" where
  "key_missing r k \<longleftrightarrow> k = ''reserved'' \<or> coded r k = Some GRIB_MISSING_LONG"

definition grid_of :: "written \<Rightarrow> cdouble list" where
  "grid_of r = grid_unpack_double (value_of r ''basicAngleOfTheInitialProductionDomain'') (value_of r ''subdivisionsOfBasicAngle'')
     (map (value_of r) [''latitudeOfFirstGridPoint'', ''longitudeOfFirstGridPoint'', ''latitudeOfLastGridPoint'',
        ''longitudeOfLastGridPoint'', ''iDirectionIncrement'', ''jDirectionIncrement''])"

definition degree_keys :: "(string \<times> nat \<times> string option) list" where
  "degree_keys =
     [(''latitudeOfFirstGridPointInDegrees'', 0, None), (''longitudeOfFirstGridPointInDegrees'', 1, None),
      (''latitudeOfLastGridPointInDegrees'', 2, None), (''longitudeOfLastGridPointInDegrees'', 3, None),
      (''iDirectionIncrementInDegrees'', 4, Some ''iDirectionIncrementGiven''),
      (''jDirectionIncrementInDegrees'', 5, Some ''jDirectionIncrementGiven'')]"

definition key_double :: "written \<Rightarrow> string \<Rightarrow> int + cdouble" where
  "key_double r k = (case map_of degree_keys k of None \<Rightarrow> Inl GRIB_NOT_FOUND
     | Some (i, g) \<Rightarrow> (case g of
         None \<Rightarrow> Inr (latlon_unpack_double 1 (grid_of r) i)
       | Some g \<Rightarrow> (case key_long r g of Inl e \<Rightarrow> Inl e | Inr v \<Rightarrow> Inr (latlon_unpack_double v (grid_of r) i))))"

end
