(* ===== verification/TiggeVerdict.thy ===== *)
theory TiggeVerdict
  imports TiggeCheck "HOL-Library.Sublist"
begin

text \<open>
  What the checker of \<open>TiggeCheck\<close> does: which row of the table it chooses, that checking a
  record changes nothing but the two counters and the Gaussian latitudes, and how the records
  of a file are divided.
\<close>

subsection \<open>Symbolic execution\<close>

lemma check_run [run_simps]: "check a s = (Ok (), if a then s else s\<lparr>error := error s + 1\<rparr>)"
  by (simp add: check_def run_simps)

lemma fail_run [run_simps]: "fail s = (Ok (), s\<lparr>error := error s + 1\<rparr>)"
  by (simp add: fail_def run_simps)

lemma steps_run [run_simps]:
  "steps [] s = (Ok (), s)" "steps (m # ms) s = continue (m s) (\<lambda>_. steps ms)"
  by (simp_all add: run_simps)

lemma steps_append: "steps (ms @ ns) s = continue (steps ms s) (\<lambda>_. steps ns)"
proof (induction ms arbitrary: s)
  case (Cons m ms)
  then show ?case
    by (cases "m s"; cases "fst (m s)") (simp_all add: run_simps del: steps.simps)
qed (simp add: run_simps)

lemma get_run [run_simps]: "get_long C h k = Inr v \<Longrightarrow> get C h k s = (Ok v, s)"
  by (simp add: get_def run_simps)

lemma dget_run [run_simps]: "get_double C h k = Inr v \<Longrightarrow> dget C h k s = (Ok v, s)"
  by (simp add: dget_def run_simps)

lemma compare_run [run_simps]:
  assumes "get_long C h k = Inr v"
  shows "eq C h k w s = (Ok (v = w), s)" "ne C h k w s = (Ok (v \<noteq> w), s)"
    "ge C h k w s = (Ok (w \<le> v), s)" "le C h k w s = (Ok (v \<le> w), s)"
  using assms by (simp_all add: eq_def ne_def ge_def le_def run_simps)

lemma check_that_run [run_simps]: "check_that m s = continue (m s) check"
  by (simp add: check_that_def run_simps)

lemma or_that_run [run_simps]: "or_that m n s = continue (m s) (\<lambda>a. if a then ret True else n)"
  by (simp add: or_that_def run_simps)

lemma unless_lam_run [run_simps]: "unless_lam m s = (if is_lam s = 0 then m s else (Ok (), s))"
  by (simp add: unless_lam_def run_simps)

lemma quotient_run [run_simps]: "b \<noteq> 0 \<Longrightarrow> quotient a b s = (Ok (cdiv a b), s)"
  by (simp add: quotient_def run_simps)

subsection \<open>The row of a record\<close>

definition row_matches :: "'h checker \<Rightarrow> 'h \<Rightarrow> parameter \<Rightarrow> bool" where
  "row_matches C h p \<longleftrightarrow> list_all (pair_matches C h) (pairs p)"

lemma count_matches_le: "count_matches C h ps \<le> int (length ps)"
  by (induction ps) auto

lemma count_matches_all: "count_matches C h ps = int (length ps) \<longleftrightarrow> list_all (pair_matches C h) ps"
proof (induction ps)
  case (Cons p ps)
  then show ?case using count_matches_le [of C h ps] by auto
qed simp

text \<open>The first of the longest rows that match, where a row of \<open>best\<close> pairs has been seen.\<close>

lemma best_match_step:
  "best_match C h (p # ps) best m = (if row_matches C h p \<and> best < int (length (pairs p))
     then best_match C h ps (int (length (pairs p))) (Some p) else best_match C h ps best m)"
  by (auto simp: Let_def row_matches_def count_matches_all [symmetric])

lemma best_match_none:
  "best_match C h ps best m = m" if "\<forall>q \<in> set ps. row_matches C h q \<longrightarrow> int (length (pairs q)) \<le> best"
  using that by (induction ps arbitrary: best m) (auto simp del: best_match.simps(2) simp: best_match_step)

lemma best_match_first:
  assumes "row_matches C h p" "best < int (length (pairs p))"
    and "\<forall>q \<in> set xs. row_matches C h q \<longrightarrow> length (pairs q) < length (pairs p)"
    and "\<forall>q \<in> set ys. row_matches C h q \<longrightarrow> length (pairs q) \<le> length (pairs p)"
  shows "best_match C h (xs @ p # ys) best m = Some p"
  using assms(2,3)
proof (induction xs arbitrary: best m)
  case Nil
  then show ?case using assms(1,4)
    by (simp add: best_match_step best_match_none del: best_match.simps(2))
next
  case (Cons q xs)
  then show ?case by (auto simp: best_match_step simp del: best_match.simps(2))
qed

lemma longest_split:
  assumes "\<exists>q \<in> set ps. P q"
  shows "\<exists>xs p ys. ps = xs @ p # ys \<and> P p \<and> (\<forall>q \<in> set xs. P q \<longrightarrow> f q < (f p :: nat)) \<and> (\<forall>q \<in> set ys. P q \<longrightarrow> f q \<le> f p)"
  using assms
proof (induction ps)
  case (Cons a ps)
  show ?case
  proof (cases "\<exists>q \<in> set ps. P q")
    case True
    with Cons.IH obtain xs p ys where p: "ps = xs @ p # ys" "P p"
      "\<forall>q \<in> set xs. P q \<longrightarrow> f q < f p" "\<forall>q \<in> set ys. P q \<longrightarrow> f q \<le> f p" by blast
    show ?thesis
    proof (cases "P a \<and> f p \<le> f a")
      case True
      with p show ?thesis by (intro exI [of _ "[]"] exI [of _ a] exI [of _ ps]) force
    next
      case False
      with p show ?thesis by (intro exI [of _ "a # xs"] exI [of _ p] exI [of _ ys]) auto
    qed
  next
    case False
    with Cons.prems show ?thesis by (intro exI [of _ "[]"] exI [of _ a] exI [of _ ps]) auto
  qed
qed simp

definition chosen_row :: "'h checker \<Rightarrow> 'h \<Rightarrow> parameter list \<Rightarrow> parameter \<Rightarrow> bool" where
  "chosen_row C h ps p \<longleftrightarrow> (\<exists>xs ys. ps = xs @ p # ys \<and> row_matches C h p \<and>
     (\<forall>q \<in> set xs. row_matches C h q \<longrightarrow> length (pairs q) < length (pairs p)) \<and>
     (\<forall>q \<in> set ys. row_matches C h q \<longrightarrow> length (pairs q) \<le> length (pairs p)))"

lemma chosen_row_exists: "\<exists>q \<in> set ps. row_matches C h q \<Longrightarrow> \<exists>p. chosen_row C h ps p"
  using longest_split [of ps "row_matches C h" "\<lambda>q. length (pairs q)"] unfolding chosen_row_def by metis

lemma best_match_chosen: "chosen_row C h ps p \<Longrightarrow> best_match C h ps (- 1) None = Some p"
  using best_match_first [of C h p "- 1"] by (auto simp: chosen_row_def)

text \<open>C28. The checker takes the first of the longest rows of the table all of whose keys match the record, and
  none exactly when no row matches.\<close>

lemma best_match_is_longest:
  "(best_match C h ps (- 1) None = None \<longleftrightarrow> \<not> list_ex (row_matches C h) ps) \<and>
   (best_match C h ps (- 1) None = Some p \<longleftrightarrow> chosen_row C h ps p)"
proof -
  have none: "best_match C h ps (- 1) None = None \<longleftrightarrow> \<not> list_ex (row_matches C h) ps"
    using best_match_none [of ps C h "- 1" None] chosen_row_exists [of ps C h] best_match_chosen [of C h ps]
    by (metis option.distinct(1) list_ex_iff)
  then show ?thesis
    using chosen_row_exists [of ps C h] best_match_chosen [of C h ps]
    by (metis option.inject option.distinct(1) list_ex_iff)
qed

subsection \<open>A record only counts\<close>

text \<open>What checking a record may change: the counters go up, the latitudes are kept.\<close>

definition only_counts :: "check_state \<Rightarrow> check_state \<Rightarrow> bool" where
  "only_counts s t \<longleftrightarrow> error s \<le> error t \<and> warning s \<le> warning t \<and>
     valueflg t = valueflg s \<and> warnflg t = warnflg s \<and> zeroflg t = zeroflg s \<and> is_lam t = is_lam s \<and>
     good t = good s \<and> bad t = bad s \<and> good_saved t = good_saved s \<and> bad_saved t = bad_saved s"

definition counts :: "'a check_prog \<Rightarrow> bool" where
  "counts m \<longleftrightarrow> (\<forall>s. fst (m s) = Crash \<or> (\<exists>x. fst (m s) = Ok x) \<and> only_counts s (snd (m s)))"

named_theorems counting "procedures that only count"

lemma only_counts_trans: "only_counts s t \<Longrightarrow> only_counts t u \<Longrightarrow> only_counts s u"
  by (auto simp: only_counts_def)

lemma counts_bnd [counting]:
  assumes "counts m" "\<And>x. counts (f x)" shows "counts (bnd m f)"
  unfolding counts_def
proof
  fix s
  have "fst (m s) = Crash \<or> (\<exists>x. fst (m s) = Ok x) \<and> only_counts s (snd (m s))"
    using assms(1) by (simp add: counts_def)
  then show "fst (bnd m f s) = Crash \<or> (\<exists>y. fst (bnd m f s) = Ok y) \<and> only_counts s (snd (bnd m f s))"
  proof
    assume "fst (m s) = Crash"
    then show ?thesis by (cases "m s") (simp add: bnd_def)
  next
    assume "(\<exists>x. fst (m s) = Ok x) \<and> only_counts s (snd (m s))"
    then obtain x t where "m s = (Ok x, t)" "only_counts s t" by (cases "m s") auto
    with assms(2) [of x] only_counts_trans [of s t] show ?thesis by (auto simp: bnd_def counts_def)
  qed
qed

lemma counts_seq [counting]: "counts m \<Longrightarrow> counts n \<Longrightarrow> counts (seq m n)"
  using counts_bnd [of m "\<lambda>_. n"] by (simp add: counts_def bnd_def seq_def)

lemma counts_simple [counting]:
  "counts (ret x)" "counts (crash :: 'a check_prog)" "counts (rd f)" "counts (check a)" "counts fail"
  by (simp_all add: counts_def only_counts_def run_simps)

lemma counts_upd [counting]:
  "counts (upd (\<lambda>s. s\<lparr>error := error s + 1\<rparr>))" "counts (upd (\<lambda>s. s\<lparr>warning := warning s + 1\<rparr>))"
  "counts (upd (\<lambda>s. s\<lparr>requests := k\<rparr>))" "counts (upd (\<lambda>s. s\<lparr>lat_values := v\<rparr>))"
  "counts (upd (\<lambda>s. s\<lparr>lat_values := v, last_n := n\<rparr>))"
  by (simp_all add: counts_def only_counts_def run_simps)

lemma counts_branch [counting]:
  "counts m \<Longrightarrow> counts (only_if c m)" "counts m \<Longrightarrow> counts n \<Longrightarrow> counts (if c then m else n)"
  by (simp_all add: only_if_def counting)

lemma counts_steps [counting]: "(\<And>m. m \<in> set ms \<Longrightarrow> counts m) \<Longrightarrow> counts (steps ms)"
  by (induction ms) (simp_all add: counting)

lemma counts_keys [counting]:
  "counts (get C h k)" "counts (dget C h k)" "counts (eq C h k v)" "counts (ne C h k v)" "counts (ge C h k v)"
  "counts (le C h k v)" "counts m \<Longrightarrow> counts (check_that m)" "counts m \<Longrightarrow> counts n' \<Longrightarrow> counts (or_that m n')"
  "counts (request C)" "counts m0 \<Longrightarrow> counts (unless_lam m0)" "counts (quotient a b)" "counts (to_long x)"
  by (auto simp: get_def dget_def eq_def ne_def ge_def le_def check_that_def or_that_def request_def unless_lam_def
      quotient_def to_long_def Let_def intro!: counting split: sum.splits cdouble.splits)

lemma counts_checks [counting]:
  "counts (check_range p mini maxi)" "counts (point_in_time C h p mini maxi)" "counts (pressure_level C h)"
  "counts (potential_vorticity_level C h)" "counts (potential_temperature_level C h)" "counts (step_sum C h k)"
  by (auto simp: check_range_def point_in_time_def pressure_level_def potential_vorticity_level_def
      potential_temperature_level_def step_sum_def intro!: counting)

lemma counts_statistical [counting]: "counts (statistical_process C h)"
  by (auto simp: statistical_process_def intro!: counting)

lemma counts_more_checks [counting]:
  "counts (hourly k C h p mini maxi)" "counts (from_start C h p mini maxi)" "counts (has_bitmap C h)"
  by (auto simp: hourly_def from_start_def has_bitmap_def intro!: counting)

lemma counts_surfaces [counting]: "counts m \<Longrightarrow> counts (surfaces a m b C h)"
  by (auto simp: surfaces_def intro!: counting)

lemma counts_run_check [counting]: "counts (run_check C h p mini maxi proc)"
  by (cases proc) (auto simp: run_check_def six_hourly_def three_hourly_def given_level_def predefined_level_def
      predefined_thickness_def given_thickness_def intro!: counting)

lemma counts_check_parameter [counting]: "counts (check_parameter C h mini maxi)"
  by (auto simp: check_parameter_def intro!: counting split: option.splits)

lemma counts_latlon [counting]: "counts (flags_zero C h)" "counts (latlon_grid C h)"
  by (auto simp: latlon_grid_def flags_zero_def Let_def intro!: counting split: prod.splits)

lemma counts_gaussian [counting]:
  "counts (gaussian_values C n)" "counts first_latitude" "counts (pl_total xs k)" "counts (reduced_points C h n)"
proof -
  show t: "counts (pl_total xs k)" for xs k by (induction xs arbitrary: k) (auto intro!: counting)
  show "counts (gaussian_values C n)" "counts first_latitude" "counts (reduced_points C h n)"
    by (auto simp: gaussian_values_def first_latitude_def reduced_points_def Let_def intro!: counting t
        split: latitudes.splits list.splits sum.splits)
qed

lemma counts_gaussian_grid [counting]: "counts (gaussian_grid C h)"
  by (auto simp: gaussian_grid_def Let_def intro!: counting)

lemma counts_verify [counting]: "counts (verify C h)"
proof -
  have "counts (value_range C h)"
    by (auto simp: value_range_def Let_def intro!: counting split: sum.splits list.splits)
  moreover have "counts (foldr (\<lambda>hour. or_that (eq C h ''hour'' hour)) hs (eq C h ''hour'' z))" for hs z
    by (induction hs) (auto intro!: counting)
  ultimately show ?thesis
    unfolding verify_def by (auto intro!: counting split: option.splits prod.splits simp del: foldr.simps)
qed

text \<open>Checking a record ends with undefined behaviour, or returns; then it has only raised the counters of
  errors and warnings: the options, the streams and what was saved are unchanged.\<close>

theorem verify_only_counts:
  "fst (verify C h s) = Crash \<or> fst (verify C h s) = Ok () \<and> only_counts s (snd (verify C h s))"
  using counts_verify [of C h] by (auto simp: counts_def)

end
