(* ===== verification/TiggeRows.thy ===== *)
theory TiggeRows
  imports TiggeVerdict
begin

text \<open>
  Which rows of the table a record can match: every row asks for the model, the discipline, the
  category and number of the parameter, and the type of the first surface.
\<close>

definition long_of :: "parameter \<Rightarrow> string \<Rightarrow> int option" where
  "long_of p k = map_option value_long (find (\<lambda>q. key q = k \<and> key_kind q = TypeLong) (pairs p))"

definition string_of :: "parameter \<Rightarrow> string \<Rightarrow> string option" where
  "string_of p k = map_option value_string (find (\<lambda>q. key q = k \<and> key_kind q = TypeString) (pairs p))"

definition signature :: "parameter \<Rightarrow> string option \<times> int option \<times> int option \<times> int option \<times> int option" where
  "signature p = (string_of p ''model'', long_of p ''discipline'', long_of p ''parameterCategory'',
     long_of p ''parameterNumber'', long_of p ''typeOfFirstFixedSurface'')"

lemma key_simps [simp]:
  "key (long_key k v) = k" "key_kind (long_key k v) = TypeLong" "value_long (long_key k v) = v"
  "key (string_key k v t) = k" "key_kind (string_key k v t) = TypeString" "value_string (string_key k v t) = t"
  by (simp_all add: long_key_def string_key_def)

lemma row_simps [simp]:
  "param_name (row n a b c d ps cs) = n" "pairs (row n a b c d ps cs) = ps" "checks (row n a b c d ps cs) = cs"
  by (simp_all add: row_def)

lemma row_of [simp]:
  "long_of (row n a b c d (q # ps) cs) k =
    (if key q = k \<and> key_kind q = TypeLong then Some (value_long q) else long_of (row n a b c d ps cs) k)"
  "string_of (row n a b c d (q # ps) cs) k =
    (if key q = k \<and> key_kind q = TypeString then Some (value_string q) else string_of (row n a b c d ps cs) k)"
  by (simp_all add: long_of_def string_of_def)

lemma signatures_1: "map signature parameters_1 = [
     (Some ''glob'', Some 0, Some 2, Some 2, Some 103),
     (Some ''lam'', Some 0, Some 2, Some 2, Some 103),
     (Some ''lam'', Some 0, Some 2, Some 2, Some 103),
     (Some ''glob'', Some 0, Some 2, Some 3, Some 103),
     (Some ''lam'', Some 0, Some 2, Some 3, Some 103)]"
  by (simp add: parameters_1_def signature_def)

lemma signatures_2: "map signature parameters_2 = [
     (Some ''lam'', Some 0, Some 2, Some 3, Some 103),
     (Some ''glob'', Some 0, Some 7, Some 6, Some 1),
     (Some ''lam'', Some 0, Some 7, Some 6, Some 1),
     (Some ''glob'', Some 0, Some 7, Some 7, Some 1),
     (Some ''lam'', Some 0, Some 7, Some 7, Some 1)]"
  by (simp add: parameters_2_def signature_def)

lemma signatures_3: "map signature parameters_3 = [
     (Some ''lam'', Some 0, Some 7, Some 7, Some 1),
     (Some ''lam'', Some 0, Some 7, Some 7, Some 1),
     (Some ''glob'', Some 2, Some 3, Some 12, Some 106),
     (Some ''glob'', Some 0, Some 3, Some 5, Some 100),
     (Some ''glob'', Some 2, Some 0, Some 0, Some 1),
     (Some ''lam'', Some 2, Some 0, Some 0, Some 1)]"
  by (simp add: parameters_3_def signature_def)

lemma signatures_4: "map signature parameters_4 = [
     (Some ''lam'', Some 2, Some 0, Some 0, Some 1),
     (Some ''glob'', Some 0, Some 3, Some 0, Some 101),
     (Some ''lam'', Some 0, Some 3, Some 0, Some 101),
     (Some ''lam'', Some 0, Some 3, Some 0, Some 101),
     (Some ''glob'', Some 0, Some 3, Some 5, Some 1)]"
  by (simp add: parameters_4_def signature_def)

lemma signatures_5: "map signature parameters_5 = [
     (Some ''lam'', Some 0, Some 3, Some 5, Some 1),
     (Some ''lam'', Some 0, Some 3, Some 5, Some 1),
     (Some ''lam'', Some 0, Some 3, Some 5, Some 1),
     (Some ''glob'', Some 0, Some 0, Some 2, Some 109),
     (Some ''glob'', Some 0, Some 2, Some 14, Some 107),
     (Some ''glob'', Some 0, Some 0, Some 17, Some 1)]"
  by (simp add: parameters_5_def signature_def)

lemma signatures_6: "map signature parameters_6 = [
     (Some ''glob'', Some 0, Some 1, Some 60, Some 1),
     (Some ''glob'', Some 0, Some 1, Some 53, Some 1),
     (Some ''glob'', Some 2, Some 0, Some 22, Some 106),
     (Some ''glob'', Some 2, Some 0, Some 2, Some 106),
     (Some ''glob'', Some 0, Some 1, Some 0, Some 100),
     (Some ''glob'', Some 0, Some 6, Some 24, Some 1),
     (Some ''glob'', Some 0, Some 0, Some 0, Some 103)]"
  by (simp add: parameters_6_def signature_def)

lemma signatures_7: "map signature parameters_7 = [
     (Some ''lam'', Some 0, Some 0, Some 0, Some 103),
     (Some ''lam'', Some 0, Some 0, Some 0, Some 103),
     (Some ''lam'', Some 0, Some 0, Some 0, Some 103),
     (Some ''glob'', Some 0, Some 0, Some 6, Some 103),
     (Some ''lam'', Some 0, Some 0, Some 6, Some 103)]"
  by (simp add: parameters_7_def signature_def)

lemma signatures_8: "map signature parameters_8 = [
     (Some ''lam'', Some 0, Some 0, Some 6, Some 103),
     (Some ''lam'', Some 0, Some 0, Some 6, Some 103),
     (Some ''glob'', Some 0, Some 0, Some 0, Some 103),
     (Some ''glob'', Some 0, Some 0, Some 0, Some 103),
     (Some ''glob'', Some 0, Some 3, Some 0, Some 1),
     (Some ''glob'', Some 0, Some 0, Some 0, Some 100),
     (Some ''glob'', Some 0, Some 5, Some 5, Some 8)]"
  by (simp add: parameters_8_def signature_def)

lemma signatures_9: "map signature parameters_9 = [
     (Some ''glob'', Some 0, Some 0, Some 10, Some 1),
     (Some ''glob'', Some 0, Some 4, Some 9, Some 1),
     (Some ''glob'', Some 0, Some 5, Some 5, Some 1),
     (Some ''glob'', Some 0, Some 0, Some 11, Some 1),
     (Some ''glob'', Some 0, Some 6, Some 1, Some 1),
     (Some ''glob'', Some 0, Some 1, Some 51, Some 1),
     (Some ''glob'', Some 0, Some 1, Some 52, Some 1)]"
  by (simp add: parameters_9_def signature_def)

lemma signatures_10: "map signature parameters_10 = [
     (Some ''lam'', Some 0, Some 1, Some 52, Some 1),
     (Some ''lam'', Some 0, Some 1, Some 52, Some 1),
     (Some ''glob'', Some 0, Some 1, Some 54, Some 1),
     (Some ''lam'', Some 0, Some 1, Some 54, Some 1),
     (Some ''glob'', Some 0, Some 2, Some 2, Some 100),
     (Some ''glob'', Some 0, Some 2, Some 2, Some 109)]"
  by (simp add: parameters_10_def signature_def)

lemma signatures_11: "map signature parameters_11 = [
     (Some ''glob'', Some 0, Some 2, Some 3, Some 100),
     (Some ''glob'', Some 0, Some 2, Some 3, Some 109),
     (Some ''glob'', Some 2, Some 0, Some 26, Some 106),
     (Some ''glob'', Some 0, Some 2, Some 22, Some 103),
     (Some ''lam'', Some 0, Some 2, Some 22, Some 103),
     (Some ''lam'', Some 0, Some 2, Some 22, Some 103)]"
  by (simp add: parameters_11_def signature_def)

lemma signatures_12: "map signature parameters_12 = [
     (Some ''lam'', Some 0, Some 2, Some 22, Some 103)]"
  by (simp add: parameters_12_def signature_def)

lemma filter_by_map:
  "map f xs = ys \<Longrightarrow> filter (\<lambda>x. f x = a) xs = map (\<lambda>i. xs ! i) (map snd (filter (\<lambda>(y, i). y = a) (zip ys [0..<length ys])))"
proof -
  assume m: "map f xs = ys"
  have z: "zip ys [0..<length ys] = map (\<lambda>i. (ys ! i, i)) [0..<length ys]"
    by (rule nth_equalityI) simp_all
  have l: "length ys = length xs" using m by auto
  have "filter (\<lambda>x. f x = a) xs = filter (\<lambda>x. f x = a) (map (\<lambda>i. xs ! i) [0..<length xs])" by (simp add: map_nth)
  also have "\<dots> = map (\<lambda>i. xs ! i) (filter (\<lambda>i. f (xs ! i) = a) [0..<length xs])" by (simp add: filter_map comp_def)
  also have "filter (\<lambda>i. f (xs ! i) = a) [0..<length xs] = filter (\<lambda>i. ys ! i = a) [0..<length ys]"
    using m l by (auto intro!: filter_cong)
  finally show ?thesis by (simp add: z filter_map comp_def)
qed

definition rows_of :: "string \<Rightarrow> int \<Rightarrow> int \<Rightarrow> int \<Rightarrow> int \<Rightarrow> parameter list" where
  "rows_of m d c n t = filter (\<lambda>p. signature p = (Some m, Some d, Some c, Some n, Some t)) parameters"

lemmas by_signature = signatures_1 [THEN filter_by_map] signatures_2 [THEN filter_by_map] signatures_3 [THEN filter_by_map]
  signatures_4 [THEN filter_by_map] signatures_5 [THEN filter_by_map] signatures_6 [THEN filter_by_map]
  signatures_7 [THEN filter_by_map] signatures_8 [THEN filter_by_map] signatures_9 [THEN filter_by_map]
  signatures_10 [THEN filter_by_map] signatures_11 [THEN filter_by_map] signatures_12 [THEN filter_by_map]

text \<open>The rows of the variables of \<open>ncdcTigge\<close>.\<close>

lemma wanted_rows:
  "rows_of ''glob'' 0 0 2 109 = [parameters_5 ! 3]"
  "rows_of ''glob'' 0 1 53 1 = [parameters_6 ! 1]"
  "rows_of ''glob'' 2 0 22 106 = [parameters_6 ! 2]"
  "rows_of ''glob'' 2 0 2 106 = [parameters_6 ! 3]"
  "rows_of ''glob'' 0 5 5 8 = [parameters_8 ! 6]"
  "rows_of ''glob'' 0 0 10 1 = [parameters_9 ! 0]"
  "rows_of ''glob'' 0 4 9 1 = [parameters_9 ! 1]"
  "rows_of ''glob'' 0 5 5 1 = [parameters_9 ! 2]"
  "rows_of ''glob'' 0 0 11 1 = [parameters_9 ! 3]"
  "rows_of ''glob'' 0 1 51 1 = [parameters_9 ! 5]"
  "rows_of ''glob'' 0 1 52 1 = [parameters_9 ! 6]"
  by (simp_all add: rows_of_def parameters_def by_signature upt_rec eval_nat_numeral)

end
