(* ===== verification/TiggeFiles.thy ===== *)
theory TiggeFiles
  imports TiggeVerdict
begin

text \<open>
  The records of a file go to the good and the bad stream; the exit code; the Gaussian
  latitudes that are freed twice.
\<close>

subsection \<open>Good and bad records\<close>

text \<open>What \<open>validate\<close> sees of a record: the counters before and after.\<close>

definition rejected :: "check_state \<Rightarrow> check_state \<Rightarrow> bool" where
  "rejected s t \<longleftrightarrow> error s \<noteq> error t \<or> warnflg s \<noteq> 0 \<and> warning s \<noteq> warning t"

lemma verify_counts: assumes "verify C h s = (Ok x, t)" shows "only_counts s t"
proof -
  have "fst (verify C h s) = Crash \<or> (\<exists>x. fst (verify C h s) = Ok x) \<and> only_counts s (snd (verify C h s))"
    using counts_verify [of C h] by (simp add: counts_def)
  with assms show ?thesis by simp
qed

lemma sort_record_cases:
  assumes "sort_record C h s = (Ok (), t)" "good s = Some g" "bad s = Some b"
  obtains u m where "verify C h s = (Ok (), u)" "only_counts s u" "get_message C h = Inr m"
    "t = (if rejected s u then keep_bad m u else keep_good m u)"
proof -
  from assms(1) have "continue (verify C h s) (\<lambda>_ u. (if rejected s u then bnd (rd bad) (\<lambda>f. save C h f keep_bad)
      else bnd (rd good) (\<lambda>f. save C h f keep_good)) u) = (Ok (), t)"
    unfolding sort_record_def
    by (cases "verify C h s"; cases "fst (verify C h s)")
      (auto simp: run_simps rejected_def only_counts_def dest!: verify_counts split: if_splits)
  then obtain u where u: "verify C h s = (Ok (), u)"
    and r: "(if rejected s u then bnd (rd bad) (\<lambda>f. save C h f keep_bad) else bnd (rd good) (\<lambda>f. save C h f keep_good)) u = (Ok (), t)"
    by (cases "verify C h s"; cases "fst (verify C h s)") auto
  note c = verify_counts [OF u]
  then have "good u = Some g" "bad u = Some b" using assms(2,3) by (simp_all add: only_counts_def)
  with r have "\<exists>m. get_message C h = Inr m \<and> t = (if rejected s u then keep_bad m u else keep_good m u)"
    by (auto simp: run_simps save_def split: if_splits sum.splits)
  with u c that show thesis by blast
qed

lemma rejected_iff: "only_counts s t \<Longrightarrow> only_counts t u \<Longrightarrow> rejected s u \<longleftrightarrow> rejected s t \<or> rejected t u"
  by (auto simp: rejected_def only_counts_def)

text \<open>What sorting the records of a file leaves: the messages, divided, and the counters.\<close>

definition sorted_into :: "'h checker \<Rightarrow> 'h list \<Rightarrow> check_state \<Rightarrow> check_state \<Rightarrow> byte list list \<Rightarrow> byte list list \<Rightarrow> bool" where
  "sorted_into C hs s t gs bs \<longleftrightarrow> (\<exists>ms. list_all2 (\<lambda>h m. get_message C h = Inr m) hs ms \<and> ms \<in> shuffles gs bs) \<and>
     good_saved t = good_saved s @ gs \<and> bad_saved t = bad_saved s @ bs \<and> (bs = [] \<longleftrightarrow> \<not> rejected s t) \<and>
     error s \<le> error t \<and> warning s \<le> warning t \<and> warnflg t = warnflg s \<and> good t = good s \<and> bad t = bad s"

text \<open>The messages of the records of a file are divided, each list in the order of the file, into those of
  the good and those of the bad stream; there is a bad one exactly when an error, or a warning that
  counts, was found.\<close>

lemma sort_records:
  assumes "steps (map (sort_record C) hs) s = (Ok (), t)" "good s = Some g" "bad s = Some b"
  shows "\<exists>gs bs. sorted_into C hs s t gs bs"
  using assms
proof (induction hs arbitrary: s)
  case Nil
  then show ?case by (auto simp: run_simps sorted_into_def rejected_def)
next
  case (Cons h hs)
  from Cons.prems(1) obtain s1 where 1: "sort_record C h s = (Ok (), s1)" "steps (map (sort_record C) hs) s1 = (Ok (), t)"
    by (cases "sort_record C h s"; cases "fst (sort_record C h s)") (auto simp: run_simps simp del: steps.simps)
  from sort_record_cases [OF 1(1) Cons.prems(2,3)] obtain u m where u: "only_counts s u" "get_message C h = Inr m"
    "s1 = (if rejected s u then keep_bad m u else keep_good m u)" by metis
  then have k: "good s1 = Some g" "bad s1 = Some b" "error s1 = error u" "warning s1 = warning u" "warnflg s1 = warnflg s"
    "good_saved s1 = good_saved s @ (if rejected s u then [] else [m])"
    "bad_saved s1 = bad_saved s @ (if rejected s u then [m] else [])"
    using Cons.prems(2,3) by (auto simp: keep_bad_def keep_good_def only_counts_def)
  from Cons.IH [OF 1(2) k(1,2)] obtain gs bs ms where i:
    "list_all2 (\<lambda>h m. get_message C h = Inr m) hs ms" "ms \<in> shuffles gs bs"
    "good_saved t = good_saved s1 @ gs" "bad_saved t = bad_saved s1 @ bs" "bs = [] \<longleftrightarrow> \<not> rejected s1 t"
    "error s1 \<le> error t" "warning s1 \<le> warning t" "warnflg t = warnflg s1" "good t = good s1" "bad t = bad s1"
    unfolding sorted_into_def by blast
  have r: "rejected s t \<longleftrightarrow> rejected s u \<or> rejected s1 t"
    using u(1) i(6,7) k(3-5) by (auto simp: rejected_def only_counts_def)
  have e: "error s \<le> error t" "warning s \<le> warning t" using u(1) i(6,7) k(3,4) by (auto simp: only_counts_def)
  show ?case
  proof (cases "rejected s u")
    case True
    then show ?thesis using i k u(2) r e Cons.prems(2,3) Cons_in_shuffles_rightI [OF i(2), of m]
      by (intro exI [of _ gs] exI [of _ "m # bs"]) (auto simp: sorted_into_def)
  next
    case False
    then show ?thesis using i k u(2) r e Cons.prems(2,3) Cons_in_shuffles_leftI [OF i(2), of m]
      by (intro exI [of _ "m # gs"] exI [of _ bs]) (auto simp: sorted_into_def)
  qed
qed

subsection \<open>The exit code\<close>

text \<open>Without \<open>-g\<close> and \<open>-b\<close> nothing is saved, and scanning only counts.\<close>

definition no_streams :: "check_state \<Rightarrow> bool" where
  "no_streams s \<longleftrightarrow> good s = None \<and> bad s = None"

definition scans :: "unit check_prog \<Rightarrow> bool" where
  "scans m \<longleftrightarrow> (\<forall>s. no_streams s \<longrightarrow> fst (m s) = Crash \<or> fst (m s) = Ok () \<and> only_counts s (snd (m s)))"

lemma scans_counts: "counts m \<Longrightarrow> scans m"
  by (auto simp: scans_def counts_def)

lemma scans_seq:
  assumes "scans m" "scans n" shows "scans (seq m n)"
  unfolding scans_def
proof (intro allI impI)
  fix s assume s: "no_streams s"
  have "fst (m s) = Crash \<or> fst (m s) = Ok () \<and> only_counts s (snd (m s))" using assms(1) s by (simp add: scans_def)
  then show "fst (seq m n s) = Crash \<or> fst (seq m n s) = Ok () \<and> only_counts s (snd (seq m n s))"
  proof
    assume "fst (m s) = Crash"
    then show ?thesis by (cases "m s") (simp add: seq_def)
  next
    assume a: "fst (m s) = Ok () \<and> only_counts s (snd (m s))"
    then obtain t where t: "m s = (Ok (), t)" "only_counts s t" by (cases "m s") auto
    then have "no_streams t" using s by (simp add: no_streams_def only_counts_def)
    then have "fst (n t) = Crash \<or> fst (n t) = Ok () \<and> only_counts t (snd (n t))" using assms(2) by (simp add: scans_def)
    with t only_counts_trans [of s t] show ?thesis by (auto simp: seq_def)
  qed
qed

lemma scans_sort_record: "scans (sort_record C h)"
  unfolding scans_def
proof (intro allI impI)
  fix s assume s: "no_streams s"
  show "fst (sort_record C h s) = Crash \<or> fst (sort_record C h s) = Ok () \<and> only_counts s (snd (sort_record C h s))"
  proof (cases "fst (verify C h s) = Crash")
    case True
    then show ?thesis by (cases "verify C h s") (simp add: sort_record_def run_simps)
  next
    case False
    with counts_verify [of C h] obtain t where t: "verify C h s = (Ok (), t)" "only_counts s t"
      unfolding counts_def by (cases "verify C h s") (metis fst_conv old.unit.exhaust snd_conv)
    then have "good t = None" "bad t = None" using s by (simp_all add: no_streams_def only_counts_def)
    with t show ?thesis by (simp add: sort_record_def run_simps save_def)
  qed
qed

lemma scans_validate: "scans (validate C n)"
proof -
  have "scans (steps (map (sort_record C) hs))" for hs
    by (induction hs) (simp_all add: scans_counts counting scans_seq scans_sort_record)
  moreover have "scans (if err \<noteq> 0 then fail else only_if (hs = []) fail)" for err :: int and hs :: "'a list"
    by (auto intro!: scans_counts counting)
  ultimately show ?thesis
    by (cases n) (simp_all add: validate_def scans_seq scans_counts counting)
qed

lemma scans_scan: "scans (scan C path n)" "scans (scan_names C path entries)"
proof (induction C path n and C path entries rule: scan_scan_names.induct)
  case (5 C path d n entries)
  have "scans (ret ())" "scans (crash :: unit check_prog)" by (simp_all add: scans_counts counting)
  with 5 show ?case by (simp add: scans_seq)
qed (simp_all add: scans_validate scans_counts counting)

lemma check_files_one:
  assumes "scan C f (named C f) (s\<lparr>error := 0\<rparr>) = (Ok (), t)"
  shows "check_files C [f] 0 s = (Ok (if error t \<noteq> 0 \<or> warning t \<noteq> 0 \<and> warnflg t \<noteq> 0 then 1 else 0), t)"
  using assms by (simp add: run_simps)

text \<open>The exit code for a file or a directory, without options.\<close>

lemma checked_file:
  assumes "take 1 f \<noteq> ''-''" "scan C f (named C f) checker_start = (Ok (), t)"
  shows "check_main C [f] checker_start = (Ok (if error t = 0 then 0 else 1), t)"
proof -
  have s: "checker_start\<lparr>error := 0\<rparr> = checker_start" by (simp add: checker_start_def)
  have "no_streams checker_start" by (simp add: no_streams_def checker_start_def)
  with scans_scan(1) [of C f "named C f"] assms(2) have "only_counts checker_start t"
    by (fastforce simp: scans_def)
  then have t: "good t = None" "bad t = None" "warnflg t = 0" "zeroflg t = 0"
    by (simp_all add: only_counts_def checker_start_def)
  have "options C [f] checker_start = (Ok [f], checker_start)" using assms(1) by (simp add: run_simps)
  with check_files_one [of C f checker_start t] assms(2) t s show ?thesis
    by (simp add: check_main_def run_simps close_stream_def)
qed

subsection \<open>Accepted files\<close>

definition accepted :: "'h checker \<Rightarrow> 'h \<Rightarrow> bool" where
  "accepted C h \<longleftrightarrow> (\<forall>s. is_lam s = 0 \<longrightarrow> valueflg s = 0 \<longrightarrow> verify C h s = (Ok (), s))"

text \<open>A tree of files that holds records, all of them accepted; its names fit into the buffer.\<close>

fun accepted_tree :: "'h checker \<Rightarrow> string \<Rightarrow> 'h node \<Rightarrow> bool"
  and accepted_names :: "'h checker \<Rightarrow> string \<Rightarrow> (string \<times> 'h node) list \<Rightarrow> bool" where
  "accepted_tree C path (Directory entries) = accepted_names C path entries"
| "accepted_tree C path (Records hs err) = (hs \<noteq> [] \<and> err = 0 \<and> list_all (accepted C) hs)"
| "accepted_tree C path Unreadable = False"
| "accepted_names C path [] = True"
| "accepted_names C path ((d, n) # entries) =
     ((take 1 d = ''.'' \<or> length path + 1 + length d < 1024 \<and> accepted_tree C (path @ ''/'' @ d) n) \<and>
      accepted_names C path entries)"

lemma accepted_scan:
  assumes "is_lam s = 0" "valueflg s = 0" "no_streams s"
  shows "accepted_tree C path n \<Longrightarrow> scan C path n s = (Ok (), s)"
    "accepted_names C path entries \<Longrightarrow> scan_names C path entries s = (Ok (), s)"
proof (induction C path n and C path entries rule: scan_scan_names.induct)
  case (2 C path hs err)
  have "list_all (accepted C) hs \<Longrightarrow> steps (map (sort_record C) hs) s = (Ok (), s)" for hs
    by (induction hs) (use assms in \<open>auto simp: run_simps sort_record_def accepted_def save_def no_streams_def\<close>)
  with 2 show ?case by (simp add: validate_def run_simps)
next
  case (5 C path d n entries)
  then show ?case by (auto simp: run_simps)
qed (simp_all add: run_simps)

text \<open>Files of accepted records.\<close>

lemma checked_files:
  assumes "files \<noteq> []" "\<forall>f \<in> set files. take 1 f \<noteq> ''-'' \<and> accepted_tree C f (named C f)"
  shows "check_main C files checker_start = (Ok 0, checker_start)"
proof -
  have s: "checker_start\<lparr>error := 0\<rparr> = checker_start" by (simp add: checker_start_def)
  have z: "is_lam checker_start = 0" "valueflg checker_start = 0" "no_streams checker_start" "warning checker_start = 0"
    "error checker_start = 0" "good checker_start = None" "bad checker_start = None" "zeroflg checker_start = 0"
    by (simp_all add: checker_start_def no_streams_def)
  have f: "scan C f (named C f) checker_start = (Ok (), checker_start)" if "f \<in> set files" for f
    using assms(2) accepted_scan(1) [OF z(1-3)] that by blast
  have "check_files C fs 0 checker_start = (Ok 0, checker_start)" if "set fs \<subseteq> set files" for fs
    using that by (induction fs) (use z in \<open>auto simp: run_simps s f\<close>)
  moreover have "options C files checker_start = (Ok files, checker_start)"
    using assms by (cases files) (auto simp: run_simps)
  ultimately show ?thesis using assms(1) z by (simp add: check_main_def run_simps close_stream_def)
qed

subsection \<open>The latitudes of a Gaussian grid\<close>

text \<open>C29. When the library has no Gaussian latitudes for the number of a record, an error is counted and the
  array is freed, but the static pointer stays: the next such record frees it again, which is
  undefined behaviour.\<close>

theorem latitudes_freed_twice:
  assumes "get_long C h ''numberOfParallelsBetweenAPoleAndTheEquator'' = Inr n" "n \<noteq> 0"
    and "get_double C h ''latitudeOfFirstGridPointInDegrees'' = Inr north"
    and "get_double C h ''latitudeOfLastGridPointInDegrees'' = Inr south"
    and "get_double C h ''longitudeOfFirstGridPointInDegrees'' = Inr west"
    and "get_double C h ''longitudeOfLastGridPointInDegrees'' = Inr east"
    and "gaussian_latitudes C n = Inl e" "last_n s \<noteq> n" "lat_values s \<noteq> Dangling" "request_ok C (requests s)"
  shows "\<exists>t. gaussian_grid C h s = (Ok (), t) \<and> error t = error s + 1 \<and> fst (gaussian_grid C h t) = Crash"
proof -
  let ?t = "s\<lparr>requests := requests s + 1, error := error s + 1, lat_values := Dangling, last_n := 0\<rparr>"
  have "gaussian_grid C h s = (Ok (), ?t)"
    using assms by (cases "lat_values s") (simp_all add: gaussian_grid_def gaussian_values_def request_def run_simps)
  moreover have "fst (gaussian_grid C h ?t) = Crash"
    using assms by (simp add: gaussian_grid_def gaussian_values_def run_simps)
  ultimately show ?thesis by (intro exI [of _ ?t]) simp
qed

definition no_latitudes :: "unit checker" where
  "no_latitudes = \<lparr>get_long = (\<lambda>h k. Inr 80), get_double = (\<lambda>h k. Inr (Fin 0)), get_string = (\<lambda>h k. Inl 1),
     is_missing = (\<lambda>h k. (False, 0)), get_size = (\<lambda>h k. Inl 1), get_doubles = (\<lambda>h k n. Inl 1), get_message = (\<lambda>h. Inl 1),
     gaussian_latitudes = (\<lambda>n. Inl 1), request_ok = (\<lambda>n. True), opens_write = (\<lambda>f. True), writes_whole = (\<lambda>f. True),
     closes_well = (\<lambda>f. True), named = (\<lambda>f. Records [()] 0)\<rparr>"

theorem latitudes_freed_twice_witness:
  "\<exists>t. gaussian_grid no_latitudes () checker_start = (Ok (), t) \<and> error t = 1 \<and> fst (gaussian_grid no_latitudes () t) = Crash"
  using latitudes_freed_twice [of no_latitudes "()" 80 "Fin 0" "Fin 0" "Fin 0" "Fin 0" 1 checker_start]
  by (simp add: no_latitudes_def checker_start_def)

end
