(* ===== verification/RecordHeader.thy ===== *)
theory RecordHeader
  imports RecordKeys TiggeRows TiggeFiles
begin

text \<open>
  The keys that are the same in all records of the program: what they are set to, and what the
  checker reads of them.
\<close>

subsection \<open>The header of the records\<close>

lemma last_set_append: "last_set (xs @ ys) k = (case last_set ys k of None \<Rightarrow> last_set xs k | Some v \<Rightarrow> Some v)"
  by (simp add: last_set_def map_add_def split: option.split)

lemma last_set_Nil [simp]: "last_set [] k = None"
  by (simp add: last_set_def)

lemma last_set_Cons: "last_set (x # xs) k = (case last_set xs k of Some v \<Rightarrow> Some v
    | None \<Rightarrow> if fst (setting_entry x) = k then Some (snd (setting_entry x)) else None)"
  by (simp add: last_set_def map_add_def split: option.split)

lemma entry_choice: "setting_entry (if c then SetLong k v else SetLong k w) = setting_entry (SetLong k (if c then v else w))"
  by simp

text \<open>Reading a key off a concrete list of settings.\<close>

lemmas lookup = last_set_Cons last_set_Nil last_set_append entry_choice setting_entry.simps all_ones_def
  insert_iff empty_iff fst_conv snd_conv option.case list.inject char.inject list.distinct
  if_False if_True HOL.simp_thms prod.case list.pred_inject

definition header_values :: "int \<Rightarrow> int \<Rightarrow> int \<Rightarrow> int \<Rightarrow> int \<Rightarrow> (string \<times> int) list" where
  "header_values yyyy mm dd hh em =
     [(''editionNumber'', 2), (''localTablesVersion'', 0), (''significanceOfReferenceTime'', 1),
      (''year'', yyyy), (''month'', mm), (''day'', dd), (''hour'', hh), (''minute'', 0), (''second'', 0),
      (''productionStatusOfProcessedData'', 4), (''typeOfProcessedData'', if em = 0 then 3 else 4),
      (''sourceOfGridDefinition'', 0), (''numberOfOctectsForNumberOfPoints'', 0),
      (''interpretationOfNumberOfPoints'', 0), (''gridDefinitionTemplateNumber'', 0),
      (''Ni'', get_n_lon yyyy mm dd hh), (''Nj'', get_n_lat yyyy mm dd hh),
      (''basicAngleOfTheInitialProductionDomain'', 0), (''subdivisionsOfBasicAngle'', GRIB_MISSING_LONG),
      (''latitudeOfFirstGridPoint'', 90000000), (''longitudeOfFirstGridPoint'', 0), (''resolutionAndComponentFlags'', 48),
      (''latitudeOfLastGridPoint'', - 90000000),
      (''longitudeOfLastGridPoint'', 360000000 - lon_increment (get_n_lon yyyy mm dd hh)),
      (''iDirectionIncrement'', lon_increment (get_n_lon yyyy mm dd hh)),
      (''jDirectionIncrement'', lat_increment (get_n_lat yyyy mm dd hh)), (''scanningMode'', 0), (''perturbationNumber'', em),
      (''numberOfForecastsInEnsemble'', get_n_members yyyy mm dd hh), (''typeOfOriginalFieldValues'', 0)]"

lemma base_header: "list_all (\<lambda>(k, v). last_set (base_settings yyyy mm dd hh fff em) k = Some v)
    (header_values yyyy mm dd hh em)"
  unfolding header_values_def base_settings_defs by (simp only: lookup)

lemma base_other: "last_set (base_settings yyyy mm dd hh fff em) ''tablesVersion'' = Some 4"
  "last_set (base_settings yyyy mm dd hh fff em) ''discipline'' = Some 0"
  "last_set (base_settings yyyy mm dd hh fff em) ''bitMapIndicator'' = Some 255"
  unfolding base_settings_defs by (simp_all only: lookup)

text \<open>A record of the program: the settings of every record, and those of its variable.\<close>

definition header_kept :: "setting list \<Rightarrow> bool" where
  "header_kept ys \<longleftrightarrow> list_all (\<lambda>k. last_set ys k = None)
     [''editionNumber'', ''localTablesVersion'', ''significanceOfReferenceTime'', ''year'', ''month'', ''day'', ''hour'',
      ''minute'', ''second'', ''productionStatusOfProcessedData'', ''typeOfProcessedData'', ''sourceOfGridDefinition'',
      ''numberOfOctectsForNumberOfPoints'', ''interpretationOfNumberOfPoints'', ''gridDefinitionTemplateNumber'', ''Ni'', ''Nj'',
      ''basicAngleOfTheInitialProductionDomain'', ''subdivisionsOfBasicAngle'', ''latitudeOfFirstGridPoint'',
      ''longitudeOfFirstGridPoint'', ''resolutionAndComponentFlags'', ''latitudeOfLastGridPoint'', ''longitudeOfLastGridPoint'',
      ''iDirectionIncrement'', ''jDirectionIncrement'', ''scanningMode'', ''perturbationNumber'', ''numberOfForecastsInEnsemble'',
      ''typeOfOriginalFieldValues'']"

lemma headers_kept:
  "header_kept (flux_settings c n t e fff)" "header_kept (snow_fall_integral_settings e fff)"
  "header_kept (total_precipitation_settings yyyy mm dd hh fff)" "header_kept (snow_fall_settings fff e)"
  "header_kept (total_column_water_settings fff)" "header_kept (soil_settings n fff @ bitmap_settings)"
  "header_kept (potential_temperature_settings @ bitmap_settings)"
  unfolding header_kept_def flux_settings_def snow_fall_integral_settings_def total_precipitation_settings_def
    snow_fall_settings_def total_column_water_settings_def soil_settings_def bitmap_settings_def potential_temperature_settings_def
  by (simp_all only: lookup)

lemma header_coded:
  assumes "set_keys r = base_settings yyyy mm dd hh fff em @ ys" "header_kept ys"
  shows "list_all (\<lambda>(k, v). coded r k = Some v) (header_values yyyy mm dd hh em)"
proof -
  have s: "map_of (step_values (steps_of r)) k = None" if "k \<in> fst ` set (header_values yyyy mm dd hh em)" for k
  proof -
    have "k \<notin> fst ` set (step_values (steps_of r))" using that
      by (auto simp: header_values_def step_values_def split: list.splits)
    then show ?thesis by (simp add: map_of_eq_None_iff)
  qed
  have y: "last_set ys k = None" if "k \<in> fst ` set (header_values yyyy mm dd hh em)" for k
    using that assms(2) by (auto simp: header_values_def header_kept_def)
  show ?thesis using base_header [of yyyy mm dd hh fff em] s y
    unfolding list_all_iff by (fastforce simp: coded_def assms(1) last_set_append)
qed

subsection \<open>What the checker reads of the header\<close>

text \<open>The keys it reads that are the same in all records, with their values.\<close>

definition header_answers :: "int \<Rightarrow> int \<Rightarrow> int \<Rightarrow> int \<Rightarrow> int \<Rightarrow> (string \<times> int) list" where
  "header_answers yyyy mm dd hh em =
     [(''editionNumber'', 2), (''versionNumberOfGribLocalTables'', 0), (''significanceOfReferenceTime'', 1),
      (''date'', date_unpack yyyy mm dd), (''year'', yyyy), (''month'', mm), (''day'', dd), (''hour'', hh), (''minute'', 0), (''second'', 0),
      (''productionStatusOfProcessedData'', 4), (''typeOfProcessedData'', if em = 0 then 3 else 4),
      (''sourceOfGridDefinition'', 0), (''gridDefinitionTemplateNumber'', 0), (''typeOfOriginalFieldValues'', 0),
      (''perturbationNumber'', em), (''numberOfForecastsInEnsemble'', get_n_members yyyy mm dd hh)]"

definition grid_answers :: "int \<Rightarrow> int \<Rightarrow> (string \<times> int) list" where
  "grid_answers n_lat n_lon =
     [(''numberOfPointsAlongAParallel'', n_lon), (''numberOfPointsAlongAMeridian'', n_lat),
      (''basicAngleOfTheInitialProductionDomain'', 0), (''latitudeOfFirstGridPoint'', 90000000), (''longitudeOfFirstGridPoint'', 0),
      (''latitudeOfLastGridPoint'', - 90000000), (''longitudeOfLastGridPoint'', 360000000 - lon_increment n_lon),
      (''iDirectionIncrement'', lon_increment n_lon), (''jDirectionIncrement'', lat_increment n_lat),
      (''resolutionAndComponentFlags1'', 0), (''resolutionAndComponentFlags2'', 0), (''resolutionAndComponentFlags6'', 0),
      (''resolutionAndComponentFlags7'', 0), (''resolutionAndComponentFlags8'', 0), (''iDirectionIncrementGiven'', 1),
      (''jDirectionIncrementGiven'', 1), (''numberOfOctectsForNumberOfPoints'', 0), (''interpretationOfNumberOfPoints'', 0),
      (''iScansNegatively'', 0), (''jScansPositively'', 0)]"

lemma header_answered:
  assumes "list_all (\<lambda>(k, v). coded r k = Some v) (header_values yyyy mm dd hh em)"
  shows "list_all (\<lambda>(k, v). key_long r k = Inr v) (header_answers yyyy mm dd hh em)"
  using assms unfolding header_answers_def header_values_def list.pred_inject prod.case
  by (elim conjE) (intro conjI; simp (no_asm_simp) add: key_long_def computed_keys_def flag_keys_def key_aliases_def answer_def value_of_def)

lemma grid_answered:
  assumes "list_all (\<lambda>(k, v). coded r k = Some v) (header_values yyyy mm dd hh em)"
  shows "list_all (\<lambda>(k, v). key_long r k = Inr v) (grid_answers (get_n_lat yyyy mm dd hh) (get_n_lon yyyy mm dd hh))"
  using assms unfolding grid_answers_def header_values_def list.pred_inject prod.case
  by (elim conjE) (intro conjI; simp (no_asm_simp) add: key_long_def computed_keys_def flag_keys_def key_aliases_def answer_def value_of_def)

lemma grid_missing:
  assumes "list_all (\<lambda>(k, v). coded r k = Some v) (header_values yyyy mm dd hh em)"
  shows "key_missing r ''subdivisionsOfBasicAngle''" "key_missing r ''reserved''"
  using assms by (simp_all add: header_values_def key_missing_def)

text \<open>Half or whole degrees: the two grids of the program.\<close>

lemma two_grids:
  "get_n_lat yyyy mm dd hh = 181 \<and> get_n_lon yyyy mm dd hh = 360 \<or> get_n_lat yyyy mm dd hh = 361 \<and> get_n_lon yyyy mm dd hh = 720"
  by (simp add: get_n_lat_def get_n_lon_def)

end
