(* ===== verification/RecordGrid.thy ===== *)
theory RecordGrid
  imports RecordHeader
begin

text \<open>
  The checker on the records of the program, without the parameter: a record can match at most the
  rows of its signature, and its grid is accepted. \<open>library_answers\<close> says that the library answers
  what \<open>RecordKeys\<close> computes from the record.
\<close>

subsection \<open>The only row that can match\<close>

definition full :: "string option \<times> int option \<times> int option \<times> int option \<times> int option \<Rightarrow> bool" where
  "full x \<longleftrightarrow> (case x of (m, d, c, n, t) \<Rightarrow> (m = Some ''glob'' \<or> m = Some ''lam'') \<and> d \<noteq> None \<and> c \<noteq> None \<and> n \<noteq> None \<and> t \<noteq> None)"

lemma list_all_by_map: "map f xs = ys \<Longrightarrow> list_all P ys \<Longrightarrow> list_all (\<lambda>x. P (f x)) xs"
  by (auto simp: list_all_iff)

lemma rows_full: "list_all (\<lambda>p. full (signature p)) parameters"
  unfolding parameters_def list_all_append
  by (intro conjI list_all_by_map [OF signatures_1] list_all_by_map [OF signatures_2] list_all_by_map [OF signatures_3]
    list_all_by_map [OF signatures_4] list_all_by_map [OF signatures_5] list_all_by_map [OF signatures_6]
    list_all_by_map [OF signatures_7] list_all_by_map [OF signatures_8] list_all_by_map [OF signatures_9]
    list_all_by_map [OF signatures_10] list_all_by_map [OF signatures_11] list_all_by_map [OF signatures_12];
    simp add: full_def)

lemma row_long: "row_matches C h p \<Longrightarrow> long_of p k = Some v \<Longrightarrow> get_long C h k = Inr v"
proof -
  assume m: "row_matches C h p" and l: "long_of p k = Some v"
  from l obtain q where q: "q \<in> set (pairs p)" "key q = k" "key_kind q = TypeLong" "value_long q = v"
    by (auto simp: long_of_def find_Some_iff dest: nth_mem)
  then have "pair_matches C h q" using m by (simp add: row_matches_def list_all_iff)
  with q show ?thesis by (auto simp: pair_matches_def split: sum.splits)
qed

lemma row_model: "row_matches C h p \<Longrightarrow> string_of p k = Some v \<Longrightarrow> \<not> strcasecmp v ''MISSING'' \<Longrightarrow> get_string C h k = Inr v"
proof -
  assume m: "row_matches C h p" and l: "string_of p k = Some v" and n: "\<not> strcasecmp v ''MISSING''"
  from l obtain q where q: "q \<in> set (pairs p)" "key q = k" "key_kind q = TypeString" "value_string q = v"
    by (auto simp: string_of_def find_Some_iff dest: nth_mem)
  then have "pair_matches C h q" using m by (simp add: row_matches_def list_all_iff)
  with q n show ?thesis by (auto simp: pair_matches_def split: sum.splits)
qed

lemma not_missing: "\<not> strcasecmp ''glob'' ''MISSING''" "\<not> strcasecmp ''lam'' ''MISSING''"
  by (simp_all add: strcasecmp_def tolower_def)

lemma best_match_by_signature:
  assumes "get_string C h ''model'' = Inr m" "get_long C h ''discipline'' = Inr d" "get_long C h ''parameterCategory'' = Inr c"
    and "get_long C h ''parameterNumber'' = Inr n" "get_long C h ''typeOfFirstFixedSurface'' = Inr t"
    and "rows_of m d c n t = [p]" "row_matches C h p"
  shows "best_match C h parameters (- 1) None = Some p"
proof -
  have unique: "q = p" if q: "q \<in> set parameters" "row_matches C h q" for q
  proof -
    obtain m' d' c' n' t' where s: "signature q = (Some m', Some d', Some c', Some n', Some t')" "m' = ''glob'' \<or> m' = ''lam''"
      using rows_full q(1) unfolding list_all_iff full_def by (cases "signature q") fastforce
    then have "signature q = (Some m, Some d, Some c, Some n, Some t)"
      using row_long [OF q(2)] row_model [OF q(2)] not_missing assms(1-5) by (auto simp: signature_def)
    then have "q \<in> set (rows_of m d c n t)" using q(1) by (simp add: rows_of_def)
    with assms(6) show ?thesis by simp
  qed
  have "p \<in> set (rows_of m d c n t)" using assms(6) by simp
  then have "p \<in> set parameters" by (simp add: rows_of_def)
  then obtain xs ys where p: "parameters = xs @ p # ys" "p \<notin> set xs" by (metis split_list_first)
  have "\<forall>q \<in> set xs. row_matches C h q \<longrightarrow> length (pairs q) < length (pairs p)"
  proof (intro ballI impI)
    fix q assume q: "q \<in> set xs" "row_matches C h q"
    then have "q \<in> set parameters" by (simp add: p(1))
    with unique q p(2) show "length (pairs q) < length (pairs p)" by blast
  qed
  moreover have "\<forall>q \<in> set ys. row_matches C h q \<longrightarrow> length (pairs q) \<le> length (pairs p)"
    using unique p(1) by (metis UnCI insertCI le_refl list.set(2) set_append)
  ultimately have "chosen_row C h parameters p" unfolding chosen_row_def using p(1) assms(7) by blast
  then show ?thesis by (rule best_match_chosen)
qed

subsection \<open>The grid is accepted\<close>

lemma tolerance: "dless (Fin 0) (dlit (1 / 10 ^ 10))"
proof -
  have b: "(2::rat) powi (- 1022) \<le> \<bar>1 / 10 ^ 10\<bar>" "\<bar>1 / 10 ^ 10 :: rat\<bar> < 2 ^ 1023"
    by (simp_all add: power_int_def field_simps)
  from rnd_error [OF b] obtain y where "rnd (1 / 10 ^ 10) = Fin y" "\<bar>y - 1 / 10 ^ 10\<bar> \<le> \<bar>1 / 10 ^ 10\<bar> / 2 ^ 52" by blast
  then show ?thesis by (simp add: dlit_def abs_if field_simps split: if_splits)
qed

lemma evenly_spaced_Fin:
  assumes "rnd (b - a) = Fin (b - a)" "0 < i" "(b - a) / i = of_int n" "0 < n" "n < 2 ^ 52"
  shows "evenly_spaced (Fin b) (Fin a) (Fin i) (n + 1)"
proof -
  have s: "dsub (Fin b) (Fin a) = Fin (b - a)" using assms(1) by (cases "a = 0") (simp_all add: dsub_def)
  have d: "ddiv (Fin (b - a)) (Fin i) = Fin (of_int n)"
    using assms(2-5) rnd_of_int [of n] by (auto simp: ddiv_def Let_def)
  have n: "rnd (of_int n + 1) = Fin (of_int n + 1)" using rnd_of_int [of "n + 1"] assms(4,5) by simp
  have "dsub (Fin (of_int n + 1)) (Fin (of_int n + 1)) = Fin 0" using assms(4) by (simp add: dsub_def)
  then show ?thesis using tolerance by (simp add: evenly_spaced_def s d n del: dless.simps)
qed

lemma global_area:
  assumes "rnd (d * 180) = Fin (d * 180)" "359 \<le> d" "d < 360"
  shows "dleq (dmul (Fin 180) (Fin d)) (dmul (dlit 360) (dlit 180))"
    "dleq (dmul (dmul (dlit 360) (dlit 180)) (dlit (95 / 100))) (dmul (Fin 180) (Fin d))"
proof -
  have g: "dmul (dlit 360) (dlit 180) = Fin 64800" by (simp add: dmul_def dlit_def rnd_numeral Let_def)
  have a: "dmul (Fin 180) (Fin d) = Fin (d * 180)" using assms by (simp add: dmul_def Let_def mult.commute)
  show "dleq (dmul (Fin 180) (Fin d)) (dmul (dlit 360) (dlit 180))" using assms by (simp add: g a dleq_def)
  have b: "(2::rat) powi (- 1022) \<le> \<bar>95 / 100\<bar>" "\<bar>95 / 100 :: rat\<bar> < 2 ^ 1023"
    by (simp_all add: power_int_def field_simps)
  from rnd_error [OF b] obtain r where r: "rnd (95 / 100) = Fin r" "\<bar>r - 95 / 100\<bar> \<le> \<bar>95 / 100\<bar> / 2 ^ 52" by blast
  then have r1: "94 / 100 \<le> r" "r \<le> 96 / 100" by (simp_all add: abs_if field_simps split: if_splits)
  have c: "(2::rat) powi (- 1022) \<le> \<bar>64800 * r\<bar>" "\<bar>64800 * r\<bar> < 2 ^ 1023"
  proof -
    have "(2::rat) powi (- 1022) \<le> 1" by (simp add: power_int_def field_simps)
    with r1 show "(2::rat) powi (- 1022) \<le> \<bar>64800 * r\<bar>" by linarith
    have "(2::rat) ^ 17 \<le> 2 ^ 1023" by (intro power_increasing) auto
    with r1 show "\<bar>64800 * r\<bar> < 2 ^ 1023" by simp
  qed
  from rnd_error [OF c] obtain y where y: "rnd (64800 * r) = Fin y" "\<bar>y - 64800 * r\<bar> \<le> \<bar>64800 * r\<bar> / 2 ^ 52" by blast
  have "\<bar>64800 * r\<bar> / 2 ^ 52 \<le> 1" using r1 by (simp add: field_simps)
  with y(2) r1 have "y \<le> 62209" by linarith
  moreover have "dmul (Fin 64800) (Fin r) = Fin y" using y(1) r1 by (auto simp: dmul_def Let_def)
  moreover have "dlit (95 / 100) = Fin r" using r(1) by (simp add: dlit_def)
  ultimately show "dleq (dmul (dmul (dlit 360) (dlit 180)) (dlit (95 / 100))) (dmul (Fin 180) (Fin d))"
    using assms(2) by (simp add: g a dleq_def)
qed

text \<open>What the checker reads of the grid, from the answers of the library.\<close>

definition library_answers :: "'h checker \<Rightarrow> 'h \<Rightarrow> written \<Rightarrow> bool" where
  "library_answers C h r \<longleftrightarrow> get_string C h ''model'' = Inr ''glob'' \<and>
     list_all (\<lambda>k. get_long C h k = key_long r k)
       ([''editionNumber'', ''gribMasterTablesVersionNumber'', ''versionNumberOfGribLocalTables'', ''significanceOfReferenceTime'',
         ''date'', ''year'', ''month'', ''day'', ''hour'', ''minute'', ''second'', ''productionStatusOfProcessedData'',
         ''typeOfProcessedData'', ''sourceOfGridDefinition'', ''gridDefinitionTemplateNumber'', ''typeOfOriginalFieldValues'',
         ''perturbationNumber'', ''numberOfForecastsInEnsemble'', ''numberOfPointsAlongAParallel'',
         ''numberOfPointsAlongAMeridian'', ''basicAngleOfTheInitialProductionDomain'', ''latitudeOfFirstGridPoint'',
         ''longitudeOfFirstGridPoint'', ''latitudeOfLastGridPoint'', ''longitudeOfLastGridPoint'', ''iDirectionIncrement'',
         ''jDirectionIncrement'', ''resolutionAndComponentFlags1'', ''resolutionAndComponentFlags2'',
         ''resolutionAndComponentFlags6'', ''resolutionAndComponentFlags7'', ''resolutionAndComponentFlags8'',
         ''iDirectionIncrementGiven'', ''jDirectionIncrementGiven'', ''numberOfOctectsForNumberOfPoints'',
         ''interpretationOfNumberOfPoints'', ''iScansNegatively'', ''jScansPositively''] @
        [''numberOfDataPoints'', ''numberOfValues'', ''bitMapIndicator'', ''startStep'', ''endStep'', ''step'', ''level'',
         ''forecastTime'', ''indicatorOfUnitOfTimeRange'', ''numberOfTimeRange'', ''minuteOfEndOfOverallTimeInterval'',
         ''secondOfEndOfOverallTimeInterval'', ''typeOfTimeIncrement'', ''indicatorOfUnitForTimeRange'', ''lengthOfTimeRange'',
         ''numberOfMissingInStatisticalProcess'', ''timeIncrementBetweenSuccessiveFields'', ''productDefinitionTemplateNumber'',
         ''discipline'', ''parameterCategory'', ''parameterNumber'', ''typeOfStatisticalProcessing'', ''typeOfFirstFixedSurface'',
         ''typeOfSecondFixedSurface'', ''scaleFactorOfFirstFixedSurface'', ''scaledValueOfFirstFixedSurface'',
         ''scaleFactorOfSecondFixedSurface'', ''scaledValueOfSecondFixedSurface'']) \<and>
     list_all (\<lambda>k. get_double C h k = key_double r k) (map fst degree_keys) \<and>
     list_all (\<lambda>k. missing C h k = key_missing r k)
       [''reserved'', ''subdivisionsOfBasicAngle'', ''scaleFactorOfFirstFixedSurface'', ''scaledValueOfFirstFixedSurface'',
        ''scaleFactorOfSecondFixedSurface'', ''scaledValueOfSecondFixedSurface'']"

lemma header_read:
  assumes "library_answers C h r" "list_all (\<lambda>(k, v). coded r k = Some v) (header_values yyyy mm dd hh em)"
  shows "list_all (\<lambda>(k, v). get_long C h k = Inr v) (header_answers yyyy mm dd hh em)"
    "list_all (\<lambda>(k, v). get_long C h k = Inr v) (grid_answers (get_n_lat yyyy mm dd hh) (get_n_lon yyyy mm dd hh))"
  using assms(1) header_answered [OF assms(2)] grid_answered [OF assms(2)]
  unfolding library_answers_def header_answers_def grid_answers_def
  by (simp_all only: list.pred_inject prod.case append.simps simp_thms)

lemma value_of_coded: "coded r k = Some v \<Longrightarrow> value_of r k = v"
  by (simp add: value_of_def)

lemma key_degrees:
  assumes "list_all (\<lambda>(k, v). coded r k = Some v) (header_values yyyy mm dd hh em)"
  shows "list_all (\<lambda>k. key_double r k = Inr (grid_of r ! (case map_of degree_keys k of Some (i, _) \<Rightarrow> i | None \<Rightarrow> 0))) (map fst degree_keys)"
  using grid_answered [OF assms]
  by (simp add: degree_keys_def key_double_def latlon_unpack_double_def grid_answers_def)

lemma grid_of_header:
  assumes "list_all (\<lambda>(k, v). coded r k = Some v) (header_values yyyy mm dd hh em)"
  shows "grid_of r = (if get_n_lon yyyy mm dd hh = 360 then [Fin 90, Fin 0, Fin (- 90), Fin 359, Fin 1, Fin 1]
     else [Fin 90, Fin 0, Fin (- 90), Fin (719 / 2), Fin (1 / 2), Fin (1 / 2)])"
proof -
  have v: "value_of r ''basicAngleOfTheInitialProductionDomain'' = 0" "value_of r ''subdivisionsOfBasicAngle'' = GRIB_MISSING_LONG"
    "value_of r ''latitudeOfFirstGridPoint'' = 90000000" "value_of r ''longitudeOfFirstGridPoint'' = 0"
    "value_of r ''latitudeOfLastGridPoint'' = - 90000000"
    "value_of r ''longitudeOfLastGridPoint'' = 360000000 - lon_increment (get_n_lon yyyy mm dd hh)"
    "value_of r ''iDirectionIncrement'' = lon_increment (get_n_lon yyyy mm dd hh)"
    "value_of r ''jDirectionIncrement'' = lat_increment (get_n_lat yyyy mm dd hh)"
    using assms by (simp_all add: header_values_def value_of_coded)
  have e: "grid_unpack_double 0 GRIB_MISSING_LONG (x # xs) = grid_unpack_double 0 GRIB_MISSING_LONG [x] @ grid_unpack_double 0 GRIB_MISSING_LONG xs" for x xs
    by (simp add: grid_unpack_double_def Let_def)
  have n: "grid_unpack_double 0 GRIB_MISSING_LONG [] = []" by (simp add: grid_unpack_double_def)
  show ?thesis unfolding grid_of_def list.map v e [of _ "_ # _"]
    using two_grids [of yyyy mm dd hh] grid_degrees [of 180] grid_degrees [of 0] grid_degrees [of "- 180"] grid_degrees [of 718]
      grid_degrees [of 2] grid_degrees [of 719] grid_degrees [of 1]
    by (elim disjE conjE; simp add: lon_increment_def lat_increment_def)
qed

lemma degrees_read:
  assumes "library_answers C h r" "list_all (\<lambda>(k, v). coded r k = Some v) (header_values yyyy mm dd hh em)"
  shows "list_all (\<lambda>(k, x). get_double C h k = Inr x) (zip (map fst degree_keys)
     (if get_n_lon yyyy mm dd hh = 360 then [Fin 90, Fin 0, Fin (- 90), Fin 359, Fin 1, Fin 1]
      else [Fin 90, Fin 0, Fin (- 90), Fin (719 / 2), Fin (1 / 2), Fin (1 / 2)]))"
  using assms(1) key_degrees [OF assms(2)] grid_of_header [OF assms(2)]
  by (simp add: library_answers_def degree_keys_def)

lemma grid_accepted:
  assumes "library_answers C h r" "list_all (\<lambda>(k, v). coded r k = Some v) (header_values yyyy mm dd hh em)"
    and "int (points r) = get_n_lat yyyy mm dd hh * get_n_lon yyyy mm dd hh" "is_lam s = 0"
  shows "latlon_grid C h s = (Ok (), s)"
proof -
  have n: "get_long C h ''numberOfDataPoints'' = Inr (get_n_lat yyyy mm dd hh * get_n_lon yyyy mm dd hh)"
    using assms(1,3) by (simp add: library_answers_def key_long_def computed_keys_def)
  have m: "missing C h ''subdivisionsOfBasicAngle''"
    using assms(1) grid_missing [OF assms(2)] by (simp add: library_answers_def)
  have h: "rnd (719 / 2) = Fin (719 / 2)" "rnd 359 = Fin 359" "rnd 180 = Fin 180" "rnd 64620 = Fin 64620" "rnd 64710 = Fin 64710"
    using rnd_half_int [of 719] by (simp_all add: rnd_numeral)
  note g = header_read(2) [OF assms(1,2)] and d = degrees_read [OF assms(1,2)]
  from two_grids [of yyyy mm dd hh] show ?thesis
  proof (elim disjE conjE)
    assume l: "get_n_lat yyyy mm dd hh = 181" "get_n_lon yyyy mm dd hh = 360"
    have e: "evenly_spaced (Fin 359) (Fin 0) (Fin 1) 360" "evenly_spaced (Fin 90) (Fin (- 90)) (Fin 1) 181"
      using evenly_spaced_Fin [of 359 0 1 359] evenly_spaced_Fin [of 90 "- 90" 1 180] h by simp_all
    have a: "dsub (Fin 90) (Fin (- 90)) = Fin 180" "dsub (Fin 359) (Fin 0) = Fin 359" using h by (simp_all add: dsub_def)
    show ?thesis using g d n m l e assms(4) global_area [of 359] h a
      by (simp add: latlon_grid_def run_simps grid_answers_def degree_keys_def lon_increment_def lat_increment_def flags_zero_def Let_def)
  next
    assume l: "get_n_lat yyyy mm dd hh = 361" "get_n_lon yyyy mm dd hh = 720"
    have e: "evenly_spaced (Fin (719 / 2)) (Fin 0) (Fin (1 / 2)) 720" "evenly_spaced (Fin 90) (Fin (- 90)) (Fin (1 / 2)) 361"
      using evenly_spaced_Fin [of "719 / 2" 0 "1 / 2" 719] evenly_spaced_Fin [of 90 "- 90" "1 / 2" 360] h by simp_all
    have a: "dsub (Fin 90) (Fin (- 90)) = Fin 180" "dsub (Fin (719 / 2)) (Fin 0) = Fin (719 / 2)" using h by (simp_all add: dsub_def)
    show ?thesis using g d n m l e assms(4) global_area [of "719 / 2"] h a
      by (simp add: latlon_grid_def run_simps grid_answers_def degree_keys_def lon_increment_def lat_increment_def flags_zero_def Let_def)
  qed
qed

end
