(* ===== verification/AcceptedRecords.thy ===== *)
theory AcceptedRecords
  imports RecordGrid
begin

text \<open>
  What the checker of the archive does with a record of the program: everything that is the same
  in all of them first, then the checks of a parameter, for the records of an interval and for
  those of an hour.
\<close>

subsection \<open>Everything but the parameter\<close>

lemma key_long_computed:
  "key_long r ''startStep'' = start_step r" "key_long r ''endStep'' = end_step r"
  "key_long r ''step'' = (if interval (steps_of r) then end_step r else start_step r)" "key_long r ''level'' = key_level r"
  "key_long r ''numberOfDataPoints'' = Inr (int (points r))"
  "key_long r ''numberOfValues'' = Inr (int (if value_of r ''bitMapIndicator'' = 255 then points r else coded_points r))"
  by (simp_all add: key_long_def computed_keys_def)

lemma answers_long:
  assumes "library_answers C h r"
  shows "list_all (\<lambda>k. get_long C h k = key_long r k)
    [''gribMasterTablesVersionNumber'', ''bitMapIndicator'', ''startStep'', ''endStep'', ''step'', ''level'', ''numberOfDataPoints'',
     ''numberOfValues'', ''forecastTime'', ''indicatorOfUnitOfTimeRange'', ''numberOfTimeRange'', ''minuteOfEndOfOverallTimeInterval'',
     ''secondOfEndOfOverallTimeInterval'', ''typeOfTimeIncrement'', ''indicatorOfUnitForTimeRange'', ''lengthOfTimeRange'',
     ''numberOfMissingInStatisticalProcess'', ''timeIncrementBetweenSuccessiveFields'', ''productDefinitionTemplateNumber'',
     ''discipline'', ''parameterCategory'', ''parameterNumber'', ''typeOfStatisticalProcessing'', ''typeOfFirstFixedSurface'',
     ''typeOfSecondFixedSurface'', ''scaleFactorOfFirstFixedSurface'', ''scaledValueOfFirstFixedSurface'',
     ''scaleFactorOfSecondFixedSurface'', ''scaledValueOfSecondFixedSurface'']"
  "get_string C h ''model'' = Inr ''glob''" "missing C h ''reserved''"
  "list_all (\<lambda>k. missing C h k = (coded r k = Some GRIB_MISSING_LONG))
    [''scaleFactorOfFirstFixedSurface'', ''scaledValueOfFirstFixedSurface'', ''scaleFactorOfSecondFixedSurface'',
     ''scaledValueOfSecondFixedSurface'']"
proof -
  show "missing C h ''reserved''" using assms unfolding library_answers_def list.pred_inject by (simp add: key_missing_def)
qed (use assms in \<open>simp_all only: library_answers_def list.pred_inject append.simps simp_thms key_missing_def\<close>, simp_all)

definition date_ok :: "int \<Rightarrow> int \<Rightarrow> int \<Rightarrow> int \<Rightarrow> bool" where
  "date_ok yyyy mm dd hh \<longleftrightarrow> 0 \<le> yyyy \<and> 0 \<le> mm \<and> mm < 100 \<and> 0 \<le> dd \<and> dd < 100 \<and> (hh = 0 \<or> hh = 6 \<or> hh = 12 \<or> hh = 18)"

lemma any_hour: "get_long C h k = Inr v \<Longrightarrow>
    foldr (\<lambda>x. or_that (eq C h k x)) xs (eq C h k z) s = (Ok (v \<in> set xs \<or> v = z), s)"
  by (induction xs) (auto simp: run_simps)

lemma verify_parameter:
  assumes "library_answers C h r" "list_all (\<lambda>(k, v). coded r k = Some v) (header_values yyyy mm dd hh em)"
    and "int (points r) = get_n_lat yyyy mm dd hh * get_n_lon yyyy mm dd hh" "coded_points r \<le> points r"
    and "key_long r ''gribMasterTablesVersionNumber'' = Inr tv" "4 \<le> tv" "key_long r ''bitMapIndicator'' = Inr b"
    and "value_of r ''bitMapIndicator'' = b"
    and "start_step r = Inr a" "0 \<le> a" "end_step r = Inr e" "e \<le> 720" "key_long r ''step'' = Inr st" "0 \<le> st" "st mod 6 = 0"
    and "date_ok yyyy mm dd hh" "is_lam s = 0" "valueflg s = 0"
    and "check_parameter C h (Fin 0) (Fin 0) s = (Ok (), t)" "is_lam t = 0"
  shows "verify C h s = (Ok (), t)"
proof -
  note g = header_read [OF assms(1,2)]
  have k: "get_long C h ''gribMasterTablesVersionNumber'' = Inr tv" "get_long C h ''bitMapIndicator'' = Inr b"
    "get_long C h ''startStep'' = Inr a" "get_long C h ''endStep'' = Inr e" "get_long C h ''step'' = Inr st"
    "get_long C h ''numberOfDataPoints'' = Inr (int (points r))" "missing C h ''reserved''"
    "get_long C h ''numberOfValues'' = Inr (int (if b = 255 then points r else coded_points r))"
    using answers_long [OF assms(1)] assms(5,7-9,11,13)
    by (simp_all only: list.pred_inject key_long_computed simp_thms sum.inject)
  have d: "cdiv (date_unpack yyyy mm dd) 10000 = yyyy" "cdiv (cmod (date_unpack yyyy mm dd) 10000) 100 = mm"
    "cmod (date_unpack yyyy mm dd) 100 = dd"
  proof -
    have md: "0 \<le> yyyy" "0 \<le> mm" "mm < 100" "0 \<le> dd" "dd < 100" using assms(16) by (simp_all add: date_ok_def)
    note f = date_fields [OF md]
    show "cdiv (date_unpack yyyy mm dd) 10000 = yyyy" "cdiv (cmod (date_unpack yyyy mm dd) 10000) 100 = mm"
      unfolding f by simp_all
    have "(dd + (yyyy * 100 + mm) * 100) mod 100 = dd mod 100" by (rule mod_mult_self1)
    then have "date_unpack yyyy mm dd mod 100 = dd" using md by (simp add: date_unpack_def algebra_simps)
    moreover have "0 \<le> date_unpack yyyy mm dd" using md by (simp add: date_unpack_def)
    ultimately show "cmod (date_unpack yyyy mm dd) 100 = dd" by (simp add: cmod_pos)
  qed
  have l: "latlon_grid C h t = (Ok (), t)" by (rule grid_accepted [OF assms(1-3,20)])
  have st: "cmod st 6 = 0" using assms(14,15) by (simp add: cmod_pos)
  show ?thesis
    using g k d l st assms(4,6,10,12,16-20)
    by (simp add: verify_def run_simps header_answers_def date_ok_def any_hour disj_ac del: foldr.simps foldr_Cons)
qed

subsection \<open>The checks of the variables\<close>

lemma point_in_time_ok:
  assumes "list_all (\<lambda>(k, v). get_long C h k = Inr v) (header_answers yyyy mm dd hh em)"
    and "get_long C h ''productDefinitionTemplateNumber'' = Inr 1" "get_long C h ''indicatorOfUnitOfTimeRange'' = Inr 1"
    and "get_long C h ''forecastTime'' = Inr fff" "0 \<le> fff" "fff mod 6 = 0" "is_lam s = 0" "valueflg s = 0"
    and "0 \<le> em" "em < get_n_members yyyy mm dd hh"
  shows "run_check C h p mini maxi PointInTime s = (Ok (), s)"
  using assms
  by (auto simp: run_check_def point_in_time_def header_answers_def check_range_def run_simps cmod_pos)

lemma from_start_ok:
  assumes "list_all (\<lambda>(k, v). get_long C h k = Inr v) (header_answers yyyy mm dd hh em)"
    and "get_long C h ''productDefinitionTemplateNumber'' = Inr 11" "get_long C h ''indicatorOfUnitOfTimeRange'' = Inr 1"
    and "get_long C h ''forecastTime'' = Inr a" "0 \<le> a" "a mod 6 = 0" "is_lam s = 0" "valueflg s = 0"
    and "get_long C h ''numberOfTimeRange'' = Inr 1" "get_long C h ''numberOfMissingInStatisticalProcess'' = Inr 0"
    and "get_long C h ''typeOfTimeIncrement'' = Inr 2" "get_long C h ''timeIncrementBetweenSuccessiveFields'' = Inr 0"
    and "get_long C h ''minuteOfEndOfOverallTimeInterval'' = Inr 0" "get_long C h ''secondOfEndOfOverallTimeInterval'' = Inr 0"
    and "get_long C h ''endStep'' = Inr (a + n)" "get_long C h ''startStep'' = Inr a" "get_long C h ''lengthOfTimeRange'' = Inr n"
    and "0 \<le> n" "n mod 6 = 0" "a + n \<le> 720" "get_long C h ''indicatorOfUnitForTimeRange'' = Inr 1"
  shows "run_check C h p (Fin 0) (Fin 0) FromStart s = (Ok (), if a = 0 then s else s\<lparr>error := error s + 1\<rparr>)"
proof -
  have c: "cmod (a + n) 6 = 0" "cmod a 6 = 0" using assms(5,6,18,19) by (simp_all add: cmod_pos mod_add_eq [symmetric])
  have t: "get_long C h ''typeOfProcessedData'' = Inr (if em = 0 then 3 else 4)" using assms(1) by (simp add: header_answers_def)
  have s: "statistical_process C h s = (Ok (), s)"
    using assms(2-4,7,9-21) c t by (simp add: statistical_process_def run_simps step_sum_def)
  show ?thesis using assms(8,15,16) s
    by (simp add: run_check_def from_start_def check_range_def run_simps)
qed

lemma level_checks:
  assumes "get_long C h ''typeOfFirstFixedSurface'' = Inr t" "t \<noteq> 255" "get_long C h ''typeOfSecondFixedSurface'' = Inr u"
    and "missing C h ''scaleFactorOfFirstFixedSurface'' = m" "missing C h ''scaledValueOfFirstFixedSurface'' = m"
    and "missing C h ''scaleFactorOfSecondFixedSurface'' = n" "missing C h ''scaledValueOfSecondFixedSurface'' = n"
  shows "\<not> m \<Longrightarrow> n \<Longrightarrow> u = 255 \<Longrightarrow> run_check C h p mini maxi GivenLevel s = (Ok (), s)"
    "m \<Longrightarrow> n \<Longrightarrow> u = 255 \<Longrightarrow> run_check C h p mini maxi PredefinedLevel s = (Ok (), s)"
    "m \<Longrightarrow> n \<Longrightarrow> u \<noteq> 255 \<Longrightarrow> run_check C h p mini maxi PredefinedThickness s = (Ok (), s)"
    "\<not> m \<Longrightarrow> \<not> n \<Longrightarrow> u \<noteq> 255 \<Longrightarrow> run_check C h p mini maxi GivenThickness s = (Ok (), s)"
  using assms
  by (simp_all add: run_check_def given_level_def predefined_level_def predefined_thickness_def given_thickness_def surfaces_def run_simps)

lemma bitmap_check: "get_long C h ''bitMapIndicator'' = Inr 0 \<Longrightarrow> run_check C h p mini maxi HasBitmap s = (Ok (), s)"
  by (simp add: run_check_def has_bitmap_def run_simps)

lemma vorticity_check: "get_long C h ''level'' = Inr 2 \<Longrightarrow> run_check C h p mini maxi PotentialVorticityLevel s = (Ok (), s)"
  by (simp add: run_check_def potential_vorticity_level_def run_simps)

text \<open>The steps of the two kinds of records.\<close>

lemma hour_steps:
  assumes "steps_of r = steps_of_base yyyy mm dd hh fff"
  shows "start_step r = Inr fff" "end_step r = Inr fff" "\<not> interval (steps_of r)"
    "step_values (steps_of r) = [(''forecastTime'', fff), (''indicatorOfUnitOfTimeRange'', 1)]"
proof -
  have h: "hourly_steps (steps_of r)" "forecastTime (steps_of r) = fff" "\<not> interval (steps_of r)"
    by (simp_all add: assms steps_of_base_def steps_start_def hourly_steps_def)
  show "start_step r = Inr fff" "end_step r = Inr fff" "\<not> interval (steps_of r)"
    using h by (simp_all add: start_step_def end_step_def end_unpack_long_def result_def run_simps)
  show "step_values (steps_of r) = [(''forecastTime'', fff), (''indicatorOfUnitOfTimeRange'', 1)]"
    by (simp add: assms steps_of_base_def steps_start_def step_values_def)
qed

lemma range_steps:
  assumes "steps_of r = interval_steps d e a n"
  shows "start_step r = Inr a" "end_step r = Inr (a + n)" "interval (steps_of r)"
    "step_values (steps_of r) = [(''forecastTime'', a), (''indicatorOfUnitOfTimeRange'', 1), (''numberOfTimeRange'', 1),
       (''minuteOfEndOfOverallTimeInterval'', 0), (''secondOfEndOfOverallTimeInterval'', 0), (''typeOfTimeIncrement'', 2),
       (''indicatorOfUnitForTimeRange'', 1), (''lengthOfTimeRange'', n)]"
proof -
  have h: "hourly_steps (steps_of r)" "forecastTime (steps_of r) = a" "interval (steps_of r)" "stepUnits (steps_of r) = 1"
    "time_ranges (steps_of r) = [range_of n]"
    by (simp_all add: assms interval_steps_def hourly_steps_def)
  show "start_step r = Inr a" "end_step r = Inr (a + n)" "interval (steps_of r)"
    using h by (simp_all add: start_step_def end_step_def end_unpack_long_def result_def run_simps unpack_one_time_range_def
        first_range_def convert_time_range_def)
  show "step_values (steps_of r) = [(''forecastTime'', a), (''indicatorOfUnitOfTimeRange'', 1), (''numberOfTimeRange'', 1),
       (''minuteOfEndOfOverallTimeInterval'', 0), (''secondOfEndOfOverallTimeInterval'', 0), (''typeOfTimeIncrement'', 2),
       (''indicatorOfUnitForTimeRange'', 1), (''lengthOfTimeRange'', n)]"
    by (simp add: assms interval_steps_def step_values_def moment_def)
qed

subsection \<open>The keys of the parameter\<close>

definition parameter_keys :: "string list" where
  "parameter_keys = [''discipline'', ''parameterCategory'', ''parameterNumber'', ''typeOfFirstFixedSurface'',
     ''typeOfSecondFixedSurface'', ''scaleFactorOfFirstFixedSurface'', ''scaledValueOfFirstFixedSurface'',
     ''scaleFactorOfSecondFixedSurface'', ''scaledValueOfSecondFixedSurface'', ''productDefinitionTemplateNumber'',
     ''typeOfStatisticalProcessing'', ''numberOfMissingInStatisticalProcess'', ''bitMapIndicator'', ''tablesVersion'', ''timeIncrement'']"

lemma coded_parameter: "k \<in> set parameter_keys \<Longrightarrow> coded r k = last_set (set_keys r) k"
proof -
  assume "k \<in> set parameter_keys"
  then have "k \<notin> fst ` set (step_values (steps_of r))"
    by (auto simp: parameter_keys_def step_values_def split: list.splits)
  then show ?thesis by (simp add: coded_def map_of_eq_None_iff [symmetric])
qed

lemmas key_lookup = key_long_def computed_keys_def flag_keys_def key_aliases_def map_of_Cons_code lookup

lemma plain_parameter: "list_all (\<lambda>k. key_long r k = answer (coded r k)) parameter_keys"
  unfolding parameter_keys_def list.pred_inject
  by (simp only: key_lookup)

lemma key_parameter:
  assumes "list_all (\<lambda>(k, v). last_set (set_keys r) k = Some v) xs" "list_all (\<lambda>k. k \<in> set parameter_keys) (map fst xs)"
  shows "list_all (\<lambda>(k, v). coded r k = Some v \<and> key_long r k = Inr v) xs"
proof -
  have "coded r k = Some v \<and> key_long r k = Inr v" if k: "(k, v) \<in> set xs" for k v
  proof -
    have p: "k \<in> set parameter_keys" and l: "last_set (set_keys r) k = Some v" using assms k by (auto simp: list_all_iff)
    have c: "coded r k = Some v" using coded_parameter [OF p, of r] l by simp
    moreover have "key_long r k = answer (coded r k)"
      using plain_parameter p by (simp add: list_all_iff)
    ultimately show ?thesis by (simp add: answer_def)
  qed
  then show ?thesis by (auto simp: list_all_iff)
qed

lemma parameter_answers:
  assumes "library_answers C h r" "list_all (\<lambda>(k, v). last_set (set_keys r) k = Some v) xs" "map fst xs = take n parameter_keys" "n \<le> 13"
  shows "list_all (\<lambda>(k, v). get_long C h k = Inr v) xs"
proof -
  have t: "set (map fst xs) \<subseteq> set (take 13 parameter_keys)" unfolding assms(3) by (rule set_take_subset_set_take [OF assms(4)])
  then have "list_all (\<lambda>k. k \<in> set parameter_keys) (map fst xs)" using set_take_subset [of 13 parameter_keys] by (auto simp: list_all_iff)
  note k = key_parameter [OF assms(2) this]
  have a: "list_all (\<lambda>k. get_long C h k = key_long r k) (take 13 parameter_keys)"
    using assms(1) by (simp add: library_answers_def parameter_keys_def)
  show ?thesis using k a t unfolding list_all_iff by fastforce
qed

lemma alias_answers:
  assumes "library_answers C h r"
  shows "last_set (set_keys r) ''tablesVersion'' = Some v \<Longrightarrow> key_long r ''gribMasterTablesVersionNumber'' = Inr v"
    "last_set (set_keys r) ''timeIncrement'' = Some v \<Longrightarrow> get_long C h ''timeIncrementBetweenSuccessiveFields'' = Inr v"
proof -
  have a: "key_long r ''gribMasterTablesVersionNumber'' = answer (coded r ''tablesVersion'')"
    "key_long r ''timeIncrementBetweenSuccessiveFields'' = answer (coded r ''timeIncrement'')"
    by (simp_all add: key_long_def computed_keys_def flag_keys_def key_aliases_def)
  have c: "coded r ''tablesVersion'' = last_set (set_keys r) ''tablesVersion''" "coded r ''timeIncrement'' = last_set (set_keys r) ''timeIncrement''"
    by (simp_all add: coded_parameter parameter_keys_def)
  show "last_set (set_keys r) ''tablesVersion'' = Some v \<Longrightarrow> key_long r ''gribMasterTablesVersionNumber'' = Inr v"
    by (simp add: a c answer_def)
  have "get_long C h ''timeIncrementBetweenSuccessiveFields'' = key_long r ''timeIncrementBetweenSuccessiveFields''"
    using assms by (simp add: library_answers_def)
  then show "last_set (set_keys r) ''timeIncrement'' = Some v \<Longrightarrow> get_long C h ''timeIncrementBetweenSuccessiveFields'' = Inr v"
    by (simp add: a c answer_def)
qed

text \<open>The keys of the steps.\<close>

lemma step_answers:
  assumes "library_answers C h r"
  shows "list_all (\<lambda>k. get_long C h k = key_long r k)
      [''forecastTime'', ''indicatorOfUnitOfTimeRange'', ''numberOfTimeRange'', ''minuteOfEndOfOverallTimeInterval'',
       ''secondOfEndOfOverallTimeInterval'', ''typeOfTimeIncrement'', ''indicatorOfUnitForTimeRange'', ''lengthOfTimeRange'']"
    "get_long C h ''startStep'' = start_step r" "get_long C h ''endStep'' = end_step r" "get_long C h ''level'' = key_level r"
  using answers_long(1) [OF assms] by (simp_all add: key_long_computed)

lemmas coded_lookup = key_lookup coded_def answer_def hour_steps(4) range_steps(4) option.case

lemma hour_answers:
  assumes "library_answers C h r" "steps_of r = steps_of_base yyyy mm dd hh fff"
  shows "get_long C h ''forecastTime'' = Inr fff" "get_long C h ''indicatorOfUnitOfTimeRange'' = Inr 1"
proof -
  have "list_all (\<lambda>(k, v). key_long r k = Inr v) [(''forecastTime'', fff), (''indicatorOfUnitOfTimeRange'', 1)]"
    by (simp only: coded_lookup hour_steps(4) [OF assms(2)])
  then show "get_long C h ''forecastTime'' = Inr fff" "get_long C h ''indicatorOfUnitOfTimeRange'' = Inr 1"
    using step_answers(1) [OF assms(1)] by simp_all
qed

lemma range_answers:
  assumes "library_answers C h r" "steps_of r = interval_steps d e a n"
  shows "list_all (\<lambda>(k, v). get_long C h k = Inr v)
    [(''forecastTime'', a), (''indicatorOfUnitOfTimeRange'', 1), (''numberOfTimeRange'', 1),
     (''minuteOfEndOfOverallTimeInterval'', 0), (''secondOfEndOfOverallTimeInterval'', 0), (''typeOfTimeIncrement'', 2),
     (''indicatorOfUnitForTimeRange'', 1), (''lengthOfTimeRange'', n), (''startStep'', a), (''endStep'', a + n)]"
proof -
  have "list_all (\<lambda>(k, v). key_long r k = Inr v)
    [(''forecastTime'', a), (''indicatorOfUnitOfTimeRange'', 1), (''numberOfTimeRange'', 1),
     (''minuteOfEndOfOverallTimeInterval'', 0), (''secondOfEndOfOverallTimeInterval'', 0), (''typeOfTimeIncrement'', 2),
     (''indicatorOfUnitForTimeRange'', 1), (''lengthOfTimeRange'', n)]"
    by (simp only: coded_lookup range_steps(4) [OF assms(2)])
  then show ?thesis using step_answers [OF assms(1)] range_steps [OF assms(2)] by simp
qed

subsection \<open>Records of an interval\<close>

text \<open>What these records say of their parameter; the surfaces have no scale.\<close>

definition range_values :: "int \<Rightarrow> int \<Rightarrow> int \<Rightarrow> (string \<times> int) list" where
  "range_values c n t = [(''discipline'', 0), (''parameterCategory'', c), (''parameterNumber'', n), (''typeOfFirstFixedSurface'', t),
     (''typeOfSecondFixedSurface'', 255), (''scaleFactorOfFirstFixedSurface'', GRIB_MISSING_LONG),
     (''scaledValueOfFirstFixedSurface'', GRIB_MISSING_LONG), (''scaleFactorOfSecondFixedSurface'', GRIB_MISSING_LONG),
     (''scaledValueOfSecondFixedSurface'', GRIB_MISSING_LONG), (''productDefinitionTemplateNumber'', 11),
     (''typeOfStatisticalProcessing'', 1), (''numberOfMissingInStatisticalProcess'', 0), (''bitMapIndicator'', 255)]"

text \<open>The row of such a parameter.\<close>

definition range_row :: "int \<Rightarrow> int \<Rightarrow> int \<Rightarrow> parameter \<Rightarrow> bool" where
  "range_row c n t p \<longleftrightarrow> rows_of ''glob'' 0 c n t = [p] \<and> checks p = [FromStart, PredefinedLevel] \<and>
     set (pairs p) = {string_key ''model'' 0 ''glob'', long_key ''discipline'' 0, long_key ''parameterCategory'' c,
       long_key ''parameterNumber'' n, long_key ''typeOfFirstFixedSurface'' t, long_key ''typeOfStatisticalProcessing'' 1}"

lemma range_rows:
  "range_row 1 53 1 (parameters_6 ! 1)" "range_row 5 5 8 (parameters_8 ! 6)" "range_row 0 10 1 (parameters_9 ! 0)"
  "range_row 4 9 1 (parameters_9 ! 1)" "range_row 5 5 1 (parameters_9 ! 2)" "range_row 0 11 1 (parameters_9 ! 3)"
  "range_row 1 52 1 (parameters_9 ! 6)"
  unfolding range_row_def wanted_rows parameters_6_def parameters_8_def parameters_9_def by (simp_all add: insert_commute)

lemma pair_of_long: "get_long C h k = Inr v \<Longrightarrow> pair_matches C h (long_key k v)"
  by (simp add: pair_matches_def)

lemma pair_of_model: "get_string C h ''model'' = Inr ''glob'' \<Longrightarrow> pair_matches C h (string_key ''model'' 0 ''glob'')"
  using not_missing by (simp add: pair_matches_def)

text \<open>A record of the program, and the state of the checker before it.\<close>

definition program_record :: "int \<Rightarrow> int \<Rightarrow> int \<Rightarrow> int \<Rightarrow> int \<Rightarrow> int \<Rightarrow> setting list \<Rightarrow> written \<Rightarrow> bool" where
  "program_record yyyy mm dd hh fff em ys r \<longleftrightarrow> set_keys r = base_settings yyyy mm dd hh fff em @ ys \<and>
     set_steps (set_keys r) steps_start = (Ok 0, steps_of r) \<and>
     int (points r) = get_n_lat yyyy mm dd hh * get_n_lon yyyy mm dd hh \<and> coded_points r \<le> points r"

definition checks_only :: "check_state \<Rightarrow> bool" where
  "checks_only s \<longleftrightarrow> is_lam s = 0 \<and> valueflg s = 0"

lemma range_accepted:
  assumes "library_answers C h r" "program_record yyyy mm dd hh fff em ys r" "header_kept ys"
    and "list_all (\<lambda>(k, v). last_set (base_settings yyyy mm dd hh fff em @ ys) k = Some v) (range_values c n t)"
    and "last_set (base_settings yyyy mm dd hh fff em @ ys) ''tablesVersion'' = Some tv" "4 \<le> tv"
    and "last_set (base_settings yyyy mm dd hh fff em @ ys) ''timeIncrement'' = Some 0"
    and "range_row c n t p" "t \<noteq> 255" "steps_of r = interval_steps d e a m"
    and "0 \<le> a" "a mod 6 = 0" "0 \<le> m" "m mod 6 = 0" "a + m \<le> 720" "date_ok yyyy mm dd hh" "checks_only s"
  shows "verify C h s = (Ok (), if a = 0 then s else s\<lparr>error := error s + 1\<rparr>)" (is "_ = (_, ?t)")
proof -
  have k: "set_keys r = base_settings yyyy mm dd hh fff em @ ys" and pts: "int (points r) = get_n_lat yyyy mm dd hh * get_n_lon yyyy mm dd hh"
    "coded_points r \<le> points r" using assms(2) by (simp_all add: program_record_def)
  note h = header_coded [OF k assms(3)]
  have v: "list_all (\<lambda>(k, v). get_long C h k = Inr v) (range_values c n t)"
    by (rule parameter_answers [OF assms(1) _ _ order_refl]) (use assms(4) k in \<open>simp_all add: range_values_def parameter_keys_def\<close>)
  have cv: "list_all (\<lambda>(k, v). coded r k = Some v \<and> key_long r k = Inr v) (range_values c n t)"
    by (rule key_parameter) (use assms(4) k in \<open>simp_all add: range_values_def parameter_keys_def\<close>)
  have mi: "missing C h ''scaleFactorOfFirstFixedSurface'' = True" "missing C h ''scaledValueOfFirstFixedSurface'' = True"
    "missing C h ''scaleFactorOfSecondFixedSurface'' = True" "missing C h ''scaledValueOfSecondFixedSurface'' = True"
    using answers_long(4) [OF assms(1)] cv by (simp_all add: range_values_def)
  have ti: "get_long C h ''timeIncrementBetweenSuccessiveFields'' = Inr 0" by (rule alias_answers(2) [OF assms(1)]) (use assms(7) k in simp)
  have tv: "key_long r ''gribMasterTablesVersionNumber'' = Inr tv" by (rule alias_answers(1) [OF assms(1)]) (use assms(5) k in simp)
  note ra = range_answers [OF assms(1,10)] and rs = range_steps [OF assms(10)]
  have row: "row_matches C h p"
    using assms(8) v pair_of_long [of C h] pair_of_model [OF answers_long(2) [OF assms(1)]]
    by (auto simp: row_matches_def range_row_def range_values_def list_all_iff)
  have best: "best_match C h parameters (- 1) None = Some p"
    by (rule best_match_by_signature [where d = 0 and c = c and n = n and t = t, OF answers_long(2) [OF assms(1)] _ _ _ _ _ row])
      (use v assms(8) in \<open>simp_all add: range_values_def range_row_def\<close>)
  have g: "get_long C h ''productDefinitionTemplateNumber'' = Inr 11" "get_long C h ''numberOfMissingInStatisticalProcess'' = Inr 0"
    "get_long C h ''typeOfFirstFixedSurface'' = Inr t" "get_long C h ''typeOfSecondFixedSurface'' = Inr 255"
    using v by (simp_all add: range_values_def)
  have st: "run_check C h p (Fin 0) (Fin 0) FromStart s = (Ok (), ?t)"
    by (rule from_start_ok [OF header_read(1) [OF assms(1) h] g(1) _ _ assms(11,12) _ _ _ g(2) _ ti _ _ _ _ _ assms(13-15)];
        use ra assms(17) in \<open>simp only: list.pred_inject prod.case checks_only_def\<close>)
  have l: "run_check C h p (Fin 0) (Fin 0) PredefinedLevel ?t = (Ok (), ?t)"
    by (rule level_checks(2) [OF g(3) assms(9) g(4) mi]) simp_all
  have cp: "check_parameter C h (Fin 0) (Fin 0) s = (Ok (), ?t)"
    using assms(8) st l by (simp add: check_parameter_def best range_row_def run_simps)
  have b: "key_long r ''bitMapIndicator'' = Inr 255" "value_of r ''bitMapIndicator'' = 255"
    using cv by (simp_all add: range_values_def value_of_def)
  have step: "key_long r ''step'' = Inr (a + m)" using rs by (simp add: key_long_computed)
  have am: "(a + m) mod 6 = 0" using assms(12,14) by (simp add: mod_add_eq [symmetric])
  show ?thesis
    by (rule verify_parameter [OF assms(1) h pts tv assms(6) b rs(1) assms(11) rs(2) assms(15) step _ am assms(16) _ _ cp])
      (use assms(11,13,17) in \<open>simp_all add: checks_only_def\<close>)
qed

lemma range_lookup:
  "list_all (\<lambda>(k, v). last_set (base_settings yyyy mm dd hh fff em @ flux_settings c n t e fff) k = Some v) (range_values c n t)"
  "list_all (\<lambda>(k, v). last_set (base_settings yyyy mm dd hh fff em @ snow_fall_integral_settings e fff) k = Some v) (range_values 1 53 1)"
  "list_all (\<lambda>(k, v). last_set (base_settings yyyy mm dd hh fff em @ total_precipitation_settings yyyy mm dd hh fff) k = Some v) (range_values 1 52 1)"
  "list_all (\<lambda>(k, v). last_set (base_settings yyyy mm dd hh fff em @ snow_fall_settings fff e) k = Some v) (range_values 1 53 1)"
  unfolding last_set_append range_values_def flux_settings_def snow_fall_integral_settings_def total_precipitation_settings_def snow_fall_settings_def
  by (simp_all only: lookup base_other)

lemma range_tables:
  "last_set (base_settings yyyy mm dd hh fff em @ flux_settings c n t e fff) ''tablesVersion'' = Some 4"
  "last_set (base_settings yyyy mm dd hh fff em @ snow_fall_integral_settings e fff) ''tablesVersion'' = Some 4"
  "last_set (base_settings yyyy mm dd hh fff em @ total_precipitation_settings yyyy mm dd hh fff) ''tablesVersion'' = Some 5"
  "last_set (base_settings yyyy mm dd hh fff em @ snow_fall_settings fff e) ''tablesVersion'' = Some 4"
  "last_set (base_settings yyyy mm dd hh fff em @ flux_settings c n t e fff) ''timeIncrement'' = Some 0"
  "last_set (base_settings yyyy mm dd hh fff em @ snow_fall_integral_settings e fff) ''timeIncrement'' = Some 0"
  "last_set (base_settings yyyy mm dd hh fff em @ total_precipitation_settings yyyy mm dd hh fff) ''timeIncrement'' = Some 0"
  "last_set (base_settings yyyy mm dd hh fff em @ snow_fall_settings fff e) ''timeIncrement'' = Some 0"
  unfolding last_set_append flux_settings_def snow_fall_integral_settings_def total_precipitation_settings_def snow_fall_settings_def
  by (simp_all only: lookup base_other)

text \<open>A record of the date \<open>d\<close> for the hour \<open>fff\<close>.\<close>

abbreviation record_of :: "dt \<Rightarrow> int \<Rightarrow> int \<Rightarrow> setting list \<Rightarrow> written \<Rightarrow> bool" where
  "record_of d fff em ys r \<equiv> program_record (yr d) (mo d) (dy d) (hr d) fff em ys r"

lemma record_steps: "record_of d fff em ys r \<Longrightarrow>
    set_steps (base_settings (yr d) (mo d) (dy d) (hr d) fff em @ ys) steps_start = (Ok 0, t) \<Longrightarrow> steps_of r = t"
  by (auto simp: program_record_def simp del: set_steps.simps)

lemma later_ok:
  assumes "later d fff e"
  shows "date_ok (yr d) (mo d) (dy d) (hr d)" "0 \<le> fff" "fff mod 6 = 0" "0 + fff \<le> 720" "fff + 6 \<le> 720"
proof -
  have v: "0 \<le> hr d" "hr d \<le> 23" "hr d mod 6 = 0" using assms by (simp_all add: later_def valid_date_def)
  then have "hr d = 0 \<or> hr d = 6 \<or> hr d = 12 \<or> hr d = 18" by presburger
  moreover have "month_len (yr d) (mo d) \<le> 31" using month_len_bounds [of "mo d" "yr d"] assms by (simp add: later_def valid_date_def)
  ultimately show "date_ok (yr d) (mo d) (dy d) (hr d)" using assms by (auto simp: date_ok_def later_def valid_date_def)
qed (use assms in \<open>simp_all add: later_def\<close>)

lemma flux_accepted:
  assumes "library_answers C h r" "record_of d fff em (flux_settings c n t tmEnd fff) r" "later d fff e" "checks_only s"
    and "range_row c n t p" "t \<noteq> 255"
  shows "verify C h s = (Ok (), s)"
  using range_accepted [OF assms(1,2) headers_kept(1) range_lookup(1) range_tables(1) _ range_tables(5) assms(5,6)
      record_steps [OF assms(2) flux_steps [OF assms(3)]] order_refl _ later_ok(2,3,4) [OF assms(3)] later_ok(1) [OF assms(3)] assms(4)]
  by simp

lemma snow_fall_integral_accepted:
  assumes "library_answers C h r" "record_of d fff em (snow_fall_integral_settings tmEnd fff) r" "later d fff e" "checks_only s"
  shows "verify C h s = (Ok (), s)"
  using range_accepted [OF assms(1,2) headers_kept(2) range_lookup(2) range_tables(2) _ range_tables(6) range_rows(1) _
      record_steps [OF assms(2) snow_fall_integral_steps [OF assms(3)]] order_refl _ later_ok(2,3,4) [OF assms(3)]
      later_ok(1) [OF assms(3)] assms(4)]
  by simp

lemma total_precipitation_accepted:
  assumes "library_answers C h r" "record_of d fff em (total_precipitation_settings (yr d) (mo d) (dy d) (hr d) fff) r"
    and "later d fff e" "checks_only s"
  shows "verify C h s = (Ok (), s)"
  using range_accepted [OF assms(1,2) headers_kept(3) range_lookup(3) range_tables(3) _ range_tables(7) range_rows(7) _
      record_steps [OF assms(2) total_precipitation_steps [OF assms(3)]] order_refl _ later_ok(2,3,4) [OF assms(3)]
      later_ok(1) [OF assms(3)] assms(4)]
  by simp

lemma snow_fall_verdict:
  assumes "library_answers C h r" "record_of d fff em (snow_fall_settings fff t) r" "later d fff e" "checks_only s"
  shows "verify C h s = (Ok (), if fff = 0 then s else s\<lparr>error := error s + 1\<rparr>)"
  using range_accepted [OF assms(1,2) headers_kept(4) range_lookup(4) range_tables(4) _ range_tables(8) range_rows(1) _
      record_steps [OF assms(2) snow_fall_steps [OF assms(3)]] later_ok(2,3) [OF assms(3)] _ _ later_ok(5) [OF assms(3)]
      later_ok(1) [OF assms(3)] assms(4)]
  by simp

subsection \<open>Records of an hour\<close>

definition hour_values :: "int \<Rightarrow> int \<Rightarrow> int \<Rightarrow> int \<Rightarrow> int \<Rightarrow> int \<Rightarrow> int \<Rightarrow> int \<Rightarrow> int \<Rightarrow> (string \<times> int) list" where
  "hour_values disc c n t u sf sv sf2 sv2 = [(''discipline'', disc), (''parameterCategory'', c), (''parameterNumber'', n),
     (''typeOfFirstFixedSurface'', t), (''typeOfSecondFixedSurface'', u), (''scaleFactorOfFirstFixedSurface'', sf),
     (''scaledValueOfFirstFixedSurface'', sv), (''scaleFactorOfSecondFixedSurface'', sf2),
     (''scaledValueOfSecondFixedSurface'', sv2), (''productDefinitionTemplateNumber'', 1)]"

lemma hour_lookup:
  "list_all (\<lambda>(k, v). last_set (base_settings yyyy mm dd hh fff em @ potential_temperature_settings @ bitmap_settings) k = Some v)
     (hour_values 0 0 2 109 255 9 2000 GRIB_MISSING_LONG GRIB_MISSING_LONG)"
  "list_all (\<lambda>(k, v). last_set (base_settings yyyy mm dd hh fff em @ total_column_water_settings fff) k = Some v)
     (hour_values 0 1 51 1 8 GRIB_MISSING_LONG GRIB_MISSING_LONG GRIB_MISSING_LONG GRIB_MISSING_LONG)"
  "list_all (\<lambda>(k, v). last_set (base_settings yyyy mm dd hh fff em @ soil_settings n fff @ bitmap_settings) k = Some v)
     (hour_values 2 0 n 106 106 0 0 1 2)"
  unfolding last_set_append hour_values_def potential_temperature_settings_def total_column_water_settings_def soil_settings_def
    bitmap_settings_def GRIB_MISSING_LONG_def
  by (simp_all only: lookup base_other GRIB_MISSING_LONG_def) simp_all

lemma hour_tables:
  "last_set (base_settings yyyy mm dd hh fff em @ potential_temperature_settings @ bitmap_settings) ''tablesVersion'' = Some 4"
  "last_set (base_settings yyyy mm dd hh fff em @ total_column_water_settings fff) ''tablesVersion'' = Some 4"
  "last_set (base_settings yyyy mm dd hh fff em @ soil_settings n fff @ bitmap_settings) ''tablesVersion'' = Some 4"
  "last_set (base_settings yyyy mm dd hh fff em @ potential_temperature_settings @ bitmap_settings) ''bitMapIndicator'' = Some 0"
  "last_set (base_settings yyyy mm dd hh fff em @ total_column_water_settings fff) ''bitMapIndicator'' = Some 255"
  "last_set (base_settings yyyy mm dd hh fff em @ soil_settings n fff @ bitmap_settings) ''bitMapIndicator'' = Some 0"
  unfolding last_set_append potential_temperature_settings_def total_column_water_settings_def soil_settings_def bitmap_settings_def
  by (simp_all only: lookup base_other)

text \<open>The checks of a row that are not the one of the hour.\<close>

definition hour_row :: "written \<Rightarrow> (string \<times> int) list \<Rightarrow> int \<Rightarrow> int \<Rightarrow> int \<Rightarrow> int \<Rightarrow> parameter \<Rightarrow> bool" where
  "hour_row r vs disc c n t p \<longleftrightarrow> rows_of ''glob'' disc c n t = [p] \<and> (\<exists>cs. checks p = PointInTime # cs) \<and>
     set (pairs p) \<subseteq> insert (string_key ''model'' 0 ''glob'') ((\<lambda>(k, v). long_key k v) ` set vs)"

lemma hour_rows:
  "hour_row r (hour_values 0 0 2 109 255 9 2000 GRIB_MISSING_LONG GRIB_MISSING_LONG) 0 0 2 109 (parameters_5 ! 3)"
  "hour_row r (hour_values 0 1 51 1 8 GRIB_MISSING_LONG GRIB_MISSING_LONG GRIB_MISSING_LONG GRIB_MISSING_LONG) 0 1 51 1 (parameters_9 ! 5)"
  "hour_row r (hour_values 2 0 22 106 106 0 0 1 2) 2 0 22 106 (parameters_6 ! 2)"
  "hour_row r (hour_values 2 0 2 106 106 0 0 1 2) 2 0 2 106 (parameters_6 ! 3)"
  unfolding hour_row_def wanted_rows parameters_5_def parameters_6_def parameters_9_def hour_values_def
  by simp_all

lemma hour_read:
  assumes "library_answers C h r" "program_record yyyy mm dd hh fff em ys r"
    and "list_all (\<lambda>(k, v). last_set (base_settings yyyy mm dd hh fff em @ ys) k = Some v) (hour_values disc c n t u sf sv sf2 sv2)"
  shows "list_all (\<lambda>(k, v). get_long C h k = Inr v) (hour_values disc c n t u sf sv sf2 sv2)"
    "missing C h ''scaleFactorOfFirstFixedSurface'' = (sf = GRIB_MISSING_LONG)" "missing C h ''scaledValueOfFirstFixedSurface'' = (sv = GRIB_MISSING_LONG)"
    "missing C h ''scaleFactorOfSecondFixedSurface'' = (sf2 = GRIB_MISSING_LONG)" "missing C h ''scaledValueOfSecondFixedSurface'' = (sv2 = GRIB_MISSING_LONG)"
    "key_level r = result (bnd (level_unpack_long t sf sv ''hPa'') (\<lambda>v. ret (Inr v)) checker_start)"
proof -
  have k: "set_keys r = base_settings yyyy mm dd hh fff em @ ys" using assms(2) by (simp add: program_record_def)
  show "list_all (\<lambda>(k, v). get_long C h k = Inr v) (hour_values disc c n t u sf sv sf2 sv2)"
    by (rule parameter_answers [OF assms(1), of _ 10]) (use assms(3) k in \<open>simp_all add: hour_values_def parameter_keys_def\<close>)
  have cv: "list_all (\<lambda>(k, v). coded r k = Some v \<and> key_long r k = Inr v) (hour_values disc c n t u sf sv sf2 sv2)"
    by (rule key_parameter) (use assms(3) k in \<open>simp_all add: hour_values_def parameter_keys_def\<close>)
  then show "missing C h ''scaleFactorOfFirstFixedSurface'' = (sf = GRIB_MISSING_LONG)" "missing C h ''scaledValueOfFirstFixedSurface'' = (sv = GRIB_MISSING_LONG)"
    "missing C h ''scaleFactorOfSecondFixedSurface'' = (sf2 = GRIB_MISSING_LONG)" "missing C h ''scaledValueOfSecondFixedSurface'' = (sv2 = GRIB_MISSING_LONG)"
    using answers_long(4) [OF assms(1)] by (simp_all add: hour_values_def)
  show "key_level r = result (bnd (level_unpack_long t sf sv ''hPa'') (\<lambda>v. ret (Inr v)) checker_start)"
    using cv by (simp add: key_level_def value_of_coded hour_values_def)
qed

lemma row_of_values:
  assumes "get_string C h ''model'' = Inr ''glob''" "list_all (\<lambda>(k, v). get_long C h k = Inr v) vs"
    and "set (pairs p) \<subseteq> insert (string_key ''model'' 0 ''glob'') ((\<lambda>(k, v). long_key k v) ` set vs)"
  shows "row_matches C h p"
  unfolding row_matches_def list_all_iff
proof
  fix q assume "q \<in> set (pairs p)"
  with assms(3) consider "q = string_key ''model'' 0 ''glob''" | k v where "q = long_key k v" "(k, v) \<in> set vs" by auto
  then show "pair_matches C h q"
  proof cases
    case 1
    then show ?thesis using pair_of_model [OF assms(1)] by simp
  next
    case (2 k v)
    then show ?thesis using assms(2) pair_of_long [of C h k v] by (auto simp: list_all_iff)
  qed
qed

lemma hour_accepted:
  assumes "library_answers C h r" "record_of d fff em ys r" "header_kept ys"
    and "list_all (\<lambda>(k, v). last_set (base_settings (yr d) (mo d) (dy d) (hr d) fff em @ ys) k = Some v) (hour_values disc c n t u sf sv sf2 sv2)"
    and "last_set (base_settings (yr d) (mo d) (dy d) (hr d) fff em @ ys) ''tablesVersion'' = Some 4"
    and "last_set (base_settings (yr d) (mo d) (dy d) (hr d) fff em @ ys) ''bitMapIndicator'' = Some b"
    and "hour_row r (hour_values disc c n t u sf sv sf2 sv2) disc c n t p"
    and "steps_of r = steps_of_base (yr d) (mo d) (dy d) (hr d) fff" "later d fff e" "checks_only s"
    and "0 \<le> em" "em < get_n_members (yr d) (mo d) (dy d) (hr d)"
    and "\<And>q. q \<in> set (tl (checks p)) \<Longrightarrow> run_check C h p (Fin 0) (Fin 0) q s = (Ok (), s)"
  shows "verify C h s = (Ok (), s)"
proof -
  have k: "set_keys r = base_settings (yr d) (mo d) (dy d) (hr d) fff em @ ys"
    and pts: "int (points r) = get_n_lat (yr d) (mo d) (dy d) (hr d) * get_n_lon (yr d) (mo d) (dy d) (hr d)" "coded_points r \<le> points r"
    using assms(2) by (simp_all add: program_record_def)
  note h = header_coded [OF k assms(3)] and v = hour_read(1) [OF assms(1,2,4)]
  have tv: "key_long r ''gribMasterTablesVersionNumber'' = Inr 4" by (rule alias_answers(1) [OF assms(1)]) (use assms(5) k in simp)
  have b: "coded r ''bitMapIndicator'' = Some b" "key_long r ''bitMapIndicator'' = Inr b"
    using key_parameter [of r "[(''bitMapIndicator'', b)]"] assms(6) k by (simp_all add: parameter_keys_def)
  note ha = hour_answers [OF assms(1,8)] and hs = hour_steps [OF assms(8)] and ok = later_ok [OF assms(9)]
  have row: "row_matches C h p"
    by (rule row_of_values [OF answers_long(2) [OF assms(1)] v]) (use assms(7) in \<open>simp add: hour_row_def\<close>)
  have g: "get_long C h ''discipline'' = Inr disc" "get_long C h ''parameterCategory'' = Inr c" "get_long C h ''parameterNumber'' = Inr n"
    "get_long C h ''typeOfFirstFixedSurface'' = Inr t" "rows_of ''glob'' disc c n t = [p]"
    using v assms(7) by (simp_all add: hour_values_def hour_row_def)
  have best: "best_match C h parameters (- 1) None = Some p"
    by (rule best_match_by_signature [OF answers_long(2) [OF assms(1)] g row])
  have pdt: "get_long C h ''productDefinitionTemplateNumber'' = Inr 1" using v by (simp add: hour_values_def)
  have pit: "run_check C h p (Fin 0) (Fin 0) PointInTime s = (Ok (), s)"
    by (rule point_in_time_ok [OF header_read(1) [OF assms(1) h] pdt ha(2,1) ok(2,3) _ _ assms(11,12)])
      (use assms(10) in \<open>simp_all add: checks_only_def\<close>)
  obtain cs where cs: "checks p = PointInTime # cs" using assms(7) by (auto simp: hour_row_def)
  have "steps (map (run_check C h p (Fin 0) (Fin 0)) qs) s = (Ok (), s)" if "set qs \<subseteq> set cs" for qs
    using that assms(13) cs by (induction qs) (simp_all add: run_simps)
  then have cp: "check_parameter C h (Fin 0) (Fin 0) s = (Ok (), s)"
    using cs pit by (simp add: check_parameter_def best run_simps)
  have step: "key_long r ''step'' = Inr fff" using hs by (simp add: key_long_computed)
  show ?thesis
    by (rule verify_parameter [OF assms(1) h pts tv _ b(2) value_of_coded [OF b(1)] hs(1) ok(2) hs(2) _ step ok(2,3,1) _ _ cp])
      (use ok assms(10) in \<open>simp_all add: checks_only_def\<close>)
qed

end
