(* ===== verification/AcceptedFiles.thy ===== *)
theory AcceptedFiles
  imports AcceptedRecords
begin

text \<open>
  The files of the program and the checker of the archive: it accepts the records of all variables
  but the hourly snow fall.
\<close>

subsection \<open>The variables of an hour\<close>

lemma potential_temperature_accepted:
  assumes "library_answers C h r" "record_of d fff em (potential_temperature_settings @ bitmap_settings) r" "later d fff e" "checks_only s"
    and "0 \<le> em" "em < get_n_members (yr d) (mo d) (dy d) (hr d)"
  shows "verify C h s = (Ok (), s)"
proof (rule hour_accepted [OF assms(1,2) headers_kept(7) hour_lookup(1) hour_tables(1,4) hour_rows(1)
      record_steps [OF assms(2) potential_temperature_steps] assms(3-6)])
  note r = hour_read [OF assms(1,2) hour_lookup(1)]
  have g: "get_long C h ''typeOfFirstFixedSurface'' = Inr 109" "get_long C h ''typeOfSecondFixedSurface'' = Inr 255"
    using r(1) by (simp_all add: hour_values_def)
  have mi: "missing C h ''scaleFactorOfFirstFixedSurface'' = False" "missing C h ''scaledValueOfFirstFixedSurface'' = False"
    "missing C h ''scaleFactorOfSecondFixedSurface'' = True" "missing C h ''scaledValueOfSecondFixedSurface'' = True"
    using r(2-5) by (simp_all add: GRIB_MISSING_LONG_def)
  have "get_long C h ''level'' = Inr 2"
    using step_answers(4) [OF assms(1)] r(6) by (simp add: run_simps level_two result_def)
  then show "run_check C h (parameters_5 ! 3) (Fin 0) (Fin 0) q s = (Ok (), s)" if "q \<in> set (tl (checks (parameters_5 ! 3)))" for q
    using that vorticity_check level_checks(1) [OF g(1) _ g(2) mi]
    by (auto simp: parameters_5_def)
qed

lemma total_column_water_accepted:
  assumes "library_answers C h r" "record_of d fff em (total_column_water_settings fff) r" "later d fff e" "checks_only s"
    and "0 \<le> em" "em < get_n_members (yr d) (mo d) (dy d) (hr d)"
  shows "verify C h s = (Ok (), s)"
proof (rule hour_accepted [OF assms(1,2) headers_kept(5) hour_lookup(2) hour_tables(2,5) hour_rows(2)
      record_steps [OF assms(2) total_column_water_steps] assms(3-6)])
  note r = hour_read [OF assms(1,2) hour_lookup(2)]
  have g: "get_long C h ''typeOfFirstFixedSurface'' = Inr 1" "get_long C h ''typeOfSecondFixedSurface'' = Inr 8"
    using r(1) by (simp_all add: hour_values_def)
  show "run_check C h (parameters_9 ! 5) (Fin 0) (Fin 0) q s = (Ok (), s)" if "q \<in> set (tl (checks (parameters_9 ! 5)))" for q
    using that level_checks(3) [OF g(1) _ g(2) r(2-5)] by (auto simp: parameters_9_def)
qed

lemma soil_accepted:
  assumes "library_answers C h r" "record_of d fff em (soil_settings n fff @ bitmap_settings) r" "later d fff e" "checks_only s"
    and "0 \<le> em" "em < get_n_members (yr d) (mo d) (dy d) (hr d)" "n = 22 \<or> n = 2"
  shows "verify C h s = (Ok (), s)"
proof -
  note r = hour_read [OF assms(1,2) hour_lookup(3)]
  have g: "get_long C h ''typeOfFirstFixedSurface'' = Inr 106" "get_long C h ''typeOfSecondFixedSurface'' = Inr 106"
    using r(1) by (simp_all add: hour_values_def)
  have mi: "missing C h ''scaleFactorOfFirstFixedSurface'' = False" "missing C h ''scaledValueOfFirstFixedSurface'' = False"
    "missing C h ''scaleFactorOfSecondFixedSurface'' = False" "missing C h ''scaledValueOfSecondFixedSurface'' = False"
    using r(2-5) by (simp_all add: GRIB_MISSING_LONG_def)
  have m: "get_long C h ''bitMapIndicator'' = Inr 0"
  proof -
    have "key_long r ''bitMapIndicator'' = Inr 0"
      using key_parameter [of r "[(''bitMapIndicator'', 0)]"] hour_tables(6) assms(2) by (simp add: parameter_keys_def program_record_def)
    then show ?thesis using answers_long(1) [OF assms(1)] by simp
  qed
  have l: "run_check C h p (Fin 0) (Fin 0) GivenThickness s = (Ok (), s)" for p
    using level_checks(4) [OF g(1) _ g(2) mi] by simp
  note h = hour_accepted [OF assms(1,2) headers_kept(6) hour_lookup(3) hour_tables(3,6) _
      record_steps [OF assms(2) soil_steps] assms(3-6)]
  show ?thesis
  proof (cases "n = 22")
    case True
    show ?thesis by (rule h [where p = "parameters_6 ! 2"]) (use hour_rows(3) l bitmap_check [OF m] True in \<open>auto simp: parameters_6_def\<close>)
  next
    case False
    show ?thesis by (rule h [where p = "parameters_6 ! 3"]) (use hour_rows(4) l False assms(7) in \<open>auto simp: parameters_6_def\<close>)
  qed
qed

subsection \<open>The files of the program\<close>

text \<open>
  The settings of the record of a variable for the date \<open>d\<close> and the hour \<open>fff\<close>; \<open>t\<close> is the end of
  the interval that the procedure has computed.
\<close>

definition variable_settings :: "tiggeVariableNames \<Rightarrow> dt \<Rightarrow> int \<Rightarrow> dt \<Rightarrow> setting list" where
  "variable_settings v d fff t = (case v of
       POTENTIAL_TEMPERATURE \<Rightarrow> potential_temperature_settings @ bitmap_settings
     | SNOW_FALL_WATER_EQUIVALENT \<Rightarrow> snow_fall_settings fff t
     | TIME_INTEGRATED_SNOW_FALL_WATER_EQUIVALENT \<Rightarrow> snow_fall_integral_settings t fff
     | SOIL_MOISTURE \<Rightarrow> soil_moisture_settings fff @ bitmap_settings
     | SOIL_TEMPERATURE \<Rightarrow> soil_temperature_settings fff @ bitmap_settings
     | TIME_INTEGRATED_OUTGOING_LONG_WAVE_RADIATION \<Rightarrow> flux_settings 5 5 8 t fff
     | TIME_INTEGRATED_SURFACE_LATENT_HEAT_FLUX \<Rightarrow> flux_settings 0 10 1 t fff
     | TIME_INTEGRATED_SURFACE_NET_SOLAR_RADIATION \<Rightarrow> flux_settings 4 9 1 t fff
     | TIME_INTEGRATED_SURFACE_NET_THERMAL_RADIATION \<Rightarrow> flux_settings 5 5 1 t fff
     | TIME_INTEGRATED_SURFACE_SENSIBLE_HEAT_FLUX \<Rightarrow> flux_settings 0 11 1 t fff
     | TOTAL_COLUMN_WATER \<Rightarrow> total_column_water_settings fff
     | TOTAL_PRECIPITATION \<Rightarrow> total_precipitation_settings (yr d) (mo d) (dy d) (hr d) fff
     | _ \<Rightarrow> [])"

text \<open>A record of a variable: of a member of the ensemble, for an hour of the forecast.\<close>

definition record_of_variable :: "tiggeVariableNames \<Rightarrow> dt \<Rightarrow> int \<Rightarrow> int \<Rightarrow> written \<Rightarrow> bool" where
  "record_of_variable v d fff em r \<longleftrightarrow> (\<exists>t e. record_of d fff em (variable_settings v d fff t) r \<and> later d fff e) \<and>
     0 \<le> em \<and> em < get_n_members (yr d) (mo d) (dy d) (hr d)"

lemma record_accepted:
  assumes "library_answers C h r" "record_of_variable v d fff em r" "v \<notin> {SNOW_FALL_WATER_EQUIVALENT, TEST_VARIABLE, TEST_VARIABLE_TI}"
  shows "accepted C h"
  unfolding accepted_def
proof (intro allI impI)
  fix s :: check_state assume "is_lam s = 0" "valueflg s = 0"
  then have s: "checks_only s" by (simp add: checks_only_def)
  from assms(2) obtain t e where r: "record_of d fff em (variable_settings v d fff t) r" "later d fff e"
    and em: "0 \<le> em" "em < get_n_members (yr d) (mo d) (dy d) (hr d)" by (auto simp: record_of_variable_def)
  show "verify C h s = (Ok (), s)"
  proof (cases v)
    case TIME_INTEGRATED_OUTGOING_LONG_WAVE_RADIATION
    with r(1) show ?thesis by (intro flux_accepted [OF assms(1) _ r(2) s range_rows(2)]) (simp_all add: variable_settings_def)
  next
    case TIME_INTEGRATED_SURFACE_LATENT_HEAT_FLUX
    with r(1) show ?thesis by (intro flux_accepted [OF assms(1) _ r(2) s range_rows(3)]) (simp_all add: variable_settings_def)
  next
    case TIME_INTEGRATED_SURFACE_NET_SOLAR_RADIATION
    with r(1) show ?thesis by (intro flux_accepted [OF assms(1) _ r(2) s range_rows(4)]) (simp_all add: variable_settings_def)
  next
    case TIME_INTEGRATED_SURFACE_NET_THERMAL_RADIATION
    with r(1) show ?thesis by (intro flux_accepted [OF assms(1) _ r(2) s range_rows(5)]) (simp_all add: variable_settings_def)
  next
    case TIME_INTEGRATED_SURFACE_SENSIBLE_HEAT_FLUX
    with r(1) show ?thesis by (intro flux_accepted [OF assms(1) _ r(2) s range_rows(6)]) (simp_all add: variable_settings_def)
  next
    case TIME_INTEGRATED_SNOW_FALL_WATER_EQUIVALENT
    with r(1) show ?thesis by (intro snow_fall_integral_accepted [OF assms(1) _ r(2) s]) (simp add: variable_settings_def)
  next
    case TOTAL_PRECIPITATION
    with r(1) show ?thesis by (intro total_precipitation_accepted [OF assms(1) _ r(2) s]) (simp add: variable_settings_def)
  next
    case POTENTIAL_TEMPERATURE
    with r(1) show ?thesis by (intro potential_temperature_accepted [OF assms(1) _ r(2) s em]) (simp add: variable_settings_def)
  next
    case TOTAL_COLUMN_WATER
    with r(1) show ?thesis by (intro total_column_water_accepted [OF assms(1) _ r(2) s em]) (simp add: variable_settings_def)
  next
    case SOIL_MOISTURE
    with r(1) show ?thesis
      by (intro soil_accepted [OF assms(1) _ r(2) s em, of 22]) (simp_all add: variable_settings_def soil_moisture_settings_def)
  next
    case SOIL_TEMPERATURE
    with r(1) show ?thesis
      by (intro soil_accepted [OF assms(1) _ r(2) s em, of 2]) (simp_all add: variable_settings_def soil_temperature_settings_def)
  qed (use assms(3) in auto)
qed

definition tigge_record :: "'h checker \<Rightarrow> 'h \<Rightarrow> bool" where
  "tigge_record C h \<longleftrightarrow> (\<exists>v d fff em r. library_answers C h r \<and> record_of_variable v d fff em r \<and>
     v \<notin> {SNOW_FALL_WATER_EQUIVALENT, TEST_VARIABLE, TEST_VARIABLE_TI})"

lemma tigge_record_accepted: "tigge_record C h \<Longrightarrow> accepted C h"
  unfolding tigge_record_def by (elim exE conjE) (rule record_accepted)

text \<open>C2. The archive's checker accepts the files of the program. When the library answers what it computes
  from the records, and every record of the files is one of the program for some variable but the
  hourly snow fall, a date from 1583 to 9999 and an hour up to 384, the checker exits with 0 and
  counts no error.\<close>

theorem program_files_accepted:
  assumes "files \<noteq> []" "\<forall>f \<in> set files. take 1 f \<noteq> ''-''"
    and "\<forall>f \<in> set files. \<exists>hs. named C f = Records hs 0 \<and> hs \<noteq> [] \<and> list_all (tigge_record C) hs"
  shows "check_main C files checker_start = (Ok 0, checker_start)"
proof (rule checked_files [OF assms(1)], intro ballI conjI)
  fix f assume f: "f \<in> set files"
  with assms(2) show "take 1 f \<noteq> ''-''" by blast
  from f assms(3) obtain hs where "named C f = Records hs 0" "hs \<noteq> []" "list_all (tigge_record C) hs" by blast
  moreover from this(3) have "list_all (accepted C) hs"
    using tigge_record_accepted [of C] by (simp add: list_all_iff)
  ultimately show "accepted_tree C f (named C f)" by simp
qed

text \<open>C3. A file with a record of hourly snow fall is accepted for the initial hour only: for every later hour
  the checker counts exactly one error, because the first step of the record is that hour and not 0,
  and exits with 1.\<close>

theorem hourly_snow_fall_rejected:
  assumes "library_answers C h r" "record_of_variable SNOW_FALL_WATER_EQUIVALENT d fff em r" "take 1 f \<noteq> ''-''" "named C f = Records [h] 0"
  shows "check_main C [f] checker_start = (Ok (if fff = 0 then 0 else 1), checker_start\<lparr>error := if fff = 0 then 0 else 1\<rparr>)"
proof -
  from assms(2) obtain t e where r: "record_of d fff em (snow_fall_settings fff t) r" "later d fff e"
    by (auto simp: record_of_variable_def variable_settings_def)
  have v: "verify C h s = (Ok (), if fff = 0 then s else s\<lparr>error := error s + 1\<rparr>)" if "checks_only s" for s :: check_state
    by (rule snow_fall_verdict [OF assms(1) r that])
  have "scan C f (named C f) checker_start = (Ok (), checker_start\<lparr>error := if fff = 0 then 0 else 1\<rparr>)"
    using v [of checker_start] assms(4)
    by (simp add: validate_def run_simps sort_record_def save_def checker_start_def checks_only_def)
  from checked_file [OF assms(3) this] show ?thesis by (simp split: if_splits)
qed

subsection \<open>Sample records\<close>

definition library_checker :: "written list \<Rightarrow> written checker" where
  "library_checker rs = \<lparr>get_long = key_long, get_double = key_double,
     get_string = (\<lambda>r k. if k = ''model'' then Inr ''glob'' else Inl GRIB_NOT_FOUND),
     is_missing = (\<lambda>r k. (key_missing r k, 0)), get_size = (\<lambda>r k. Inr (points r)), get_doubles = (\<lambda>r k n. Inr []),
     get_message = (\<lambda>r. Inr []), gaussian_latitudes = (\<lambda>n. Inr []), request_ok = (\<lambda>n. True), opens_write = (\<lambda>f. True),
     writes_whole = (\<lambda>f. True), closes_well = (\<lambda>f. True), named = (\<lambda>f. Records rs 0)\<rparr>"

lemma library_checker_answers: "library_answers (library_checker rs) r r"
  by (simp add: library_answers_def library_checker_def missing_def list_all_iff)

definition new_year :: "int \<Rightarrow> dt" where
  "new_year h = \<lparr>yr = 2007, mo = 1, dy = 1, hr = h, mn = 0\<rparr>"

definition sample_record :: "setting list \<Rightarrow> step_keys \<Rightarrow> written" where
  "sample_record ys t = \<lparr>set_keys = base_settings 2007 1 1 0 6 0 @ ys, steps_of = t,
     points = nat (get_n_lat 2007 1 1 0 * get_n_lon 2007 1 1 0), coded_points = 0\<rparr>"

lemma new_year: "later (new_year 0) 6 (new_year 6)" "0 < get_n_members 2007 1 1 0"
  "yr (new_year 0) = 2007" "mo (new_year 0) = 1" "dy (new_year 0) = 1" "hr (new_year 0) = 0"
  by (simp_all add: new_year_def later_def valid_date_def month_len_def mosiz_def hour_number_def day_number_def get_n_members_def)

lemma sample_record:
  assumes "set_steps (base_settings 2007 1 1 0 6 0 @ variable_settings v (new_year 0) 6 (new_year 6)) steps_start = (Ok 0, t)"
  shows "record_of_variable v (new_year 0) 6 0 (sample_record (variable_settings v (new_year 0) 6 (new_year 6)) t)"
  using assms new_year
  by (auto simp: record_of_variable_def program_record_def sample_record_def get_n_lat_def get_n_lon_def intro!: exI simp del: set_steps.simps)

lemma sample_steps:
  "set_steps (base_settings 2007 1 1 0 6 0 @ variable_settings POTENTIAL_TEMPERATURE (new_year 0) 6 (new_year 6)) steps_start =
    (Ok 0, steps_of_base 2007 1 1 0 6)"
  "set_steps (base_settings 2007 1 1 0 6 0 @ variable_settings TOTAL_PRECIPITATION (new_year 0) 6 (new_year 6)) steps_start =
    (Ok 0, interval_steps (new_year 0) (new_year 6) 0 6)"
  "set_steps (base_settings 2007 1 1 0 6 0 @ variable_settings SNOW_FALL_WATER_EQUIVALENT (new_year 0) 6 (new_year 6)) steps_start =
    (Ok 0, interval_steps (new_year 0) (new_year 6) 6 6)"
  using potential_temperature_steps [of 2007 1 1 0 6 0] total_precipitation_steps [OF new_year(1), of 0]
    snow_fall_steps [OF new_year(1), of 0 "new_year 6"]
  unfolding new_year(3-6) variable_settings_def by simp_all

definition two_records :: "written list" where
  "two_records = [sample_record (variable_settings POTENTIAL_TEMPERATURE (new_year 0) 6 (new_year 6)) (steps_of_base 2007 1 1 0 6),
     sample_record (variable_settings TOTAL_PRECIPITATION (new_year 0) 6 (new_year 6)) (interval_steps (new_year 0) (new_year 6) 0 6)]"

theorem program_files_accepted_witness:
  "check_main (library_checker two_records) [''tigge.grib''] checker_start = (Ok 0, checker_start)"
proof (rule program_files_accepted)
  have "tigge_record (library_checker two_records) r" if "record_of_variable v (new_year 0) 6 0 r" "v = POTENTIAL_TEMPERATURE \<or> v = TOTAL_PRECIPITATION" for v r
    using that library_checker_answers [of two_records r] unfolding tigge_record_def by blast
  from this [OF sample_record [OF sample_steps(1)]] this [OF sample_record [OF sample_steps(2)]]
  have "list_all (tigge_record (library_checker two_records)) two_records" by (simp add: two_records_def)
  then show "\<forall>f \<in> set [''tigge.grib'']. \<exists>hs. named (library_checker two_records) f = Records hs 0 \<and> hs \<noteq> [] \<and>
      list_all (tigge_record (library_checker two_records)) hs"
    by (simp add: library_checker_def two_records_def)
qed simp_all

definition snow_record :: written where
  "snow_record = sample_record (variable_settings SNOW_FALL_WATER_EQUIVALENT (new_year 0) 6 (new_year 6)) (interval_steps (new_year 0) (new_year 6) 6 6)"

theorem hourly_snow_fall_rejected_witness:
  "check_main (library_checker [snow_record]) [''sf6.grib''] checker_start = (Ok 1, checker_start\<lparr>error := 1\<rparr>)"
  using hourly_snow_fall_rejected [OF library_checker_answers [of "[snow_record]" snow_record]
      sample_record [OF sample_steps(3), folded snow_record_def], of "''sf6.grib''"]
  by (simp add: library_checker_def)

end
