(* ===== verification/BitCoding.thy ===== *)
theory BitCoding
  imports CDouble
begin

unbundle bit_operations_syntax

text \<open>
  Numbers in the octets of a message (\<open>src/grib-api/src/grib_bits.c\<close>,
  \<open>grib_bits_any_endian.c\<close> and \<open>grib_bits_any_endian_simple.c\<close>, the files that are compiled
  where \<open>FAST_BIG_ENDIAN\<close>, \<open>OMP_PACKING\<close> and \<open>VECTOR\<close> are not set). The state is the array of octets
  that \<open>p\<close> points to; outside it reading and writing is undefined. An \<open>unsigned long\<close> has 64 bits.
  Positions and numbers of bits are not negative; a procedure that moves \<open>*bitp\<close> returns the new
  position. A failing \<open>Assert\<close> aborts the process.
\<close>

type_synonym ulong = "64 word"

type_synonym 'a bit_prog = "(byte list, 'a) prog"

definition max_nbits :: nat where
  "max_nbits = 64"

definition Assert :: "bool \<Rightarrow> unit bit_prog" where
  "Assert c = (if c then ret () else exit_with 134)"

definition octet :: "nat \<Rightarrow> byte bit_prog" where
  "octet i = bnd (rd (\<lambda>p. p)) (\<lambda>p. if i < length p then ret (p ! i) else crash)"

definition set_octet :: "nat \<Rightarrow> byte \<Rightarrow> unit bit_prog" where
  "set_octet i b = bnd (rd (\<lambda>p. i < length p)) (\<lambda>ok. if ok then upd (\<lambda>p. p[i := b]) else crash)"

subsection \<open>One bit\<close>

definition grib_get_bit :: "nat \<Rightarrow> bool bit_prog" where
  "grib_get_bit bitp = bnd (octet (bitp div 8)) (\<lambda>b. ret (b AND push_bit (7 - bitp mod 8) 1 \<noteq> 0))"

definition grib_set_bit_on :: "nat \<Rightarrow> nat bit_prog" where
  "grib_set_bit_on bitp = bnd (octet (bitp div 8)) (\<lambda>b.
     seq (set_octet (bitp div 8) (b OR push_bit (7 - bitp mod 8) 1)) (ret (bitp + 1)))"

definition grib_set_bit_off :: "nat \<Rightarrow> nat bit_prog" where
  "grib_set_bit_off bitp = bnd (octet (bitp div 8)) (\<lambda>b.
     seq (set_octet (bitp div 8) (b AND NOT (push_bit (7 - bitp mod 8) 1))) (ret (bitp + 1)))"

definition grib_set_bit :: "nat \<Rightarrow> int \<Rightarrow> unit bit_prog" where
  "grib_set_bit bitp val = seq (if val = 0 then grib_set_bit_off bitp else grib_set_bit_on bitp) (ret ())"

text \<open>The macro \<open>test\<close>: it shifts an \<open>unsigned int\<close>, which has 32 bits.\<close>

definition test :: "ulong \<Rightarrow> nat \<Rightarrow> bool bit_prog" where
  "test n i = (if i < 32 then ret (n AND push_bit i 1 \<noteq> 0) else crash)"

subsection \<open>Unsigned numbers, bit by bit\<close>

primrec encode_bits :: "ulong \<Rightarrow> nat \<Rightarrow> nat \<Rightarrow> nat bit_prog" where
  "encode_bits val 0 bitp = ret bitp"
| "encode_bits val (Suc i) bitp = bnd (test val i) (\<lambda>b.
     bnd (if b then grib_set_bit_on bitp else grib_set_bit_off bitp) (encode_bits val i))"

definition grib_encode_unsigned_longb :: "ulong \<Rightarrow> nat \<Rightarrow> nat \<Rightarrow> nat bit_prog" where
  "grib_encode_unsigned_longb val bitp nb = seq (Assert (nb \<le> max_nbits)) (encode_bits val nb bitp)"

primrec decode_bits :: "nat \<Rightarrow> nat \<Rightarrow> ulong \<Rightarrow> (ulong \<times> nat) bit_prog" where
  "decode_bits 0 bitp r = ret (r, bitp)"
| "decode_bits (Suc i) bitp r = bnd (grib_get_bit bitp) (\<lambda>b.
     decode_bits i (bitp + 1) (push_bit 1 r + (if b then 1 else 0)))"

text \<open>\<open>ret <<= 8; ret |= p[o++]\<close>, the first time and \<open>l - 1\<close> times more.\<close>

primrec more_octets :: "nat \<Rightarrow> nat \<Rightarrow> ulong \<Rightarrow> (ulong \<times> nat) bit_prog" where
  "more_octets 0 j r = ret (r, j)"
| "more_octets (Suc l) j r = bnd (octet j) (\<lambda>b. more_octets l (j + 1) (push_bit 8 r OR ucast b))"

definition decode_octets :: "nat \<Rightarrow> nat \<Rightarrow> (ulong \<times> nat) bit_prog" where
  "decode_octets l j = bnd (octet j) (\<lambda>b. more_octets (l - 1) (j + 1) (ucast b))"

definition decode_word :: "nat \<Rightarrow> nat \<Rightarrow> (ulong \<times> nat) bit_prog" where
  "decode_word bitp nbits =
     (if nbits = 0 then ret (0, bitp)
      else if 0 < nbits mod 8 \<or> 0 < bitp mod 8 then decode_bits nbits bitp 0
      else bnd (decode_octets (nbits div 8) (bitp div 8)) (\<lambda>(r, _). ret (r, bitp + nbits)))"

text \<open>
  More than 64 bits: what is in front of the last 64 must be zero. It is compared as an \<open>int\<close>, of
  which the lower 32 bits are kept.
\<close>

definition leading_zero :: "nat \<Rightarrow> nat \<Rightarrow> nat bit_prog" where
  "leading_zero nbits bitp = bnd (decode_word bitp nbits) (\<lambda>(e, bitp). seq (Assert (take_bit 32 e = 0)) (ret bitp))"

primrec leading_zeros :: "nat \<Rightarrow> nat \<Rightarrow> nat bit_prog" where
  "leading_zeros 0 bitp = ret bitp"
| "leading_zeros (Suc k) bitp = bnd (leading_zero max_nbits bitp) (leading_zeros k)"

definition grib_decode_unsigned_long :: "nat \<Rightarrow> nat \<Rightarrow> (ulong \<times> nat) bit_prog" where
  "grib_decode_unsigned_long bitp nbits =
     (if nbits \<le> max_nbits then decode_word bitp nbits
      else bnd (if nbits mod max_nbits \<noteq> 0 then leading_zero (nbits mod max_nbits) bitp else ret bitp) (\<lambda>bitp.
           bnd (leading_zeros (nbits div max_nbits - 1) bitp) (\<lambda>bitp. decode_word bitp max_nbits)))"

subsection \<open>Unsigned numbers, octet by octet\<close>

definition dmasks :: "byte list" where
  "dmasks = [0xFF, 0xFE, 0xFC, 0xF8, 0xF0, 0xE0, 0xC0, 0x80, 0x00]"

text \<open>The octets in the middle: \<open>k\<close> of them are left, and \<open>r\<close> bits after them.\<close>

primrec encode_octets :: "ulong \<Rightarrow> nat \<Rightarrow> nat \<Rightarrow> nat \<Rightarrow> nat bit_prog" where
  "encode_octets val r 0 j = ret j"
| "encode_octets val r (Suc k) j = seq (set_octet j (ucast (drop_bit (8 * k + r) val))) (encode_octets val r k (j + 1))"

text \<open>
  In the head \<open>(*p)++\<close> increments the octet and not the pointer; \<open>len\<close> may be negative after it.
\<close>

definition encode_head :: "ulong \<Rightarrow> nat \<Rightarrow> nat \<Rightarrow> int bit_prog" where
  "encode_head val bitp nbits =
     (let s = bitp mod 8; n = 8 - s; j = bitp div 8 in
      if s = 0 then ret (int nbits)
      else bnd (octet j) (\<lambda>b.
        let len = int nbits - int n;
            tmp = (if len < 0 then ucast (push_bit (nat (- len)) val) else ucast (drop_bit (nat len) val)) OR (b AND dmasks ! n) in
        seq (set_octet j tmp) (seq (set_octet j (tmp + 1)) (ret len))))"

definition encode_word :: "ulong \<Rightarrow> nat \<Rightarrow> nat \<Rightarrow> nat bit_prog" where
  "encode_word val bitp nbits =
     bnd (encode_head val bitp nbits) (\<lambda>len.
     bnd (encode_octets val (nat len mod 8) (nat len div 8) (bitp div 8)) (\<lambda>j.
     let len = (if len < 0 then len else len mod 8) in
     seq (only_if (len \<noteq> 0) (set_octet j (ucast (push_bit (nat (8 - len)) val)))) (
     ret (bitp + nbits))))"

primrec encode_zeros :: "nat \<Rightarrow> nat \<Rightarrow> nat bit_prog" where
  "encode_zeros 0 bitp = ret bitp"
| "encode_zeros (Suc k) bitp = bnd (encode_word 0 bitp max_nbits) (encode_zeros k)"

definition grib_encode_unsigned_long :: "ulong \<Rightarrow> nat \<Rightarrow> nat \<Rightarrow> nat bit_prog" where
  "grib_encode_unsigned_long val bitp nbits =
     (if nbits \<le> max_nbits then encode_word val bitp nbits
      else bnd (if nbits mod max_nbits \<noteq> 0 then encode_word 0 bitp (nbits mod max_nbits) else ret bitp) (\<lambda>bitp.
           bnd (encode_zeros (nbits div max_nbits - 1) bitp) (\<lambda>bitp. encode_word val bitp max_nbits)))"

subsection \<open>Signed numbers\<close>

text \<open>The absolute value of a negative \<open>long\<close>; that of \<open>LONG_MIN\<close> overflows, which is undefined.\<close>

definition magnitude :: "int \<Rightarrow> ulong bit_prog" where
  "magnitude val = (if val = - (2 ^ 63) then crash else ret (word_of_int \<bar>val\<bar>))"

text \<open>A sign bit in front of the absolute value.\<close>

definition grib_decode_signed_longb :: "nat \<Rightarrow> nat \<Rightarrow> (int \<times> nat) bit_prog" where
  "grib_decode_signed_longb bitp nbits =
     bnd (grib_get_bit bitp) (\<lambda>sign.
     seq (Assert (nbits \<le> max_nbits)) (
     bnd (grib_decode_unsigned_long (bitp + 1) (nbits - 1)) (\<lambda>(val, bitp).
     ret (if sign then - sint val else sint val, bitp))))"

definition grib_encode_signed_longb :: "int \<Rightarrow> nat \<Rightarrow> nat \<Rightarrow> nat bit_prog" where
  "grib_encode_signed_longb val bitp nb =
     seq (Assert (nb \<le> max_nbits)) (
     bnd (magnitude val) (\<lambda>a.
     bnd (if val < 0 then grib_set_bit_on bitp else grib_set_bit_off bitp) (\<lambda>bitp.
     grib_encode_unsigned_longb a bitp (nb - 1))))"

text \<open>In whole octets.\<close>

definition grib_decode_unsigned_byte_long :: "nat \<Rightarrow> nat \<Rightarrow> ulong bit_prog" where
  "grib_decode_unsigned_byte_long j l =
     bnd (octet j) (\<lambda>b. seq (Assert (l \<le> max_nbits)) (bnd (more_octets (l - 1) (j + 1) (ucast b)) (\<lambda>(r, _). ret r)))"

definition grib_decode_signed_long :: "nat \<Rightarrow> nat \<Rightarrow> int bit_prog" where
  "grib_decode_signed_long j l =
     bnd (octet j) (\<lambda>b. seq (Assert (l \<le> max_nbits)) (
     bnd (more_octets (l - 1) (j + 1) (ucast (b AND 0x7F))) (\<lambda>(accum, _).
     ret (if bit b 7 then - sint accum else sint accum))))"

definition grib_encode_signed_long :: "int \<Rightarrow> nat \<Rightarrow> nat \<Rightarrow> unit bit_prog" where
  "grib_encode_signed_long val j l =
     seq (Assert (l \<le> max_nbits)) (
     bnd (magnitude val) (\<lambda>a.
     if 8 < l then crash else
     seq (encode_octets a 0 l j) (
     only_if (val < 0) (bnd (octet j) (\<lambda>b. set_octet j (b OR 128))))))"

subsection \<open>Arrays of numbers\<close>

primrec decode_bit_values :: "nat \<Rightarrow> nat \<Rightarrow> nat \<Rightarrow> (ulong list \<times> nat) bit_prog" where
  "decode_bit_values 0 bits bitp = ret ([], bitp)"
| "decode_bit_values (Suc n) bits bitp = bnd (decode_bits bits bitp 0) (\<lambda>(v, bitp).
     bnd (decode_bit_values n bits bitp) (\<lambda>(vs, bitp). ret (v # vs, bitp)))"

primrec decode_octet_values :: "nat \<Rightarrow> nat \<Rightarrow> nat \<Rightarrow> ulong list bit_prog" where
  "decode_octet_values 0 l j = ret []"
| "decode_octet_values (Suc n) l j = bnd (decode_octets l j) (\<lambda>(v, j).
     bnd (decode_octet_values n l j) (\<lambda>vs. ret (v # vs)))"

definition grib_decode_long_array :: "nat \<Rightarrow> nat \<Rightarrow> nat \<Rightarrow> (ulong list \<times> nat) bit_prog" where
  "grib_decode_long_array bitp bitsPerValue n_vals =
     (if bitsPerValue mod 8 \<noteq> 0 then decode_bit_values n_vals bitsPerValue bitp
      else bnd (decode_octet_values n_vals (bitsPerValue div 8) (bitp div 8)) (\<lambda>vs. ret (vs, bitp + bitsPerValue * n_vals)))"

text \<open>In whole octets the doubles are read from the beginning of the array, wherever \<open>*bitp\<close> is.\<close>

definition grib_decode_double_array ::
  "nat \<Rightarrow> nat \<Rightarrow> cdouble \<Rightarrow> cdouble \<Rightarrow> cdouble \<Rightarrow> nat \<Rightarrow> (cdouble list \<times> nat) bit_prog" where
  "grib_decode_double_array bitp bitsPerValue reference_value s d n_vals =
     (let x = (\<lambda>lvalue. dmul (dadd (dmul (rnd (of_int (uint lvalue))) s) reference_value) d) in
      if bitsPerValue mod 8 \<noteq> 0
      then bnd (decode_bit_values n_vals bitsPerValue bitp) (\<lambda>(vs, bitp). ret (map x vs, bitp))
      else bnd (decode_octet_values n_vals (bitsPerValue div 8) 0) (\<lambda>vs. ret (map x vs, bitp)))"

primrec encode_bit_values :: "ulong list \<Rightarrow> nat \<Rightarrow> nat \<Rightarrow> nat bit_prog" where
  "encode_bit_values [] bits off = ret off"
| "encode_bit_values (v # vs) bits off = bnd (grib_encode_unsigned_longb v off bits) (encode_bit_values vs bits)"

text \<open>In whole octets the numbers are written from the beginning of the array; a shift by 64 or more is undefined.\<close>

primrec encode_octet_values :: "ulong list \<Rightarrow> nat \<Rightarrow> nat \<Rightarrow> unit bit_prog" where
  "encode_octet_values [] l j = ret ()"
| "encode_octet_values (v # vs) l j = (if 8 < l then crash else bnd (encode_octets v 0 l j) (encode_octet_values vs l))"

definition grib_encode_long_array :: "ulong list \<Rightarrow> nat \<Rightarrow> nat \<Rightarrow> nat bit_prog" where
  "grib_encode_long_array val bits_per_value off =
     (if bits_per_value mod 8 \<noteq> 0 then encode_bit_values val bits_per_value off
      else seq (encode_octet_values val (bits_per_value div 8) 0) (ret (off + bits_per_value * length val)))"

definition to_ulong :: "cdouble \<Rightarrow> ('s, ulong) prog" where
  "to_ulong x = (case x of
       Fin r \<Rightarrow> if - 1 < r \<and> r < 2 ^ 64 then ret (word_of_int (if r < 0 then 0 else \<lfloor>r\<rfloor>)) else crash
     | MZero \<Rightarrow> ret 0
     | _ \<Rightarrow> crash)"

definition code_of :: "cdouble \<Rightarrow> cdouble \<Rightarrow> cdouble \<Rightarrow> cdouble \<Rightarrow> ulong bit_prog" where
  "code_of reference_value d divisor v =
     to_ulong (dadd (dmul (dsub (dmul v d) reference_value) divisor) (dlit (1 / 2)))"

primrec encode_bit_doubles :: "cdouble list \<Rightarrow> (cdouble \<Rightarrow> ulong bit_prog) \<Rightarrow> nat \<Rightarrow> nat \<Rightarrow> nat bit_prog" where
  "encode_bit_doubles [] code bits off = ret off"
| "encode_bit_doubles (x # xs) code bits off = bnd (code x) (\<lambda>v.
     bnd (grib_encode_unsigned_longb v off bits) (encode_bit_doubles xs code bits))"

primrec encode_octet_doubles :: "cdouble list \<Rightarrow> (cdouble \<Rightarrow> ulong bit_prog) \<Rightarrow> nat \<Rightarrow> nat \<Rightarrow> unit bit_prog" where
  "encode_octet_doubles [] code l j = ret ()"
| "encode_octet_doubles (x # xs) code l j = bnd (code x) (\<lambda>v.
     if 8 < l then crash else bnd (encode_octets v 0 l j) (encode_octet_doubles xs code l))"

definition grib_encode_double_array ::
  "cdouble list \<Rightarrow> nat \<Rightarrow> cdouble \<Rightarrow> cdouble \<Rightarrow> cdouble \<Rightarrow> nat \<Rightarrow> nat bit_prog" where
  "grib_encode_double_array val bits_per_value reference_value d divisor off =
     (let code = code_of reference_value d divisor in
      if bits_per_value mod 8 \<noteq> 0 then encode_bit_doubles val code bits_per_value off
      else seq (encode_octet_doubles val code (bits_per_value div 8) 0) (ret (off + bits_per_value * length val)))"

end
