(* ===== verification/BitStream.thy ===== *)
theory BitStream
  imports BitCoding
begin

unbundle bit_operations_syntax

text \<open>
  The octets as a stream of bits, the most significant bit of an octet first: what the procedures of
  \<open>BitCoding\<close> read and write, and that a number that was written is the one that is read.
\<close>

definition bit_at :: "byte list \<Rightarrow> nat \<Rightarrow> bool" where
  "bit_at p n \<longleftrightarrow> bit (p ! (n div 8)) (7 - n mod 8)"

definition has_bits :: "byte list \<Rightarrow> nat \<Rightarrow> bool" where
  "has_bits p n \<longleftrightarrow> n \<le> 8 * length p"

text \<open>The number in \<open>n\<close> bits from \<open>b\<close> on, in front of which there is \<open>r\<close>.\<close>

definition next_bit :: "byte list \<Rightarrow> ulong \<Rightarrow> nat \<Rightarrow> ulong" where
  "next_bit p r i = push_bit 1 r + (if bit_at p i then 1 else 0)"

definition number :: "byte list \<Rightarrow> nat \<Rightarrow> nat \<Rightarrow> ulong \<Rightarrow> ulong" where
  "number p b n r = foldl (next_bit p) r [b..<b + n]"

text \<open>The bits of \<open>q\<close> are those of \<open>p\<close>, but for the \<open>n\<close> bits of \<open>v\<close> from \<open>b\<close> on.\<close>

definition spliced :: "byte list \<Rightarrow> byte list \<Rightarrow> nat \<Rightarrow> nat \<Rightarrow> ulong \<Rightarrow> bool" where
  "spliced p q b n v \<longleftrightarrow> length q = length p \<and>
     (\<forall>i < 8 * length p. bit_at q i = (if b \<le> i \<and> i < b + n then bit v (b + n - 1 - i) else bit_at p i))"

subsection \<open>One bit\<close>

lemma octet_run [run_simps]: "i < length p \<Longrightarrow> octet i p = (Ok (p ! i), p)"
  by (simp add: octet_def run_simps)

lemma set_octet_run [run_simps]: "i < length p \<Longrightarrow> set_octet i b p = (Ok (), p[i := b])"
  by (simp add: set_octet_def run_simps)

lemma Assert_run [run_simps]: "Assert c p = (if c then Ok () else Exit 134, p)"
  by (simp add: Assert_def run_simps)

lemma and_one_bit: "b AND push_bit k 1 \<noteq> 0 \<longleftrightarrow> bit b k" if "k < LENGTH('a)" for b :: "'a::len word"
proof -
  have "b AND push_bit k 1 = (if bit b k then push_bit k 1 else 0)"
    by (rule bit_word_eqI) (auto simp: bit_simps that)
  moreover have "bit (push_bit k 1 :: 'a word) k" using that by (simp add: bit_simps)
  ultimately show ?thesis by (metis bit_0_eq bot_apply bot_bool_def)
qed

lemma get_bit_run [run_simps]:
  assumes "has_bits p (b + 1)" shows "grib_get_bit b p = (Ok (bit_at p b), p)"
  using assms and_one_bit [of "7 - b mod 8" "p ! (b div 8)"]
  by (simp add: grib_get_bit_def bit_at_def run_simps has_bits_def)

lemma same_position: "(n::nat) div 8 = m div 8 \<Longrightarrow> 7 - n mod 8 = 7 - m mod 8 \<Longrightarrow> n = m"
proof -
  assume a: "n div 8 = m div 8" "7 - n mod 8 = 7 - m mod 8"
  have "n mod 8 \<le> 7" "m mod 8 \<le> 7" using mod_less_divisor [of 8] by (simp_all flip: less_Suc_eq_le)
  with a(2) have "n mod 8 = m mod 8" by linarith
  with a(1) show "n = m" by (metis div_mult_mod_eq)
qed

text \<open>Setting one bit.\<close>

definition with_bit :: "byte list \<Rightarrow> nat \<Rightarrow> bool \<Rightarrow> byte list" where
  "with_bit p m c = p[m div 8 := (if c then p ! (m div 8) OR push_bit (7 - m mod 8) 1
     else p ! (m div 8) AND NOT (push_bit (7 - m mod 8) 1))]"

lemma with_bit_length [simp]: "length (with_bit p m c) = length p"
  by (simp add: with_bit_def)

lemma with_bit_at:
  assumes "has_bits p (m + 1)"
  shows "bit_at (with_bit p m c) n = (if n = m then c else bit_at p n)"
proof -
  have m: "m div 8 < length p" using assms by (simp add: has_bits_def)
  show ?thesis
  proof (cases "n div 8 = m div 8")
    case True
    have "7 - n mod 8 < 8" by simp
    moreover have "7 - n mod 8 = 7 - m mod 8 \<longleftrightarrow> n = m" using True same_position by blast
    ultimately show ?thesis using m True
      by (auto simp: bit_at_def with_bit_def bit_simps)
  next
    case False
    then show ?thesis using m by (auto simp: bit_at_def with_bit_def)
  qed
qed

lemma set_bit_run [run_simps]:
  assumes "has_bits p (b + 1)"
  shows "grib_set_bit_on b p = (Ok (b + 1), with_bit p b True)" "grib_set_bit_off b p = (Ok (b + 1), with_bit p b False)"
proof -
  have "b div 8 < length p" using assms by (simp add: has_bits_def)
  then show "grib_set_bit_on b p = (Ok (b + 1), with_bit p b True)" "grib_set_bit_off b p = (Ok (b + 1), with_bit p b False)"
    by (simp_all add: grib_set_bit_on_def grib_set_bit_off_def run_simps with_bit_def)
qed

subsection \<open>Bit by bit\<close>

lemma test_run [run_simps]: "i < 32 \<Longrightarrow> test v i p = (Ok (bit v i), p)"
  using and_one_bit [of i v] by (simp add: test_def run_simps)

text \<open>Writing refines splicing the bits of the number into the stream.\<close>

lemma splice_step:
  assumes "spliced (with_bit p b (bit v n)) q (b + 1) n v" "has_bits p (b + 1)"
  shows "spliced p q b (Suc n) v"
  using assms(1) unfolding spliced_def by (auto simp: with_bit_at [OF assms(2)] Suc_diff_le le_antisym not_less_eq_eq)

lemma encode_bits_splice:
  assumes "n \<le> 32" "has_bits p (b + n)"
  shows "\<exists>q. encode_bits v n b p = (Ok (b + n), q) \<and> spliced p q b n v"
  using assms
proof (induction n arbitrary: b p)
  case 0
  then show ?case by (auto simp: run_simps spliced_def)
next
  case (Suc n)
  have r: "has_bits p (b + 1)" using Suc.prems by (simp add: has_bits_def)
  have "has_bits (with_bit p b (bit v n)) (b + 1 + n)" using Suc.prems by (simp add: has_bits_def)
  from Suc.IH [OF _ this] Suc.prems(1) obtain q where q: "encode_bits v n (b + 1) (with_bit p b (bit v n)) = (Ok (b + 1 + n), q)"
    "spliced (with_bit p b (bit v n)) q (b + 1) n v" by auto
  have "encode_bits v (Suc n) b p = (Ok (b + Suc n), q)"
    using q(1) Suc.prems(1) r by (cases "bit v n") (simp_all add: run_simps)
  with splice_step [OF q(2) r] show ?case by blast
qed

lemma number_0 [simp]: "number p b 0 r = r"
  by (simp add: number_def)

lemma number_Suc: "number p b (Suc n) r = number p (b + 1) n (next_bit p r b)"
proof -
  have "[b..<b + Suc n] = b # [Suc b..<b + Suc n]" by (rule upt_conv_Cons) simp
  then show ?thesis by (simp only: number_def foldl.simps Suc_eq_plus1 add.assoc add.commute [of n])
qed

lemma number_add: "number p b (m + n) r = number p (b + m) n (number p b m r)"
  by (simp add: number_def upt_add_eq_append [of b "b + m" n, simplified add.assoc] add.assoc)

lemma decode_bits_run:
  "has_bits p (b + n) \<Longrightarrow> decode_bits n b r p = (Ok (number p b n r, b + n), p)"
  by (induction n arbitrary: b r) (simp_all add: run_simps number_Suc next_bit_def has_bits_def)

lemma bit_next: "bit (next_bit p r b) i \<longleftrightarrow> i < 64 \<and> (if i = 0 then bit_at p b else bit r (i - 1))"
proof -
  have "next_bit p r b = push_bit 1 r OR (if bit_at p b then 1 else 0)"
    unfolding next_bit_def
    by (rule disjunctive_add) (auto simp: bit_simps bit_double_iff mult.commute [of r 2])
  then show ?thesis by (cases i) (auto simp: bit_simps bit_double_iff mult.commute [of r 2])
qed

lemma bit_number: "bit (number p b n r) i \<longleftrightarrow> i < 64 \<and> (if i < n then bit_at p (b + n - 1 - i) else bit r (i - n))"
proof (induction n arbitrary: b r)
  case 0
  then show ?case using bit_imp_le_length [of r i] by auto
next
  case (Suc n)
  show ?case
    unfolding number_Suc Suc.IH by (auto simp: bit_next Suc_diff_le less_Suc_eq)
qed

lemma number_splice:
  assumes "spliced p q b n v" "has_bits p (b + n)"
  shows "number q b n 0 = take_bit n v"
proof (rule bit_word_eqI)
  fix i assume "i < LENGTH(64)"
  then show "bit (number q b n 0) i \<longleftrightarrow> bit (take_bit n v) i"
    using assms by (auto simp: bit_number bit_take_bit_iff spliced_def has_bits_def)
qed

lemma number_splice_prefix:
  assumes "spliced p q b (n + k) v" "has_bits p (b + n + k)"
  shows "number q b n 0 = take_bit n (drop_bit k v)"
proof (rule bit_word_eqI)
  fix i assume "i < LENGTH(64)"
  then show "bit (number q b n 0) i \<longleftrightarrow> bit (take_bit n (drop_bit k v)) i"
    using assms by (auto simp: bit_number bit_take_bit_iff bit_drop_bit_eq spliced_def has_bits_def)
qed

lemma spliceI:
  assumes "length q = length p"
    "\<And>i. i < 8 * length p \<Longrightarrow> \<not> (b \<le> i \<and> i < b + n) \<Longrightarrow> bit_at q i = bit_at p i"
    "\<And>k. k < n \<Longrightarrow> b + k < 8 * length p \<Longrightarrow> bit_at q (b + k) = bit v (n - Suc k)"
  shows "spliced p q b n v"
  unfolding spliced_def
proof (intro conjI allI impI assms(1))
  fix i assume i: "i < 8 * length p"
  show "bit_at q i = (if b \<le> i \<and> i < b + n then bit v (b + n - 1 - i) else bit_at p i)"
  proof (cases "b \<le> i \<and> i < b + n")
    case True
    then obtain k where k: "i = b + k" "k < n" by (metis le_iff_add nat_add_left_cancel_less)
    moreover have "b + n - 1 - i = n - Suc k" using k by simp
    ultimately show ?thesis using assms(3) [of k] i by simp
  qed (use assms(2) [OF i] in auto)
qed

lemma splice_out: "spliced p q b n v \<Longrightarrow> i < 8 * length p \<Longrightarrow> \<not> (b \<le> i \<and> i < b + n) \<Longrightarrow> bit_at q i = bit_at p i"
  by (auto simp: spliced_def)

lemma splice_in: "spliced p q b n v \<Longrightarrow> k < n \<Longrightarrow> b + k < 8 * length p \<Longrightarrow> bit_at q (b + k) = bit v (n - Suc k)"
  by (simp add: spliced_def)

lemma splice_append:
  assumes "spliced p p' b m (drop_bit n v)" "spliced p' q (b + m) n v"
  shows "spliced p q b (m + n) v"
proof (rule spliceI)
  have l: "length p' = length p" using assms(1) by (simp add: spliced_def)
  show "length q = length p" using assms(2) l by (simp add: spliced_def)
  fix i assume i: "i < 8 * length p" "\<not> (b \<le> i \<and> i < b + (m + n))"
  then show "bit_at q i = bit_at p i"
    using splice_out [OF assms(2), of i] splice_out [OF assms(1) i(1)] l by auto
next
  have l: "length p' = length p" using assms(1) by (simp add: spliced_def)
  fix k assume k: "k < m + n" "b + k < 8 * length p"
  show "bit_at q (b + k) = bit v (m + n - Suc k)"
  proof (cases "k < m")
    case True
    then have "bit_at q (b + k) = bit_at p' (b + k)" using splice_out [OF assms(2), of "b + k"] k l by simp
    also have "\<dots> = bit v (n + (m - Suc k))" using splice_in [OF assms(1) True k(2)] by (simp add: bit_drop_bit_eq)
    also have "n + (m - Suc k) = m + n - Suc k" using True by simp
    finally show ?thesis .
  next
    case False
    then have "b + m + (k - m) = b + k" "k - m < n" "n - Suc (k - m) = m + n - Suc k" using k by simp_all
    then show ?thesis using splice_in [OF assms(2), of "k - m"] k l by simp
  qed
qed

lemma splice_bits: "spliced p q b n v \<Longrightarrow> has_bits q k = has_bits p k"
  by (simp add: spliced_def has_bits_def)

text \<open>A number that was written bit by bit is read.\<close>

lemma number_same: "(\<And>i. b \<le> i \<Longrightarrow> i < b + n \<Longrightarrow> bit_at q i = bit_at p i) \<Longrightarrow> number q b n r = number p b n r"
  unfolding number_def by (intro foldl_cong) (auto simp: next_bit_def)

subsection \<open>Octet by octet\<close>

lemma octet_bits:
  assumes "i < 8" shows "bit_at p (8 * j + (7 - i)) = bit (p ! j) i"
proof -
  have "(8 * j + (7 - i)) div 8 = j" "(8 * j + (7 - i)) mod 8 = 7 - i" by simp_all
  then show ?thesis using assms by (simp add: bit_at_def)
qed

lemma octet_number: "push_bit 8 r OR ucast (p ! j) = number p (8 * j) 8 r"
proof (rule bit_word_eqI)
  fix i assume i: "i < LENGTH(64)"
  show "bit (push_bit 8 r OR ucast (p ! j)) i \<longleftrightarrow> bit (number p (8 * j) 8 r) i"
  proof (cases "i < 8")
    case True
    then have "8 * j + 8 - 1 - i = 8 * j + (7 - i)" by simp
    then show ?thesis using i True octet_bits [OF True, of p j] by (simp add: bit_number bit_simps)
  next
    case False
    then have "\<not> bit (p ! j) i" using bit_imp_le_length [of "p ! j" i] by auto
    then show ?thesis using i False by (simp add: bit_number bit_simps)
  qed
qed

lemma more_octets_run:
  "has_bits p (8 * (j + l)) \<Longrightarrow> more_octets l j r p = (Ok (number p (8 * j) (8 * l) r, j + l), p)"
proof (induction l arbitrary: j r)
  case (Suc l)
  have j: "j < length p" using Suc.prems by (simp add: has_bits_def)
  have "number p (8 * j) (8 * Suc l) r = number p (8 * j + 8) (8 * l) (number p (8 * j) 8 r)"
    using number_add [of p "8 * j" 8 "8 * l" r] by simp
  moreover have "more_octets l (j + 1) (number p (8 * j) 8 r) p =
      (Ok (number p (8 * j + 8) (8 * l) (number p (8 * j) 8 r), j + Suc l), p)"
    using Suc.IH [of "j + 1" "number p (8 * j) 8 r"] Suc.prems by (simp add: add.commute)
  ultimately show ?case using j by (simp add: run_simps octet_number add.commute)
qed (simp add: run_simps)

lemma decode_octets_run:
  assumes "has_bits p (8 * (j + l))" "0 < l"
  shows "decode_octets l j p = (Ok (number p (8 * j) (8 * l) 0, j + l), p)"
proof -
  have "j < length p" using assms by (simp add: has_bits_def)
  then show ?thesis
    using more_octets_run [OF assms(1), of 0] assms(2) by (cases l) (simp_all add: decode_octets_def run_simps)
qed

lemma decode_word_run: "has_bits p (b + n) \<Longrightarrow> decode_word b n p = (Ok (number p b n 0, b + n), p)"
proof -
  assume r: "has_bits p (b + n)"
  show ?thesis
  proof (cases "n = 0 \<or> 0 < n mod 8 \<or> 0 < b mod 8")
    case True
    then show ?thesis using decode_bits_run [OF r] by (auto simp: decode_word_def run_simps)
  next
    case False
    then obtain j l where "b = 8 * j" "n = 8 * l" by (metis mod_0_imp_dvd dvd_def gr_zeroI)
    with False r show ?thesis using decode_octets_run [of p j l]
      by (simp add: decode_word_def run_simps)
  qed
qed

lemma decode_run: "has_bits p (b + n) \<Longrightarrow> n \<le> 64 \<Longrightarrow> grib_decode_unsigned_long b n p = (Ok (number p b n 0, b + n), p)"
  by (simp add: grib_decode_unsigned_long_def max_nbits_def decode_word_run)

lemma splice_octet: "j < length p \<Longrightarrow> spliced p (p[j := ucast v]) (8 * j) 8 v"
  unfolding spliced_def
proof (intro conjI allI impI)
  fix i assume i: "j < length p" "i < 8 * length p"
  have d: "(8 * j \<le> i \<and> i < 8 * j + 8) = (i div 8 = j)" by auto
  show "bit_at (p[j := ucast v]) i = (if 8 * j \<le> i \<and> i < 8 * j + 8 then bit v (8 * j + 8 - 1 - i) else bit_at p i)"
  proof (cases "i div 8 = j")
    case True
    have "i = 8 * j + i mod 8" using True by (metis mult_div_mod_eq)
    then have "8 * j + 8 - 1 - i = 7 - i mod 8" by linarith
    moreover have "7 - i mod 8 < 8" by simp
    ultimately show ?thesis using True i d by (simp add: bit_at_def bit_simps)
  next
    case False
    then show ?thesis using d by (auto simp: bit_at_def)
  qed
qed simp

lemma encode_octets_splice:
  assumes "has_bits p (8 * (j + k))"
  shows "\<exists>q. encode_octets v r k j p = (Ok (j + k), q) \<and> spliced p q (8 * j) (8 * k) (drop_bit r v)"
  using assms
proof (induction k arbitrary: j p)
  case 0
  then show ?case by (auto simp: run_simps spliced_def)
next
  case (Suc k)
  have j: "j < length p" using Suc.prems by (simp add: has_bits_def)
  let ?p = "p[j := ucast (drop_bit (8 * k + r) v)]"
  have s: "spliced p ?p (8 * j) 8 (drop_bit (8 * k) (drop_bit r v))"
    using splice_octet [OF j, of "drop_bit (8 * k + r) v"] by (simp add: add.commute)
  have "has_bits ?p (8 * (j + 1 + k))" using Suc.prems by (simp add: has_bits_def)
  from Suc.IH [OF this] obtain q where q: "encode_octets v r k (j + 1) ?p = (Ok (j + 1 + k), q)"
    "spliced ?p q (8 * (j + 1)) (8 * k) (drop_bit r v)" by blast
  have "spliced p q (8 * j) (8 + 8 * k) (drop_bit r v)"
    by (rule splice_append [OF s]) (use q(2) in \<open>simp add: add.commute\<close>)
  then show ?case using q(1) j by (auto simp: run_simps)
qed

end
