(* ===== verification/BitNumbers.thy ===== *)
theory BitNumbers
  imports BitStream
begin

unbundle bit_operations_syntax

text \<open>
  What the coders of numbers do: what is written is read again, and what becomes of the bits around it.
\<close>

subsection \<open>Unsigned numbers\<close>

lemma longb_run:
  assumes "n \<le> 32" "has_bits p (b + n)"
  shows "\<exists>q. grib_encode_unsigned_longb v b n p = (Ok (b + n), q) \<and> spliced p q b n v"
  using encode_bits_splice [OF assms, of v] assms(1)
  by (auto simp: grib_encode_unsigned_longb_def max_nbits_def run_simps)

text \<open>The number of bits in the last octet that do not belong to the number.\<close>

definition padding :: "nat \<Rightarrow> nat" where
  "padding n = (8 - n mod 8) mod 8"

lemma spliced_cong:
  assumes "spliced p q b n v" "\<And>i. i < n \<Longrightarrow> bit v i = bit w i"
  shows "spliced p q b n w"
  using assms by (auto simp: spliced_def)

lemma padding_last: "0 < r \<Longrightarrow> r < 8 \<Longrightarrow> padding (8 * k + r) = 8 - r"
  by (simp add: padding_def)

lemma padding_none [simp]: "padding (8 * k) = 0"
  by (simp add: padding_def)

text \<open>From the beginning of an octet on: \<open>k\<close> octets and \<open>r\<close> bits.\<close>

lemma encode_word_aligned_run:
  assumes "r < 8" "8 * k + r \<le> 64" "has_bits p (8 * j + (8 * k + r))"
  shows "\<exists>q. encode_word v (8 * j) (8 * k + r) p = (Ok (8 * j + (8 * k + r)), q) \<and>
     spliced p q (8 * j) (8 * k + r + padding (8 * k + r)) (push_bit (padding (8 * k + r)) v)"
proof -
  have "has_bits p (8 * (j + k))" using assms(3) by (simp add: has_bits_def)
  then obtain q where q: "encode_octets v r k j p = (Ok (j + k), q)" "spliced p q (8 * j) (8 * k) (drop_bit r v)"
    using encode_octets_splice by blast
  have start: "encode_head v (8 * j) (8 * k + r) p = (Ok (int (8 * k + r)), p)"
    by (simp add: encode_head_def run_simps)
  have parts: "nat (int (8 * k + r)) div 8 = k" "nat (int (8 * k + r)) mod 8 = r" "int (8 * k + r) mod 8 = int r" "nat (8 - int r) = 8 - r"
    using assms(1) by (simp_all only: nat_int) simp_all
  show ?thesis
  proof (cases "r = 0")
    case True
    then show ?thesis using q start parts
      by (simp add: encode_word_def run_simps Let_def)
  next
    case False
    let ?v = "push_bit (8 - r) v"
    have jk: "j + k < length q" using False assms(3) q(2) by (simp add: has_bits_def spliced_def)
    have "encode_word v (8 * j) (8 * k + r) p = (Ok (8 * j + (8 * k + r)), q[j + k := ucast ?v])"
      using q start parts False assms(1) jk by (simp add: encode_word_def run_simps Let_def)
    moreover have "8 * k \<le> 56" using assms(2) False by presburger
    then have "spliced p q (8 * j) (8 * k) (drop_bit 8 ?v)"
      by (intro spliced_cong [OF q(2)]) (use assms(1) in \<open>auto simp: bit_simps add.commute [of r]\<close>)
    then have "spliced p (q[j + k := ucast ?v]) (8 * j) (8 * k + 8) ?v"
      by (rule splice_append) (use splice_octet [OF jk, of ?v] in \<open>simp add: algebra_simps\<close>)
    moreover have "8 * k + r + padding (8 * k + r) = 8 * k + 8" using False assms(1) by (simp add: padding_last)
    ultimately show ?thesis using False assms(1) by (auto simp: padding_last)
  qed
qed

lemma encode_aligned_run:
  assumes "8 dvd b" "n \<le> 64" "has_bits p (b + n)"
  shows "\<exists>q. grib_encode_unsigned_long v b n p = (Ok (b + n), q) \<and> spliced p q b (n + padding n) (push_bit (padding n) v)"
proof -
  obtain j where j: "b = 8 * j" using assms(1) by (rule dvdE)
  have n: "n = 8 * (n div 8) + n mod 8" by simp
  show ?thesis
    using encode_word_aligned_run [of "n mod 8" "n div 8" p j v] assms n
    by (simp add: grib_encode_unsigned_long_def max_nbits_def j)
qed

lemma padding_octets: "n + padding n = 8 * ((n + 7) div 8)"
proof -
  obtain k r where n: "n = 8 * k + r" "r < 8" by (metis mod_less_divisor mult_div_mod_eq zero_less_numeral)
  show ?thesis
  proof (cases "r = 0")
    case False
    have "(8 * k + r + 7) div 8 = k + (r + 7) div 8" by simp
    also have "(r + 7) div 8 = 1" using False n(2) by simp
    finally show ?thesis using False n by (simp add: padding_last)
  qed (simp add: n)
qed

lemma padding_fits: "n \<le> 64 \<Longrightarrow> n + padding n \<le> 64"
  unfolding padding_octets by simp

lemma padded_bits: "has_bits p (b + n) \<Longrightarrow> 8 dvd b \<Longrightarrow> has_bits p (b + n + padding n)"
proof -
  assume a: "has_bits p (b + n)" "8 dvd b"
  obtain k where "b + (n + padding n) = 8 * k" using a(2) unfolding padding_octets by (metis dvd_add dvdE dvd_triv_left)
  moreover have "padding n < 8" by (simp add: padding_def)
  ultimately show "has_bits p (b + n + padding n)" using a(1) unfolding has_bits_def by presburger
qed

lemma drop_padding: "n + k \<le> 64 \<Longrightarrow> take_bit n (drop_bit k (push_bit k v)) = take_bit n v" for v :: ulong
  by (rule bit_word_eqI) (auto simp: bit_simps)

text \<open>C34. A number of at most 32 bits, written bit by bit at any position, is the number that is read
  there, and no other bit of the message changes; from 33 bits on the shift of an unsigned int is
  undefined, and more than 64 bits abort the process.\<close>

theorem longb_outcomes:
  assumes "has_bits p (b + n)"
  shows "(n \<le> 32 \<longrightarrow> (\<exists>q. grib_encode_unsigned_longb v b n p = (Ok (b + n), q) \<and>
            grib_decode_unsigned_long b n q = (Ok (take_bit n v, b + n), q) \<and> length q = length p \<and>
            (\<forall>i < 8 * length p. \<not> (b \<le> i \<and> i < b + n) \<longrightarrow> bit_at q i = bit_at p i))) \<and>
    (32 < n \<and> n \<le> 64 \<longrightarrow> grib_encode_unsigned_longb v b n p = (Crash, p)) \<and>
    (64 < n \<longrightarrow> grib_encode_unsigned_longb v b n p = (Exit 134, p))"
proof (intro conjI impI)
  assume n: "n \<le> 32"
  then obtain q where q: "grib_encode_unsigned_longb v b n p = (Ok (b + n), q)" "spliced p q b n v"
    using longb_run assms by blast
  then have "grib_decode_unsigned_long b n q = (Ok (take_bit n v, b + n), q)"
    using decode_run [of q b n] number_splice [OF q(2) assms] splice_bits [OF q(2)] assms n by simp
  with q show "\<exists>q. grib_encode_unsigned_longb v b n p = (Ok (b + n), q) \<and>
      grib_decode_unsigned_long b n q = (Ok (take_bit n v, b + n), q) \<and> length q = length p \<and>
      (\<forall>i < 8 * length p. \<not> (b \<le> i \<and> i < b + n) \<longrightarrow> bit_at q i = bit_at p i)"
    using splice_out [OF q(2)] by (auto simp: spliced_def)
next
  assume n: "32 < n \<and> n \<le> 64"
  then obtain m where "n = Suc m" "32 \<le> m" by (cases n) auto
  with n show "grib_encode_unsigned_longb v b n p = (Crash, p)"
    by (simp add: grib_encode_unsigned_longb_def max_nbits_def run_simps test_def)
qed (simp add: grib_encode_unsigned_longb_def max_nbits_def run_simps)

lemma longb_outcomes_witness:
  "(\<exists>q. grib_encode_unsigned_longb 5 6 3 [0xFF, 0xFF] = (Ok 9, q) \<and>
     grib_decode_unsigned_long 6 3 q = (Ok (take_bit 3 5, 9), q)) \<and>
   grib_encode_unsigned_longb 1 0 33 (replicate 5 0) = (Crash, replicate 5 0)"
  using longb_outcomes [of "[0xFF, 0xFF]" 6 3 5] longb_outcomes [of "replicate 5 0" 0 33 1]
  by (auto simp: has_bits_def)

text \<open>C35. At the beginning of an octet a number of up to 64 bits is written octet by octet and read
  again; the rest of the last octet is cleared, and no other bit of the message changes.\<close>

theorem aligned_number_round_trip:
  assumes "8 dvd b" "n \<le> 64" "has_bits p (b + n)"
  shows "\<exists>q. grib_encode_unsigned_long v b n p = (Ok (b + n), q) \<and>
     grib_decode_unsigned_long b n q = (Ok (take_bit n v, b + n), q) \<and> length q = length p \<and>
     (\<forall>i < 8 * length p. bit_at q i =
        (if b + n \<le> i \<and> i < b + 8 * ((n + 7) div 8) then False
         else if b \<le> i \<and> i < b + n then bit v (b + n - 1 - i) else bit_at p i))"
proof -
  obtain q where q: "grib_encode_unsigned_long v b n p = (Ok (b + n), q)"
      "spliced p q b (n + padding n) (push_bit (padding n) v)"
    using encode_aligned_run [OF assms] by blast
  have "number q b n 0 = take_bit n v"
    using number_splice_prefix [OF q(2) padded_bits [OF assms(3,1)]] drop_padding [OF padding_fits [OF assms(2)]] by simp
  then have "grib_decode_unsigned_long b n q = (Ok (take_bit n v, b + n), q)"
    using decode_run [of q b n] splice_bits [OF q(2)] assms by simp
  moreover have "bit_at q i =
        (if b + n \<le> i \<and> i < b + 8 * ((n + 7) div 8) then False
         else if b \<le> i \<and> i < b + n then bit v (b + n - 1 - i) else bit_at p i)" if "i < 8 * length p" for i
  proof -
    have e: "b + 8 * ((n + 7) div 8) = b + (n + padding n)" by (simp only: padding_octets)
    have "bit (push_bit (padding n) v) (b + (n + padding n) - 1 - i) \<longleftrightarrow> i < b + n \<and> bit v (b + n - 1 - i)"
      if "b \<le> i" "i < b + (n + padding n)"
      using that padding_fits [OF assms(2)] bit_imp_le_length [of v "b + n - 1 - i"]
      by (auto simp: bit_simps)
    then show ?thesis using q(2) that unfolding e spliced_def by auto
  qed
  ultimately show ?thesis using q by (auto simp: spliced_def)
qed

lemma aligned_number_round_trip_witness:
  "\<exists>q. grib_encode_unsigned_long 0x2A5 8 10 [1, 2, 3] = (Ok 18, q) \<and>
     grib_decode_unsigned_long 8 10 q = (Ok (take_bit 10 0x2A5, 18), q)"
  using aligned_number_round_trip [of 8 10 "[1, 2, 3]" "0x2A5"] by (auto simp: has_bits_def)

subsection \<open>Unsigned numbers that do not begin an octet\<close>

lemma encode_octets_over:
  "0 < k \<Longrightarrow> j < length p \<Longrightarrow> encode_octets v r k j (p[j := x]) = encode_octets v r k j p"
  by (cases k) (simp_all add: run_simps)

lemma shifted_out: "8 \<le> k \<Longrightarrow> (ucast (push_bit k v) :: byte) = 0" for v :: ulong
  by (rule bit_word_eqI) (auto simp: bit_simps)

lemma encode_head_run:
  assumes "0 < b mod 8" "b div 8 < length p"
  shows "\<exists>x. encode_head v b n p = (Ok (int n - int (8 - b mod 8)), p[b div 8 := x]) \<and>
    (n = 8 - b mod 8 \<longrightarrow> x = (ucast v OR (p ! (b div 8) AND dmasks ! (8 - b mod 8))) + 1)"
  using assms by (auto simp: encode_head_def Let_def run_simps)

text \<open>What follows a head that left \<open>m\<close> bits.\<close>

definition encode_rest :: "ulong \<Rightarrow> nat \<Rightarrow> nat \<Rightarrow> nat \<Rightarrow> nat bit_prog" where
  "encode_rest v m j c = bnd (encode_octets v (m mod 8) (m div 8) j) (\<lambda>j.
     seq (only_if (m mod 8 \<noteq> 0) (set_octet j (ucast (push_bit (8 - m mod 8) v)))) (ret c))"

lemma encode_word_rest:
  assumes "encode_head v b n p = (Ok (int m), q)"
  shows "encode_word v b n p = encode_rest v m (b div 8) (b + n) q"
proof -
  have parts: "nat (8 - int k) = 8 - k" "int m mod 8 = int (m mod 8)" for k by (simp_all add: zmod_int)
  show ?thesis
    by (simp add: encode_word_def bnd_run [of "encode_head v b n"] assms encode_rest_def Let_def parts del: of_nat_mod)
qed

lemma encode_over_head:
  assumes "0 < m" "has_bits p (8 * j + m)"
  shows "\<exists>q. encode_word v (8 * j) m p = (Ok (8 * j + m), q) \<and> encode_rest v m j c (p[j := x]) = (Ok c, q)"
proof -
  have jp: "j < length p" using assms by (simp add: has_bits_def)
  have bits: "has_bits p (8 * (j + m div 8))" using assms(2) by (simp add: has_bits_def)
  from encode_octets_splice [OF bits] obtain q where
    q: "encode_octets v (m mod 8) (m div 8) j p = (Ok (j + m div 8), q)" "length q = length p"
    unfolding spliced_def by blast
  have last: "m mod 8 \<noteq> 0 \<Longrightarrow> j + m div 8 < length p" using assms(2) unfolding has_bits_def by presburger
  have head: "encode_head v (8 * j) m p = (Ok (int m), p)" by (simp add: encode_head_def run_simps)
  show ?thesis
  proof (cases "0 < m div 8")
    case True
    then show ?thesis using q last jp
      by (cases "m mod 8 = 0") (simp_all add: encode_word_rest [OF head] encode_rest_def run_simps encode_octets_over)
  next
    case False
    then have "m div 8 = 0" "m mod 8 = m" by simp_all
    then show ?thesis using last jp assms(1) by (simp add: encode_word_rest [OF head] encode_rest_def run_simps)
  qed
qed

text \<open>C36. A number that does not begin an octet is not written: in the head of the function an octet is
  incremented where the pointer is meant. Within an octet all eight bits of it are cleared, up to the
  end of an octet the octet ends up one too large, and beyond it the rest of the number is written over the octet.\<close>

theorem unaligned_number_lost:
  assumes "0 < b mod 8" "n \<le> 64" "b div 8 < length p" "has_bits p (b + n)"
  shows "grib_encode_unsigned_long v b n p =
    (Ok (b + n),
     if n < 8 - b mod 8 then p[b div 8 := 0]
     else if n = 8 - b mod 8 then p[b div 8 := (ucast v OR (p ! (b div 8) AND dmasks ! (8 - b mod 8))) + 1]
     else snd (grib_encode_unsigned_long v (8 * (b div 8)) (n - (8 - b mod 8)) p))"
proof -
  let ?j = "b div 8" and ?h = "8 - b mod 8"
  obtain x where x: "encode_head v b n p = (Ok (int n - int ?h), p[?j := x])"
    "n = ?h \<longrightarrow> x = (ucast v OR (p ! ?j AND dmasks ! ?h)) + 1"
    using encode_head_run [OF assms(1,3)] by blast
  consider "n < ?h" | "n = ?h" | "?h < n" by linarith
  then show ?thesis
  proof cases
    case 1
    then have "nat (int n - int ?h) = 0" "int n - int ?h < 0" "8 \<le> nat (8 - (int n - int ?h))" by simp_all
    then show ?thesis using 1 x(1) assms
      by (simp add: grib_encode_unsigned_long_def max_nbits_def encode_word_def run_simps Let_def shifted_out)
  next
    case 2
    then show ?thesis using x assms
      by (simp add: grib_encode_unsigned_long_def max_nbits_def encode_word_def run_simps Let_def)
  next
    case 3
    let ?m = "n - ?h"
    have m: "0 < ?m" "int n - int ?h = int ?m" using 3 by simp_all
    have "b mod 8 < 8" by simp
    moreover have "8 * ?j + b mod 8 = b" by simp
    ultimately have "8 * ?j + ?m + 8 = b + n" using 3 by linarith
    then have bits: "has_bits p (8 * ?j + ?m)" using assms(4) unfolding has_bits_def by linarith
    from encode_over_head [OF m(1) bits] obtain q where
      q: "encode_word v (8 * ?j) ?m p = (Ok (8 * ?j + ?m), q)" "encode_rest v ?m ?j (b + n) (p[?j := x]) = (Ok (b + n), q)"
      by blast
    have "encode_head v b n p = (Ok (int ?m), p[?j := x])" using x(1) m(2) by simp
    from encode_word_rest [OF this] have "encode_word v b n p = (Ok (b + n), q)" using q(2) by simp
    moreover have "?m \<le> 64" using assms(2) by linarith
    ultimately show ?thesis using 3 q(1) assms(2) by (simp add: grib_encode_unsigned_long_def max_nbits_def)
  qed
qed

lemma unaligned_number_lost_witness:
  "grib_encode_unsigned_long 1 4 3 [0xAB] = (Ok 7, [0]) \<and>
   snd (grib_encode_unsigned_long 0x123 4 12 [0xAB, 0]) = snd (grib_encode_unsigned_long 0x123 0 8 [0xAB, 0])"
proof
  show "grib_encode_unsigned_long 1 4 3 [0xAB] = (Ok 7, [0])"
    by (subst unaligned_number_lost) (simp_all add: has_bits_def)
  show "snd (grib_encode_unsigned_long 0x123 4 12 [0xAB, 0]) = snd (grib_encode_unsigned_long 0x123 0 8 [0xAB, 0])"
    by (subst unaligned_number_lost) (simp_all add: has_bits_def)
qed

end
