(* ===== verification/BitArrays.thy ===== *)
theory BitArrays
  imports BitNumbers
begin

unbundle bit_operations_syntax

text \<open>
  Signed numbers and arrays of numbers, on what \<open>BitNumbers\<close> shows of one number.
\<close>

subsection \<open>Signed numbers\<close>

lemma small_word:
  assumes "0 \<le> a" "a < 2 ^ k" "k \<le> 64"
  shows "uint (word_of_int a :: ulong) = a" "take_bit k (word_of_int a :: ulong) = word_of_int a"
proof -
  have "a < 2 ^ 64" using assms(2,3) power_increasing [of k 64 "2::int"] by linarith
  then show u: "uint (word_of_int a :: ulong) = a" using assms(1) by (simp add: uint_word_of_int)
  have "uint (take_bit k (word_of_int a :: ulong)) = uint (word_of_int a :: ulong)"
    using assms(1,2) by (simp add: unsigned_take_bit_eq u take_bit_int_eq_self)
  then show "take_bit k (word_of_int a :: ulong) = word_of_int a" by (rule unsigned_word_eqI)
qed

lemma sint_small:
  assumes "0 \<le> a" "a < 2 ^ k" "k \<le> 63"
  shows "sint (word_of_int a :: ulong) = a"
proof -
  have "a < 2 ^ 63" using assms(2,3) power_increasing [of k 63 "2::int"] by linarith
  then have "signed_take_bit 63 a = a" using assms(1) by (simp add: signed_take_bit_int_eq_self)
  then show ?thesis using small_word(1) [of a k] assms by (simp add: sint_uint)
qed

lemma magnitude_run [run_simps]: "\<bar>v\<bar> < 2 ^ 63 \<Longrightarrow> magnitude v p = (Ok (word_of_int \<bar>v\<bar>), p)"
  by (auto simp: magnitude_def run_simps)

text \<open>A signed number, written with a sign bit and up to 32 bits of its absolute value at any
  position, is read again.\<close>

theorem signed_longb_round_trip:
  assumes "0 < n" "n \<le> 33" "\<bar>v\<bar> < 2 ^ (n - 1)" "has_bits p (b + n)"
  shows "\<exists>q. grib_encode_signed_longb v b n p = (Ok (b + n), q) \<and> grib_decode_signed_longb b n q = (Ok (v, b + n), q)"
proof -
  let ?p = "with_bit p b (v < 0)" and ?a = "word_of_int \<bar>v\<bar> :: ulong"
  have r: "has_bits p (b + 1)" "has_bits ?p (b + 1 + (n - 1))" using assms(1,4) by (simp_all add: has_bits_def)
  obtain q where q: "grib_encode_unsigned_longb ?a (b + 1) (n - 1) ?p = (Ok (b + 1 + (n - 1)), q)"
      "spliced ?p q (b + 1) (n - 1) ?a"
    using longb_run [OF _ r(2)] assms(2) by fastforce
  have bits: "has_bits q (b + 1 + (n - 1))" "has_bits q (b + 1)"
    using splice_bits [OF q(2)] r(2) by (simp_all add: has_bits_def)
  have "\<bar>v\<bar> < 2 ^ 63" using assms(2,3) power_increasing [of "n - 1" 63 "2::int"] by linarith
  then have "grib_encode_signed_longb v b n p = (Ok (b + n), q)"
    using q(1) assms(1,2) r(1) by (cases "v < 0") (simp_all add: grib_encode_signed_longb_def max_nbits_def run_simps)
  moreover have sign: "bit_at q b = (v < 0)"
    using splice_out [OF q(2), of b] with_bit_at [OF r(1), of "v < 0" b] r(1) by (simp add: has_bits_def)
  have "sint (number q (b + 1) (n - 1) 0) = \<bar>v\<bar>"
    using number_splice [OF q(2) r(2)] small_word(2) [of "\<bar>v\<bar>" "n - 1"] sint_small [of "\<bar>v\<bar>" "n - 1"] assms(2,3) by simp
  then have "grib_decode_signed_longb b n q = (Ok (v, b + n), q)"
    using decode_run [OF bits(1)] bits(2) sign assms(1,2)
    by (auto simp: grib_decode_signed_longb_def max_nbits_def run_simps)
  ultimately show ?thesis by blast
qed

lemma sign_octet:
  "q[j := q ! j OR 128] = with_bit q (8 * j) True"
  "with_bit q (8 * j) False = q[j := q ! j AND 0x7F]"
proof -
  have e: "(- 129 :: byte) = 127" by (rule unsigned_word_eqI) simp
  show "q[j := q ! j OR 128] = with_bit q (8 * j) True" by (simp add: with_bit_def)
  show "with_bit q (8 * j) False = q[j := q ! j AND 0x7F]" by (simp add: with_bit_def) (simp only: e)
qed

text \<open>The octets with the sign bit taken out hold the absolute value.\<close>

lemma unsigned_octets_run:
  assumes "has_bits q (8 * (j + l))" "0 < l"
  shows "more_octets (l - 1) (j + 1) (ucast (q ! j AND 0x7F)) q = (Ok (number (with_bit q (8 * j) False) (8 * j) (8 * l) 0, j + l), q)"
proof -
  let ?q = "with_bit q (8 * j) False"
  have j: "j < length q" using assms by (simp add: has_bits_def)
  have "number ?q (8 * j) (8 + 8 * (l - 1)) 0 = number ?q (8 * j + 8) (8 * (l - 1)) (number ?q (8 * j) 8 0)"
    by (rule number_add)
  also have "number ?q (8 * j) 8 0 = ucast (q ! j AND 0x7F)"
    using j octet_number [of 0 ?q j] by (simp add: sign_octet)
  also have "number ?q (8 * j + 8) (8 * (l - 1)) (ucast (q ! j AND 0x7F)) =
      number q (8 * j + 8) (8 * (l - 1)) (ucast (q ! j AND 0x7F))"
    by (rule number_same) (use j in \<open>simp add: with_bit_at has_bits_def\<close>)
  also have "8 + 8 * (l - 1) = 8 * l" using assms(2) by (cases l) simp_all
  finally show ?thesis
    using more_octets_run [of q "j + 1" "l - 1"] assms by (simp add: add.commute)
qed

text \<open>A signed number of one to eight whole octets (sign bit, then the absolute value) is read
  again where it was written.\<close>

theorem signed_long_round_trip:
  assumes "0 < l" "l \<le> 8" "\<bar>v\<bar> < 2 ^ (8 * l - 1)" "j + l \<le> length p"
  shows "\<exists>q. grib_encode_signed_long v j l p = (Ok (), q) \<and> grib_decode_signed_long j l q = (Ok v, q)"
proof -
  let ?a = "word_of_int \<bar>v\<bar> :: ulong"
  have r: "has_bits p (8 * (j + l))" using assms(4) by (simp add: has_bits_def)
  obtain q where q: "encode_octets ?a 0 l j p = (Ok (j + l), q)" "spliced p q (8 * j) (8 * l) ?a"
    using encode_octets_splice [OF r, of ?a 0] by auto
  let ?q = "if v < 0 then with_bit q (8 * j) True else q"
  have len: "length q = length p" "j < length q" using q(2) assms(1,4) by (simp_all add: spliced_def)
  have b: "\<bar>v\<bar> < 2 ^ 63" using assms(2,3) power_increasing [of "8 * l - 1" 63 "2::int"] by linarith
  then have written: "grib_encode_signed_long v j l p = (Ok (), ?q)"
    using q(1) assms(2) len by (simp add: grib_encode_signed_long_def max_nbits_def run_simps sign_octet)
  have room: "has_bits q (8 * j + 1)" "has_bits ?q (8 * j + 1)" using len by (simp_all add: has_bits_def)
  have small: "take_bit (8 * l - 1) ?a = ?a" "take_bit (8 * l) ?a = ?a" "sint ?a = \<bar>v\<bar>"
    using small_word(2) [of "\<bar>v\<bar>" "8 * l - 1"] small_word(2) [of "\<bar>v\<bar>" "8 * l"] sint_small [of "\<bar>v\<bar>" "8 * l - 1"]
      assms(2,3) power_increasing [of "8 * l - 1" "8 * l" "2::int"] by (simp_all, linarith+)
  have "\<not> bit (take_bit (8 * l - 1) ?a) (8 * l - 1)" by (simp add: bit_take_bit_iff)
  then have top: "\<not> bit_at q (8 * j)"
    using splice_in [OF q(2), of 0] small(1) assms(1,4) by simp
  have same: "bit_at (with_bit ?q (8 * j) False) i = bit_at q i" for i
    using top by (simp add: with_bit_at [OF room(2)] with_bit_at [OF room(1)])
  have "number (with_bit ?q (8 * j) False) (8 * j) (8 * l) 0 = number q (8 * j) (8 * l) 0"
    by (rule number_same) (rule same)
  also have "\<dots> = take_bit (8 * l) ?a" using number_splice [OF q(2)] r by simp
  finally have abs: "sint (number (with_bit ?q (8 * j) False) (8 * j) (8 * l) 0) = \<bar>v\<bar>" using small by simp
  have "bit (?q ! j) 7 = bit_at ?q (8 * j)" by (simp add: bit_at_def)
  also have "\<dots> = (v < 0)" using top by (simp add: with_bit_at [OF room(1)])
  finally have "grib_decode_signed_long j l ?q = (Ok v, ?q)"
    using unsigned_octets_run [of ?q j l] abs assms(1,2) len r
    by (auto simp: grib_decode_signed_long_def max_nbits_def run_simps has_bits_def)
  with written show ?thesis by blast
qed

subsection \<open>Arrays\<close>

text \<open>The \<open>n\<close> numbers of \<open>l\<close> bits from \<open>b\<close> on, and a stream into which numbers were spliced one after the other.\<close>

primrec numbers :: "byte list \<Rightarrow> nat \<Rightarrow> nat \<Rightarrow> nat \<Rightarrow> ulong list" where
  "numbers p b l 0 = []"
| "numbers p b l (Suc n) = number p b l 0 # numbers p (b + l) l n"

fun spliced_list :: "byte list \<Rightarrow> byte list \<Rightarrow> nat \<Rightarrow> nat \<Rightarrow> ulong list \<Rightarrow> bool" where
  "spliced_list p q b l [] = (q = p)"
| "spliced_list p q b l (v # vs) = (\<exists>p'. spliced p p' b l v \<and> spliced_list p' q (b + l) l vs)"

lemma spliced_list_out:
  "spliced_list p q b l vs \<Longrightarrow> length q = length p \<and> (\<forall>i < 8 * length p. i < b \<longrightarrow> bit_at q i = bit_at p i)"
proof (induction vs arbitrary: p b)
  case (Cons v vs)
  then obtain p' where p: "spliced p p' b l v" "spliced_list p' q (b + l) l vs" by auto
  then show ?case using Cons.IH [OF p(2)] by (auto simp: spliced_def)
qed simp

lemma numbers_spliced:
  "spliced_list p q b l vs \<Longrightarrow> has_bits p (b + l * length vs) \<Longrightarrow> numbers q b l (length vs) = map (take_bit l) vs"
proof (induction vs arbitrary: p b)
  case (Cons v vs)
  then obtain p' where p: "spliced p p' b l v" "spliced_list p' q (b + l) l vs" by auto
  have r: "has_bits p (b + l)" "has_bits p' (b + l + l * length vs)"
    using Cons.prems(2) splice_bits [OF p(1)] by (simp_all add: has_bits_def add.assoc)
  have "number q b l 0 = number p' b l 0"
    by (rule number_same) (use spliced_list_out [OF p(2)] r(2) in \<open>auto simp: has_bits_def\<close>)
  then show ?case using number_splice [OF p(1) r(1)] Cons.IH [OF p(2) r(2)] by simp
qed simp

lemma decode_bit_values_run:
  "has_bits p (b + l * n) \<Longrightarrow> decode_bit_values n l b p = (Ok (numbers p b l n, b + l * n), p)"
proof (induction n arbitrary: b)
  case (Suc n)
  have "has_bits p (b + l)" "has_bits p (b + l + l * n)" using Suc.prems by (simp_all add: has_bits_def add.assoc)
  then show ?case using Suc.IH [of "b + l"] by (simp add: run_simps decode_bits_run add.assoc)
qed (simp add: run_simps)

lemma decode_octet_values_run:
  "has_bits p (8 * (j + l * n)) \<Longrightarrow> 0 < l \<Longrightarrow> decode_octet_values n l j p = (Ok (numbers p (8 * j) (8 * l) n), p)"
proof (induction n arbitrary: j)
  case (Suc n)
  have "has_bits p (8 * (j + l))" "has_bits p (8 * (j + l + l * n))" using Suc.prems by (simp_all add: has_bits_def add.assoc)
  then show ?case using Suc.IH [of "j + l"] Suc.prems(2) by (simp add: run_simps decode_octets_run distrib_left)
qed (simp add: run_simps)

lemma encode_bit_values_run:
  "l \<le> 32 \<Longrightarrow> has_bits p (b + l * length vs) \<Longrightarrow>
   \<exists>q. encode_bit_values vs l b p = (Ok (b + l * length vs), q) \<and> spliced_list p q b l vs"
proof (induction vs arbitrary: b p)
  case (Cons v vs)
  have "has_bits p (b + l)" using Cons.prems(2) by (simp add: has_bits_def add.assoc)
  then obtain p' where p: "grib_encode_unsigned_longb v b l p = (Ok (b + l), p')" "spliced p p' b l v"
    using longb_run [OF Cons.prems(1)] by blast
  have "has_bits p' (b + l + l * length vs)" using Cons.prems(2) splice_bits [OF p(2)] by (simp add: add.assoc)
  from Cons.IH [OF Cons.prems(1) this] p show ?case by (auto simp: run_simps add.assoc)
qed (simp add: run_simps)

lemma encode_octet_values_run:
  "l \<le> 8 \<Longrightarrow> has_bits p (8 * (j + l * length vs)) \<Longrightarrow>
   \<exists>q. encode_octet_values vs l j p = (Ok (), q) \<and> spliced_list p q (8 * j) (8 * l) vs"
proof (induction vs arbitrary: j p)
  case (Cons v vs)
  have "has_bits p (8 * (j + l))" using Cons.prems(2) by (simp add: has_bits_def add.assoc)
  then obtain p' where p: "encode_octets v 0 l j p = (Ok (j + l), p')" "spliced p p' (8 * j) (8 * l) v"
    using encode_octets_splice [of p j l v 0] by auto
  have "has_bits p' (8 * (j + l + l * length vs))" using Cons.prems(2) splice_bits [OF p(2)] by (simp add: add.assoc)
  from Cons.IH [OF Cons.prems(1) this] p Cons.prems(1) show ?case by (auto simp: run_simps distrib_left)
qed (simp add: run_simps)

text \<open>Widths that the coders of arrays support: up to 32 bits, or whole octets.\<close>

definition width_ok :: "nat \<Rightarrow> bool" where
  "width_ok l \<longleftrightarrow> 0 < l \<and> l \<le> 64 \<and> (l \<le> 32 \<or> 8 dvd l)"

lemma encode_long_array_run:
  assumes "width_ok l" "has_bits p (l * length vs)"
  shows "\<exists>q. grib_encode_long_array vs l 0 p = (Ok (l * length vs), q) \<and> spliced_list p q 0 l vs"
proof (cases "8 dvd l")
  case True
  then obtain k where k: "l = 8 * k" by (rule dvdE)
  then show ?thesis using encode_octet_values_run [of k p 0 vs] assms
    by (auto simp: grib_encode_long_array_def run_simps width_ok_def mult.assoc)
next
  case False
  then show ?thesis using encode_bit_values_run [of l p 0 vs] assms
    by (auto simp: grib_encode_long_array_def width_ok_def dvd_eq_mod_eq_0)
qed

lemma decode_long_array_run:
  assumes "0 < l" "has_bits p (l * n)"
  shows "grib_decode_long_array 0 l n p = (Ok (numbers p 0 l n, l * n), p)"
proof (cases "8 dvd l")
  case True
  then obtain k where k: "l = 8 * k" by (rule dvdE)
  then show ?thesis using decode_octet_values_run [of p 0 k n] assms
    by (simp add: grib_decode_long_array_def run_simps mult.assoc)
next
  case False
  then show ?thesis using decode_bit_values_run [of p 0 l n] assms
    by (simp add: grib_decode_long_array_def dvd_eq_mod_eq_0)
qed

text \<open>An array of numbers, written from the beginning of the octets in numbers of the same width,
  is read again, whatever was in the octets: the bits of every number up to that width.\<close>

theorem long_array_round_trip:
  assumes "width_ok l" "l * length vs \<le> 8 * length p"
  shows "\<exists>q. grib_encode_long_array vs l 0 p = (Ok (l * length vs), q) \<and>
    grib_decode_long_array 0 l (length vs) q = (Ok (map (take_bit l) vs, l * length vs), q)"
proof -
  have r: "has_bits p (l * length vs)" using assms(2) by (simp add: has_bits_def)
  from encode_long_array_run [OF assms(1) r] obtain q where
    q: "grib_encode_long_array vs l 0 p = (Ok (l * length vs), q)" "spliced_list p q 0 l vs" by blast
  have "has_bits q (l * length vs)" using spliced_list_out [OF q(2)] r by (simp add: has_bits_def)
  then show ?thesis using q decode_long_array_run [of l q "length vs"] numbers_spliced [OF q(2)] r assms(1)
    by (auto simp: width_ok_def)
qed

subsection \<open>Packed doubles\<close>

text \<open>Each double has a code, and packing the doubles is writing their codes.\<close>

definition has_codes :: "(cdouble \<Rightarrow> ulong bit_prog) \<Rightarrow> cdouble list \<Rightarrow> ulong list \<Rightarrow> bool" where
  "has_codes code xs cs \<longleftrightarrow> list_all2 (\<lambda>x c. code x = ret c) xs cs"

lemma has_codes_simps [simp]:
  "has_codes code [] cs \<longleftrightarrow> cs = []"
  "has_codes code (x # xs) (c # cs) \<longleftrightarrow> code x = ret c \<and> has_codes code xs cs"
  by (simp_all add: has_codes_def)

lemma pack_codes:
  assumes "has_codes code xs cs"
  shows "encode_bit_doubles xs code l b = encode_bit_values cs l b"
    "encode_octet_doubles xs code k j = encode_octet_values cs k j"
proof -
  have "list_all2 (\<lambda>x c. code x = ret c) xs cs" using assms by (simp add: has_codes_def)
  then have "encode_bit_doubles xs code l = encode_bit_values cs l \<and>
      encode_octet_doubles xs code k = encode_octet_values cs k"
    by induction (auto simp: ret_bnd intro!: ext)
  then show "encode_bit_doubles xs code l b = encode_bit_values cs l b"
    "encode_octet_doubles xs code k j = encode_octet_values cs k j" by simp_all
qed

lemma grib_encode_double_array_codes:
  assumes "has_codes (code_of r d f) xs cs"
  shows "grib_encode_double_array xs l r d f b = grib_encode_long_array cs l b"
proof -
  have "length xs = length cs" using assms by (simp add: has_codes_def list_all2_lengthD)
  then show ?thesis using pack_codes [OF assms] by (simp add: grib_encode_double_array_def grib_encode_long_array_def)
qed

definition decoded :: "cdouble \<Rightarrow> cdouble \<Rightarrow> cdouble \<Rightarrow> ulong \<Rightarrow> cdouble" where
  "decoded r s d c = dmul (dadd (dmul (rnd (of_int (uint c))) s) r) d"

lemma decode_double_array_run:
  assumes "0 < l" "has_bits p (l * n)"
  shows "grib_decode_double_array 0 l r s d n p =
    (Ok (map (decoded r s d) (numbers p 0 l n), if 8 dvd l then 0 else l * n), p)"
proof (cases "8 dvd l")
  case True
  then obtain k where k: "l = 8 * k" by (rule dvdE)
  then show ?thesis using decode_octet_values_run [of p 0 k n] assms
    by (simp add: grib_decode_double_array_def run_simps mult.assoc decoded_def)
next
  case False
  then show ?thesis using decode_bit_values_run [of p 0 l n] assms
    by (simp add: grib_decode_double_array_def run_simps dvd_eq_mod_eq_0 decoded_def)
qed



end
