(* ===== verification/FloatCoding.thy ===== *)
theory FloatCoding
  imports BitCoding
begin

unbundle bit_operations_syntax

text \<open>
  The 32-bit floats of the two editions of GRIB: IBM floats (\<open>src/grib-api/src/grib_ibmfloat.c\<close>) and
  IEEE floats (\<open>grib_ieeefloat.c\<close>, the code under \<open>#if 1\<close>). Each file has its own table of the powers of
  the base, which is filled when it is first needed and is the state of the procedures. Where the two
  files have the same text but for the constants, a definition has these as arguments.
\<close>

record float_table =
  inited :: bool
  e_table :: "cdouble list"
  v_table :: "cdouble list"
  vmin :: cdouble
  vmax :: cdouble

type_synonym 'a float_prog = "(float_table, 'a) prog"

text \<open>The static tables: \<open>{0,{0,},{0,}}\<close>.\<close>

definition ibm_table :: float_table where
  "ibm_table = \<lparr>inited = False, e_table = replicate 128 (Fin 0), v_table = replicate 128 (Fin 0), vmin = Fin 0, vmax = Fin 0\<rparr>"

definition ieee_table :: float_table where
  "ieee_table = \<lparr>inited = False, e_table = replicate 255 (Fin 0), v_table = replicate 255 (Fin 0), vmin = Fin 0, vmax = Fin 0\<rparr>"

subsection \<open>The tables\<close>

definition set_entry :: "nat \<Rightarrow> cdouble \<Rightarrow> cdouble \<Rightarrow> unit float_prog" where
  "set_entry j e v = bnd (rd (\<lambda>t. j < length (e_table t) \<and> j < length (v_table t))) (\<lambda>ok.
     if ok then upd (\<lambda>t. t\<lparr>e_table := (e_table t)[j := e], v_table := (v_table t)[j := v]\<rparr>) else crash)"

text \<open>\<open>for (i=...) { e = op(e); e_table[idx(i)] = e; v_table[idx(i)] = e*mmin; }\<close>, \<open>n\<close> rounds from \<open>i\<close> on.\<close>

primrec fill :: "(cdouble \<Rightarrow> cdouble) \<Rightarrow> (nat \<Rightarrow> nat) \<Rightarrow> cdouble \<Rightarrow> nat \<Rightarrow> nat \<Rightarrow> cdouble \<Rightarrow> unit float_prog" where
  "fill opr idx mmin 0 i e = ret ()"
| "fill opr idx mmin (Suc n) i e = seq (set_entry (idx i) (opr e) (dmul (opr e) mmin)) (fill opr idx mmin n (i + 1) (opr e))"

definition entry :: "(float_table \<Rightarrow> cdouble list) \<Rightarrow> nat \<Rightarrow> cdouble float_prog" where
  "entry f j = bnd (rd f) (\<lambda>xs. cell xs j)"

definition init_ibm_table :: "unit float_prog" where
  "init_ibm_table = bnd (rd inited) (\<lambda>done. only_if (\<not> done) (
     let mmin = Fin 0x100000; mmax = Fin 0xffffff in
     seq (fill (\<lambda>e. dmul e (Fin 16)) (\<lambda>i. i + 70) mmin 57 1 (Fin 1)) (
     seq (set_entry 70 (Fin 1) mmin) (
     seq (fill (\<lambda>e. ddiv e (Fin 16)) (\<lambda>i. 70 - i) mmin 70 1 (Fin 1)) (
     bnd (entry v_table 0) (\<lambda>v.
     seq (upd (\<lambda>t. t\<lparr>vmin := v\<rparr>)) (
     bnd (entry e_table 127) (\<lambda>e.
     upd (\<lambda>t. t\<lparr>vmax := dmul e mmax, inited := True\<rparr>)))))))))"

definition init_ieee_table :: "unit float_prog" where
  "init_ieee_table = bnd (rd inited) (\<lambda>done. only_if (\<not> done) (
     let mmin = Fin 0x800000; mmax = Fin 0xffffff in
     seq (fill (\<lambda>e. dmul e (Fin 2)) (\<lambda>i. i + 150) mmin 104 1 (Fin 1)) (
     seq (set_entry 150 (Fin 1) mmin) (
     seq (fill (\<lambda>e. ddiv e (Fin 2)) (\<lambda>i. 150 - i) mmin 149 1 (Fin 1)) (
     bnd (entry v_table 1) (\<lambda>v.
     seq (upd (\<lambda>t. t\<lparr>vmin := v\<rparr>)) (
     bnd (entry e_table 254) (\<lambda>e.
     upd (\<lambda>t. t\<lparr>vmax := dmul e mmax, inited := True\<rparr>)))))))))"

definition grib_ibm_table_e :: "nat \<Rightarrow> cdouble float_prog" where
  "grib_ibm_table_e e = seq init_ibm_table (entry e_table e)"

definition grib_ibm_table_v :: "nat \<Rightarrow> cdouble float_prog" where
  "grib_ibm_table_v e = seq init_ibm_table (entry v_table e)"

definition grib_ieee_table_e :: "nat \<Rightarrow> cdouble float_prog" where
  "grib_ieee_table_e e = seq init_ieee_table (entry e_table e)"

definition grib_ieee_table_v :: "nat \<Rightarrow> cdouble float_prog" where
  "grib_ieee_table_v e = seq init_ieee_table (entry v_table e)"

subsection \<open>Searching the table\<close>

function binary_search :: "cdouble list \<Rightarrow> cdouble \<Rightarrow> nat \<Rightarrow> nat \<Rightarrow> ('s, nat) prog" where
  "binary_search xx x jl ju =
     (if 1 < ju - jl then
        (let jm = (ju + jl) div 2 in
         if jm < length xx then
           (if dleq (xx ! jm) x then binary_search xx x jm ju else binary_search xx x jl jm)
         else crash)
      else ret jl)"
  by pat_completeness auto

termination
  by (relation "measure (\<lambda>(xx, x, jl, ju). ju - jl)") auto

declare binary_search.simps [simp del]

subsection \<open>A double as a 32-bit float\<close>

text \<open>
  \<open>while(x < mmin) { x *= base; e--; }\<close> and \<open>while(x > rmmax) { x /= base; e++; }\<close>, where \<open>e\<close> is an
  unsigned long that wraps. The fuel is more than the rounds any finite double needs.
\<close>

definition scale_fuel :: nat where
  "scale_fuel = 1100"

primrec scale_up :: "cdouble \<Rightarrow> nat \<Rightarrow> cdouble \<Rightarrow> ulong \<Rightarrow> ('s, cdouble \<times> ulong) prog" where
  "scale_up base 0 x e = stuck"
| "scale_up base (Suc f) x e = (if dless x (Fin 0x800000) then scale_up base f (dmul x base) (e - 1) else ret (x, e))"

primrec scale_down :: "cdouble \<Rightarrow> nat \<Rightarrow> cdouble \<Rightarrow> ulong \<Rightarrow> ('s, cdouble \<times> ulong) prog" where
  "scale_down base 0 x e = stuck"
| "scale_down base (Suc f) x e = (if dless (Fin (0xffffff + 1 / 2)) x then scale_down base f (ddiv x base) (e + 1) else ret (x, e))"

text \<open>
  \<open>n\<close> is the bound of the search, \<open>shift\<close> the position of the exponent and \<open>fraction\<close> what is kept
  of the mantissa. A value above the largest aborts the process.
\<close>

definition float_to_long :: "cdouble \<Rightarrow> nat \<Rightarrow> nat \<Rightarrow> (ulong \<Rightarrow> ulong) \<Rightarrow> cdouble \<Rightarrow> ulong float_prog" where
  "float_to_long base n shift fraction x = bnd (rd (\<lambda>t. t)) (\<lambda>t.
     let s = (if dless x (Fin 0) then 1 else 0); x = (if dless x (Fin 0) then dneg x else x) in
     if dless x (vmin t) then ret (push_bit 31 s)
     else if dless (vmax t) x then exit_with 134
     else bnd (binary_search (v_table t) x 0 n) (\<lambda>j.
          bnd (entry e_table j) (\<lambda>ej.
          bnd (scale_up base scale_fuel (ddiv x ej) (of_nat j)) (\<lambda>(x, e).
          bnd (scale_down base scale_fuel x e) (\<lambda>(x, e).
          bnd (to_ulong (dadd x (Fin (1 / 2)))) (\<lambda>m.
          let (e, m) = (if 0xffffff < m then (e + 1, 0x800000) else (e, m)) in
          ret (push_bit 31 s OR push_bit shift e OR fraction m)))))))"

definition grib_ibm_to_long :: "cdouble \<Rightarrow> ulong float_prog" where
  "grib_ibm_to_long x = seq init_ibm_table (float_to_long (Fin 16) 127 24 (\<lambda>m. m) x)"

definition grib_ieee_to_long :: "cdouble \<Rightarrow> ulong float_prog" where
  "grib_ieee_to_long x = seq init_ieee_table (float_to_long (Fin 2) 254 23 (\<lambda>m. m AND 0x7fffff) x)"

subsection \<open>A 32-bit float as a double\<close>

definition grib_long_to_ibm :: "ulong \<Rightarrow> cdouble float_prog" where
  "grib_long_to_ibm x =
     (let s = x AND 0x80000000; c = drop_bit 24 (x AND 0x7f000000); m = x AND 0x00ffffff in
      seq init_ibm_table (
      if c = 0 \<and> m \<le> 1 then ret (Fin 0)
      else bnd (entry e_table (unat c)) (\<lambda>e.
           let val = dmul (rnd (of_int (uint m))) e in
           ret (if s \<noteq> 0 then dneg val else val))))"

definition grib_long_to_ieee :: "ulong \<Rightarrow> cdouble float_prog" where
  "grib_long_to_ieee x =
     (let s = x AND 0x80000000; c = drop_bit 23 (x AND 0x7f800000); m = x AND 0x007fffff in
      seq init_ieee_table (
      if c = 0 \<and> m = 0 then ret (Fin 0)
      else let (c, m) = (if c = 0 then (1, m OR 0x800000) else (c, m OR 0x800000)) in
           bnd (entry e_table (unat c)) (\<lambda>e.
           let val = dmul (rnd (of_int (uint m))) e in
           ret (if s \<noteq> 0 then dneg val else val))))"

subsection \<open>The step between floats of a size\<close>

definition grib_ibmfloat_error :: "cdouble \<Rightarrow> cdouble float_prog" where
  "grib_ibmfloat_error x = seq init_ibm_table (bnd (rd (\<lambda>t. t)) (\<lambda>t.
     let x = (if dless x (Fin 0) then dneg x else x) in
     if dleq x (vmin t) then ret (vmin t)
     else if dless (vmax t) x then exit_with 134
     else bnd (binary_search (v_table t) x 0 127) (entry e_table)))"

definition grib_ieeefloat_error :: "cdouble \<Rightarrow> cdouble float_prog" where
  "grib_ieeefloat_error x = seq init_ieee_table (bnd (rd (\<lambda>t. t)) (\<lambda>t.
     let x = (if dless x (Fin 0) then dneg x else x) in
     if dless x (vmin t) then ret (vmin t)
     else if dless (vmax t) x then exit_with 134
     else bnd (binary_search (v_table t) x 0 254) (entry e_table)))"

subsection \<open>The next float that is not larger\<close>

text \<open>Where the exponent is an unsigned long that may have wrapped below zero, it is larger than any bound.\<close>

definition grib_ibm_nearest_smaller_to_long :: "cdouble \<Rightarrow> ulong float_prog" where
  "grib_ibm_nearest_smaller_to_long x =
     (if deq x (Fin 0) then ret 0 else
      seq init_ibm_table (
      bnd (grib_ibm_to_long x) (\<lambda>l.
      bnd (grib_long_to_ibm l) (\<lambda>y.
      bnd (rd vmin) (\<lambda>vm.
      bnd (if dless x y then
             (if dless x (Fin 0) \<and> dless (dneg x) vm then ret (0x80100000, Fin 0)
              else let e = drop_bit 24 (l AND 0x7f000000); m = l AND 0x00ffffff; s = l AND 0x80000000;
                       e = (if m = 0x100000 then (let e = (if s \<noteq> 0 then e else e - 1) in if 127 < e then 127 else e) else e) in
                   bnd (entry e_table (unat e)) (\<lambda>eps.
                   bnd (grib_ibm_to_long (dsub y eps)) (\<lambda>l. ret (l, eps))))
           else ret (l, Fin 0)) (\<lambda>(l, eps).
      bnd (grib_long_to_ibm l) (\<lambda>z.
      if dless x z then
        bnd (grib_ibm_to_long (dsub x eps)) (\<lambda>l.
        bnd (grib_long_to_ibm l) (\<lambda>z. if dless x z \<and> \<not> dleq z x then exit_with 134 else ret l))
      else ret l)))))))"

definition grib_nearest_smaller_ibm_float :: "cdouble \<Rightarrow> (int \<times> cdouble option) float_prog" where
  "grib_nearest_smaller_ibm_float a = seq init_ibm_table (
     bnd (rd vmax) (\<lambda>vm.
     if dless vm a then ret (- 2, None)
     else bnd (grib_ibm_nearest_smaller_to_long a) (\<lambda>l. bnd (grib_long_to_ibm l) (\<lambda>x. ret (0, Some x)))))"

definition grib_ieee_nearest_smaller_to_long :: "cdouble \<Rightarrow> ulong float_prog" where
  "grib_ieee_nearest_smaller_to_long x =
     (if deq x (Fin 0) then ret 0 else
      seq init_ieee_table (
      bnd (grib_ieee_to_long x) (\<lambda>l.
      bnd (grib_long_to_ieee l) (\<lambda>y.
      bnd (rd vmin) (\<lambda>vm.
      if dless x y then
        bnd (if dless x (Fin 0) \<and> dless (dneg x) vm then ret 0x80800000
             else let e = drop_bit 23 (l AND 0x7f800000); m = (l AND 0x007fffff) OR 0x800000; s = l AND 0x80000000;
                      e = (if m = 0x800000
                           then (let e = (if s \<noteq> 0 then e else e - 1); e = (if e < 1 then 1 else e) in if 254 < e then 254 else e)
                           else e) in
                  bnd (entry e_table (unat e)) (\<lambda>eps. grib_ieee_to_long (dsub y eps))) (\<lambda>l.
        bnd (grib_long_to_ieee l) (\<lambda>z. if dless x z \<and> \<not> dleq z x then exit_with 134 else ret l))
      else ret l)))))"

definition grib_nearest_smaller_ieee_float :: "cdouble \<Rightarrow> (int \<times> cdouble option) float_prog" where
  "grib_nearest_smaller_ieee_float a = seq init_ieee_table (
     bnd (rd vmax) (\<lambda>vm.
     if dless vm a then ret (- 2, None)
     else bnd (grib_ieee_nearest_smaller_to_long a) (\<lambda>l. bnd (grib_long_to_ieee l) (\<lambda>x. ret (0, Some x)))))"

end
