(* ===== verification/FloatTables.thy ===== *)
theory FloatTables
  imports FloatCoding
begin

unbundle bit_operations_syntax

text \<open>
  The tables of the float coders are what they are meant to be: the powers of the base, exactly; and
  the arithmetic of the coders on them is exact.
\<close>

subsection \<open>Multiples of powers of two\<close>

lemma rnd_dyadic:
  "\<bar>m\<bar> < 2 ^ 53 \<Longrightarrow> - 1074 \<le> q \<Longrightarrow> q \<le> 970 \<Longrightarrow> rnd (of_int m * 2 powi q) = Fin (of_int m * 2 powi q)"
  by (rule rnd_short [of q "\<bar>m\<bar>"]) (auto simp: short_def)

lemma dmul_dyadic:
  assumes "\<bar>m\<bar> < 2 ^ 53" "- 1074 \<le> q + k" "q + k \<le> 970" "m \<noteq> 0"
  shows "dmul (Fin (of_int m * 2 powi q)) (Fin (2 powi k)) = Fin (of_int m * 2 powi (q + k))"
  using rnd_dyadic [OF assms(1-3)] assms(4) by (simp add: dmul_def power_int_add mult.assoc)

lemma ddiv_dyadic:
  assumes "\<bar>m\<bar> < 2 ^ 53" "- 1074 \<le> q - k" "q - k \<le> 970" "m \<noteq> 0"
  shows "ddiv (Fin (of_int m * 2 powi q)) (Fin (2 powi k)) = Fin (of_int m * 2 powi (q - k))"
  using rnd_dyadic [OF assms(1-3)] assms(4) by (simp add: ddiv_def power_int_diff)

lemma powers_dyadic:
  assumes "- 1000 \<le> q" "q \<le> 900" "0 \<le> k" "k \<le> 4"
  shows "dmul (Fin (2 powi q)) (Fin (2 powi k)) = Fin (2 powi (q + k))"
    "ddiv (Fin (2 powi q)) (Fin (2 powi k)) = Fin (2 powi (q - k))"
  using dmul_dyadic [of 1 q k] ddiv_dyadic [of 1 q k] assms by simp_all

lemma times_dyadic:
  assumes "0 < m" "m < 2 ^ 53" "- 1074 \<le> q" "q \<le> 970"
  shows "dmul (Fin (2 powi q)) (Fin (of_int m)) = Fin (of_int m * 2 powi q)"
  using rnd_dyadic [of m q] assms by (simp add: dmul_def mult.commute)

subsection \<open>Filling a table\<close>

lemma set_entry_run [run_simps]:
  "j < length (e_table t) \<Longrightarrow> j < length (v_table t) \<Longrightarrow>
   set_entry j e v t = (Ok (), t\<lparr>e_table := (e_table t)[j := e], v_table := (v_table t)[j := v]\<rparr>)"
  by (simp add: set_entry_def run_simps)

lemma entry_run [run_simps]: "j < length (f t) \<Longrightarrow> entry f j t = (Ok (f t ! j), t)"
  by (simp add: entry_def run_simps)

definition updates :: "(nat \<Rightarrow> nat) \<Rightarrow> (nat \<Rightarrow> cdouble) \<Rightarrow> nat list \<Rightarrow> cdouble list \<Rightarrow> cdouble list" where
  "updates idx h ks xs = foldl (\<lambda>xs k. xs[idx k := h k]) xs ks"

lemma updates_simps [simp]:
  "updates idx h [] xs = xs" "updates idx h (k # ks) xs = updates idx h ks (xs[idx k := h k])"
  by (simp_all add: updates_def)

lemma length_updates [simp]: "length (updates idx h ks xs) = length xs"
  by (induction ks arbitrary: xs) simp_all

lemma nth_updates_other: "(\<And>k. k \<in> set ks \<Longrightarrow> idx k \<noteq> j) \<Longrightarrow> updates idx h ks xs ! j = xs ! j"
proof (induction ks arbitrary: xs)
  case (Cons k ks)
  then have "updates idx h ks (xs[idx k := h k]) ! j = xs[idx k := h k] ! j" by simp
  with Cons.prems [of k] show ?case by simp
qed simp

lemma nth_updates:
  "k \<in> set ks \<Longrightarrow> inj_on idx (set ks) \<Longrightarrow> idx k < length xs \<Longrightarrow> updates idx h ks xs ! idx k = h k"
proof (induction ks arbitrary: xs)
  case (Cons c ks)
  show ?case
  proof (cases "k \<in> set ks")
    case True
    then show ?thesis using Cons by simp
  next
    case False
    then have c: "c = k" using Cons.prems(1) by simp
    have "idx i \<noteq> idx k" if "i \<in> set ks" for i
      using Cons.prems(2) that False c by (auto simp: inj_on_def)
    then show ?thesis using nth_updates_other [of ks idx "idx k" h "xs[idx c := h c]"] c Cons.prems(3) by simp
  qed
qed simp

text \<open>A loop fills the places of its indices with the values \<open>g\<close>.\<close>

lemma fill_run:
  assumes "\<And>k. i \<le> k \<Longrightarrow> k < i + n \<Longrightarrow> opr (Fin (g k)) = Fin (g (Suc k)) \<and> dmul (Fin (g (Suc k))) (Fin mm) = Fin (g (Suc k) * mm) \<and>
     idx (Suc k) < length (e_table t) \<and> idx (Suc k) < length (v_table t)"
  shows "fill opr idx (Fin mm) n (Suc i) (Fin (g i)) t =
    (Ok (), t\<lparr>e_table := updates idx (\<lambda>k. Fin (g k)) [Suc i..<Suc i + n] (e_table t),
              v_table := updates idx (\<lambda>k. Fin (g k * mm)) [Suc i..<Suc i + n] (v_table t)\<rparr>)"
  using assms
proof (induction n arbitrary: i t)
  case 0
  then show ?case by (simp add: run_simps)
next
  case (Suc n)
  let ?t = "t\<lparr>e_table := (e_table t)[idx (Suc i) := Fin (g (Suc i))], v_table := (v_table t)[idx (Suc i) := Fin (g (Suc i) * mm)]\<rparr>"
  have "[Suc i..<Suc i + Suc n] = Suc i # [Suc (Suc i)..<Suc (Suc i) + n]" by (subst upt_conv_Cons) simp_all
  moreover have "fill opr idx (Fin mm) n (Suc (Suc i)) (Fin (g (Suc i))) ?t =
    (Ok (), ?t\<lparr>e_table := updates idx (\<lambda>k. Fin (g k)) [Suc (Suc i)..<Suc (Suc i) + n] (e_table ?t),
              v_table := updates idx (\<lambda>k. Fin (g k * mm)) [Suc (Suc i)..<Suc (Suc i) + n] (v_table ?t)\<rparr>)"
    by (rule Suc.IH) (use Suc.prems in auto)
  ultimately show ?case using Suc.prems [of i] by (simp add: run_simps del: upt_Suc)
qed

subsection \<open>The tables that were filled\<close>

definition powers :: "int \<Rightarrow> int \<Rightarrow> int \<Rightarrow> nat \<Rightarrow> cdouble" where
  "powers w b k i = Fin (2 powi (w * (int i - b) + k))"

definition ibm_ready :: float_table where
  "ibm_ready = \<lparr>inited = True, e_table = map (powers 4 70 0) [0..<128], v_table = map (powers 4 70 20) [0..<128],
     vmin = Fin (2 powi (- 260)), vmax = Fin (0xffffff * 2 powi 228)\<rparr>"

definition ieee_ready :: float_table where
  "ieee_ready = \<lparr>inited = True, e_table = map (\<lambda>j. if 1 \<le> j then powers 1 150 0 j else Fin 0) [0..<255],
     v_table = map (\<lambda>j. if 1 \<le> j then powers 1 150 23 j else Fin 0) [0..<255],
     vmin = Fin (2 powi (- 126)), vmax = Fin (0xffffff * 2 powi 104)\<rparr>"

lemma nth_both_sides:
  assumes "n \<le> b" "b + m < length xs"
  shows "updates (\<lambda>i. b - i) h [1..<Suc n] ((updates (\<lambda>i. i + b) g [1..<Suc m] xs)[b := x]) ! j =
    (if b - n \<le> j \<and> j < b then h (b - j) else if j = b then x
     else if b < j \<and> j \<le> b + m then g (j - b) else xs ! j)"
proof -
  let ?u = "updates (\<lambda>i. i + b) g [1..<Suc m] xs"
  have up: "?u ! j = (if b < j \<and> j \<le> b + m then g (j - b) else xs ! j)"
  proof (cases "b < j \<and> j \<le> b + m")
    case True
    then have "j - b \<in> set [1..<Suc m]" "(j - b) + b = j" by auto
    then show ?thesis using True nth_updates [of "j - b" "[1..<Suc m]" "\<lambda>i. i + b" xs g] assms(2) by (auto simp: inj_on_def)
  next
    case False
    have "k + b \<noteq> j" if "k \<in> set [1..<Suc m]" for k using False that by auto
    then show ?thesis using False nth_updates_other [of "[1..<Suc m]" "\<lambda>i. i + b" j g xs] by (auto simp del: upt_Suc)
  qed
  show ?thesis
  proof (cases "b - n \<le> j \<and> j < b")
    case True
    then have "b - j \<in> set [1..<Suc n]" "b - (b - j) = j" by auto
    moreover have "inj_on (\<lambda>i. b - i) (set [1..<Suc n])" using assms(1) by (auto simp: inj_on_def)
    ultimately show ?thesis using True nth_updates [of "b - j" "[1..<Suc n]" "\<lambda>i. b - i" "?u[b := x]" h] assms by simp
  next
    case False
    have "b - k \<noteq> j" if "k \<in> set [1..<Suc n]" for k using False that assms(1) by auto
    then have "updates (\<lambda>i. b - i) h [1..<Suc n] (?u[b := x]) ! j = ?u[b := x] ! j" by (rule nth_updates_other)
    then show ?thesis using False up assms by (cases "j = b") auto
  qed
qed

lemma powers_at: "powers w b k (b' + j) = Fin (2 powi (w * (int b' + int j - b) + k))"
  by (simp add: powers_def)

text \<open>Both loops, whatever the power of two that is the base.\<close>

lemma fill_powers:
  assumes "0 < mm" "mm < 2 ^ 24" "0 \<le> w" "w \<le> 4" "w * int n \<le> 300"
    "\<And>k. k < n \<Longrightarrow> idx (Suc k) < length (e_table t) \<and> idx (Suc k) < length (v_table t)"
  shows "fill (\<lambda>e. dmul e (Fin (2 powi w))) idx (Fin (of_int mm)) n 1 (Fin 1) t =
    (Ok (), t\<lparr>e_table := updates idx (\<lambda>k. Fin (2 powi (w * int k))) [1..<Suc n] (e_table t),
       v_table := updates idx (\<lambda>k. Fin (2 powi (w * int k) * of_int mm)) [1..<Suc n] (v_table t)\<rparr>)" (is ?up)
  and "fill (\<lambda>e. ddiv e (Fin (2 powi w))) idx (Fin (of_int mm)) n 1 (Fin 1) t =
    (Ok (), t\<lparr>e_table := updates idx (\<lambda>k. Fin (2 powi (- (w * int k)))) [1..<Suc n] (e_table t),
       v_table := updates idx (\<lambda>k. Fin (2 powi (- (w * int k)) * of_int mm)) [1..<Suc n] (v_table t)\<rparr>)" (is ?down)
proof -
  have b: "0 \<le> w * int k" "w * int k \<le> 300" "w * int (Suc k) \<le> 300" "w * int (Suc k) = w * int k + w" if "k < n" for k
  proof -
    have "w * int (Suc k) \<le> w * int n" using assms(3) that by (intro mult_left_mono) auto
    with assms(3,5) show "0 \<le> w * int k" "w * int k \<le> 300" "w * int (Suc k) \<le> 300" "w * int (Suc k) = w * int k + w"
      by (simp_all add: distrib_left)
  qed
  have m: "mm < 2 ^ 53" using assms(2) by simp
  have up: "dmul (Fin (2 powi (w * int k))) (Fin (2 powi w)) = Fin (2 powi (w * int (Suc k))) \<and>
      dmul (Fin (2 powi (w * int (Suc k)))) (Fin (of_int mm)) = Fin (2 powi (w * int (Suc k)) * of_int mm)" if "k < n" for k
    using powers_dyadic(1) [of "w * int k" w] times_dyadic [OF assms(1) m, of "w * int (Suc k)"] b [OF that] assms(3,4)
    by (simp only: mult.commute [of "2 powi _"])
  have down: "ddiv (Fin (2 powi (- (w * int k)))) (Fin (2 powi w)) = Fin (2 powi (- (w * int (Suc k)))) \<and>
      dmul (Fin (2 powi (- (w * int (Suc k))))) (Fin (of_int mm)) = Fin (2 powi (- (w * int (Suc k))) * of_int mm)" if "k < n" for k
    using powers_dyadic(2) [of "- (w * int k)" w] times_dyadic [OF assms(1) m, of "- (w * int (Suc k))"] b [OF that] assms(3,4)
    by (simp only: mult.commute [of "2 powi _"]) simp
  show ?up
    using fill_run [of 0 n "\<lambda>e. dmul e (Fin (2 powi w))" "\<lambda>k. 2 powi (w * int k)" "of_int mm" idx t] up assms(6)
    by (simp del: upt_Suc updates_simps of_nat_Suc)
  show ?down
    using fill_run [of 0 n "\<lambda>e. ddiv e (Fin (2 powi w))" "\<lambda>k. 2 powi (- (w * int k))" "of_int mm" idx t] down assms(6)
    by (simp del: upt_Suc updates_simps of_nat_Suc)
qed

text \<open>The table after both loops.\<close>

lemma filled_table:
  assumes "n \<le> b" "b + m < N" "f = (\<lambda>r. Fin (r * 2 powi k))" "0 \<le> k"
  shows "updates (\<lambda>i. b - i) (\<lambda>i. f (2 powi (- (w * int i)))) [1..<Suc n]
      ((updates (\<lambda>i. i + b) (\<lambda>i. f (2 powi (w * int i))) [1..<Suc m] (replicate N z))[b := f 1]) =
    map (\<lambda>j. if b - n \<le> j \<and> j \<le> b + m then powers w (int b) k j else z) [0..<N]" (is "?l = ?r")
proof (rule nth_equalityI)
  fix j assume j: "j < length ?l"
  then have "?l ! j = (if b - n \<le> j \<and> j < b then f (2 powi (- (w * int (b - j)))) else if j = b then f 1
     else if b < j \<and> j \<le> b + m then f (2 powi (w * int (j - b))) else replicate N z ! j)"
    using assms(1,2) by (subst nth_both_sides) auto
  also have "\<dots> = ?r ! j"
    using j assms(1,3) by (auto simp: powers_def power_int_add of_nat_diff right_diff_distrib)
  finally show "?l ! j = ?r ! j" .
qed simp

lemma filled_e:
  assumes "n \<le> b" "b + m < N"
  shows "updates (\<lambda>i. b - i) (\<lambda>i. Fin (2 powi (- (w * int i)))) [1..<Suc n]
      ((updates (\<lambda>i. i + b) (\<lambda>i. Fin (2 powi (w * int i))) [1..<Suc m] (replicate N z))[b := Fin 1]) =
    map (\<lambda>j. if b - n \<le> j \<and> j \<le> b + m then powers w (int b) 0 j else z) [0..<N]"
  using filled_table [OF assms refl, of 0] by simp

text \<open>Both loops and the entry between them, from a table whose places are not set.\<close>

lemma fill_both:
  fixes mm :: int
  assumes "0 < mm" "mm < 2 ^ 24" "0 \<le> w" "w \<le> 4" "w * int n \<le> 300" "w * int m \<le> 300" "n \<le> b" "b + m < N"
    "e_table t = replicate N (Fin 0)" "v_table t = replicate N (Fin 0)" "of_int mm = (2::rat) powi k" "0 \<le> k"
  shows "seq (fill (\<lambda>e. dmul e (Fin (2 powi w))) (\<lambda>i. i + b) (Fin (of_int mm)) m 1 (Fin 1)) (
     seq (set_entry b (Fin 1) (Fin (of_int mm))) (
     seq (fill (\<lambda>e. ddiv e (Fin (2 powi w))) (\<lambda>i. b - i) (Fin (of_int mm)) n 1 (Fin 1)) c)) t =
   c (t\<lparr>e_table := map (\<lambda>j. if b - n \<le> j \<and> j \<le> b + m then powers w (int b) 0 j else Fin 0) [0..<N],
        v_table := map (\<lambda>j. if b - n \<le> j \<and> j \<le> b + m then powers w (int b) k j else Fin 0) [0..<N]\<rparr>)"
proof -
  let ?e = "updates (\<lambda>i. i + b) (\<lambda>i. Fin (2 powi (w * int i))) [1..<Suc m] (replicate N (Fin 0))"
  let ?v = "updates (\<lambda>i. i + b) (\<lambda>i. Fin (2 powi (w * int i) * of_int mm)) [1..<Suc m] (replicate N (Fin 0))"
  let ?t = "t\<lparr>e_table := ?e[b := Fin 1], v_table := ?v[b := Fin (of_int mm)]\<rparr>"
  have up: "fill (\<lambda>e. dmul e (Fin (2 powi w))) (\<lambda>i. i + b) (Fin (of_int mm)) m 1 (Fin 1) t =
      (Ok (), t\<lparr>e_table := ?e, v_table := ?v\<rparr>)"
    using fill_powers(1) [of mm w m "\<lambda>i. i + b" t] assms by simp
  have mid: "set_entry b (Fin 1) (Fin (of_int mm)) (t\<lparr>e_table := ?e, v_table := ?v\<rparr>) = (Ok (), ?t)"
    using assms(8) by (simp add: run_simps)
  have down: "fill (\<lambda>e. ddiv e (Fin (2 powi w))) (\<lambda>i. b - i) (Fin (of_int mm)) n 1 (Fin 1) ?t =
      (Ok (), ?t\<lparr>e_table := updates (\<lambda>i. b - i) (\<lambda>i. Fin (2 powi (- (w * int i)))) [1..<Suc n] (?e[b := Fin 1]),
         v_table := updates (\<lambda>i. b - i) (\<lambda>i. Fin (2 powi (- (w * int i)) * of_int mm)) [1..<Suc n] (?v[b := Fin (of_int mm)])\<rparr>)"
    using fill_powers(2) [of mm w n "\<lambda>i. b - i" ?t] assms by (simp del: upt_Suc updates_simps)
  have "updates (\<lambda>i. b - i) (\<lambda>i. Fin (2 powi (- (w * int i)) * of_int mm)) [1..<Suc n] (?v[b := Fin (of_int mm)]) =
      map (\<lambda>j. if b - n \<le> j \<and> j \<le> b + m then powers w (int b) k j else Fin 0) [0..<N]"
    using filled_table [OF assms(7,8) refl assms(12), of w "Fin 0"] by (simp add: assms(11))
  then show ?thesis
    by (simp only: seq_run up mid down continue.simps filled_e [OF assms(7,8)]) simp
qed

lemma init_ibm_run [run_simps]:
  "init_ibm_table ibm_table = (Ok (), ibm_ready)" "init_ibm_table ibm_ready = (Ok (), ibm_ready)"
proof -
  have e: "map (\<lambda>j. if j \<le> 127 then powers 4 (int 70) k j else Fin 0) [0..<128] = map (powers 4 70 k) [0..<128]" for k
    by (auto intro!: map_cong)
  have last: "dmul (powers 4 70 0 127) (Fin 0xffffff) = Fin (0xffffff * 2 powi 228)"
    using times_dyadic [of "0xffffff" 228] by (simp add: powers_def)
  let ?rest = "bnd (entry v_table 0) (\<lambda>v. seq (upd (\<lambda>t. t\<lparr>vmin := v\<rparr>)) (bnd (entry e_table 127) (\<lambda>e.
     upd (\<lambda>t. t\<lparr>vmax := dmul e (Fin 0xffffff), inited := True\<rparr>))))"
  have "init_ibm_table ibm_table = seq (fill (\<lambda>e. dmul e (Fin (2 powi 4))) (\<lambda>i. i + 70) (Fin (of_int 0x100000)) 57 1 (Fin 1)) (
     seq (set_entry 70 (Fin 1) (Fin (of_int 0x100000))) (
     seq (fill (\<lambda>e. ddiv e (Fin (2 powi 4))) (\<lambda>i. 70 - i) (Fin (of_int 0x100000)) 70 1 (Fin 1)) ?rest)) ibm_table"
    by (simp add: init_ibm_table_def bnd_run rd_run only_if_def Let_def ibm_table_def)
  also have "\<dots> = ?rest (ibm_table\<lparr>e_table := map (powers 4 70 0) [0..<128], v_table := map (powers 4 70 20) [0..<128]\<rparr>)"
    by (subst fill_both [where k = 20 and N = 128]) (simp_all add: ibm_table_def e del: upt_Suc)
  also have "\<dots> = (Ok (), ibm_ready)"
    using last by (simp add: run_simps ibm_table_def ibm_ready_def del: upt_Suc) (simp add: powers_def)
  finally show "init_ibm_table ibm_table = (Ok (), ibm_ready)" .
  show "init_ibm_table ibm_ready = (Ok (), ibm_ready)" by (simp add: init_ibm_table_def ibm_ready_def run_simps)
qed

lemma init_ieee_run [run_simps]:
  "init_ieee_table ieee_table = (Ok (), ieee_ready)" "init_ieee_table ieee_ready = (Ok (), ieee_ready)"
proof -
  have e: "map (\<lambda>j. if Suc 0 \<le> j \<and> j \<le> 254 then powers 1 (int 150) k j else Fin 0) [0..<255] =
      map (\<lambda>j. if Suc 0 \<le> j then powers 1 150 k j else Fin 0) [0..<255]" for k
    by (auto intro!: map_cong)
  have last: "dmul (powers 1 150 0 254) (Fin 0xffffff) = Fin (0xffffff * 2 powi 104)"
    using times_dyadic [of "0xffffff" 104] by (simp add: powers_def)
  let ?rest = "bnd (entry v_table 1) (\<lambda>v. seq (upd (\<lambda>t. t\<lparr>vmin := v\<rparr>)) (bnd (entry e_table 254) (\<lambda>e.
     upd (\<lambda>t. t\<lparr>vmax := dmul e (Fin 0xffffff), inited := True\<rparr>))))"
  have "init_ieee_table ieee_table = seq (fill (\<lambda>e. dmul e (Fin (2 powi 1))) (\<lambda>i. i + 150) (Fin (of_int 0x800000)) 104 1 (Fin 1)) (
     seq (set_entry 150 (Fin 1) (Fin (of_int 0x800000))) (
     seq (fill (\<lambda>e. ddiv e (Fin (2 powi 1))) (\<lambda>i. 150 - i) (Fin (of_int 0x800000)) 149 1 (Fin 1)) ?rest)) ieee_table"
    by (simp add: init_ieee_table_def bnd_run rd_run only_if_def Let_def ieee_table_def)
  also have "\<dots> = ?rest (ieee_table\<lparr>e_table := map (\<lambda>j. if Suc 0 \<le> j then powers 1 150 0 j else Fin 0) [0..<255],
      v_table := map (\<lambda>j. if Suc 0 \<le> j then powers 1 150 23 j else Fin 0) [0..<255]\<rparr>)"
    by (subst fill_both [where k = 23 and N = 255]) (simp_all add: ieee_table_def e del: upt_Suc)
  also have "\<dots> = (Ok (), ieee_ready)"
    using last by (simp add: run_simps ieee_table_def ieee_ready_def del: upt_Suc) (simp add: powers_def)
  finally show "init_ieee_table ieee_table = (Ok (), ieee_ready)" .
  show "init_ieee_table ieee_ready = (Ok (), ieee_ready)" by (simp add: init_ieee_table_def ieee_ready_def run_simps)
qed

end
