(* ===== verification/FloatRounding.thy ===== *)
theory FloatRounding
  imports FloatTables
begin

unbundle bit_operations_syntax

text \<open>
  How a positive double is scaled and rounded to the 24 bits of a mantissa: the arithmetic of the
  loops in \<open>grib_ibm_to_long\<close> and \<open>grib_ieee_to_long\<close>, which is exact, and the rounding, which is
  to the nearest integer, halves upwards.
\<close>

subsection \<open>Doubles are multiples of powers of two\<close>

definition dyadic :: "rat \<Rightarrow> bool" where
  "dyadic y \<longleftrightarrow> (\<exists>n q. y = of_int n * 2 powi q \<and> 0 < n \<and> n < 2 ^ 53)"

lemma pos_mult_pos: "0 < a * b \<Longrightarrow> 0 < b \<Longrightarrow> 0 < a" for a b :: rat
  by (simp add: zero_less_mult_iff)

lemma dyadic_pos: "dyadic y \<Longrightarrow> 0 < y"
  by (auto simp: dyadic_def)

lemma dyadic_scale: "dyadic y \<Longrightarrow> dyadic (y * 2 powi k)"
proof -
  assume "dyadic y"
  then obtain n q where "y = of_int n * 2 powi q" "0 < n" "n < 2 ^ 53" by (auto simp: dyadic_def)
  then have "y * 2 powi k = of_int n * 2 powi (q + k)" by (simp add: power_int_add)
  with \<open>0 < n\<close> \<open>n < 2 ^ 53\<close> show ?thesis unfolding dyadic_def by blast
qed

lemma power_le_exp: "(2::rat) powi a \<le> 2 powi b \<Longrightarrow> a \<le> b"
  using power_int_strict_increasing [of b a "2::rat"] by (meson linorder_not_le one_less_numeral_iff semiring_norm(76))

lemma power_less_exp: "(2::rat) powi a < 2 powi b \<Longrightarrow> a < b"
  using power_int_increasing [of b a "2::rat"] by (meson linorder_not_le one_le_numeral)

lemma dyadic_exponent:
  fixes y :: rat
  assumes "y = of_int n * 2 powi q" "0 < n" "n < 2 ^ 53" "2 powi a \<le> y" "y \<le> 2 powi b"
  shows "a - 53 < q" "q \<le> b"
proof -
  have n: "(1::rat) \<le> of_int n" using assms(2) by simp
  have "of_int n < (of_int (2 ^ 53) :: rat)" using assms(3) by (simp only: of_int_less_iff)
  then have n53: "of_int n < (2::rat) powi 53" by simp
  have "1 * (2::rat) powi q \<le> of_int n * 2 powi q" by (rule mult_right_mono [OF n]) simp
  then have "(2::rat) powi q \<le> 2 powi b" using assms(1,5) by linarith
  then show "q \<le> b" by (rule power_le_exp)
  have "of_int n * 2 powi q < (2::rat) powi 53 * 2 powi q" by (rule mult_strict_right_mono [OF n53]) simp
  also have "\<dots> = 2 powi (53 + q)" by (simp add: power_int_add)
  finally have "(2::rat) powi a < 2 powi (53 + q)" using assms(1,4) by linarith
  then show "a - 53 < q" using power_less_exp by fastforce
qed

text \<open>A finite double is such a multiple.\<close>

lemma double_dyadic:
  assumes "rnd r = Fin r" "0 < r"
  shows "dyadic r"
proof -
  let ?e = "ulp_exp r" and ?n = "round_even (r / 2 powi ulp_exp r)"
  have e: "ilog2 r - 52 \<le> ?e" by (simp add: ulp_exp_def)
  have r: "r = of_int ?n * 2 powi ?e" using assms by (auto simp: rnd_def Let_def split: if_splits)
  have "r < 2 powi (ilog2 r + 1)" using ilog2_bounds(2) [of r] assms(2) by simp
  also have "\<dots> \<le> 2 powi (53 + ?e)" using e by (intro power_int_increasing) auto
  finally have "of_int ?n * 2 powi ?e < (2::rat) powi 53 * 2 powi ?e" using r by (simp add: power_int_add)
  then have "of_int ?n < (of_int (2 ^ 53) :: rat)" by (simp add: mult_less_cancel_right)
  then have "?n < 2 ^ 53" by (simp only: of_int_less_iff)
  moreover have "0 < of_int ?n * (2::rat) powi ?e" using r assms(2) by simp
  then have "0 < (of_int ?n :: rat)" by (rule pos_mult_pos) simp
  then have "0 < ?n" by simp
  ultimately show ?thesis using r unfolding dyadic_def by blast
qed

lemma scale_exact:
  assumes "dyadic y" "2 powi (- 900) \<le> y * 2 powi k" "y * 2 powi k \<le> 2 powi 900"
  shows "dmul (Fin y) (Fin (2 powi k)) = Fin (y * 2 powi k)" "ddiv (Fin y) (Fin (2 powi (- k))) = Fin (y * 2 powi k)"
proof -
  obtain n q where y: "y = of_int n * 2 powi q" "0 < n" "n < 2 ^ 53" using assms(1) by (auto simp: dyadic_def)
  then have s: "y * 2 powi k = of_int n * 2 powi (q + k)" by (simp add: power_int_add)
  have "- 953 < q + k" "q + k \<le> 900" using dyadic_exponent [OF s y(2,3) assms(2,3)] by auto
  then have "rnd (y * 2 powi k) = Fin (y * 2 powi k)" unfolding s using rnd_dyadic [of n "q + k"] y(2,3) by simp
  then show "dmul (Fin y) (Fin (2 powi k)) = Fin (y * 2 powi k)" "ddiv (Fin y) (Fin (2 powi (- k))) = Fin (y * 2 powi k)"
    using dyadic_pos [OF assms(1)] by (simp_all add: dmul_def ddiv_def power_int_minus field_simps)
qed

subsection \<open>Rounding to an integer\<close>

lemma ilog2_at:
  assumes "2 powi e \<le> x" "x < 2 powi (e + 1)" shows "ilog2 x = e"
proof -
  have x: "x \<noteq> 0" "\<bar>x\<bar> = x" using assms(1) less_le_trans [of 0 "2 powi e" x] by auto
  have "ilog2 x < e + 1" by (rule ilog2_less [OF x(1)]) (use assms(2) x in simp)
  moreover have "(2::rat) powi e < 2 powi (ilog2 x + 1)" using ilog2_bounds(2) [OF x(1)] assms(1) x by simp
  then have "e < ilog2 x + 1" by (rule power_less_exp)
  ultimately show ?thesis by simp
qed

lemma round_even_near: "\<lfloor>x\<rfloor> \<le> round_even x" "round_even x \<le> \<lfloor>x\<rfloor> + 1"
  by (simp_all add: round_even_def Let_def)

text \<open>A sum that needs a 54th bit is rounded, but not across an integer.\<close>

lemma round_above_power:
  assumes "2 powi (53 + q) \<le> x" "x < 2 powi (53 + q) + 1 / 2" "- 34 < q" "q \<le> - 2"
  shows "\<exists>z. rnd x = Fin z \<and> \<lfloor>z\<rfloor> = \<lfloor>x\<rfloor>"
proof -
  define P where "P = (2::rat) powi (53 + q)"
  define R where "R = round_even (x / 2 powi (q + 1))"
  have P: "P = of_int (2 ^ nat (53 + q))" "1 \<le> P"
    using assms(3) by (simp_all add: P_def power_int_def)
  have P52: "P = 2 ^ 52 * 2 powi (q + 1)" by (simp add: P_def power_int_add)
  have "x < 2 powi (53 + q + 1)" using assms(2) P(2) by (simp add: P_def power_int_add)
  then have "ilog2 x = 53 + q" by (rule ilog2_at [OF assms(1)])
  then have e: "ulp_exp x = q + 1" using assms(3) by (simp add: ulp_exp_def)
  have u: "0 < (2::rat) powi (q + 1)" "(2::rat) powi (q + 1) \<le> 2 powi (- 1)"
    using assms(4) by (simp, intro power_int_increasing) auto
  have "2 ^ 52 \<le> x / 2 powi (q + 1)" using assms(1) u(1) P52 by (simp add: P_def pos_le_divide_eq)
  then have "2 ^ 52 \<le> \<lfloor>x / 2 powi (q + 1)\<rfloor>" by (simp add: le_floor_iff)
  then have "2 ^ 52 \<le> R" using round_even_near(1) [of "x / 2 powi (q + 1)"] unfolding R_def by linarith
  then have "(2 ^ 52 :: rat) \<le> of_int R" by (metis of_int_le_iff of_int_numeral of_int_power)
  then have lo: "P \<le> of_int R * 2 powi (q + 1)" unfolding P52 by (rule mult_right_mono) simp
  have "of_int R \<le> x / 2 powi (q + 1) + 1"
    using round_even_near(2) [of "x / 2 powi (q + 1)"] unfolding R_def by linarith
  then have "of_int R * 2 powi (q + 1) \<le> x + 2 powi (q + 1)" using u(1) by (simp add: field_simps)
  then have hi: "of_int R * 2 powi (q + 1) < P + 1" using assms(2) u(2) by (simp add: P_def power_int_minus)
  have "P \<le> 2 powi 51" unfolding P_def using assms(4) by (intro power_int_increasing) auto
  then have "of_int R * 2 powi (q + 1) < (2::rat) ^ 1024" using hi by simp
  moreover have "0 < of_int R * (2::rat) powi (q + 1)" using lo P(2) by linarith
  moreover have "0 < x" using assms(1) P(2) by (simp add: P_def)
  ultimately have "rnd x = Fin (of_int R * 2 powi (q + 1))" by (simp add: rnd_def Let_def e R_def)
  moreover have "\<lfloor>of_int R * (2::rat) powi (q + 1)\<rfloor> = 2 ^ nat (53 + q)" using lo hi P(1) by (intro floor_unique) simp_all
  moreover have "\<lfloor>x\<rfloor> = 2 ^ nat (53 + q)" using assms(1,2) P by (intro floor_unique) (simp_all add: P_def)
  ultimately show ?thesis by metis
qed

text \<open>Adding one half in doubles loses nothing that matters for the integer part.\<close>

lemma add_half:
  assumes "dyadic y" "2 ^ 19 \<le> y" "y \<le> 2 ^ 25"
  shows "\<exists>z. dadd (Fin y) (Fin (1 / 2)) = Fin z \<and> \<lfloor>z\<rfloor> = \<lfloor>y + 1 / 2\<rfloor>"
proof -
  obtain n q where y: "y = of_int n * 2 powi q" "0 < n" "n < 2 ^ 53" using assms(1) by (auto simp: dyadic_def)
  have q: "- 34 < q" "q \<le> 25" using dyadic_exponent [OF y, of 19 25] assms(2,3) by simp_all
  show ?thesis
  proof (cases "- 1 \<le> q")
    case True
    define M where "M = n * 2 ^ nat (q + 1)"
    have "y * 2 = of_int n * 2 powi (q + 1)" by (simp add: y(1) power_int_add)
    also have "\<dots> = of_int M" using True by (simp add: M_def power_int_def)
    finally have M: "y + 1 / 2 = of_int (M + 1) / 2" by simp
    have "of_int M \<le> (of_int (2 ^ 26) :: rat)" using M assms(3) by simp
    then have "M \<le> 2 ^ 26" by (simp only: of_int_le_iff)
    moreover have "0 \<le> M" using y(2) by (simp add: M_def)
    ultimately have "rnd (y + 1 / 2) = Fin (y + 1 / 2)" unfolding M by (intro rnd_half_int) simp
    then show ?thesis by simp
  next
    case False
    define N where "N = n + 2 ^ nat (- 1 - q)"
    have "(of_int (2 ^ nat (- 1 - q)) :: rat) * 2 powi q = 2 powi (- 1 - q) * 2 powi q"
      using False by (simp add: power_int_def)
    also have "\<dots> = 1 / 2" by (simp add: power_int_minus flip: power_int_add)
    finally have N: "y + 1 / 2 = of_int N * 2 powi q" by (simp add: y(1) N_def distrib_right)
    show ?thesis
    proof (cases "N < 2 ^ 53")
      case True
      have "0 < N" using y(2) by (simp add: N_def add_pos_nonneg)
      then have "rnd (y + 1 / 2) = Fin (y + 1 / 2)" using rnd_dyadic [of N q] True q by (simp add: N)
      then show ?thesis by simp
    next
      case big: False
      have "(of_int (2 ^ 53) :: rat) \<le> of_int N" using big by (simp only: of_int_le_iff)
      then have "(2::rat) powi 53 * 2 powi q \<le> of_int N * 2 powi q" by (intro mult_right_mono) simp_all
      moreover have "of_int n < (of_int (2 ^ 53) :: rat)" using y(3) by (simp only: of_int_less_iff)
      then have "of_int n * 2 powi q < (2::rat) powi 53 * 2 powi q" by simp
      ultimately show ?thesis
        using round_above_power [of q "y + 1 / 2"] q False N by (simp add: y(1) power_int_add)
    qed
  qed
qed

end
