(* ===== verification/FloatFacts.thy ===== *)
theory FloatFacts
  imports FloatRounding
begin

unbundle bit_operations_syntax

text \<open>
  What both float coders rest on: a table of powers of a base (\<open>2 ^ w\<close>), the search in it, and the
  scaling and rounding of a double to a mantissa of 24 bits. The locale is interpreted on the two tables.
\<close>

subsection \<open>Searching\<close>

lemma binary_search_run:
  assumes "jl < ju" "ju \<le> n" "n \<le> length xs" "jl = 0 \<or> dleq (xs ! jl) x" "ju = n \<or> \<not> dleq (xs ! ju) x"
  shows "\<exists>j < n. binary_search xs x jl ju s = (Ok j, s) \<and> (j = 0 \<or> dleq (xs ! j) x) \<and> (j + 1 = n \<or> \<not> dleq (xs ! (j + 1)) x)"
  using assms
proof (induction xs x jl ju rule: binary_search.induct)
  case (1 xs x jl ju)
  let ?jm = "(ju + jl) div 2"
  show ?case
  proof (cases "1 < ju - jl")
    case True
    then have m: "jl < ?jm" "?jm < ju" "?jm < length xs" using "1.prems" by auto
    show ?thesis
    proof (cases "dleq (xs ! ?jm) x")
      case le: True
      then have "binary_search xs x jl ju s = binary_search xs x ?jm ju s"
        using True m by (subst binary_search.simps) (simp add: Let_def)
      with "1.IH"(1) [OF True refl m(3) le m(2)] "1.prems" le show ?thesis by simp
    next
      case gt: False
      then have "binary_search xs x jl ju s = binary_search xs x jl ?jm s"
        using True m by (subst binary_search.simps) (simp add: Let_def)
      moreover have "?jm \<le> n" using m "1.prems" by linarith
      ultimately show ?thesis using "1.IH"(2) [OF True refl m(3) gt m(1)] "1.prems" gt by simp
    qed
  next
    case False
    then have "ju = jl + 1" using "1.prems"(1) by simp
    then show ?thesis using "1.prems" by (subst binary_search.simps) (auto simp: run_simps)
  qed
qed

subsection \<open>Scaling\<close>

lemma scale_up_runs:
  "2 ^ 23 \<le> y \<Longrightarrow> scale_up base (Suc f) (Fin y) e s = (Ok (Fin y, e), s)"
  "y < 2 ^ 23 \<Longrightarrow> scale_up base (Suc f) (Fin y) e s = scale_up base f (dmul (Fin y) base) (e - 1) s"
  by (simp_all add: run_simps)

lemma scale_down_runs:
  "y \<le> 2 ^ 24 - 1 / 2 \<Longrightarrow> scale_down base (Suc f) (Fin y) e s = (Ok (Fin y, e), s)"
  "2 ^ 24 - 1 / 2 < y \<Longrightarrow> scale_down base (Suc f) (Fin y) e s = scale_down base f (ddiv (Fin y) base) (e + 1) s"
  by (simp_all add: run_simps)

text \<open>
  A value between the least mantissa of the table and one place above the largest ends up as a
  mantissa: the loops never take more than one round to the other side and back.
\<close>

lemma scaling_run:
  assumes "dyadic y" "1 \<le> w" "w \<le> 4" "2 powi (24 - w) \<le> y" "y < 2 ^ 24 \<or> y \<le> (2 ^ 24 - 1) * 2 powi w" "3 \<le> f"
  shows "bnd (scale_up (Fin (2 powi w)) f (Fin y) e) (\<lambda>(x, e). scale_down (Fin (2 powi w)) f x e) s =
    (Ok (if y \<le> 2 ^ 24 - 1 / 2 then (Fin y, e) else (Fin (y * 2 powi (- w)), e + 1)), s)"
proof -
  have "f = Suc (Suc (Suc (f - 3)))" using assms(6) by simp
  then obtain g where f: "f = Suc (Suc (Suc g))" by blast
  have w: "2 \<le> (2::rat) powi w" "(2::rat) powi w \<le> 16"
    using power_int_increasing [of 1 w "2::rat"] power_int_increasing [of w 4 "2::rat"] assms(2,3) by simp_all
  have y: "2 ^ 20 \<le> y"
    using assms(4) power_int_increasing [of 20 "24 - w" "2::rat"] assms(3) by simp
  have top: "y * 2 powi (- w) \<le> 2 ^ 24 - 1 / 2"
  proof (cases "y < 2 ^ 24")
    case True
    then have "y * 2 powi (- w) \<le> 2 ^ 24 / 2" using w by (simp add: power_int_minus field_simps)
    then show ?thesis by simp
  next
    case False
    then show ?thesis using assms(5) w by (simp add: power_int_minus field_simps)
  qed
  have small: "y \<le> 2 ^ 28" using assms(5) w by (auto simp: field_simps)
  have "y * 2 powi w \<le> 2 ^ 32" using mult_mono [OF small w(2)] y by simp
  moreover have "2 ^ 20 \<le> y * 2 powi w" using mult_mono [of "2 ^ 20" y 1 "2 powi w"] y w by simp
  ultimately have scaled: "dmul (Fin y) (Fin (2 powi w)) = Fin (y * 2 powi w)"
    by (intro scale_exact(1) [OF assms(1)]) (simp_all add: power_int_minus)
  have "1 \<le> y * 2 powi (- w)" using y w by (simp add: power_int_minus field_simps)
  then have lowered: "ddiv (Fin y) (Fin (2 powi w)) = Fin (y * 2 powi (- w))"
    using scale_exact(2) [OF assms(1), of "- w"] top by (simp add: power_int_minus)
  have again: "ddiv (Fin (y * 2 powi w)) (Fin (2 powi w)) = Fin y"
  proof -
    have c: "y * 2 powi w * 2 powi (- w) = y" by (simp add: power_int_minus)
    show ?thesis
      using scale_exact(2) [OF dyadic_scale [OF assms(1), of w], of "- w", unfolded c] y small by (simp add: power_int_minus)
  qed
  consider "y < 2 ^ 23" | "2 ^ 23 \<le> y" "y \<le> 2 ^ 24 - 1 / 2" | "2 ^ 24 - 1 / 2 < y" by linarith
  then show ?thesis
  proof cases
    case 1
    have "2 powi (24 - w) * 2 powi w \<le> y * 2 powi w" using assms(4) by (intro mult_right_mono) simp_all
    then have "2 ^ 24 \<le> y * 2 powi w" by (simp flip: power_int_add)
    then have "\<not> y * 2 powi w < 2 ^ 23" "2 ^ 24 - 1 / 2 < y * 2 powi w" by (simp, linarith?)+
    then show ?thesis using 1 scaled again f by (simp add: bnd_run run_simps)
  next
    case 2
    then show ?thesis using f by (simp add: bnd_run run_simps)
  next
    case 3
    then show ?thesis using f lowered top by (simp add: bnd_run run_simps)
  qed
qed


lemma continue_after:
  assumes "bnd m (\<lambda>(x, e). f x e) s = (Ok p, s')"
  shows "bnd m (\<lambda>(x, e). bnd (f x e) g) s = g p s'"
  using assms by (cases "m s" rule: prod.exhaust, cases "fst (m s)") (auto simp: bnd_run split: prod.splits)

subsection \<open>The mantissa\<close>

lemma to_ulong_floor:
  assumes "\<lfloor>z\<rfloor> = m" "0 \<le> m" "m < 2 ^ 64"
  shows "to_ulong (Fin z) = ret (word_of_int m)"
proof -
  have "z < of_int m + 1" "of_int m \<le> z" using assms(1) by linarith+
  moreover have "m + 1 \<le> 2 ^ 64" using assms(3) by simp
  then have "of_int (m + 1) \<le> (of_int (2 ^ 64) :: rat)" by (simp only: of_int_le_iff)
  moreover have "(0::rat) \<le> of_int m" using assms(2) by simp
  ultimately have "\<not> z < 0" "- 1 < z" "z < 2 ^ 64" by simp_all
  then show ?thesis using assms(1) by (simp add: to_ulong_def)
qed

lemma round_up_mantissa:
  assumes "2 ^ 19 \<le> y" "y \<le> 2 ^ 24 - 1 / 2"
  shows "0 \<le> \<lfloor>y + 1 / 2\<rfloor>" "\<lfloor>y + 1 / 2\<rfloor> \<le> 2 ^ 24"
    "(0xffffff < (word_of_int \<lfloor>y + 1 / 2\<rfloor> :: ulong)) = (y = 2 ^ 24 - 1 / 2)"
proof -
  show n: "0 \<le> \<lfloor>y + 1 / 2\<rfloor>" using assms(1) by simp
  show m: "\<lfloor>y + 1 / 2\<rfloor> \<le> 2 ^ 24" using assms(2) by (simp add: floor_le_iff)
  have "uint (word_of_int \<lfloor>y + 1 / 2\<rfloor> :: ulong) = \<lfloor>y + 1 / 2\<rfloor>"
    using n m by (simp add: uint_word_of_int)
  then have "(0xffffff < (word_of_int \<lfloor>y + 1 / 2\<rfloor> :: ulong)) = (0xffffff < \<lfloor>y + 1 / 2\<rfloor>)"
    by (simp add: word_less_def)
  also have "\<dots> = (2 ^ 24 \<le> y + 1 / 2)" by (simp add: less_floor_iff)
  finally show "(0xffffff < (word_of_int \<lfloor>y + 1 / 2\<rfloor> :: ulong)) = (y = 2 ^ 24 - 1 / 2)" using assms(2) by auto
qed

subsection \<open>A table of powers\<close>

locale float_powers =
  fixes t :: float_table and w b :: int and lo hi :: nat
  assumes base: "1 \<le> w" "w \<le> 4"
    and ends: "lo \<le> 1" "lo + 2 \<le> hi" "hi < 2 ^ 32" "- 400 \<le> w * (int lo - b)" "w * (int hi - b) \<le> 400"
    and sizes: "hi < length (e_table t)" "hi < length (v_table t)"
    and entries: "lo \<le> j \<Longrightarrow> j \<le> hi \<Longrightarrow> e_table t ! j = powers w b 0 j" "lo \<le> j \<Longrightarrow> j \<le> hi \<Longrightarrow> v_table t ! j = powers w b (24 - w) j"
    and least: "vmin t = powers w b (24 - w) lo"
    and largest: "vmax t = Fin ((2 ^ 24 - 1) * 2 powi (w * (int hi - b)))"
begin

definition step :: "nat \<Rightarrow> rat" where
  "step c = 2 powi (w * (int c - b))"

lemma step_pos [simp]: "0 < step c"
  by (simp add: step_def)

lemma step_nonzero [simp]: "step c \<noteq> 0"
  by (simp add: step_def)

lemma step_Suc: "step (Suc c) = step c * 2 powi w"
proof -
  have "w * (int (Suc c) - b) = w * (int c - b) + w" by (simp add: algebra_simps)
  then show ?thesis by (simp add: step_def power_int_add del: of_nat_Suc)
qed

lemma powers_step: "powers w b k c = Fin (step c * 2 powi k)"
  by (simp add: powers_def step_def power_int_add)

text \<open>The search finds the entry whose scale leaves a mantissa.\<close>

lemma table_search_run:
  assumes "step lo * 2 powi (24 - w) \<le> r" "r \<le> (2 ^ 24 - 1) * step hi"
  shows "\<exists>j. lo \<le> j \<and> j < hi \<and> binary_search (v_table t) (Fin r) 0 hi s = (Ok j, s) \<and>
    2 powi (24 - w) \<le> r / step j \<and> (r / step j < 2 ^ 24 \<or> Suc j = hi \<and> r / step j \<le> (2 ^ 24 - 1) * 2 powi w)"
proof -
  obtain j where j: "j < hi" "binary_search (v_table t) (Fin r) 0 hi s = (Ok j, s)"
    "j = 0 \<or> dleq (v_table t ! j) (Fin r)" "j + 1 = hi \<or> \<not> dleq (v_table t ! (j + 1)) (Fin r)"
    using binary_search_run [of 0 hi hi "v_table t" "Fin r" s] ends sizes by auto
  have le: "dleq (v_table t ! i) (Fin r) \<longleftrightarrow> step i * 2 powi (24 - w) \<le> r" if "lo \<le> i" "i \<le> hi" for i
    using entries(2) [OF that] by (auto simp: powers_step dleq_def)
  have "lo \<le> j"
  proof (rule ccontr)
    assume "\<not> lo \<le> j"
    then have "j + 1 = lo" using ends(1) by simp
    then show False using j(4) le [of lo] assms(1) ends by auto
  qed
  then have "step j * 2 powi (24 - w) \<le> r" using j(1,3) le [of j] assms(1) by (cases "j = 0") auto
  then have "2 powi (24 - w) \<le> r / step j" by (simp add: pos_le_divide_eq mult.commute)
  moreover have "r / step j < 2 ^ 24 \<or> Suc j = hi \<and> r / step j \<le> (2 ^ 24 - 1) * 2 powi w"
  proof (cases "Suc j = hi")
    case True
    have "step hi = step j * 2 powi w" unfolding True [symmetric] by (rule step_Suc)
    then have "r \<le> (2 ^ 24 - 1) * 2 powi w * step j" using assms(2) by (simp add: ac_simps)
    then show ?thesis using True by (simp add: pos_divide_le_eq)
  next
    case False
    then have "r < step (Suc j) * 2 powi (24 - w)" using j(1,4) le [of "Suc j"] \<open>lo \<le> j\<close> by auto
    also have "\<dots> = step j * (2 powi w * 2 powi (24 - w))" by (simp add: step_Suc)
    also have "\<dots> = step j * 2 ^ 24" by (simp flip: power_int_add)
    finally show ?thesis by (simp add: pos_divide_less_eq mult.commute)
  qed
  ultimately show ?thesis using \<open>lo \<le> j\<close> j(1,2) by blast
qed

text \<open>
  The word that a double in the range of the table becomes: its place \<open>c\<close> and its mantissa, rounded
  to the nearest integer; where that is \<open>2 ^ 24\<close>, the next place and the mantissa \<open>2 ^ 23\<close>.
\<close>

definition coded_at :: "nat \<Rightarrow> rat \<Rightarrow> rat \<Rightarrow> bool" where
  "coded_at c y r \<longleftrightarrow> lo \<le> c \<and> c \<le> hi \<and> y = \<bar>r\<bar> / step c \<and> 2 ^ 24 - 1 / 2 < y * 2 powi w \<and> y \<le> 2 ^ 24 - 1 / 2 \<and>
     (y = 2 ^ 24 - 1 / 2 \<longrightarrow> c < hi)"

lemma coded_at_range:
  assumes "coded_at c z r" shows "2 ^ 19 \<le> z" "z \<le> 2 ^ 24 - 1 / 2"
proof -
  have z: "2 ^ 24 - 1 / 2 < z * 2 powi w" using assms unfolding coded_at_def by blast
  then have "0 < z * 2 powi w" by (rule order_less_trans [rotated]) simp
  then have "0 < z" by (rule pos_mult_pos) simp
  moreover have "(2::rat) powi w \<le> 16" using power_int_increasing [of w 4 "2::rat"] base by simp
  ultimately have "z * 2 powi w \<le> z * 16" by simp
  with z have "2 ^ 24 - 1 / 2 < z * 16" by (rule order_less_le_trans)
  then show "2 ^ 19 \<le> z" by simp
  show "z \<le> 2 ^ 24 - 1 / 2" using assms unfolding coded_at_def by blast
qed

lemma float_to_long_run:
  assumes "rnd \<bar>r\<bar> = Fin \<bar>r\<bar>" "step lo * 2 powi (24 - w) \<le> \<bar>r\<bar>" "\<bar>r\<bar> \<le> (2 ^ 24 - 1) * step hi"
  shows "\<exists>c y. coded_at c y r \<and> float_to_long (Fin (2 powi w)) hi shift fraction (Fin r) t =
    (Ok (push_bit 31 (if r < 0 then 1 else 0) OR
       (if y = 2 ^ 24 - 1 / 2 then push_bit shift (of_nat (c + 1)) OR fraction 0x800000
        else push_bit shift (of_nat c) OR fraction (word_of_int \<lfloor>y + 1 / 2\<rfloor>))), t)"
proof -
  let ?s = "if r < 0 then 1 else 0 :: ulong" and ?x = "\<bar>r\<bar>"
  have pos: "0 < ?x" using assms(2) less_le_trans [of 0 "step lo * 2 powi (24 - w)" ?x] by simp
  obtain j where j: "lo \<le> j" "j < hi" "binary_search (v_table t) (Fin ?x) 0 hi t = (Ok j, t)"
    "2 powi (24 - w) \<le> ?x / step j" "?x / step j < 2 ^ 24 \<or> Suc j = hi \<and> ?x / step j \<le> (2 ^ 24 - 1) * 2 powi w"
    using table_search_run [OF assms(2,3), of t] by blast
  let ?y = "?x / step j"
  have k: "?x * 2 powi (- (w * (int j - b))) = ?y" by (simp add: step_def power_int_minus divide_inverse)
  have y: "dyadic ?y" using dyadic_scale [OF double_dyadic [OF assms(1) pos], of "- (w * (int j - b))"] k by simp
  have w: "(2::rat) powi w \<le> 16" using power_int_increasing [of w 4 "2::rat"] base by simp
  have y20: "2 ^ 20 \<le> ?y" using j(4) power_int_increasing [of 20 "24 - w" "2::rat"] base by simp
  have y28: "?y \<le> 2 ^ 28" using j(5) w by auto
  have entry: "e_table t ! j = Fin (2 powi (w * (int j - b)))" using entries(1) [of j] j(1,2) by (simp add: powers_def)
  have "(2::rat) powi (- 900) \<le> 2 ^ 20" "(2::rat) ^ 28 \<le> 2 powi 900" by simp_all
  then have "ddiv (Fin ?x) (Fin (2 powi (- (- (w * (int j - b)))))) = Fin (?x * 2 powi (- (w * (int j - b))))"
    by (intro scale_exact(2) [OF double_dyadic [OF assms(1) pos]]; unfold k) (use y20 y28 in linarith)+
  then have quotient: "ddiv (Fin ?x) (e_table t ! j) = Fin ?y" by (simp only: k entry minus_minus)
  let ?c = "if ?y \<le> 2 ^ 24 - 1 / 2 then j else j + 1" and ?z = "if ?y \<le> 2 ^ 24 - 1 / 2 then ?y else ?y * 2 powi (- w)"
  have "bnd (scale_up (Fin (2 powi w)) scale_fuel (Fin ?y) (of_nat j)) (\<lambda>(x, e). scale_down (Fin (2 powi w)) scale_fuel x e) t =
      (Ok (Fin ?z, of_nat ?c), t)"
    using scaling_run [OF y base j(4), of scale_fuel "of_nat j" t] j(5) by (auto simp: scale_fuel_def)
  note scaled = continue_after [OF this]
  have coded: "coded_at ?c ?z r"
  proof (cases "?y \<le> 2 ^ 24 - 1 / 2")
    case True
    have "2 powi (24 - w) * 2 powi w \<le> ?y * 2 powi w" by (rule mult_right_mono [OF j(4)]) simp
    moreover have "(2::rat) powi (24 - w) * 2 powi w = 2 ^ 24" by (simp flip: power_int_add)
    ultimately have "2 ^ 24 - 1 / 2 < ?y * 2 powi w" by linarith
    then show ?thesis using True j(1,2) by (simp add: coded_at_def)
  next
    case False
    have z: "?y * 2 powi (- w) = ?x / step (j + 1)" by (simp add: step_Suc power_int_minus divide_inverse)
    have undo: "?y * 2 powi (- w) * 2 powi w = ?y" by (simp add: power_int_minus)
    have "?y * 2 powi (- w) \<le> 2 ^ 24 - 1 / 2 \<and> (?y * 2 powi (- w) = 2 ^ 24 - 1 / 2 \<longrightarrow> j + 1 < hi)"
    proof (cases "?y < 2 ^ 24")
      case True
      have "(2::rat) powi (- w) \<le> 1 / 2" using power_int_increasing [of "- w" "- 1" "2::rat"] base by (simp add: power_int_minus)
      then have "?y * 2 powi (- w) \<le> 2 ^ 24 * (1 / 2)" using True y20 by (intro mult_mono) auto
      then have "?y * 2 powi (- w) < 2 ^ 24 - 1 / 2" by (rule order_le_less_trans) simp
      then show ?thesis by (metis less_imp_le less_irrefl)
    next
      case False
      then have "?y * 2 powi (- w) \<le> (2 ^ 24 - 1) * 2 powi w * 2 powi (- w)" using j(5) by (intro mult_right_mono) auto
      also have "\<dots> = 2 ^ 24 - 1" by (simp add: power_int_minus)
      finally have "?y * 2 powi (- w) < 2 ^ 24 - 1 / 2" by (rule order_le_less_trans) simp
      then show ?thesis by (metis less_imp_le less_irrefl)
    qed
    then show ?thesis using False j(1,2) z undo by (simp add: coded_at_def del: times_divide_eq_left)
  qed
  have z: "dyadic ?z" using y dyadic_scale [OF y, of "- w"] by simp
  note range = coded_at_range [OF coded]
  from z obtain m where m: "dadd (Fin ?z) (Fin (1 / 2)) = Fin m" "\<lfloor>m\<rfloor> = \<lfloor>?z + 1 / 2\<rfloor>"
    using add_half [OF z range(1)] order_trans [OF range(2)] by fastforce
  have mantissa: "to_ulong (Fin m) = ret (word_of_int \<lfloor>?z + 1 / 2\<rfloor>)"
    using to_ulong_floor [OF m(2)] round_up_mantissa(1,2) [OF range] by simp
  let ?abs = "if dless (Fin r) (Fin 0) then dneg (Fin r) else Fin r"
  have abs: "?abs = Fin ?x" by simp
  have inside: "\<not> dless (Fin ?x) (vmin t)" "\<not> dless (vmax t) (Fin ?x)"
    using assms(2,3) by (simp_all add: least largest powers_step step_def)
  have "float_to_long (Fin (2 powi w)) hi shift fraction (Fin r) t =
    (let (e, m) = (if 0xffffff < (word_of_int \<lfloor>?z + 1 / 2\<rfloor> :: ulong) then (of_nat ?c + 1, 0x800000) else (of_nat ?c, word_of_int \<lfloor>?z + 1 / 2\<rfloor>)) in
     ret (push_bit 31 ?s OR push_bit shift e OR fraction m)) t"
    unfolding float_to_long_def
    using j(1,2) sizes
    by (simp only: bnd_run [of "rd h" for h] bnd_run [of "binary_search h x i k" for h x i k] bnd_run [of "entry h i" for h i]
        rd_run continue.simps Let_def abs inside if_False j(3) entry_run quotient scaled m(1) mantissa ret_bnd prod.case) simp
  with coded round_up_mantissa(3) [OF range] obtain c z where cz: "coded_at c z r"
    "(0xffffff < (word_of_int \<lfloor>z + 1 / 2\<rfloor> :: ulong)) = (z = 2 ^ 24 - 1 / 2)"
    "float_to_long (Fin (2 powi w)) hi shift fraction (Fin r) t =
      (let (e, m) = (if 0xffffff < (word_of_int \<lfloor>z + 1 / 2\<rfloor> :: ulong) then (of_nat c + 1, 0x800000) else (of_nat c, word_of_int \<lfloor>z + 1 / 2\<rfloor>)) in
       ret (push_bit 31 ?s OR push_bit shift e OR fraction m)) t" by blast
  then show ?thesis
    by (intro exI [of _ c] exI [of _ z]) (auto simp: run_simps cz(2) or.assoc add.commute)
qed

lemma exponents: "lo \<le> c \<Longrightarrow> c \<le> hi \<Longrightarrow> - 400 \<le> w * (int c - b) \<and> w * (int c - b) \<le> 400"
proof -
  assume c: "lo \<le> c" "c \<le> hi"
  have "w * (int lo - b) \<le> w * (int c - b)" "w * (int c - b) \<le> w * (int hi - b)"
    using base c by (simp_all add: mult_left_mono)
  with ends show ?thesis by linarith
qed

lemma decoded_value:
  assumes "0 < m" "m < 2 ^ 24" "lo \<le> c" "c \<le> hi"
  shows "dmul (rnd (of_int m)) (e_table t ! c) = Fin (of_int m * step c)"
  using rnd_of_int [of m] dmul_dyadic [of m 0 "w * (int c - b)"] exponents [OF assms(3,4)] entries(1) [OF assms(3,4)] assms(1,2)
  by (simp add: powers_def step_def)

text \<open>A mantissa of the table is coded at its own place.\<close>

lemma coded_unique:
  assumes "coded_at c' y r" "\<bar>r\<bar> = m * step c" "2 powi (24 - w) \<le> m" "m \<le> 2 ^ 24 - 1 / 2" "c \<le> hi"
  shows "c' = c" "y = m"
proof -
  have y: "y = m * step c / step c'" using assms(1,2) unfolding coded_at_def by simp
  have m: "0 < m" using assms(3) less_le_trans [of 0 "2 powi (24 - w)" m] by simp
  have yr: "2 ^ 24 - 1 / 2 < y * 2 powi w" "y \<le> 2 ^ 24 - 1 / 2" using assms(1) unfolding coded_at_def by blast+
  have mono: "step i * 2 powi w \<le> step k" if "i < k" for i k
  proof -
    have "w * (int i + 1 - b) \<le> w * (int k - b)" using that base by (intro mult_left_mono) auto
    then have "step (Suc i) \<le> step k" unfolding step_def by (intro power_int_increasing) (simp_all add: add.commute)
    then show ?thesis by (simp add: step_Suc)
  qed
  have "\<not> c' < c"
  proof
    assume "c' < c"
    have "2 powi (24 - w) * 2 powi w \<le> m * 2 powi w" by (rule mult_right_mono [OF assms(3)]) simp
    then have "2 ^ 24 \<le> m * 2 powi w" by (simp flip: power_int_add)
    also have "m * 2 powi w \<le> m * (step c / step c')"
      using mono [OF \<open>c' < c\<close>] m by (intro mult_left_mono) (simp_all add: pos_le_divide_eq mult.commute)
    finally have "2 ^ 24 \<le> y" by (simp add: y)
    with yr(2) show False by linarith
  qed
  moreover have "\<not> c < c'"
  proof
    assume "c < c'"
    then have "step c * 2 powi w / step c' \<le> 1" using mono by (simp add: pos_divide_le_eq)
    then have "m * (step c * 2 powi w / step c') \<le> m * 1" using m by (intro mult_left_mono) simp_all
    then have "y * 2 powi w \<le> m" by (simp add: y)
    with yr(1) assms(4) show False by linarith
  qed
  ultimately show "c' = c" by simp
  then show "y = m" using y by simp
qed

text \<open>The mantissa of a coded value.\<close>

lemma coded_mantissa:
  assumes "coded_at c y r" "y \<noteq> 2 ^ 24 - 1 / 2"
  shows "2 ^ nat (24 - w) \<le> \<lfloor>y + 1 / 2\<rfloor>" "\<lfloor>y + 1 / 2\<rfloor> < 2 ^ 24" "\<bar>of_int \<lfloor>y + 1 / 2\<rfloor> - y\<bar> \<le> 1 / 2"
proof -
  let ?p = "(2::rat) powi w"
  have y: "2 ^ 24 - 1 / 2 < y * ?p" "y < 2 ^ 24 - 1 / 2" using assms unfolding coded_at_def by auto
  have p: "2 \<le> ?p" using power_int_increasing [of 1 w "2::rat"] base by simp
  have q: "2 powi (24 - w) * ?p = 2 ^ 24" by (simp flip: power_int_add)
  have "1 / 2 * ?p \<ge> 1" using p by simp
  then have "2 powi (24 - w) * ?p < (y + 1 / 2) * ?p" using y(1) q by (simp add: distrib_right)
  then have "2 powi (24 - w) < y + 1 / 2" by (rule mult_right_less_imp_less) simp
  moreover have "(2::rat) powi (24 - w) = of_int (2 ^ nat (24 - w))" using base by (simp add: power_int_def)
  ultimately show "2 ^ nat (24 - w) \<le> \<lfloor>y + 1 / 2\<rfloor>" by (simp only: le_floor_iff less_imp_le)
  show "\<lfloor>y + 1 / 2\<rfloor> < 2 ^ 24" using y(2) by (simp add: floor_less_iff)
  have "of_int \<lfloor>y + 1 / 2\<rfloor> \<le> y + 1 / 2" "y + 1 / 2 < of_int \<lfloor>y + 1 / 2\<rfloor> + 1" by linarith+
  then show "\<bar>of_int \<lfloor>y + 1 / 2\<rfloor> - y\<bar> \<le> 1 / 2" by linarith
qed

end

end
