(* ===== verification/FloatNumbers.thy ===== *)
theory FloatNumbers
  imports FloatFacts BitArrays
begin

unbundle bit_operations_syntax

text \<open>
  The two kinds of 32-bit floats on the tables that the program fills: which word a double becomes,
  which double a word stands for, and how far they are apart.
\<close>

interpretation ibm: float_powers ibm_ready 4 70 0 127
  by unfold_locales (simp_all add: ibm_ready_def powers_def del: upt_Suc)

interpretation ieee: float_powers ieee_ready 1 150 1 254
  by unfold_locales (simp_all add: ieee_ready_def powers_def del: upt_Suc)

subsection \<open>The fields of a word\<close>

lemma masks:
  "(0x80000000 :: ulong) = push_bit 31 1" "(0x7f000000 :: ulong) = push_bit 24 (mask 7)" "(0xffffff :: ulong) = mask 24"
  "(0x7f800000 :: ulong) = push_bit 23 (mask 8)" "(0x7fffff :: ulong) = mask 23" "(0x800000 :: ulong) = push_bit 23 1"
  by (simp_all add: mask_eq_exp_minus_1 push_bit_eq_mult)

lemma mask_bits:
  "bit (0x80000000 :: ulong) i \<longleftrightarrow> i = 31" "bit (0x800000 :: ulong) i \<longleftrightarrow> i = 23"
  "bit (0x7f000000 :: ulong) i \<longleftrightarrow> 24 \<le> i \<and> i < 31" "bit (0x7f800000 :: ulong) i \<longleftrightarrow> 23 \<le> i \<and> i < 31"
  "bit (0xffffff :: ulong) i \<longleftrightarrow> i < 24" "bit (0x7fffff :: ulong) i \<longleftrightarrow> i < 23"
  unfolding masks bit_push_bit_iff bit_mask_iff bit_1_iff by (auto simp: possible_bit_def)

lemma high_bits_zero: "take_bit n w = w \<Longrightarrow> bit w i \<Longrightarrow> i < n" for w :: ulong
  by (metis bit_take_bit_iff)

lemma sign_field: "w AND 0x80000000 = push_bit 31 (of_bool (bit w 31))" for w :: ulong
proof (rule bit_word_eqI)
  fix i assume "i < LENGTH(64)"
  then show "bit (w AND 0x80000000) i = bit (push_bit 31 (of_bool (bit w 31)) :: ulong) i"
    unfolding bit_and_iff mask_bits by (auto simp: bit_push_bit_iff bit_1_iff)
qed

lemma ibm_fields:
  fixes c m :: ulong
  assumes "take_bit 7 c = c" "take_bit 24 m = m" and x: "x = push_bit 31 (of_bool s) OR push_bit 24 c OR m"
  shows "x AND 0x80000000 = push_bit 31 (of_bool s)" "drop_bit 24 (x AND 0x7f000000) = c" "x AND 0xffffff = m"
proof -
  note c = high_bits_zero [OF assms(1)] and m = high_bits_zero [OF assms(2)]
  show "x AND 0x80000000 = push_bit 31 (of_bool s)" unfolding sign_field
    by (auto simp: x bit_simps dest: c m)
  show "drop_bit 24 (x AND 0x7f000000) = c"
  proof (rule bit_word_eqI)
    fix i assume "i < LENGTH(64)"
    then show "bit (drop_bit 24 (x AND 0x7f000000)) i = bit c i"
      unfolding bit_drop_bit_eq comp_def bit_and_iff mask_bits by (auto simp: x bit_simps dest: c m)
  qed
  show "x AND 0xffffff = m"
  proof (rule bit_word_eqI)
    fix i assume "i < LENGTH(64)"
    then show "bit (x AND 0xffffff) i = bit m i"
      unfolding bit_and_iff mask_bits by (auto simp: x bit_simps dest: c m)
  qed
qed

lemma ieee_fields:
  fixes c m :: ulong
  assumes "take_bit 8 c = c" "take_bit 23 m = m" and x: "x = push_bit 31 (of_bool s) OR push_bit 23 c OR m"
  shows "x AND 0x80000000 = push_bit 31 (of_bool s)" "drop_bit 23 (x AND 0x7f800000) = c" "x AND 0x7fffff = m"
proof -
  note c = high_bits_zero [OF assms(1)] and m = high_bits_zero [OF assms(2)]
  show "x AND 0x80000000 = push_bit 31 (of_bool s)" unfolding sign_field
    by (auto simp: x bit_simps dest: c m)
  show "drop_bit 23 (x AND 0x7f800000) = c"
  proof (rule bit_word_eqI)
    fix i assume "i < LENGTH(64)"
    then show "bit (drop_bit 23 (x AND 0x7f800000)) i = bit c i"
      unfolding bit_drop_bit_eq comp_def bit_and_iff mask_bits by (auto simp: x bit_simps dest: c m)
  qed
  show "x AND 0x7fffff = m"
  proof (rule bit_word_eqI)
    fix i assume "i < LENGTH(64)"
    then show "bit (x AND 0x7fffff) i = bit m i"
      unfolding bit_and_iff mask_bits by (auto simp: x bit_simps dest: c m)
  qed
qed

subsection \<open>A word as a double\<close>

text \<open>The words with sign \<open>s\<close>, exponent \<open>c\<close> and mantissa \<open>m\<close>, and the numbers they stand for.\<close>

definition ibm_word :: "bool \<Rightarrow> nat \<Rightarrow> int \<Rightarrow> ulong" where
  "ibm_word s c m = push_bit 31 (of_bool s) OR push_bit 24 (of_nat c) OR word_of_int m"

definition ibm_value :: "bool \<Rightarrow> nat \<Rightarrow> int \<Rightarrow> rat" where
  "ibm_value s c m = (if s then - 1 else 1) * (of_int m * 16 powi (int c - 70))"

definition ieee_word :: "bool \<Rightarrow> nat \<Rightarrow> int \<Rightarrow> ulong" where
  "ieee_word s c m = push_bit 31 (of_bool s) OR push_bit 23 (of_nat c) OR word_of_int m"

definition ieee_value :: "bool \<Rightarrow> nat \<Rightarrow> int \<Rightarrow> rat" where
  "ieee_value s c m = (if s then - 1 else 1) * (of_int m * 2 powi (int c - 150))"

lemma ibm_step: "ibm.step c = 16 powi (int c - 70)"
  unfolding ibm.step_def by (simp only: power_int_mult) simp

lemma ieee_step: "ieee.step c = 2 powi (int c - 150)"
  by (simp add: ieee.step_def)

lemma small_nat: "c < 2 ^ k \<Longrightarrow> k \<le> 32 \<Longrightarrow> take_bit k (of_nat c :: ulong) = of_nat c \<and> unat (of_nat c :: ulong) = c"
proof -
  assume c: "c < 2 ^ k" "k \<le> 32"
  have "int c < 2 ^ k" using c(1) of_nat_less_iff [of c "2 ^ k", where 'a = int] by simp
  then have "take_bit k (word_of_int (int c) :: ulong) = word_of_int (int c)" using c(2) by (intro small_word(2)) auto
  moreover have "c < 2 ^ 64" using c power_increasing [of k 64 "2::nat"] by linarith
  ultimately show ?thesis by (simp add: unat_of_nat)
qed

lemma ibm_decode:
  assumes "c \<le> 127" "0 < m" "m < 2 ^ 24" "c = 0 \<longrightarrow> 1 < m"
  shows "grib_long_to_ibm (ibm_word s c m) ibm_ready = (Ok (Fin (ibm_value s c m)), ibm_ready)"
proof -
  have w: "take_bit 24 (word_of_int m :: ulong) = word_of_int m" "uint (word_of_int m :: ulong) = m"
    using small_word [of m 24] assms(2,3) by simp_all
  note c = small_nat [of c 7]
  note f = ibm_fields [of "of_nat c" "word_of_int m" "ibm_word s c m" s]
  have size: "c < length (e_table ibm_ready)" using assms(1) by (simp add: ibm_ready_def)
  have zero: "of_nat c = (0::ulong) \<longleftrightarrow> c = 0" using c assms(1) unat_eq_zero [of "of_nat c :: ulong"] by simp
  have one: "word_of_int m \<le> (1 :: ulong) \<longleftrightarrow> m \<le> 1" using w(2) by (simp add: word_le_def)
  have scaled: "dmul (rnd (of_int m)) (e_table ibm_ready ! c) = Fin (of_int m * 16 powi (int c - 70))"
    using ibm.decoded_value [of m c] assms by (simp add: ibm_step)
  have nonzero: "of_int m * (16::rat) powi (int c - 70) \<noteq> 0" using assms(2) by simp
  have fields: "ibm_word s c m AND 0x80000000 = push_bit 31 (of_bool s)"
    "drop_bit 24 (ibm_word s c m AND 0x7f000000) = of_nat c" "ibm_word s c m AND 0x00ffffff = word_of_int m"
    using f c w(1) assms(1) by (simp_all add: ibm_word_def)
  have "grib_long_to_ibm (ibm_word s c m) ibm_ready =
      (Ok (if push_bit 31 (of_bool s) \<noteq> (0::ulong) then dneg (Fin (of_int m * 16 powi (int c - 70))) else Fin (of_int m * 16 powi (int c - 70))), ibm_ready)"
    unfolding grib_long_to_ibm_def Let_def fields
    using c assms size by (auto simp add: run_simps zero one scaled w(2) del: of_int_uint)
  then show ?thesis using nonzero by (cases s) (simp_all add: ibm_value_def)
qed

text \<open>The leading bit of an IEEE mantissa is not stored.\<close>

lemma hidden_bit:
  assumes "0 \<le> m" "m < 2 ^ 23"
  shows "word_of_int m OR 0x800000 = (word_of_int (m + 2 ^ 23) :: ulong)"
proof -
  have "take_bit 23 (word_of_int m :: ulong) = word_of_int m" using small_word(2) [of m 23] assms by simp
  then have "word_of_int m + 0x800000 = (word_of_int m OR 0x800000 :: ulong)"
    by (intro disjunctive_add) (unfold mask_bits, auto dest: high_bits_zero)
  then show ?thesis by simp
qed

lemma stored_bits:
  assumes "0 \<le> m" "m < 2 ^ 23"
  shows "(word_of_int m OR 0x800000) AND 0x7fffff = (word_of_int m :: ulong)"
proof (rule bit_word_eqI)
  fix i assume "i < LENGTH(64)"
  have "take_bit 23 (word_of_int m :: ulong) = word_of_int m" using small_word(2) [of m 23] assms by simp
  then show "bit ((word_of_int m OR 0x800000) AND 0x7fffff :: ulong) i = bit (word_of_int m :: ulong) i"
    unfolding bit_and_iff bit_or_iff mask_bits by (auto dest: high_bits_zero)
qed

lemma ieee_decode:
  assumes "c \<le> 254" "0 \<le> m" "m < 2 ^ 23" "c = 0 \<longrightarrow> 0 < m"
  shows "grib_long_to_ieee (ieee_word s c m) ieee_ready = (Ok (Fin (ieee_value s (max c 1) (m + 2 ^ 23))), ieee_ready)"
proof -
  have w: "take_bit 23 (word_of_int m :: ulong) = word_of_int m" "uint (word_of_int m :: ulong) = m"
    "uint (word_of_int (m + 0x800000) :: ulong) = m + 0x800000"
    using small_word [of m 23] small_word [of "m + 2 ^ 23" 24] assms(2,3) by simp_all
  note c = small_nat [of c 8]
  have size: "c < length (e_table ieee_ready)" "1 < length (e_table ieee_ready)" using assms(1) by (simp_all add: ieee_ready_def)
  have zero: "of_nat c = (0::ulong) \<longleftrightarrow> c = 0" using c assms(1) unat_eq_zero [of "of_nat c :: ulong"] by simp
  have none: "word_of_int m = (0 :: ulong) \<longleftrightarrow> m = 0" using w(2) uint_0_iff [of "word_of_int m :: ulong"] by simp
  let ?v = "of_int (m + 2 ^ 23) * 2 powi (int (max c 1) - 150) :: rat"
  have scaled: "dmul (rnd (of_int (m + 2 ^ 23))) (e_table ieee_ready ! max c 1) = Fin ?v"
    using ieee.decoded_value [of "m + 2 ^ 23" "max c 1"] assms(1-3) unfolding ieee_step by simp
  have "0 < (of_int (m + 2 ^ 23) :: rat)" using assms(2) by (simp only: of_int_0_less_iff) simp
  then have nonzero: "?v \<noteq> 0" by simp
  have fields: "ieee_word s c m AND 0x80000000 = push_bit 31 (of_bool s)"
    "drop_bit 23 (ieee_word s c m AND 0x7f800000) = of_nat c" "ieee_word s c m AND 0x007fffff = word_of_int m"
    using ieee_fields [of "of_nat c" "word_of_int m" "ieee_word s c m" s] c w(1) assms(1) by (simp_all add: ieee_word_def)
  have "grib_long_to_ieee (ieee_word s c m) ieee_ready =
      (Ok (if push_bit 31 (of_bool s) \<noteq> (0::ulong) then dneg (Fin ?v) else Fin ?v), ieee_ready)"
  proof (cases "c = 0")
    case True
    then show ?thesis unfolding grib_long_to_ieee_def Let_def fields hidden_bit [OF assms(2,3)]
      using c assms size scaled by (simp add: run_simps none w(3) max_def del: of_int_uint of_int_add)
  next
    case False
    then have "max c 1 = c" by simp
    then show ?thesis unfolding grib_long_to_ieee_def Let_def fields hidden_bit [OF assms(2,3)]
      using c assms size scaled False by (simp add: run_simps zero w(3) del: of_int_uint of_int_add)
  qed
  then show ?thesis using nonzero by (cases s) (simp_all add: ieee_value_def)
qed

subsection \<open>A double as a word\<close>

lemma ibm_encode:
  assumes "rnd \<bar>r\<bar> = Fin \<bar>r\<bar>" "2 powi (- 260) \<le> \<bar>r\<bar>" "\<bar>r\<bar> \<le> (2 ^ 24 - 1) * 16 powi 57"
  shows "\<exists>c y. ibm.coded_at c y r \<and> grib_ibm_to_long (Fin r) ibm_ready =
    (Ok (if y = 2 ^ 24 - 1 / 2 then ibm_word (r < 0) (c + 1) (2 ^ 23) else ibm_word (r < 0) c \<lfloor>y + 1 / 2\<rfloor>), ibm_ready)"
proof -
  have "ibm.step 0 * 2 powi (24 - 4) \<le> \<bar>r\<bar>" using assms(2) by (simp add: ibm.step_def)
  moreover have "\<bar>r\<bar> \<le> (2 ^ 24 - 1) * ibm.step 127" using assms(3) by (simp add: ibm_step)
  ultimately obtain c y where cy: "ibm.coded_at c y r"
    "float_to_long (Fin (2 powi 4)) 127 24 (\<lambda>m. m) (Fin r) ibm_ready =
      (Ok (push_bit 31 (if r < 0 then 1 else 0) OR
         (if y = 2 ^ 24 - 1 / 2 then push_bit 24 (of_nat (c + 1)) OR 0x800000
          else push_bit 24 (of_nat c) OR word_of_int \<lfloor>y + 1 / 2\<rfloor>)), ibm_ready)"
    using ibm.float_to_long_run [OF assms(1), of 24 "\<lambda>m. m"] by blast
  have "grib_ibm_to_long (Fin r) ibm_ready =
    (Ok (if y = 2 ^ 24 - 1 / 2 then ibm_word (r < 0) (c + 1) (2 ^ 23) else ibm_word (r < 0) c \<lfloor>y + 1 / 2\<rfloor>), ibm_ready)"
    using cy(2) by (simp add: grib_ibm_to_long_def seq_run init_ibm_run ibm_word_def or.assoc)
  with cy(1) show ?thesis by blast
qed

lemma ieee_encode:
  assumes "rnd \<bar>r\<bar> = Fin \<bar>r\<bar>" "2 powi (- 126) \<le> \<bar>r\<bar>" "\<bar>r\<bar> \<le> (2 ^ 24 - 1) * 2 powi 104"
  shows "\<exists>c y. ieee.coded_at c y r \<and> grib_ieee_to_long (Fin r) ieee_ready =
    (Ok (if y = 2 ^ 24 - 1 / 2 then ieee_word (r < 0) (c + 1) 0 else ieee_word (r < 0) c (\<lfloor>y + 1 / 2\<rfloor> - 2 ^ 23)), ieee_ready)"
proof -
  have "ieee.step 1 * 2 powi (24 - 1) \<le> \<bar>r\<bar>" using assms(2) by (simp add: ieee.step_def)
  moreover have "\<bar>r\<bar> \<le> (2 ^ 24 - 1) * ieee.step 254" using assms(3) by (simp add: ieee_step)
  ultimately obtain c y where cy: "ieee.coded_at c y r"
    "float_to_long (Fin (2 powi 1)) 254 23 (\<lambda>m. m AND 0x7fffff) (Fin r) ieee_ready =
      (Ok (push_bit 31 (if r < 0 then 1 else 0) OR
         (if y = 2 ^ 24 - 1 / 2 then push_bit 23 (of_nat (c + 1)) OR 0x800000 AND 0x7fffff
          else push_bit 23 (of_nat c) OR word_of_int \<lfloor>y + 1 / 2\<rfloor> AND 0x7fffff)), ieee_ready)"
    using ieee.float_to_long_run [OF assms(1), of 23 "\<lambda>m. m AND 0x7fffff"] by blast
  have lead: "word_of_int \<lfloor>y + 1 / 2\<rfloor> AND 0x7fffff = (word_of_int (\<lfloor>y + 1 / 2\<rfloor> - 2 ^ 23) :: ulong)" if "y \<noteq> 2 ^ 24 - 1 / 2"
  proof -
    have m: "2 ^ 23 \<le> \<lfloor>y + 1 / 2\<rfloor>" "\<lfloor>y + 1 / 2\<rfloor> < 2 ^ 24" using ieee.coded_mantissa(1,2) [OF cy(1) that] by simp_all
    then show ?thesis using stored_bits [of "\<lfloor>y + 1 / 2\<rfloor> - 2 ^ 23"] hidden_bit [of "\<lfloor>y + 1 / 2\<rfloor> - 2 ^ 23"] by simp
  qed
  have "grib_ieee_to_long (Fin r) ieee_ready =
    (Ok (if y = 2 ^ 24 - 1 / 2 then ieee_word (r < 0) (c + 1) 0 else ieee_word (r < 0) c (\<lfloor>y + 1 / 2\<rfloor> - 2 ^ 23)), ieee_ready)"
    using cy(2) lead by (simp add: grib_ieee_to_long_def seq_run init_ieee_run ieee_word_def or.assoc)
  with cy(1) show ?thesis by blast
qed

end
