(* ===== verification/FloatProperties.thy ===== *)
theory FloatProperties
  imports FloatNumbers
begin

unbundle bit_operations_syntax

text \<open>
  What the coders of 32-bit floats promise: a float is read back from the double it stands for, a
  double becomes the nearest float; and where this fails.
\<close>

lemma from_static_tables:
  "grib_ibm_to_long x ibm_table = grib_ibm_to_long x ibm_ready" "grib_long_to_ibm l ibm_table = grib_long_to_ibm l ibm_ready"
  "grib_ieee_to_long x ieee_table = grib_ieee_to_long x ieee_ready" "grib_long_to_ieee l ieee_table = grib_long_to_ieee l ieee_ready"
  by (simp_all add: grib_ibm_to_long_def grib_long_to_ibm_def grib_ieee_to_long_def grib_long_to_ieee_def Let_def seq_run
      init_ibm_run init_ieee_run)

lemma whole_mantissa: "of_int m = (y::rat) \<Longrightarrow> \<lfloor>y + 1 / 2\<rfloor> = m"
  by (simp add: floor_unique)

text \<open>Multiples of a power of the base, in the range of the table.\<close>

lemma ibm_range:
  fixes y :: rat
  assumes "c \<le> 127" "2 ^ 20 \<le> y" "y \<le> 2 ^ 24 - 1"
  shows "2 powi (- 260) \<le> y * 16 powi (int c - 70)" "y * 16 powi (int c - 70) \<le> (2 ^ 24 - 1) * 16 powi 57"
proof -
  have p: "(16::rat) powi (- 70) \<le> 16 powi (int c - 70)" "(16::rat) powi (int c - 70) \<le> 16 powi 57"
    using assms(1) by (intro power_int_increasing; simp)+
  have "2 ^ 20 * 16 powi (- 70) \<le> y * 16 powi (int c - 70)" using assms(2) p(1) by (intro mult_mono) auto
  then show "2 powi (- 260) \<le> y * 16 powi (int c - 70)" by simp
  show "y * 16 powi (int c - 70) \<le> (2 ^ 24 - 1) * 16 powi 57" using assms(2,3) p(2) by (intro mult_mono) auto
qed

lemma ieee_range:
  fixes y :: rat
  assumes "1 \<le> c" "c \<le> 254" "2 ^ 23 \<le> y" "y \<le> 2 ^ 24 - 1"
  shows "2 powi (- 126) \<le> y * 2 powi (int c - 150)" "y * 2 powi (int c - 150) \<le> (2 ^ 24 - 1) * 2 powi 104"
proof -
  have p: "(2::rat) powi (- 149) \<le> 2 powi (int c - 150)" "(2::rat) powi (int c - 150) \<le> 2 powi 104"
    using assms(1,2) by (intro power_int_increasing; simp)+
  have "2 ^ 23 * 2 powi (- 149) \<le> y * 2 powi (int c - 150)" using assms(3) p(1) by (intro mult_mono) auto
  then show "2 powi (- 126) \<le> y * 2 powi (int c - 150)" by simp
  show "y * 2 powi (int c - 150) \<le> (2 ^ 24 - 1) * 2 powi 104" using assms(3,4) p(2) by (intro mult_mono) auto
qed

lemma mantissa_bounds:
  assumes "(m::int) < 2 ^ 24" shows "(of_int m :: rat) \<le> 2 ^ 24 - 1"
proof -
  have "(of_int m :: rat) \<le> of_int (2 ^ 24 - 1)" using assms by (subst of_int_le_iff) simp
  then show ?thesis by simp
qed

lemma mantissa_low: "2 ^ k \<le> m \<Longrightarrow> 2 ^ k \<le> (of_int m :: rat)"
  by (metis of_int_le_iff of_int_numeral of_int_power)

lemma ibm_codes:
  assumes "c \<le> 127" "2 ^ 20 \<le> m" "m < 2 ^ 24"
  shows "grib_long_to_ibm (ibm_word s c m) ibm_table = (Ok (Fin (ibm_value s c m)), ibm_ready)"
    "grib_ibm_to_long (Fin (ibm_value s c m)) ibm_ready = (Ok (ibm_word s c m), ibm_ready)"
proof -
  have m: "2 ^ 20 \<le> (of_int m :: rat)" "(of_int m :: rat) \<le> 2 ^ 24 - 1" "0 < m"
    using assms mantissa_low [of 20 m] mantissa_bounds [of m] by auto
  show "grib_long_to_ibm (ibm_word s c m) ibm_table = (Ok (Fin (ibm_value s c m)), ibm_ready)"
    using ibm_decode [of c m s] assms m(3) by (simp add: from_static_tables)
  let ?v = "of_int m * 16 powi (int c - 70) :: rat"
  have "0 < ?v" using m(3) by simp
  then have v: "\<bar>ibm_value s c m\<bar> = ?v" "ibm_value s c m < 0 \<longleftrightarrow> s" unfolding ibm_value_def by auto
  have "rnd ?v = Fin ?v"
    using rnd_dyadic [of m "4 * (int c - 70)"] assms power_int_mult [of "2::rat" 4 "int c - 70"] by simp
  then obtain c' y where cy: "ibm.coded_at c' y (ibm_value s c m)" "grib_ibm_to_long (Fin (ibm_value s c m)) ibm_ready =
    (Ok (if y = 2 ^ 24 - 1 / 2 then ibm_word s (c' + 1) (2 ^ 23) else ibm_word s c' \<lfloor>y + 1 / 2\<rfloor>), ibm_ready)"
    using ibm_encode [of "ibm_value s c m"] ibm_range [OF assms(1) m(1,2)] unfolding v by blast
  have "c' = c" "y = of_int m"
    using ibm.coded_unique [OF cy(1), of "of_int m" c] v(1) m assms(1) by (simp_all add: ibm_step)
  moreover have "of_int m \<noteq> (2 ^ 24 - 1 / 2 :: rat)" using m(2) by auto
  ultimately show "grib_ibm_to_long (Fin (ibm_value s c m)) ibm_ready = (Ok (ibm_word s c m), ibm_ready)"
    using cy(2) whole_mantissa [OF refl, of m] by simp
qed

text \<open>Every IBM float with a normalised mantissa is the word that the double it stands for is coded
  as; the first use fills the table.\<close>

theorem ibm_code_round_trip:
  assumes "c \<le> 127" "2 ^ 20 \<le> m" "m < 2 ^ 24"
  shows "grib_long_to_ibm (ibm_word s c m) ibm_table = (Ok (Fin (ibm_value s c m)), ibm_ready) \<and>
    grib_ibm_to_long (Fin (ibm_value s c m)) ibm_ready = (Ok (ibm_word s c m), ibm_ready)"
  using ibm_codes [OF assms] by blast

lemma ieee_codes:
  assumes "1 \<le> c" "c \<le> 254" "0 \<le> m" "m < 2 ^ 23"
  shows "grib_long_to_ieee (ieee_word s c m) ieee_table = (Ok (Fin (ieee_value s c (m + 2 ^ 23))), ieee_ready)"
    "grib_ieee_to_long (Fin (ieee_value s c (m + 2 ^ 23))) ieee_ready = (Ok (ieee_word s c m), ieee_ready)"
proof -
  let ?m = "m + 2 ^ 23"
  have m: "2 ^ 23 \<le> (of_int ?m :: rat)" "(of_int ?m :: rat) \<le> 2 ^ 24 - 1" "0 < ?m" "?m < 2 ^ 24"
    using assms mantissa_low [of 23 ?m] mantissa_bounds [of ?m] by auto
  have "max c 1 = c" using assms(1) by simp
  then show "grib_long_to_ieee (ieee_word s c m) ieee_table = (Ok (Fin (ieee_value s c ?m)), ieee_ready)"
    using ieee_decode [of c m s] assms by (simp add: from_static_tables)
  let ?v = "of_int ?m * 2 powi (int c - 150) :: rat"
  have "0 < ?v" using m(3) by (intro mult_pos_pos) (simp_all only: of_int_0_less_iff zero_less_power_int zero_less_numeral)
  then have v: "\<bar>ieee_value s c ?m\<bar> = ?v" "ieee_value s c ?m < 0 \<longleftrightarrow> s" unfolding ieee_value_def by auto
  have "rnd ?v = Fin ?v" using rnd_dyadic [of ?m "int c - 150"] assms(1,2) m(3,4) by simp
  then obtain c' y where cy: "ieee.coded_at c' y (ieee_value s c ?m)" "grib_ieee_to_long (Fin (ieee_value s c ?m)) ieee_ready =
    (Ok (if y = 2 ^ 24 - 1 / 2 then ieee_word s (c' + 1) 0 else ieee_word s c' (\<lfloor>y + 1 / 2\<rfloor> - 2 ^ 23)), ieee_ready)"
    using ieee_encode [of "ieee_value s c ?m"] ieee_range [OF assms(1,2) m(1,2)] unfolding v by blast
  have "c' = c" "y = of_int ?m"
    using ieee.coded_unique [OF cy(1), of "of_int ?m" c] v(1) m assms(2) by (simp_all add: ieee_step)
  moreover have "of_int ?m \<noteq> (2 ^ 24 - 1 / 2 :: rat)" using m(2) by auto
  ultimately show "grib_ieee_to_long (Fin (ieee_value s c ?m)) ieee_ready = (Ok (ieee_word s c m), ieee_ready)"
    using cy(2) whole_mantissa [OF refl, of ?m] by (simp only: if_False) simp
qed

text \<open>Every normal IEEE float is the word that the double it stands for is coded as.\<close>

theorem ieee_code_round_trip:
  assumes "1 \<le> c" "c \<le> 254" "0 \<le> m" "m < 2 ^ 23"
  shows "grib_long_to_ieee (ieee_word s c m) ieee_table = (Ok (Fin (ieee_value s c (m + 2 ^ 23))), ieee_ready) \<and>
    grib_ieee_to_long (Fin (ieee_value s c (m + 2 ^ 23))) ieee_ready = (Ok (ieee_word s c m), ieee_ready)"
  using ieee_codes [OF assms] by blast

lemma ibm_exponent:
  assumes "c \<le> 127" "0 \<le> m" "m < 2 ^ 24" shows "drop_bit 24 (ibm_word s c m AND 0x7f000000) = of_nat c"
  using ibm_fields(2) [OF _ _ ibm_word_def, of c m s] small_nat [of c 7] small_word(2) [of m 24] assms by simp

lemma ieee_exponent:
  assumes "c \<le> 255" "0 \<le> m" "m < 2 ^ 23" shows "drop_bit 23 (ieee_word s c m AND 0x7f800000) = of_nat c"
  using ieee_fields(2) [OF _ _ ieee_word_def, of c m s] small_nat [of c 8] small_word(2) [of m 23] assms by simp

text \<open>How far the value of a rounded mantissa is from the number.\<close>

lemma rounded_distance:
  fixes st :: rat
  assumes "\<bar>r\<bar> = y * st" "\<bar>of_int m - y\<bar> \<le> 1 / 2" "0 < st"
  shows "\<bar>(if r < 0 then - 1 else 1) * (of_int m * st) - r\<bar> \<le> st / 2"
proof -
  have "(if r < 0 then - 1 else 1) * (of_int m * st) - r = (if r < 0 then - 1 else 1) * ((of_int m - y) * st)"
    using assms(1) by (auto simp: algebra_simps abs_if split: if_splits)
  then have "\<bar>(if r < 0 then - 1 else 1) * (of_int m * st) - r\<bar> = \<bar>of_int m - y\<bar> * st"
    using assms(3) by (simp add: abs_mult)
  also have "\<dots> \<le> 1 / 2 * st" using assms(2,3) by (intro mult_right_mono) auto
  finally show ?thesis by simp
qed


lemma one_double: "rnd \<bar>1\<bar> = Fin \<bar>1\<bar>"
  by simp




subsection \<open>Out of range\<close>

lemma ibm_out_of_range:
  "\<bar>r\<bar> < 2 powi (- 260) \<Longrightarrow> grib_ibm_to_long (Fin r) ibm_table = (Ok (push_bit 31 (of_bool (r < 0))), ibm_ready)"
  "(2 ^ 24 - 1) * 16 powi 57 < \<bar>r\<bar> \<Longrightarrow> grib_ibm_to_long (Fin r) ibm_table = (Exit 134, ibm_ready)"
  by (auto simp: grib_ibm_to_long_def seq_run init_ibm_run float_to_long_def bnd_run rd_run ret_run exit_with_run Let_def ibm_ready_def abs_if
      split: if_splits)

lemma ieee_out_of_range:
  "\<bar>r\<bar> < 2 powi (- 126) \<Longrightarrow> grib_ieee_to_long (Fin r) ieee_table = (Ok (push_bit 31 (of_bool (r < 0))), ieee_ready)"
  "(2 ^ 24 - 1) * 2 powi 104 < \<bar>r\<bar> \<Longrightarrow> grib_ieee_to_long (Fin r) ieee_table = (Exit 134, ieee_ready)"
  by (auto simp: grib_ieee_to_long_def seq_run init_ieee_run float_to_long_def bnd_run rd_run ret_run exit_with_run Let_def ieee_ready_def abs_if
      split: if_splits)

lemma sign_only:
  "grib_long_to_ibm (push_bit 31 (of_bool s)) ibm_ready = (Ok (Fin 0), ibm_ready)"
  "grib_long_to_ieee (push_bit 31 (of_bool s)) ieee_ready = (Ok (Fin 0), ieee_ready)"
  by (cases s; simp add: grib_long_to_ibm_def grib_long_to_ieee_def seq_run init_ibm_run init_ieee_run ret_run Let_def)+

text \<open>The words that IEEE keeps for infinities and NaN are looked up behind the end of the table, and a
  subnormal number is read as if it were normal.\<close>

theorem ieee_special_words:
  assumes "0 \<le> m" "m < 2 ^ 23"
  shows "grib_long_to_ieee (ieee_word s 255 m) ieee_table = (Crash, ieee_ready) \<and>
    (0 < m \<longrightarrow> grib_long_to_ieee (ieee_word s 0 m) ieee_table = (Ok (Fin (ieee_value s 1 (m + 2 ^ 23))), ieee_ready))"
proof (intro conjI impI)
  have fields: "ieee_word s 255 m AND 0x80000000 = push_bit 31 (of_bool s)"
    "drop_bit 23 (ieee_word s 255 m AND 0x7f800000) = of_nat 255" "ieee_word s 255 m AND 0x007fffff = word_of_int m"
    using ieee_fields [of "of_nat 255" "word_of_int m" "ieee_word s 255 m" s] small_nat [of 255 8] small_word(2) [of m 23] assms
    by (simp_all add: ieee_word_def)
  show "grib_long_to_ieee (ieee_word s 255 m) ieee_table = (Crash, ieee_ready)"
    unfolding from_static_tables grib_long_to_ieee_def Let_def fields
    by (simp add: run_simps entry_def ieee_ready_def del: upt_Suc)
  show "grib_long_to_ieee (ieee_word s 0 m) ieee_table = (Ok (Fin (ieee_value s 1 (m + 2 ^ 23))), ieee_ready)" if "0 < m"
    using ieee_decode [of 0 m s] assms that by (simp add: from_static_tables)
qed

end
