(* ===== verification/FloatReferences.thy ===== *)
theory FloatReferences
  imports FloatProperties
begin

unbundle bit_operations_syntax

text \<open>
  The next float that is not larger, which is what a reference value is replaced by before the values
  of a field are packed.
\<close>

subsection \<open>IEEE floats\<close>

text \<open>Where a double is coded, and between which neighbours of the float it lies.\<close>

lemma ieee_place:
  assumes "rnd \<bar>r\<bar> = Fin \<bar>r\<bar>" "2 powi (- 126) \<le> \<bar>r\<bar>" "\<bar>r\<bar> \<le> (2 ^ 24 - 1) * 2 powi 104"
  shows "\<exists>c m. 1 \<le> c \<and> c \<le> 254 \<and> 2 ^ 23 \<le> m \<and> m < 2 ^ 24 \<and>
    grib_ieee_to_long (Fin r) ieee_ready = (Ok (ieee_word (r < 0) c (m - 2 ^ 23)), ieee_ready) \<and>
    (of_int m - (if m = 2 ^ 23 then 1 / 4 else 1 / 2)) * 2 powi (int c - 150) \<le> \<bar>r\<bar> \<and>
    \<bar>r\<bar> \<le> (of_int m + 1 / 2) * 2 powi (int c - 150)"
proof -
  obtain c y where cy: "ieee.coded_at c y r" and w: "grib_ieee_to_long (Fin r) ieee_ready =
    (Ok (if y = 2 ^ 24 - 1 / 2 then ieee_word (r < 0) (c + 1) 0 else ieee_word (r < 0) c (\<lfloor>y + 1 / 2\<rfloor> - 2 ^ 23)), ieee_ready)"
    using ieee_encode [OF assms] by blast
  have c: "1 \<le> c" "c \<le> 254" "\<bar>r\<bar> = y * 2 powi (int c - 150)" "y = 2 ^ 24 - 1 / 2 \<longrightarrow> c < 254" "2 ^ 24 - 1 / 2 < y * 2"
    using cy unfolding ieee.coded_at_def ieee_step by auto
  show ?thesis
  proof (cases "y = 2 ^ 24 - 1 / 2")
    case True
    have pw: "2 powi (int (c + 1) - 150) = 2 * (2::rat) powi (int c - 150)"
      by (simp add: power_int_add [of 2 "int c - 150" 1, simplified] add.commute)
    have "(2 ^ 23 - 1 / 4) * 2 powi (int (c + 1) - 150) = \<bar>r\<bar>" unfolding pw c(3) True by simp
    moreover have "\<bar>r\<bar> \<le> (2 ^ 23 + 1 / 2) * 2 powi (int (c + 1) - 150)"
      unfolding pw c(3) True by (simp add: mult.assoc [symmetric])
    ultimately show ?thesis using c True w by (intro exI [of _ "c + 1"] exI [of _ "2 ^ 23"]) simp
  next
    case False
    let ?m = "\<lfloor>y + 1 / 2\<rfloor>"
    have m: "2 ^ 23 \<le> ?m" "?m < 2 ^ 24" "\<bar>of_int ?m - y\<bar> \<le> 1 / 2" using ieee.coded_mantissa [OF cy False] by simp_all
    have "of_int ?m - 1 / 2 \<le> y" "y \<le> of_int ?m + 1 / 2" using m(3) by linarith+
    then have "of_int ?m - (if ?m = 2 ^ 23 then 1 / 4 else 1 / 2) \<le> y" "y \<le> of_int ?m + 1 / 2" using c(5) by auto
    then have "(of_int ?m - (if ?m = 2 ^ 23 then 1 / 4 else 1 / 2)) * 2 powi (int c - 150) \<le> \<bar>r\<bar>"
      "\<bar>r\<bar> \<le> (of_int ?m + 1 / 2) * 2 powi (int c - 150)" unfolding c(3) by (intro mult_right_mono; simp)+
    then show ?thesis using c m w False by (intro exI [of _ c] exI [of _ ?m]) simp
  qed
qed

lemma ieee_word_fields:
  assumes "c \<le> 255" "0 \<le> m" "m < 2 ^ 23"
  shows "ieee_word s c m AND 0x80000000 = push_bit 31 (of_bool s)"
    "drop_bit 23 (ieee_word s c m AND 0x7f800000) = of_nat c"
    "(ieee_word s c m AND 0x007fffff) OR 0x800000 = word_of_int (m + 2 ^ 23)"
  using ieee_fields [OF _ _ ieee_word_def, of c m s] small_nat [of c 8] small_word(2) [of m 23] hidden_bit [of m] assms by auto

text \<open>The float below the one that was rounded up to.\<close>

definition ieee_below :: "bool \<Rightarrow> nat \<Rightarrow> int \<Rightarrow> nat \<times> nat \<times> int" where
  "ieee_below s c m =
     (if s then (if m + 1 < 2 ^ 24 then (c, c, m + 1) else (c, c + 1, 2 ^ 23))
      else if m = 2 ^ 23 then (c - 1, c - 1, 2 ^ 24 - 1) else (c, c, m - 1))"

lemma ieee_below_value:
  assumes "ieee_below s c m = (e, c', m')" "s \<or> m \<noteq> 2 ^ 23 \<or> 2 \<le> c" "2 ^ 23 \<le> m" "m < 2 ^ 24"
  shows "ieee_value s c m - 2 powi (int e - 150) = ieee_value s c' m'"
    "2 ^ 23 \<le> m'" "m' < 2 ^ 24"
proof -
  have step: "(2::rat) powi (int k - 149) = 2 * 2 powi (int k - 150)" for k
    using power_int_add [of "2::rat" "int k - 150" 1] by simp
  consider "s" "m + 1 < 2 ^ 24" | "s" "m = 2 ^ 24 - 1" | "\<not> s" "m = 2 ^ 23" "2 \<le> c" | "\<not> s" "m \<noteq> 2 ^ 23"
    using assms(2,4) by fastforce
  then have "ieee_value s c m - 2 powi (int e - 150) = ieee_value s c' m' \<and> 2 ^ 23 \<le> m' \<and> m' < 2 ^ 24"
  proof cases
    case 3
    then obtain k where k: "c = Suc k" by (cases c) auto
    then show ?thesis using 3 assms(1) step [of k] by (auto simp: ieee_below_def ieee_value_def algebra_simps)
  qed (use assms step [of c] in \<open>auto simp: ieee_below_def ieee_value_def algebra_simps\<close>)
  then show "ieee_value s c m - 2 powi (int e - 150) = ieee_value s c' m'" "2 ^ 23 \<le> m'" "m' < 2 ^ 24" by blast+
qed

lemma nat_words:
  assumes "c \<le> 300" "d \<le> 300"
  shows "(of_nat c < (of_nat d :: ulong)) = (c < d)" "unat (of_nat c :: ulong) = c" "1 \<le> c \<Longrightarrow> of_nat c - 1 = (of_nat (c - 1) :: ulong)"
  using small_nat [of c 32] small_nat [of d 32] assms by (simp_all add: word_less_nat_alt of_nat_diff)

lemma ieee_below_exponent:
  assumes "1 \<le> c" "c \<le> 254" "2 ^ 23 \<le> m" "m < 2 ^ 24" "s \<or> m \<noteq> 2 ^ 23 \<or> 2 \<le> c"
  shows "(if word_of_int m = (0x800000 :: ulong)
      then (let e = (if push_bit 31 (of_bool s) \<noteq> (0::ulong) then of_nat c else of_nat c - 1); e = (if e < 1 then 1 else e)
            in if 254 < e then 254 else e)
      else of_nat c) = (of_nat (fst (ieee_below s c m)) :: ulong)"
proof -
  have "uint (word_of_int m :: ulong) = m" using small_word(1) [of m 24] assms(3,4) by simp
  then have m: "word_of_int m = (0x800000 :: ulong) \<longleftrightarrow> m = 2 ^ 23" by auto
  have sign: "push_bit 31 (of_bool s) \<noteq> (0::ulong) \<longleftrightarrow> s" by (cases s) simp_all
  have c: "\<not> of_nat k < (1::ulong)" "\<not> (254::ulong) < of_nat k" if "1 \<le> k" "k \<le> 254" for k
    using nat_words(1) [of k 1] nat_words(1) [of 254 k] that by auto
  show ?thesis
  proof (cases "m = 2 ^ 23")
    case True
    show ?thesis
    proof (cases s)
      case s: True
      then show ?thesis unfolding m sign using True c(1,2) [OF assms(1,2)] by (simp add: ieee_below_def Let_def del: not_less)
    next
      case s: False
      then have "1 \<le> c - 1" "c - 1 \<le> 254" using True assms by auto
      then show ?thesis unfolding m sign using True s c [of "c - 1"] nat_words(3) [of c c] assms
        by (simp add: ieee_below_def Let_def del: not_less of_nat_diff)
    qed
  next
    case False
    then show ?thesis unfolding m by (simp add: ieee_below_def)
  qed
qed

text \<open>The distance to a float and to the one below it.\<close>

lemma below_distance:
  fixes st :: rat
  assumes "(of_int m - (if m = 2 ^ 23 then 1 / 4 else 1 / 2)) * st \<le> \<bar>r\<bar>" "\<bar>r\<bar> \<le> (of_int m + 1 / 2) * st" "0 < st"
    "v = (if r < 0 then - 1 else 1) * (of_int m * st)" "r < v" "eps = (if \<not> r < 0 \<and> m = 2 ^ 23 then st / 2 else st)"
  shows "v - eps \<le> r" "r - (v - eps) \<le> st"
  using assms by (auto simp: algebra_simps split: if_splits)

lemma unit_bound:
  assumes "(of_int m - (if m = 2 ^ 23 then 1 / 4 else 1 / 2)) * st \<le> \<bar>r\<bar>" "2 ^ 23 \<le> m" "0 < st"
  shows "(st :: rat) \<le> \<bar>r\<bar> / 2 ^ 22"
proof -
  have "2 ^ 22 \<le> of_int m - (if m = 2 ^ 23 then 1 / 4 else 1 / 2 :: rat)" using mantissa_low [OF assms(2)] by auto
  then have "2 ^ 22 * st \<le> (of_int m - (if m = 2 ^ 23 then 1 / 4 else 1 / 2)) * st" using assms(3) by (intro mult_right_mono) simp_all
  then have "2 ^ 22 * st \<le> \<bar>r\<bar>" using assms(1) by (rule order_trans)
  then show ?thesis by simp
qed

lemma ieee_value_double: "1 \<le> c \<Longrightarrow> c \<le> 254 \<Longrightarrow> 2 ^ 23 \<le> m \<Longrightarrow> m < 2 ^ 24 \<Longrightarrow> rnd (ieee_value s c m) = Fin (ieee_value s c m)"
  using rnd_dyadic [of m "int c - 150"] rnd_dyadic [of "- m" "int c - 150"] by (cases s) (simp_all add: ieee_value_def)

text \<open>Where the nearest float is not larger, it is kept; else the float below it is taken.\<close>

lemma ieee_smaller_kept:
  assumes "r \<noteq> 0" "grib_ieee_to_long (Fin r) ieee_ready = (Ok l, ieee_ready)" "grib_long_to_ieee l ieee_ready = (Ok (Fin v), ieee_ready)"
    "v \<le> r"
  shows "grib_ieee_nearest_smaller_to_long (Fin r) ieee_ready = (Ok l, ieee_ready)"
  using assms by (simp add: grib_ieee_nearest_smaller_to_long_def seq_run bnd_run init_ieee_run rd_run ret_run)

lemma ieee_smaller_below:
  assumes "rnd \<bar>r\<bar> = Fin \<bar>r\<bar>" "2 powi (- 126) \<le> \<bar>r\<bar>" "1 \<le> c" "c \<le> 254" "2 ^ 23 \<le> m" "m < 2 ^ 24"
    and code: "grib_ieee_to_long (Fin r) ieee_ready = (Ok (ieee_word (r < 0) c (m - 2 ^ 23)), ieee_ready)"
    and less: "r < ieee_value (r < 0) c m"
    and below: "ieee_below (r < 0) c m = (e, c', m')" "r < 0 \<or> m \<noteq> 2 ^ 23 \<or> 2 \<le> c" "1 \<le> c'" "c' \<le> 254" "e \<le> 254"
    and le: "ieee_value (r < 0) c' m' \<le> r"
  shows "grib_ieee_nearest_smaller_to_long (Fin r) ieee_ready = (Ok (ieee_word (r < 0) c' (m' - 2 ^ 23)), ieee_ready)"
proof -
  let ?s = "r < 0"
  let ?l = "ieee_word ?s c (m - 2 ^ 23)" and ?v = "ieee_value ?s c m" and ?v' = "ieee_value ?s c' m'"
  have m': "?v - 2 powi (int e - 150) = ?v'" "2 ^ 23 \<le> m'" "m' < 2 ^ 24" using ieee_below_value [OF below(1,2) assms(5,6)] by blast+
  have "max c 1 = c" "max c' 1 = c'" using assms(3) below(3) by simp_all
  then have decode: "grib_long_to_ieee ?l ieee_ready = (Ok (Fin ?v), ieee_ready)"
    "grib_long_to_ieee (ieee_word ?s c' (m' - 2 ^ 23)) ieee_ready = (Ok (Fin ?v'), ieee_ready)"
    using ieee_decode [of c "m - 2 ^ 23" ?s] ieee_decode [of c' "m' - 2 ^ 23" ?s] assms(3-6) below(3,4) m'(2,3) by simp_all
  have recode: "grib_ieee_to_long (Fin ?v') ieee_ready = (Ok (ieee_word ?s c' (m' - 2 ^ 23)), ieee_ready)"
    using ieee_codes(2) [of c' "m' - 2 ^ 23" ?s] below(3,4) m'(2,3) by simp
  have fields: "?l AND 0x80000000 = push_bit 31 (of_bool ?s)" "drop_bit 23 (?l AND 0x7f800000) = of_nat c"
    "(?l AND 0x007fffff) OR 0x800000 = word_of_int m"
    using ieee_word_fields [of c "m - 2 ^ 23" ?s] assms(4-6) by simp_all
  have exponent: "(if word_of_int m = (0x800000 :: ulong)
      then (let e = (if push_bit 31 (of_bool ?s) \<noteq> (0::ulong) then of_nat c else of_nat c - 1); e = (if e < 1 then 1 else e)
            in if 254 < e then 254 else e)
      else of_nat c) = (of_nat e :: ulong)"
    using ieee_below_exponent [OF assms(3-6) below(2)] below(1) by simp
  have "1 \<le> e" using below(1,2) assms(3) by (auto simp: ieee_below_def split: if_splits)
  then have entry: "entry e_table (unat (of_nat e :: ulong)) ieee_ready = (Ok (Fin (2 powi (int e - 150))), ieee_ready)"
    using below(5) nat_words(2) [of e e] ieee.entries(1) [of e]
    by (simp add: entry_run ieee_ready_def powers_def del: upt_Suc)
  have "dsub (Fin ?v) (Fin (2 powi (int e - 150))) = rnd ?v'"
    using m'(1) by (simp add: dsub_def)
  then have lower: "dsub (Fin ?v) (Fin (2 powi (int e - 150))) = Fin ?v'"
    using ieee_value_double [OF below(3,4) m'(2,3)] by simp
  have tiny: "\<not> (dless (Fin r) (Fin 0) \<and> dless (dneg (Fin r)) (vmin ieee_ready))"
    using assms(2) by (auto simp: ieee_ready_def)
  have nonzero: "\<not> deq (Fin r) (Fin 0)" using assms(2) by auto
  have lt: "dless (Fin r) (Fin ?v)" "\<not> dless (Fin r) (Fin ?v')" using less le by simp_all
  show ?thesis
    unfolding grib_ieee_nearest_smaller_to_long_def
    by (simp only: nonzero if_False seq_run bnd_run init_ieee_run rd_run continue.simps code decode lt if_True tiny
        Let_def fields exponent [unfolded Let_def] entry lower recode simp_thms ret_run)
qed

lemma ieee_smaller_in_range:
  assumes "rnd \<bar>r\<bar> = Fin \<bar>r\<bar>" "2 powi (- 126) \<le> \<bar>r\<bar>" "\<bar>r\<bar> \<le> (2 ^ 24 - 1) * 2 powi 104"
  shows "\<exists>l d. grib_ieee_nearest_smaller_to_long (Fin r) ieee_ready = (Ok l, ieee_ready) \<and>
    grib_long_to_ieee l ieee_ready = (Ok (Fin d), ieee_ready) \<and> d \<le> r \<and> r - d \<le> \<bar>r\<bar> / 2 ^ 22"
proof -
  let ?s = "r < 0"
  obtain c m where cm: "1 \<le> c" "c \<le> 254" "2 ^ 23 \<le> m" "m < 2 ^ 24"
    "grib_ieee_to_long (Fin r) ieee_ready = (Ok (ieee_word ?s c (m - 2 ^ 23)), ieee_ready)"
    and lo: "(of_int m - (if m = 2 ^ 23 then 1 / 4 else 1 / 2)) * 2 powi (int c - 150) \<le> \<bar>r\<bar>"
    and hi: "\<bar>r\<bar> \<le> (of_int m + 1 / 2) * 2 powi (int c - 150)"
    using ieee_place [OF assms] by blast
  let ?u = "2 powi (int c - 150) :: rat" and ?v = "ieee_value ?s c m"
  have u: "0 < ?u" "?u \<le> \<bar>r\<bar> / 2 ^ 22" using unit_bound [OF lo cm(3)] by simp_all
  have "max c 1 = c" using cm(1) by simp
  then have decode: "grib_long_to_ieee (ieee_word ?s c (m - 2 ^ 23)) ieee_ready = (Ok (Fin ?v), ieee_ready)"
    using ieee_decode [of c "m - 2 ^ 23" ?s] cm(1-4) by simp
  have v: "?v = (if r < 0 then - 1 else 1) * (of_int m * ?u)" by (simp add: ieee_value_def)
  have r0: "r \<noteq> 0" using assms(2) by auto
  show ?thesis
  proof (cases "?v \<le> r")
    case True
    have "r - ?v \<le> ?u"
      using True lo hi u(1) unfolding v by (auto simp: algebra_simps split: if_splits)
    then show ?thesis using ieee_smaller_kept [OF r0 cm(5) decode True] decode True u(2) by fastforce
  next
    case False
    then have less: "r < ?v" by simp
    obtain e c' m' where b: "ieee_below ?s c m = (e, c', m')" by (cases "ieee_below ?s c m")
    have two: "?s \<or> m \<noteq> 2 ^ 23 \<or> 2 \<le> c"
    proof (rule ccontr)
      assume "\<not> (?s \<or> m \<noteq> 2 ^ 23 \<or> 2 \<le> c)"
      then have "c = 1" "m = 2 ^ 23" "\<not> ?s" using cm(1) by auto
      then have "?v = 2 powi (- 126)" "\<not> ?s" by (simp_all add: ieee_value_def)
      then show False using less assms(2) by simp
    qed
    have top: "c < 254" if "?s" "m + 1 = 2 ^ 24"
    proof (rule ccontr)
      assume "\<not> c < 254"
      then have "c = 254" using cm(2) by simp
      moreover have "m = 2 ^ 24 - 1" using that by simp
      ultimately have "?v = - ((2 ^ 24 - 1) * 2 powi 104)" using that by (simp add: ieee_value_def)
      then show False using less assms(3) that by simp
    qed
    have c': "1 \<le> c'" "c' \<le> 254" "e \<le> 254"
      using b two cm top by (auto simp: ieee_below_def split: if_splits)
    have eps: "2 powi (int e - 150) = (if \<not> r < 0 \<and> m = 2 ^ 23 then ?u / 2 else ?u)"
      using b two power_int_add [of "2::rat" "int c - 151" 1] by (auto simp: ieee_below_def of_nat_diff split: if_splits)
    have v': "?v - 2 powi (int e - 150) = ieee_value ?s c' m'" "2 ^ 23 \<le> m'" "m' < 2 ^ 24"
      using ieee_below_value [OF b two cm(3,4)] by blast+
    have le: "ieee_value ?s c' m' \<le> r" "r - ieee_value ?s c' m' \<le> ?u"
      using below_distance [OF lo hi u(1) v less eps] v'(1) by simp_all
    have "max c' 1 = c'" using c'(1) by simp
    then have "grib_long_to_ieee (ieee_word ?s c' (m' - 2 ^ 23)) ieee_ready = (Ok (Fin (ieee_value ?s c' m')), ieee_ready)"
      using ieee_decode [of c' "m' - 2 ^ 23" ?s] c'(1,2) v'(2,3) by simp
    then show ?thesis
      using ieee_smaller_below [OF assms(1,2) cm(1-5) less b two c' le(1)] le u(2) by fastforce
  qed
qed

lemma ieee_smaller_tiny:
  assumes "\<bar>r\<bar> < 2 powi (- 126)"
  shows "\<exists>l d. grib_ieee_nearest_smaller_to_long (Fin r) ieee_ready = (Ok l, ieee_ready) \<and>
    grib_long_to_ieee l ieee_ready = (Ok (Fin d), ieee_ready) \<and> d \<le> r \<and> r - d \<le> 2 powi (- 126)"
proof -
  have code: "grib_ieee_to_long (Fin r) ieee_ready = (Ok (push_bit 31 (of_bool (r < 0))), ieee_ready)"
    using ieee_out_of_range(1) [OF assms] by (simp only: from_static_tables)
  note decode = sign_only(2) [of "r < 0"]
  consider "r = 0" | "0 < r" | "r < 0" by linarith
  then show ?thesis
  proof cases
    case 1
    then show ?thesis using sign_only(2) [of False] by (simp add: grib_ieee_nearest_smaller_to_long_def run_simps)
  next
    case 2
    then have "grib_ieee_nearest_smaller_to_long (Fin r) ieee_ready = (Ok (push_bit 31 (of_bool (r < 0))), ieee_ready)"
      by (intro ieee_smaller_kept [OF _ code decode]) simp_all
    moreover have "0 \<le> r \<and> r - 0 \<le> 2 powi (- 126)" using 2 assms by simp
    ultimately show ?thesis using decode by blast
  next
    case 3
    have w: "ieee_word True 1 0 = 0x80800000" by (simp add: ieee_word_def)
    have least: "grib_long_to_ieee 0x80800000 ieee_ready = (Ok (Fin (- (2 powi (- 126)))), ieee_ready)"
      using ieee_decode [of 1 0 True] unfolding w by (simp add: ieee_value_def)
    have tests: "\<not> deq (Fin r) (Fin 0)" "dless (Fin r) (Fin 0)" "dless (dneg (Fin r)) (vmin ieee_ready)"
      "\<not> dless (Fin r) (Fin (- (2 powi (- 126))))" using 3 assms by (auto simp: ieee_ready_def)
    have "grib_ieee_nearest_smaller_to_long (Fin r) ieee_ready = (Ok 0x80800000, ieee_ready)"
      unfolding grib_ieee_nearest_smaller_to_long_def
      by (simp only: tests if_False if_True simp_thms seq_run bnd_run init_ieee_run rd_run continue.simps code decode least ret_run)
    moreover have "- (2 powi (- 126)) \<le> r \<and> r - (- (2 powi (- 126))) \<le> 2 powi (- 126)" using 3 assms by simp
    ultimately show ?thesis using least by blast
  qed
qed

text \<open>C30. The reference value that a double is replaced by, as an IEEE float: for every double that is not
  above the largest float in size there is one, it is not larger, and close.\<close>

theorem ieee_reference:
  assumes "rnd \<bar>r\<bar> = Fin \<bar>r\<bar>" "\<bar>r\<bar> \<le> (2 ^ 24 - 1) * 2 powi 104"
  shows "\<exists>d. grib_nearest_smaller_ieee_float (Fin r) ieee_table = (Ok (0, Some (Fin d)), ieee_ready) \<and>
    d \<le> r \<and> r - d \<le> max (2 powi (- 126)) (\<bar>r\<bar> / 2 ^ 22)"
proof -
  have "\<exists>l d. grib_ieee_nearest_smaller_to_long (Fin r) ieee_ready = (Ok l, ieee_ready) \<and>
    grib_long_to_ieee l ieee_ready = (Ok (Fin d), ieee_ready) \<and> d \<le> r \<and> r - d \<le> max (2 powi (- 126)) (\<bar>r\<bar> / 2 ^ 22)"
  proof (cases "2 powi (- 126) \<le> \<bar>r\<bar>")
    case True
    then show ?thesis using ieee_smaller_in_range [OF assms(1) True assms(2)] by fastforce
  next
    case False
    then have "\<bar>r\<bar> < 2 powi (- 126)" by simp
    from ieee_smaller_tiny [OF this] show ?thesis by fastforce
  qed
  then obtain l d where "grib_ieee_nearest_smaller_to_long (Fin r) ieee_ready = (Ok l, ieee_ready)"
    "grib_long_to_ieee l ieee_ready = (Ok (Fin d), ieee_ready)" "d \<le> r" "r - d \<le> max (2 powi (- 126)) (\<bar>r\<bar> / 2 ^ 22)" by blast
  moreover have "\<not> dless (vmax ieee_ready) (Fin r)" using assms(2) by (simp add: ieee_ready_def)
  ultimately show ?thesis
    by (simp add: grib_nearest_smaller_ieee_float_def seq_run bnd_run init_ieee_run rd_run ret_run)
qed

lemma ieee_reference_witness:
  "\<exists>d. grib_nearest_smaller_ieee_float (Fin (- 1)) ieee_table = (Ok (0, Some (Fin d)), ieee_ready) \<and>
    d \<le> - 1 \<and> - 1 - d \<le> max (2 powi (- 126)) (\<bar>- 1\<bar> / 2 ^ 22)"
  by (rule ieee_reference) simp_all

subsection \<open>IBM floats\<close>

text \<open>
  Half a unit below a power of 16, on the negative side, the float that is eight times too large in
  size is taken for the next smaller one.
\<close>

theorem ibm_reference_eightfold:
  assumes "c < 127"
  shows "grib_nearest_smaller_ibm_float (Fin (- ((2 ^ 24 - 1 / 2) * 16 powi (int c - 70)))) ibm_table =
    (Ok (0, Some (Fin (- (8 * (2 ^ 24 * 16 powi (int c - 70)))))), ibm_ready)"
proof -
  let ?p = "16 powi (int c - 70) :: rat"
  let ?r = "- ((2 ^ 24 - 1 / 2) * ?p)" and ?d = "- (8 * (2 ^ 24 * ?p))"
  have p: "0 < ?p" by simp
  have a: "\<bar>?r\<bar> = (2 ^ 24 - 1 / 2) * ?p" "?r < 0" using p by (simp_all add: abs_mult mult_pos_pos)
  have pw: "?p = 2 powi (4 * (int c - 70))" by (simp only: power_int_mult) simp
  have half: "(2 ^ 24 - 1 / 2) * ?p = of_int (2 ^ 25 - 1) * 2 powi (4 * (int c - 70) - 1)"
    unfolding pw by (simp add: power_int_diff)
  have "rnd ((2 ^ 24 - 1 / 2) * ?p) = Fin ((2 ^ 24 - 1 / 2) * ?p)" unfolding half by (rule rnd_dyadic) (use assms in auto)
  then have "rnd \<bar>?r\<bar> = Fin \<bar>?r\<bar>" by (simp only: a)
  moreover have pr: "16 powi (- 70) \<le> ?p" "?p \<le> 16 powi 56" using assms by (intro power_int_increasing; simp)+
  then have "2 powi (- 260) \<le> \<bar>?r\<bar>" "\<bar>?r\<bar> \<le> (2 ^ 24 - 1) * 16 powi 57" unfolding a by simp_all
  ultimately obtain c' y where cy: "ibm.coded_at c' y ?r" "grib_ibm_to_long (Fin ?r) ibm_ready =
    (Ok (if y = 2 ^ 24 - 1 / 2 then ibm_word (?r < 0) (c' + 1) (2 ^ 23) else ibm_word (?r < 0) c' \<lfloor>y + 1 / 2\<rfloor>), ibm_ready)"
    using ibm_encode [of ?r] by blast
  have c': "c' = c" "y = 2 ^ 24 - 1 / 2"
    using ibm.coded_unique [OF cy(1), of "2 ^ 24 - 1 / 2" c] a(1) assms by (simp_all add: ibm_step)
  have code: "grib_ibm_to_long (Fin ?r) ibm_ready = (Ok (ibm_word True (c + 1) (2 ^ 23)), ibm_ready)"
    using cy(2) a(2) c' by simp
  have "16 powi (int (c + 1) - 70) = 16 * ?p" using power_int_add [of "16::rat" 1 "int c - 70"] by (simp add: add.commute)
  then have v: "ibm_value True (c + 1) (2 ^ 23) = ?d" by (simp add: ibm_value_def)
  then have decode: "grib_long_to_ibm (ibm_word True (c + 1) (2 ^ 23)) ibm_ready = (Ok (Fin ?d), ibm_ready)"
    using ibm_decode [of "c + 1" "2 ^ 23" True] assms by simp
  have tests: "\<not> deq (Fin ?r) (Fin 0)" "\<not> dless (Fin ?r) (Fin ?d)"
    using p a(2) by simp_all
  have "?r \<le> (2 ^ 24 - 1) * 2 powi 228" by (rule order_trans [OF less_imp_le [OF a(2)]]) simp
  then have top: "\<not> dless (vmax ibm_ready) (Fin ?r)" by (simp only: ibm_ready_def float_table.select_convs dless.simps dval.simps not_less) simp
  show ?thesis
    by (simp only: grib_nearest_smaller_ibm_float_def grib_ibm_nearest_smaller_to_long_def tests top if_False seq_run bnd_run
        init_ibm_run rd_run continue.simps code decode ret_run prod.case)
qed

end
