(* ===== verification/Spec2Isabelle.thy ===== *)
theory Spec2Isabelle
  imports SampleLoads AcceptedFiles BitArrays FloatReferences
begin

text \<open>
  A verification library of \<open>ncdcTigge\<close>, the C program under \<open>src/src\<close> that computes the
  variables of the TIGGE archive which the NCEP ensemble forecasts lack, and of the parts of the
  vendored GRIB library (\<open>src/grib-api\<close>) that decide whether the archive accepts its files: the
  checker \<open>tigge_check\<close>, and the keys that are computed when a record is set and read.

  The program. \<open>main\<close> (\<open>ncdcTigge.c\<close>) reads a date and the short names of variables from the
  command line into the queue \<open>variablesToProcess\<close>. For every ensemble member and every
  forecast hour 0, 6, .., 384 it opens two input files of GRIB records, the a file and the b
  file, and asks for every variable: the instantaneous ones are computed and written at once
  (\<open>generateVariable\<close>), for the others the record of the hour is appended to an array of saved
  messages (\<open>loadDataForVariable\<close>, \<open>addGribRecordToArray\<close>). After the last hour of a member
  the generators of the time-integrated variables read their arrays back, form running sums over
  the hours and write one file per hour; then the arrays are freed. The state the parts share
  is in global variables (\<open>ncdcTigge.h\<close>): the two streams, the queue, the number and the sizes of
  the saved records, and the flag \<open>ignoreMissingInput\<close>.

  The model. A C procedure is a function from the state \<open>'g world\<close> to an outcome (\<open>Ok\<close> with the
  value, \<open>Exit\<close>, \<open>Crash\<close> for undefined behaviour, \<open>Stuck\<close> for used up fuel) and the new
  state (theory \<open>TiggePrelude\<close>). The state holds the global variables, the files that were
  written, and counters of the GRIB handles, memory blocks and output streams in use. Code
  outside \<open>src/src\<close> that the program calls is a parameter, the record \<open>'g platform\<close>: the calls of the GRIB library on
  abstract handles \<open>'g\<close>, \<open>pow\<close>, the outcome of memory requests, the clock, the environment and
  the file system. Every definition is executable once a platform is given; \<open>SamplePlatform\<close> has
  one, on which the hypotheses of the properties are met.

  Theories and the code they model:
  \<^item> \<open>CDouble\<close>, \<open>CText\<close>: the arithmetic of \<open>double\<close> (binary64, to nearest even) and
    \<open>sprintf\<close>, \<open>strcmp\<close>, \<open>atoi\<close>, as far as the program uses them.
  \<^item> \<open>Calendar\<close>: \<open>timeAdd\<close> and \<open>qleap\<close> (\<open>util.c\<close>), with hours counted from year 0 as the
    specification, and the normalisation of \<open>mktime\<close>.
  \<^item> \<open>Registry\<close>: the enumeration and the process queue (\<open>ncdcTigge.h\<close>, \<open>util.c\<close>); abstractly,
    a set of identifiers.
  \<^item> \<open>FileNames\<close>: \<open>generateFileName\<close>, \<open>generateInputFilename\<close>, \<open>get_n_points\<close> and the like
    (\<open>util.c\<close>), with the sizes of the local arrays.
  \<^item> \<open>GribHost\<close>: the global state, the calls of the GRIB library, \<open>writeGribToFile\<close> (\<open>util.c\<close>).
  \<^item> \<open>GribRecord\<close>: the record template (\<open>newGribRecord.c\<close>), one list of settings per section.
  \<^item> \<open>RecordSearch\<close>, \<open>PairSearch\<close>: the loops that look for one and for two records; the locale
    \<open>record_source\<close> (a place that delivers records) is interpreted for the a file, the b file
    and the a file continued by the b file, \<open>record_pair\<close> for the pairs of them.
  \<^item> \<open>SavedRecords\<close>: the arrays of \<open>loadDataForVariable.c\<close>; abstractly, a list of messages.
  \<^item> \<open>Generation\<close>, \<open>TotalColumnWater\<close>, \<open>SnowFall\<close>, \<open>Soil\<close>, \<open>PotentialTemperature\<close>: what the
    instantaneous generators share, and each of them (the C file of the same name).
  \<^item> \<open>FluxLoaders\<close>, \<open>PrecipitationLoaders\<close>: the \<open>loadDataFor..\<close> functions of the seven
    \<open>generateTimeIntegrated*.c\<close> and \<open>generateTotalPrecipitation.c\<close>.
  \<^item> \<open>HourIntegration\<close>, \<open>Integrators\<close>: the loop over the hours (locale \<open>hour_integrator\<close>) and the
    generators of the same files, interpretations of it; \<open>RunningSums\<close>: the sums in exact
    arithmetic.
  \<^item> \<open>Driver\<close>: \<open>generateVariable.c\<close>, the dispatch of \<open>loadDataForVariable.c\<close>, and \<open>main\<close>.
  \<^item> \<open>Members\<close>: the calls of \<open>ncdcTigge.c\<close> as loops over the variables. \<open>MemberRuns\<close>: what the
    driver relies on in the procedures of a variable (locales \<open>integrated_variable\<close>,
    \<open>instant_variable\<close>), and the run of hours, members and the program for any set of queued
    variables (\<open>tigge_variables\<close>). \<open>MemberInstances\<close>, \<open>Program\<close>: the contracts interpreted for the
    seven time-integrated and the five other variables, and for all of them together.
    \<open>Arguments\<close>: the command line; \<open>Loading\<close>: the loaders case by case; \<open>Termination\<close>: the
    searches come to an end.
  \<^item> \<open>TiggeTable\<close>, \<open>TiggeCheck\<close>: the table of parameters (\<open>grib-api/tigge/tigge_check.h\<close>) and the
    checker (\<open>tigge_check.c\<close>), in the same style with its own state \<open>check_state\<close> and the library as
    the record \<open>'h checker\<close>. \<open>TiggeVerdict\<close>: which row is chosen, and that a record only counts;
    \<open>TiggeRows\<close>: the rows that a record can match; \<open>TiggeFiles\<close>: files, streams and the exit code.
  \<^item> \<open>DerivedKeys\<close> (\<open>level\<close>, \<open>date\<close>), \<open>JulianDates\<close> (\<open>grib_date.c\<close>), \<open>StepKeys\<close> (\<open>startStep\<close>,
    \<open>endStep\<close>), \<open>GridKeys\<close> (the grid in degrees): the accessors of the keys that are computed, in
    \<open>src/grib-api/src\<close>.
  \<^item> \<open>RecordKeys\<close>: a record as the list of the settings that made it, and what the library answers
    for its keys; \<open>RecordHeader\<close>, \<open>RecordGrid\<close>, \<open>AcceptedRecords\<close>, \<open>AcceptedFiles\<close>: what the checker
    finds in the records of the program, up to its exit code.
  \<^item> \<open>SamplePlatform\<close>, \<open>SampleRuns\<close>, \<open>SampleLoads\<close>: concrete inputs for the properties.

  What the groups of lemmas show. The \<open>.._run\<close> lemmas are symbolic executions, collected in
  \<open>run_simps\<close>: from hypotheses on the input files and the library calls, the outcome and the exact
  new state, so that they also say what is not changed and that no handle or block is lost. The
  hypotheses \<open>produces\<close>, \<open>destination\<close>, \<open>saves\<close> and \<open>has_values\<close> state that the calls of the
  library and the file system succeed for the given handle; the metadata a procedure sets is
  part of them, in the order of the code. The other cases (a missing file or record, a failed
  write, a lost array) have lemmas of their own.

  Fuel. \<open>seek\<close>, \<open>pair_loop\<close>, \<open>pv_loop\<close> and \<open>snow_loop\<close> take the number of iterations allowed.
  The procedures call them with \<open>search_fuel\<close>, three more than the records left in both files.
  \<open>Termination\<close> proves that this is enough: no generator ever runs out of it, and the loaders
  of the fluxes do not either where missing input is not ignored. Where it is ignored a loop that
  does not recognise the blank record it made itself would not end, in the code as in the
  model; \<open>flux_loader_blank\<close> has the recognition as a hypothesis. The loops of \<open>timeAdd\<close> are
  total functions with a termination proof; the other loops are counted.

  Integers are unbounded where the values of the program are small (dates, hours, grid sizes,
  counts), and bytes are \<open>8 word\<close>. The arrays of fixed size are checked where they are indexed.

  The records and the checker. \<open>program_files_accepted\<close> joins the two halves: the settings of the
  generators, run through the models of the setters of the library, answer every question of the
  checker. Its hypothesis \<open>library_answers\<close> says that the library answers what \<open>RecordKeys\<close>
  computes; the templates behind it (\<open>src/grib-api/definitions/grib2\<close>) are read by hand, and the
  value ranges (the option \<open>-v\<close>) and local models (\<open>-l\<close>) are in the model but not in this
  property. The years are those for which the binary64 arithmetic of the Julian days is proved exact.

  Not modelled: console output (\<open>printf\<close>, \<open>printUsage\<close>) and the elapsed time; \<open>mtrace\<close>;
  \<open>loadDataForTestVariable.c\<close>, which the makefile does not build; code that is commented out (large
  parts of \<open>generateTimeIntegratedSnowFallWaterEquivalent.c\<close>); the shell scripts and workflow
  files; of the vendored GRIB library the other accessors, the definition language, the packing of
  the values, the tools and the bindings. The return codes of \<open>fclose\<close> are ignored by the code.
\<close>

end
